(* ===== verification/Taas_Prelude.thy ===== *)
theory Taas_Prelude
  imports Complex_Main "HOL-Library.Multiset"
begin

text \<open>
  Vocabulary shared by every component of the development: Python exceptions as a
  datatype, asynchronous code as state-and-exception computations, Python's truthiness
  defaults, \<open>timedelta\<close> arithmetic, and the list and option lemmas the component proofs
  share. A Python \<open>float\<close> is modelled by an exact rational (rounding of the IEEE format is
  not modelled; overflow of \<open>**\<close> is); a Python \<open>int\<close> by \<open>int\<close>; an instant
  (\<open>datetime\<close>) by an \<open>int\<close> counting microseconds.
\<close>

named_theorems keeps_intros \<open>compositional rules for computations that keep an invariant\<close>
named_theorems eff_simps \<open>unfolding the computation combinators\<close>

section \<open>JSON values\<close>

datatype jval =
    JNull
  | JBool bool
  | JInt int
  | JNum rat
  | JStr string
  | JList "jval list"
  | JObj "(string \<times> jval) list"

section \<open>Exceptions\<close>

text \<open>
  The message of an error of the Keycloak client: a text, or the body of a response as bytes, with
  what \<open>json.loads\<close> makes of it (\<open>None\<close> when it is not JSON); bytes that are not UTF-8 are \<open>Kc_bad_bytes\<close>.
\<close>

datatype kc_message = Kc_text "jval option" | Kc_bytes "jval option" | Kc_bad_bytes

text \<open>\<open>KeycloakGetError\<close> is a subclass of \<open>KeycloakOperationError\<close>; \<open>Kc_operation\<close> stands for the others.\<close>

datatype kc_kind = Kc_authentication | Kc_get | Kc_operation | Kc_connection

text \<open>
  One constructor per exception type the modelled code raises or tells apart. A message
  string is kept as the name of the offending argument or object. \<open>UserError\<close> stands for
  any \<open>Exception\<close> subclass raised by code outside the model (handlers, brokers).
\<close>

datatype py_exn =
    ValueError string
  | RuntimeError string
  | AttributeError string
  | AssertionError
  | OverflowError
  | TimeoutError
  | DatabaseError string
  | IntegrityError string
  | CancelledError
  | KeyboardInterrupt
  | UserError string
  | CircuitOpenError string
  | BulkheadFullError string
  | OperationTimeoutError rat
  | FallbackError py_exn py_exn
  | SagaAbortedError string string py_exn
  | SagaCompensationError string
  | DeadLetterError string
  | DeadLetterReplayError string py_exn
  | DuplicateEventError string
  | CronSupportError
  | TypeError string
  | KeyError string
  | NotImplementedError string
  | StructError
  | UnicodeDecodeError
  | JSONDecodeError
  | MsgspecDecodeError
  | MsgDecoderError string
  | WireFormatError string
  | SchemaRegistryError int
  | SchemaNotFoundError string
  | AvroFieldLossError "string list"
  | ZeroDivisionError
  | NameError string
  | RateLimitExceeded
  | HttpxTimeout
  | HttpxRequestError
  | RestTimeoutError
  | RestConnectionError
  | RestResponseError int
  | KeycloakError kc_kind kc_message
  | AuthenticationError
  | FileNotFoundError string
  | EmailConnectionError
  | EmailAuthenticationError
  | EmailDeliveryError
  | EmailRateLimitError "int option"
  | SMTPAuthenticationError
  | SMTPConnectError
  | SMTPException string

text \<open>\<open>except Exception\<close> does not catch \<open>asyncio.CancelledError\<close> or \<open>KeyboardInterrupt\<close>.\<close>

fun is_exception :: "py_exn \<Rightarrow> bool" where
  "is_exception CancelledError = False"
| "is_exception KeyboardInterrupt = False"
| "is_exception _ = True"

section \<open>Computations with state and exceptions\<close>

type_synonym ('s, 'a) eff = "'s \<Rightarrow> (py_exn + 'a) \<times> 's"

definition eff_return :: "'a \<Rightarrow> ('s, 'a) eff" where
  "eff_return x s = (Inr x, s)"

definition eff_raise :: "py_exn \<Rightarrow> ('s, 'a) eff" where
  "eff_raise e s = (Inl e, s)"

definition eff_get :: "('s \<Rightarrow> 'a) \<Rightarrow> ('s, 'a) eff" where
  "eff_get f s = (Inr (f s), s)"

definition eff_modify :: "('s \<Rightarrow> 's) \<Rightarrow> ('s, unit) eff" where
  "eff_modify f s = (Inr (), f s)"

definition eff_bind :: "('s, 'a) eff \<Rightarrow> ('a \<Rightarrow> ('s, 'b) eff) \<Rightarrow> ('s, 'b) eff" where
  "eff_bind m k s = (case m s of (Inl e, s') \<Rightarrow> (Inl e, s') | (Inr x, s') \<Rightarrow> k x s')"

text \<open>\<open>try: m / except P as e: h e\<close>\<close>

definition eff_catch ::
  "('s, 'a) eff \<Rightarrow> (py_exn \<Rightarrow> bool) \<Rightarrow> (py_exn \<Rightarrow> ('s, 'a) eff) \<Rightarrow> ('s, 'a) eff" where
  "eff_catch m P h s = (case m s of
       (Inl e, s') \<Rightarrow> if P e then h e s' else (Inl e, s')
     | (Inr x, s') \<Rightarrow> (Inr x, s'))"

text \<open>\<open>try: m / finally: f\<close>: an exception of \<open>f\<close> replaces the outcome of \<open>m\<close>.\<close>

definition eff_finally :: "('s, 'a) eff \<Rightarrow> ('s, unit) eff \<Rightarrow> ('s, 'a) eff" where
  "eff_finally m f s = (case m s of (r, s') \<Rightarrow>
     (case f s' of (Inl e, s'') \<Rightarrow> (Inl e, s'') | (Inr _, s'') \<Rightarrow> (r, s'')))"

text \<open>A \<open>for\<close> loop over a list, stopping at the first exception.\<close>

fun eff_for :: "'x list \<Rightarrow> ('x \<Rightarrow> ('s, unit) eff) \<Rightarrow> ('s, unit) eff" where
  "eff_for [] f s = (Inr (), s)"
| "eff_for (x # xs) f s = (case f x s of
       (Inl e, s') \<Rightarrow> (Inl e, s')
     | (Inr _, s') \<Rightarrow> eff_for xs f s')"

text \<open>A computation on the first component of a larger state.\<close>

definition eff_fst :: "('s, 'a) eff \<Rightarrow> ('s \<times> 'w, 'a) eff" where
  "eff_fst m s = (case m (fst s) of (r, s') \<Rightarrow> (r, (s', snd s)))"

definition eff_snd :: "('w, 'a) eff \<Rightarrow> ('s \<times> 'w, 'a) eff" where
  "eff_snd m s = (case m (snd s) of (r, w) \<Rightarrow> (r, (fst s, w)))"

lemmas eff_defs [eff_simps] =
  eff_return_def eff_raise_def eff_get_def eff_modify_def eff_bind_def
  eff_catch_def eff_finally_def eff_fst_def eff_snd_def

lemma eff_bind_return [simp]: "eff_bind (eff_return x) k = k x"
  by (rule ext) (simp add: eff_simps)

lemma eff_bind_raise [simp]: "eff_bind (eff_raise e) k = eff_raise e"
  by (rule ext) (simp add: eff_simps)

lemma eff_bind_assoc: "eff_bind (eff_bind m k) l = eff_bind m (\<lambda>x. eff_bind (k x) l)"
  by (rule ext) (simp add: eff_simps split: prod.splits sum.splits)

subsection \<open>Computations that keep an invariant, whatever their outcome\<close>

definition keeps :: "('s \<Rightarrow> bool) \<Rightarrow> ('s, 'a) eff \<Rightarrow> bool" where
  "keeps I m \<longleftrightarrow> (\<forall>s. I s \<longrightarrow> I (snd (m s)))"

lemma keepsI: "(\<And>s. I s \<Longrightarrow> I (snd (m s))) \<Longrightarrow> keeps I m"
  by (simp add: keeps_def)

lemma keepsD: "keeps I m \<Longrightarrow> I s \<Longrightarrow> I (snd (m s))"
  by (simp add: keeps_def)

lemma keepsE: "keeps I m \<Longrightarrow> I s \<Longrightarrow> m s = (r, s') \<Longrightarrow> I s'"
  by (metis keepsD snd_conv)

lemma keeps_return [keeps_intros, simp]: "keeps I (eff_return x)"
  by (simp add: keeps_def eff_simps)

lemma keeps_raise [keeps_intros, simp]: "keeps I (eff_raise e)"
  by (simp add: keeps_def eff_simps)

lemma keeps_get [keeps_intros, simp]: "keeps I (eff_get f)"
  by (simp add: keeps_def eff_simps)

lemma keeps_modify [keeps_intros]: "(\<And>s. I s \<Longrightarrow> I (f s)) \<Longrightarrow> keeps I (eff_modify f)"
  by (simp add: keeps_def eff_simps)

lemma keeps_bind [keeps_intros]:
  "keeps I m \<Longrightarrow> (\<And>x. keeps I (k x)) \<Longrightarrow> keeps I (eff_bind m k)"
  by (fastforce simp: keeps_def eff_simps split: prod.splits sum.splits)

lemma keeps_catch [keeps_intros]:
  "keeps I m \<Longrightarrow> (\<And>e. keeps I (h e)) \<Longrightarrow> keeps I (eff_catch m P h)"
  by (fastforce simp: keeps_def eff_simps split: prod.splits sum.splits)

lemma keeps_finally [keeps_intros]:
  "keeps I m \<Longrightarrow> keeps I f \<Longrightarrow> keeps I (eff_finally m f)"
  by (fastforce simp: keeps_def eff_simps split: prod.splits sum.splits)

lemma keeps_if [keeps_intros]:
  "keeps I m \<Longrightarrow> keeps I n \<Longrightarrow> keeps I (if b then m else n)"
  by simp

lemma keeps_for [keeps_intros]:
  assumes "\<And>x. x \<in> set xs \<Longrightarrow> keeps I (f x)"
  shows "keeps I (eff_for xs f)"
proof (rule keepsI)
  fix s
  assume "I s"
  with assms show "I (snd (eff_for xs f s))"
  proof (induction xs arbitrary: s)
    case Nil
    then show ?case by simp
  next
    case (Cons x xs)
    have "keeps I (f x)" using Cons.prems(1) by simp
    then have "I (snd (f x s))" using Cons.prems(2) by (rule keepsD)
    with Cons show ?case by (auto split: prod.splits sum.splits)
  qed
qed

section \<open>Python defaults and arithmetic\<close>

text \<open>\<open>x or d\<close> for an \<open>Optional[int]\<close>: both \<open>None\<close> and \<open>0\<close> are falsy.\<close>

definition or_int :: "int option \<Rightarrow> int \<Rightarrow> int" where
  "or_int x d = (case x of None \<Rightarrow> d | Some n \<Rightarrow> if n = 0 then d else n)"

text \<open>\<open>x if x is not None else d\<close>\<close>

definition if_none :: "'a option \<Rightarrow> 'a \<Rightarrow> 'a" where
  "if_none x d = (case x of None \<Rightarrow> d | Some v \<Rightarrow> v)"

text \<open>\<open>', '.join(xs)\<close>\<close>

fun comma_join :: "string list \<Rightarrow> string" where
  "comma_join [] = []"
| "comma_join [n] = n"
| "comma_join (n # ns) = n @ '', '' @ comma_join ns"

text \<open>\<open>x or d\<close> for an \<open>Optional[str]\<close>: the empty string is falsy.\<close>

definition or_str :: "string option \<Rightarrow> string \<Rightarrow> string" where
  "or_str x d = (case x of None \<Rightarrow> d | Some v \<Rightarrow> if v = [] then d else v)"

text \<open>\<open>bool(x)\<close> for an \<open>Optional[str]\<close>\<close>

definition str_truthy :: "string option \<Rightarrow> bool" where
  "str_truthy x \<longleftrightarrow> (case x of None \<Rightarrow> False | Some v \<Rightarrow> v \<noteq> [])"

text \<open>\<open>s[:1000]\<close>: the error texts are truncated before they are stored.\<close>

definition trunc1000 :: "string \<Rightarrow> string" where
  "trunc1000 s = take 1000 s"

lemma length_trunc1000: "length (trunc1000 s) \<le> 1000"
  by (simp add: trunc1000_def)

lemma or_int_None [simp]: "or_int None d = d"
  and or_int_0 [simp]: "or_int (Some 0) d = d"
  and or_int_Some [simp]: "n \<noteq> 0 \<Longrightarrow> or_int (Some n) d = n"
  by (simp_all add: or_int_def)

lemma if_none_simps [simp]: "if_none None d = d" "if_none (Some v) d = v"
  by (simp_all add: if_none_def)

text \<open>Instants are microseconds; \<open>timedelta(seconds=f)\<close> rounds half to even.\<close>

definition usec :: int where
  "usec = 1000000"

definition timedelta_days :: "int \<Rightarrow> int" where
  "timedelta_days d = d * 86400 * usec"

definition timedelta_seconds :: "int \<Rightarrow> int" where
  "timedelta_seconds s = s * usec"

definition round_half_even :: "rat \<Rightarrow> int" where
  "round_half_even q = (let n = \<lfloor>q\<rfloor>; r = q - of_int n in
     if r < 1/2 then n else if r > 1/2 then n + 1 else if even n then n else n + 1)"

definition timedelta_float :: "rat \<Rightarrow> int" where
  "timedelta_float s = round_half_even (s * of_int usec)"

lemma usec_pos [simp]: "0 < usec"
  by (simp add: usec_def)

lemma round_half_even_of_int [simp]: "round_half_even (of_int n) = n"
  by (simp add: round_half_even_def Let_def)

lemma round_half_even_nonneg: "0 \<le> q \<Longrightarrow> 0 \<le> round_half_even q"
  by (auto simp: round_half_even_def Let_def)

lemma timedelta_float_nonneg: "0 \<le> q \<Longrightarrow> 0 \<le> timedelta_float q"
  by (simp add: timedelta_float_def round_half_even_nonneg usec_def)

text \<open>\<open>int(x)\<close> on a float truncates towards zero.\<close>

definition py_int :: "rat \<Rightarrow> int" where
  "py_int q = (if 0 \<le> q then \<lfloor>q\<rfloor> else \<lceil>q\<rceil>)"

section \<open>Text\<close>

text \<open>\<open>c.lower()\<close> on ASCII\<close>

definition ascii_lower :: "char \<Rightarrow> char" where
  "ascii_lower c = (if 65 \<le> (of_char c :: nat) \<and> (of_char c :: nat) \<le> 90 then char_of (of_char c + 32 :: nat) else c)"

section \<open>Dictionaries\<close>

text \<open>A dict with string keys, and \<open>d.get(k)\<close> on it (\<open>None\<close> is \<open>JNull\<close>).\<close>

type_synonym jdict = "string \<rightharpoonup> jval"

definition jdict_get :: "jdict \<Rightarrow> string \<Rightarrow> jval" where
  "jdict_get d k = (case d k of None \<Rightarrow> JNull | Some v \<Rightarrow> v)"

text \<open>\<open>d or {}\<close> for an \<open>Optional[dict]\<close>\<close>

definition jdict_or_empty :: "jdict option \<Rightarrow> jdict" where
  "jdict_or_empty d = (case d of None \<Rightarrow> Map.empty | Some m \<Rightarrow> m)"

section \<open>Lists\<close>

lemma map_id_on: "(\<And>x. x \<in> set xs \<Longrightarrow> f x = x) \<Longrightarrow> map f xs = xs"
  by (induction xs) auto

lemma distinct_map_same:
  "distinct (map k xs) \<Longrightarrow> x \<in> set xs \<Longrightarrow> y \<in> set xs \<Longrightarrow> k x = k y \<Longrightarrow> x = y"
  by (induction xs) (auto simp: rev_image_eqI)

lemma find_distinct_key:
  "distinct (map k xs) \<Longrightarrow> x \<in> set xs \<Longrightarrow> k x = i \<Longrightarrow> find (\<lambda>y. k y = i) xs = Some x"
  by (induction xs) (auto simp: rev_image_eqI)

lemma find_None_key: "find (\<lambda>y. k y = i) xs = None \<longleftrightarrow> i \<notin> k ` set xs"
  by (auto simp: find_None_iff)

lemma distinct_set_single:
  assumes "distinct xs" and "set xs = {x}"
  shows "xs = [x]"
proof (cases xs)
  case (Cons y ys)
  with assms have "y = x" "x \<notin> set ys" "set ys \<subseteq> {x}" by auto
  then have "ys = []" by (cases ys) auto
  with Cons \<open>y = x\<close> show ?thesis by simp
qed (use assms in simp)

lemma map_of_graph: "x \<in> set xs \<Longrightarrow> map_of (map (\<lambda>x. (x, f x)) xs) x = Some (f x)"
  by (induction xs) auto

lemma find_SomeD: "find P xs = Some x \<Longrightarrow> x \<in> set xs \<and> P x"
  by (induction xs) (auto split: if_splits)

lemma length_filter_split:
  "length xs = length (filter P xs) + length (filter (\<lambda>x. \<not> P x) xs)"
  by (induction xs) auto

lemma length_filter_neq:
  "distinct xs \<Longrightarrow> x \<in> set xs \<Longrightarrow> length xs = Suc (length (filter (\<lambda>y. y \<noteq> x) xs))"
proof (induction xs)
  case (Cons a xs)
  have "x \<notin> set xs \<Longrightarrow> filter (\<lambda>y. y \<noteq> x) xs = xs" by (rule filter_True) auto
  with Cons show ?case by (cases "a = x") auto
qed simp

lemma in_mset_diffI: "x \<in> set xs \<Longrightarrow> x \<notin> set ys \<Longrightarrow> x \<in># mset xs - mset ys"
  by (metis add_diff_cancel_left' count_eq_zero_iff diff_zero in_diff_count set_mset_mset count_greater_zero_iff)

end
