(* ===== verification/Db_Session.thy ===== *)
theory Db_Session
  imports Taas_Prelude
begin

text \<open>
  \<open>libs/foundation/src/foundation/db/advanced_db_manager.py\<close> with the counters of \<open>db/analytics.py\<close>: the
  session of a task, shared by the decorated functions that call each other (\<open>db_context_session\<close>), and
  the sessions of the tasks of one call, one each (\<open>db_concurrent_session\<close>); and the decorator of the
  Keycloak database (\<open>libs/iam_keycloak/src/iam_keycloak/db/kc_db.py\<close>), whose manager shares the context
  variable with that of the main database. A session of SQLAlchemy is what
  it has written and not committed; committing makes it permanent or raises, rolling back and closing
  discard it. A write is a value of any type. The engine and the resolution of the parameter a session is
  injected as are left out; a session that the caller passes is dropped by both decorators.
\<close>

section \<open>Sessions\<close>

datatype database = Main_db | Keycloak_db

record db_stats =
  st_created :: int
  st_closed :: int
  st_committed :: int
  st_rolled_back :: int
  st_reused :: int

definition db_stats_new :: db_stats where
  "db_stats_new = \<lparr>st_created = 0, st_closed = 0, st_committed = 0, st_rolled_back = 0, st_reused = 0\<rparr>"

definition increment_created :: "int \<Rightarrow> db_stats \<Rightarrow> db_stats" where
  "increment_created n s = s\<lparr>st_created := st_created s + n\<rparr>"

definition increment_closed :: "int \<Rightarrow> db_stats \<Rightarrow> db_stats" where
  "increment_closed n s = s\<lparr>st_closed := st_closed s + n\<rparr>"

definition increment_committed :: "int \<Rightarrow> db_stats \<Rightarrow> db_stats" where
  "increment_committed n s = s\<lparr>st_committed := st_committed s + n\<rparr>"

definition increment_rolled_back :: "int \<Rightarrow> db_stats \<Rightarrow> db_stats" where
  "increment_rolled_back n s = s\<lparr>st_rolled_back := st_rolled_back s + n\<rparr>"

definition increment_reused :: "int \<Rightarrow> db_stats \<Rightarrow> db_stats" where
  "increment_reused n s = s\<lparr>st_reused := st_reused s + n\<rparr>"

text \<open>
  What is committed to each database; the database and the pending writes of each session; the sessions not yet closed; the next session; the
  context variables of each task (the session with the identity of the task that set it, and the depth of
  calls); the registries of the factories of scoped sessions, from task to session, and their number; and
  the counters of the managers and of the factories.
\<close>

record 'w db_sys =
  db_committed :: "database \<Rightarrow> 'w list"
  db_owner :: "nat \<Rightarrow> database"
  db_pending :: "nat \<Rightarrow> 'w list"
  db_open :: "nat list"
  db_next :: nat
  db_context :: "nat \<Rightarrow> (nat \<times> nat) option"
  db_depth :: "nat \<Rightarrow> nat"
  db_registry :: "nat \<Rightarrow> (nat \<times> nat) list"
  db_factories :: nat
  db_stats :: "database \<Rightarrow> db_stats"
  db_scoped_stats :: db_stats

text \<open>Whether committing a session fails, and the identity of a task, \<open>id(current_task())\<close>.\<close>

record 'w db_env =
  de_commit_fails :: "nat \<Rightarrow> 'w list \<Rightarrow> py_exn option"
  de_task_id :: "nat \<Rightarrow> nat"

text \<open>The methods of a session.\<close>

definition session_write :: "nat \<Rightarrow> 'w \<Rightarrow> ('w db_sys, unit) eff" where
  "session_write sid w = eff_modify (\<lambda>s. s\<lparr>db_pending := (db_pending s)(sid := db_pending s sid @ [w])\<rparr>)"

definition sa_commit :: "'w db_env \<Rightarrow> nat \<Rightarrow> ('w db_sys, unit) eff" where
  "sa_commit env sid s = (case de_commit_fails env sid (db_pending s sid) of
       Some e \<Rightarrow> (Inl e, s)
     | None \<Rightarrow> (Inr (), s\<lparr>db_committed := (db_committed s)(db_owner s sid := db_committed s (db_owner s sid) @ db_pending s sid), db_pending := (db_pending s)(sid := [])\<rparr>))"

definition sa_rollback :: "nat \<Rightarrow> ('w db_sys, unit) eff" where
  "sa_rollback sid = eff_modify (\<lambda>s. s\<lparr>db_pending := (db_pending s)(sid := [])\<rparr>)"

definition sa_close :: "nat \<Rightarrow> ('w db_sys, unit) eff" where
  "sa_close sid = eff_modify (\<lambda>s. s\<lparr>db_pending := (db_pending s)(sid := []), db_open := remove1 sid (db_open s)\<rparr>)"

text \<open>\<open>sessionmaker()\<close>\<close>

definition sa_new :: "database \<Rightarrow> ('w db_sys, nat) eff" where
  "sa_new db = eff_bind (eff_get db_next) (\<lambda>sid. eff_bind (eff_modify (\<lambda>s.
     s\<lparr>db_next := Suc sid, db_open := sid # db_open s, db_owner := (db_owner s)(sid := db), db_pending := (db_pending s)(sid := [])\<rparr>)) (\<lambda>_. eff_return sid))"

section \<open>The manager\<close>

definition tally_db :: "database \<Rightarrow> (db_stats \<Rightarrow> db_stats) \<Rightarrow> ('w db_sys, unit) eff" where
  "tally_db db f = eff_modify (\<lambda>s. s\<lparr>db_stats := (db_stats s)(db := f (db_stats s db))\<rparr>)"

definition new_session :: "database \<Rightarrow> ('w db_sys, nat) eff" where
  "new_session db = eff_bind (sa_new db) (\<lambda>sid. eff_bind (tally_db db (increment_created 1)) (\<lambda>_. eff_return sid))"

text \<open>The session of the context, of whichever database, unless another task set it.\<close>

definition get_current_context_session :: "'w db_env \<Rightarrow> database \<Rightarrow> nat \<Rightarrow> ('w db_sys, nat option) eff" where
  "get_current_context_session env db t = eff_bind (eff_get (\<lambda>s. db_context s t)) (\<lambda>ctx. case ctx of
       None \<Rightarrow> eff_return None
     | Some (task_id, sid) \<Rightarrow>
         if task_id \<noteq> de_task_id env t then eff_return None
         else eff_bind (tally_db db (increment_reused 1)) (\<lambda>_. eff_return (Some sid)))"

definition get_current_or_new_session :: "'w db_env \<Rightarrow> database \<Rightarrow> nat \<Rightarrow> ('w db_sys, nat) eff" where
  "get_current_or_new_session env db t = eff_bind (get_current_context_session env db t) (\<lambda>existing. case existing of
       Some sid \<Rightarrow> eff_return sid
     | None \<Rightarrow> new_session db)"

definition is_transaction_context :: "nat \<Rightarrow> 'w db_sys \<Rightarrow> bool" where
  "is_transaction_context t s \<longleftrightarrow> db_context s t \<noteq> None"

definition commit_session :: "'w db_env \<Rightarrow> database \<Rightarrow> nat \<Rightarrow> ('w db_sys, unit) eff" where
  "commit_session env db sid = eff_bind (sa_commit env sid) (\<lambda>_. tally_db db (increment_committed 1))"

definition rollback_session :: "database \<Rightarrow> nat \<Rightarrow> ('w db_sys, unit) eff" where
  "rollback_session db sid = eff_bind (sa_rollback sid) (\<lambda>_. tally_db db (increment_rolled_back 1))"

definition close_session :: "database \<Rightarrow> nat \<Rightarrow> ('w db_sys, unit) eff" where
  "close_session db sid = eff_bind (sa_close sid) (\<lambda>_. tally_db db (increment_closed 1))"

definition set_context :: "nat \<Rightarrow> (nat \<times> nat) option \<Rightarrow> ('w db_sys, unit) eff" where
  "set_context t c = eff_modify (\<lambda>s. s\<lparr>db_context := (db_context s)(t := c)\<rparr>)"

text \<open>\<open>async with manager.get_session_generator(auto_commit) as session: body\<close>\<close>

definition get_session_generator ::
  "'w db_env \<Rightarrow> database \<Rightarrow> nat \<Rightarrow> bool \<Rightarrow> (nat \<Rightarrow> ('w db_sys, 'a) eff) \<Rightarrow> ('w db_sys, 'a) eff" where
  "get_session_generator env db t auto_commit body =
     eff_bind (get_current_context_session env db t) (\<lambda>existing. case existing of
       Some sid \<Rightarrow> body sid
     | None \<Rightarrow> eff_bind (new_session db) (\<lambda>sid.
         eff_finally
           (eff_bind (eff_get (\<lambda>s. db_context s t)) (\<lambda>old.
            eff_bind (set_context t (Some (de_task_id env t, sid))) (\<lambda>_.
            eff_finally
              (eff_catch
                (eff_bind (body sid) (\<lambda>r.
                 eff_bind (if auto_commit then commit_session env db sid else eff_return ()) (\<lambda>_. eff_return r)))
                is_exception
                (\<lambda>e. eff_bind (rollback_session db sid) (\<lambda>_. eff_raise e)))
              (set_context t old))))
           (sa_close sid)))"

section \<open>The decorators\<close>

text \<open>\<open>db_context_session(auto_commit)\<close> on \<open>func\<close>, called by task \<open>t\<close>\<close>

definition db_context_session ::
  "'w db_env \<Rightarrow> nat \<Rightarrow> bool \<Rightarrow> (nat \<Rightarrow> ('w db_sys, 'a) eff) \<Rightarrow> ('w db_sys, 'a) eff" where
  "db_context_session env t auto_commit func =
     eff_bind (eff_get (\<lambda>s. db_depth s t)) (\<lambda>current_depth.
     eff_bind (get_current_context_session env Main_db t) (\<lambda>existing. case existing of
       Some sid \<Rightarrow> func sid
     | None \<Rightarrow>
         eff_bind (eff_modify (\<lambda>s. s\<lparr>db_depth := (db_depth s)(t := current_depth + 1)\<rparr>)) (\<lambda>_.
         eff_finally (get_session_generator env Main_db t auto_commit func)
           (eff_bind (tally_db Main_db (increment_closed 1)) (\<lambda>_.
            eff_modify (\<lambda>s. s\<lparr>db_depth := (db_depth s)(t := current_depth)\<rparr>))))))"

text \<open>\<open>kc_db_session_async(transaction)\<close>\<close>

definition kc_db_session ::
  "'w db_env \<Rightarrow> nat \<Rightarrow> bool \<Rightarrow> (nat \<Rightarrow> ('w db_sys, 'a) eff) \<Rightarrow> ('w db_sys, 'a) eff" where
  "kc_db_session env t transaction func =
     eff_bind (get_current_context_session env Keycloak_db t) (\<lambda>existing. case existing of
       Some sid \<Rightarrow> func sid
     | None \<Rightarrow> get_session_generator env Keycloak_db t transaction func)"

text \<open>A new task starts with a copy of the context of the task that makes it.\<close>

definition spawn_task :: "nat \<Rightarrow> nat \<Rightarrow> 'w db_sys \<Rightarrow> 'w db_sys" where
  "spawn_task parent child s = s\<lparr>db_context := (db_context s)(child := db_context s parent),
     db_depth := (db_depth s)(child := db_depth s parent)\<rparr>"

text \<open>\<open>ConcurrentSessionFactory()\<close>, and its session for a task\<close>

definition new_factory :: "('w db_sys, nat) eff" where
  "new_factory = eff_bind (eff_get db_factories) (\<lambda>f.
     eff_bind (eff_modify (\<lambda>s. s\<lparr>db_factories := Suc f, db_registry := (db_registry s)(f := [])\<rparr>)) (\<lambda>_. eff_return f))"

definition scoped_session :: "nat \<Rightarrow> nat \<Rightarrow> ('w db_sys, nat) eff" where
  "scoped_session f t = eff_bind (eff_get (\<lambda>s. map_of (db_registry s f) t)) (\<lambda>known. case known of
       Some sid \<Rightarrow> eff_return sid
     | None \<Rightarrow> eff_bind (sa_new Main_db) (\<lambda>sid.
         eff_bind (eff_modify (\<lambda>s. s\<lparr>db_registry := (db_registry s)(f := db_registry s f @ [(t, sid)])\<rparr>)) (\<lambda>_.
         eff_return sid)))"

definition new_scoped_session :: "nat \<Rightarrow> nat \<Rightarrow> ('w db_sys, nat) eff" where
  "new_scoped_session f t = eff_bind (scoped_session f t) (\<lambda>sid.
     eff_bind (eff_modify (\<lambda>s. s\<lparr>db_scoped_stats := increment_created 1 (db_scoped_stats s)\<rparr>)) (\<lambda>_. eff_return sid))"

text \<open>
  \<open>gather\<close>: all are run; the first exception is raised in the end. They are run in the order of the list,
  which does not matter as each works on a session of its own.
\<close>

fun eff_gather :: "('x \<Rightarrow> ('s, unit) eff) \<Rightarrow> 'x list \<Rightarrow> ('s, unit) eff" where
  "eff_gather f [] s = (Inr (), s)"
| "eff_gather f (x # xs) s = (case f x s of (r, s') \<Rightarrow> (case eff_gather f xs s' of (r', s'') \<Rightarrow>
     (case r of Inl e \<Rightarrow> (Inl e, s'') | Inr _ \<Rightarrow> (r', s''))))"

definition tally_scoped :: "(db_stats \<Rightarrow> db_stats) \<Rightarrow> ('w db_sys, unit) eff" where
  "tally_scoped f = eff_modify (\<lambda>s. s\<lparr>db_scoped_stats := f (db_scoped_stats s)\<rparr>)"

definition close_sessions :: "nat list \<Rightarrow> ('w db_sys, unit) eff" where
  "close_sessions sids = eff_bind (tally_scoped (increment_closed (int (length sids)))) (\<lambda>_. eff_gather sa_close sids)"

definition commit_sessions :: "'w db_env \<Rightarrow> nat list \<Rightarrow> ('w db_sys, unit) eff" where
  "commit_sessions env sids = eff_bind (tally_scoped (increment_committed (int (length sids)))) (\<lambda>_.
     eff_gather (sa_commit env) sids)"

definition rollback_sessions :: "nat list \<Rightarrow> ('w db_sys, unit) eff" where
  "rollback_sessions sids = eff_bind (tally_scoped (increment_rolled_back (int (length sids)))) (\<lambda>_.
     eff_gather sa_rollback sids)"

definition factory_sessions :: "nat \<Rightarrow> 'w db_sys \<Rightarrow> nat list" where
  "factory_sessions f s = map snd (db_registry s f)"

text \<open>The provider of a factory: whatever happens, its sessions are closed.\<close>

definition get_db_concurrent_session_manager ::
  "(nat \<Rightarrow> ('w db_sys, 'a) eff) \<Rightarrow> ('w db_sys, 'a) eff" where
  "get_db_concurrent_session_manager body = eff_bind new_factory (\<lambda>f.
     eff_finally (body f) (eff_bind (eff_get (factory_sessions f)) close_sessions))"

definition db_concurrent_session ::
  "'w db_env \<Rightarrow> (nat \<Rightarrow> ('w db_sys, 'a) eff) \<Rightarrow> ('w db_sys, 'a) eff" where
  "db_concurrent_session env func = eff_bind new_factory (\<lambda>f.
     eff_finally
       (eff_catch (func f) is_exception
         (\<lambda>e. eff_bind (eff_get (factory_sessions f)) (\<lambda>sids. eff_bind (rollback_sessions sids) (\<lambda>_. eff_raise e))))
       (eff_bind (eff_get (factory_sessions f)) (\<lambda>sids.
        eff_bind (commit_sessions env sids) (\<lambda>_. close_sessions sids))))"

section \<open>Functions that call each other\<close>

text \<open>
  What the decorated functions of one task do: write, commit, call decorated functions of either
  database, raise, and catch what is an \<open>Exception\<close>.
\<close>

datatype 'w prog =
    Do_nothing
  | Do_write 'w
  | Do_commit
  | Do_seq "'w prog" "'w prog"
  | Do_call database bool "'w prog"
  | Do_raise py_exn
  | Do_try "'w prog" "'w prog"

definition decorated ::
  "'w db_env \<Rightarrow> database \<Rightarrow> nat \<Rightarrow> bool \<Rightarrow> (nat \<Rightarrow> ('w db_sys, 'a) eff) \<Rightarrow> ('w db_sys, 'a) eff" where
  "decorated env db t auto func = (case db of Main_db \<Rightarrow> db_context_session env t auto func | Keycloak_db \<Rightarrow> kc_db_session env t auto func)"

primrec run_prog :: "'w db_env \<Rightarrow> nat \<Rightarrow> 'w prog \<Rightarrow> nat \<Rightarrow> ('w db_sys, unit) eff" where
  "run_prog env t Do_nothing sid = eff_return ()"
| "run_prog env t (Do_write w) sid = session_write sid w"
| "run_prog env t Do_commit sid = sa_commit env sid"
| "run_prog env t (Do_seq p q) sid = eff_bind (run_prog env t p sid) (\<lambda>_. run_prog env t q sid)"
| "run_prog env t (Do_call db auto p) sid = decorated env db t auto (run_prog env t p)"
| "run_prog env t (Do_raise e) sid = eff_raise e"
| "run_prog env t (Do_try p q) sid = eff_catch (run_prog env t p sid) is_exception (\<lambda>_. run_prog env t q sid)"

text \<open>
  The reference: one transaction, of which only what is committed and what is pending is known; nested calls
  are like any statement.
\<close>

primrec one_transaction :: "('w list \<Rightarrow> py_exn option) \<Rightarrow> 'w prog \<Rightarrow> ('w list \<times> 'w list, unit) eff" where
  "one_transaction fails Do_nothing = eff_return ()"
| "one_transaction fails (Do_write w) = eff_modify (\<lambda>(c, p). (c, p @ [w]))"
| "one_transaction fails Do_commit = (\<lambda>(c, p). case fails p of Some e \<Rightarrow> (Inl e, (c, p)) | None \<Rightarrow> (Inr (), (c @ p, [])))"
| "one_transaction fails (Do_seq p q) = eff_bind (one_transaction fails p) (\<lambda>_. one_transaction fails q)"
| "one_transaction fails (Do_call db auto p) = one_transaction fails p"
| "one_transaction fails (Do_raise e) = eff_raise e"
| "one_transaction fails (Do_try p q) = eff_catch (one_transaction fails p) is_exception (\<lambda>_. one_transaction fails q)"

definition in_session :: "'w db_env \<Rightarrow> nat \<Rightarrow> nat \<Rightarrow> 'w db_sys \<Rightarrow> bool" where
  "in_session env t sid s \<longleftrightarrow> db_context s t = Some (de_task_id env t, sid)"

definition view :: "nat \<Rightarrow> 'w db_sys \<Rightarrow> 'w list \<times> 'w list" where
  "view sid s = (db_committed s (db_owner s sid), db_pending s sid)"

text \<open>A state after a run within a session: the view of it, and the counters, may have changed.\<close>

definition viewed :: "nat \<Rightarrow> 'w list \<times> 'w list \<Rightarrow> (database \<Rightarrow> db_stats) \<Rightarrow> 'w db_sys \<Rightarrow> 'w db_sys" where
  "viewed sid cp st s = s\<lparr>db_committed := (db_committed s)(db_owner s sid := fst cp),
     db_pending := (db_pending s)(sid := snd cp), db_stats := st\<rparr>"

lemma viewed_simps [simp]:
  "view sid (viewed sid cp st s) = cp" "viewed sid cp st (viewed sid cp' st' s) = viewed sid cp st s"
  "in_session env t x (viewed sid cp st s) = in_session env t x s"
  "viewed sid (view sid s) (db_stats s) s = s" "db_stats (viewed sid cp st s) = st"
  by (simp_all add: view_def viewed_def in_session_def)

lemma nested_call:
  "in_session env t sid s \<Longrightarrow> \<exists>st. decorated env db t auto func s = func sid (viewed sid (view sid s) st s)"
  by (cases db) (auto simp: decorated_def db_context_session_def kc_db_session_def get_current_context_session_def
      in_session_def tally_db_def eff_simps viewed_def view_def)

lemma run_in_session:
  "in_session env t sid s \<Longrightarrow>
   \<exists>st. run_prog env t p sid s = (case one_transaction (de_commit_fails env sid) p (view sid s) of
     (r, cp) \<Rightarrow> (r, viewed sid cp st s))"
proof (induction p arbitrary: s)
  case (Do_write w)
  show ?case by (rule exI [of _ "db_stats s"]) (simp add: session_write_def eff_simps view_def viewed_def)
next
  case Do_commit
  show ?case by (rule exI [of _ "db_stats s"])
      (simp add: sa_commit_def view_def viewed_def split: option.split)
next
  case (Do_seq p q)
  obtain r cp where o: "one_transaction (de_commit_fails env sid) p (view sid s) = (r, cp)" by (rule prod.exhaust)
  with Do_seq.IH(1) [OF Do_seq.prems] obtain st where p: "run_prog env t p sid s = (r, viewed sid cp st s)" by auto
  note p = o p
  show ?case
  proof (cases r)
    case (Inr u)
    have "in_session env t sid (viewed sid cp st s)" using Do_seq.prems by simp
    from Do_seq.IH(2) [OF this] p Inr show ?thesis by (auto simp: eff_bind_def split: prod.splits)
  qed (use p in \<open>auto simp: eff_bind_def\<close>)
next
  case (Do_call db auto p)
  obtain st where c: "run_prog env t (Do_call db auto p) sid s = run_prog env t p sid (viewed sid (view sid s) st s)"
    using nested_call [OF Do_call.prems] by (metis run_prog.simps(5))
  have "in_session env t sid (viewed sid (view sid s) st s)" using Do_call.prems by simp
  from Do_call.IH [OF this] c show ?case by (auto split: prod.splits)
next
  case (Do_try p q)
  obtain r cp where o: "one_transaction (de_commit_fails env sid) p (view sid s) = (r, cp)" by (rule prod.exhaust)
  with Do_try.IH(1) [OF Do_try.prems] obtain st where p: "run_prog env t p sid s = (r, viewed sid cp st s)" by auto
  note p = o p
  have "in_session env t sid (viewed sid cp st s)" using Do_try.prems by simp
  from Do_try.IH(2) [OF this] p show ?case by (cases r) (auto simp: eff_catch_def split: prod.splits)
next
  case Do_nothing
  show ?case by (rule exI [of _ "db_stats s"]) (simp add: eff_simps)
next
  case (Do_raise e)
  show ?case by (rule exI [of _ "db_stats s"]) (simp add: eff_simps)
qed

text \<open>The outcome of a call that opens a session, from the outcome of its function and the writes pending then.\<close>

definition root_outcome :: "('w list \<Rightarrow> py_exn option) \<Rightarrow> bool \<Rightarrow> py_exn + unit \<Rightarrow> 'w list \<Rightarrow> py_exn + unit" where
  "root_outcome fails auto r p = (case r of
       Inl e \<Rightarrow> Inl e
     | Inr _ \<Rightarrow> if auto then (case fails p of Some e \<Rightarrow> Inl e | None \<Rightarrow> Inr ()) else Inr ())"

definition no_session :: "'w db_env \<Rightarrow> nat \<Rightarrow> 'w db_sys \<Rightarrow> bool" where
  "no_session env t s \<longleftrightarrow> (case db_context s t of None \<Rightarrow> True | Some (i, sid) \<Rightarrow> i \<noteq> de_task_id env t)"

lemma no_session_get: "no_session env t s \<Longrightarrow> get_current_context_session env db t s = (Inr None, s)"
  by (auto simp: no_session_def get_current_context_session_def eff_simps split: option.splits)

definition opened :: "'w db_env \<Rightarrow> database \<Rightarrow> nat \<Rightarrow> 'w db_sys \<Rightarrow> 'w db_sys" where
  "opened env db t s = s\<lparr>db_next := Suc (db_next s), db_open := db_next s # db_open s,
     db_owner := (db_owner s)(db_next s := db), db_pending := (db_pending s)(db_next s := []),
     db_stats := (db_stats s)(db := increment_created 1 (db_stats s db)),
     db_context := (db_context s)(t := Some (de_task_id env t, db_next s))\<rparr>"

lemma generator_root:
  assumes "no_session env t s" and "get_session_generator env db t auto body s = (res, s')"
    and "body (db_next s) (opened env db t s) = (r, viewed (db_next s) (c, p) st (opened env db t s))"
  shows "res = root_outcome (de_commit_fails env (db_next s)) auto r p \<and>
    db_committed s' = (db_committed s)(db := if auto \<and> res = Inr () then c @ p else c) \<and>
    db_open s' = db_open s \<and> db_context s' = db_context s \<and> db_depth s' = db_depth s \<and>
    db_pending s' = (db_pending s)(db_next s := [])"
  using assms
  by (auto simp: get_session_generator_def no_session_get new_session_def sa_new_def set_context_def commit_session_def
      sa_commit_def rollback_session_def sa_rollback_def sa_close_def tally_db_def eff_simps root_outcome_def
      opened_def viewed_def split: sum.splits option.splits if_splits prod.splits)

lemma opened_simps [simp]:
  "in_session env t (db_next s) (opened env db t s)" "view (db_next s) (opened env db t s) = (db_committed s db, [])"
  by (simp_all add: in_session_def opened_def view_def)

lemma generator_prog:
  assumes "no_session env t s" and "get_session_generator env db t auto (run_prog env t q) s = (res, s')"
    and "one_transaction (de_commit_fails env (db_next s)) q (db_committed s db, []) = (r, (c, p))"
  shows "res = root_outcome (de_commit_fails env (db_next s)) auto r p \<and>
    db_committed s' = (db_committed s)(db := if auto \<and> res = Inr () then c @ p else c) \<and>
    db_open s' = db_open s \<and> db_context s' = db_context s \<and> db_depth s' = db_depth s \<and>
    db_pending s' = (db_pending s)(db_next s := [])"
proof -
  obtain st where "run_prog env t q (db_next s) (opened env db t s) = (r, viewed (db_next s) (c, p) st (opened env db t s))"
    using run_in_session [of env t "db_next s" "opened env db t s" q] assms(3) by auto
  from generator_root [OF assms(1,2) this] show ?thesis .
qed

text \<open>C4: A decorated function, with all the decorated functions it calls, is one transaction of the database
  of the outermost one. Whatever the inner ones are decorated with, nothing is committed but by an explicit
  commit and, with \<open>auto_commit\<close>, at the end when it succeeds; without it what is not committed
  explicitly is lost although the call succeeds. Writes of an inner function whose exception was caught are
  committed with the rest, and those of a function of the other database go to this one. In the end
  the session is closed and the context as before.
\<close>

theorem context_session_transaction:
  assumes "no_session env t s" and "decorated env db t auto (run_prog env t q) s = (res, s')"
    and "one_transaction (de_commit_fails env (db_next s)) q (db_committed s db, []) = (r, (c, p))"
  shows "res = root_outcome (de_commit_fails env (db_next s)) auto r p \<and>
    db_committed s' = (db_committed s)(db := if auto \<and> res = Inr () then c @ p else c) \<and>
    db_open s' = db_open s \<and> db_context s' = db_context s \<and> db_depth s' = db_depth s \<and>
    db_pending s' = (db_pending s)(db_next s := [])"
proof (cases db)
  case Keycloak_db
  then have "get_session_generator env db t auto (run_prog env t q) s = (res, s')"
    using assms(1,2) by (simp add: decorated_def kc_db_session_def eff_bind_def no_session_get)
  from generator_prog [OF assms(1) this assms(3)] show ?thesis .
next
  case Main_db
  let ?s = "s\<lparr>db_depth := (db_depth s)(t := db_depth s t + 1)\<rparr>"
  have n: "no_session env t ?s" using assms(1) by (simp add: no_session_def)
  obtain res0 s0 where g: "get_session_generator env db t auto (run_prog env t q) ?s = (res0, s0)" by (rule prod.exhaust)
  have "res = res0 \<and> s' = s0\<lparr>db_stats := (db_stats s0)(Main_db := increment_closed 1 (db_stats s0 Main_db)),
      db_depth := (db_depth s0)(t := db_depth s t)\<rparr>"
    using assms(1,2) g Main_db
    by (simp add: decorated_def db_context_session_def eff_simps no_session_get tally_db_def)
  moreover have "one_transaction (de_commit_fails env (db_next ?s)) q (db_committed ?s db, []) = (r, (c, p))"
    using assms(3) by simp
  note generator_prog [OF n g this]
  ultimately show ?thesis by simp
qed

definition demo_db :: "nat db_sys" where
  "demo_db = \<lparr>db_committed = (\<lambda>_. [1]), db_owner = (\<lambda>_. Main_db), db_pending = (\<lambda>_. []), db_open = [], db_next = 0,
     db_context = (\<lambda>_. None), db_depth = (\<lambda>_. 0), db_registry = (\<lambda>_. []), db_factories = 0,
     db_stats = (\<lambda>_. db_stats_new), db_scoped_stats = db_stats_new\<rparr>"

definition demo_db_env :: "nat db_env" where
  "demo_db_env = \<lparr>de_commit_fails = (\<lambda>_ _. None), de_task_id = (\<lambda>t. t)\<rparr>"

text \<open>A function that writes, and calls one of Keycloak that writes and fails, which it catches.\<close>

definition demo_prog :: "nat prog" where
  "demo_prog = Do_seq (Do_write 2)
     (Do_try (Do_call Keycloak_db True (Do_seq (Do_write 3) (Do_raise (UserError ''x'')))) Do_nothing)"

lemma context_session_transaction_witness:
  "\<exists>s'. decorated demo_db_env Main_db 0 True (run_prog demo_db_env 0 demo_prog) demo_db = (Inr (), s') \<and>
     db_committed s' Main_db = [1, 2, 3] \<and> db_committed s' Keycloak_db = [1] \<and> db_open s' = []"
proof -
  obtain res s' where run: "decorated demo_db_env Main_db 0 True (run_prog demo_db_env 0 demo_prog) demo_db = (res, s')"
    by (rule prod.exhaust)
  have n: "no_session demo_db_env 0 demo_db" by (simp add: no_session_def demo_db_def)
  have o: "one_transaction (de_commit_fails demo_db_env (db_next demo_db)) demo_prog (db_committed demo_db Main_db, []) =
      (Inr (), ([1], [2, 3]))"
    by (simp add: demo_prog_def eff_simps demo_db_def)
  from context_session_transaction [OF n run o] run show ?thesis
    by (auto simp: root_outcome_def demo_db_env_def demo_db_def)
qed

text \<open>
  A task that another one makes has no session of its own at first, so what it calls opens one, provided the
  identities of the two differ; identities may come again when a task is gone.
\<close>

lemma spawned_own_session:
  "in_session env parent sid s \<Longrightarrow> no_session env child (spawn_task parent child s) \<longleftrightarrow>
     de_task_id env parent \<noteq> de_task_id env child"
  by (simp add: in_session_def no_session_def spawn_task_def)

section \<open>Sessions of concurrent tasks\<close>

lemma gather_commit:
  assumes "distinct sids" and "\<And>sid w. de_commit_fails env sid w = None"
  shows "eff_gather (sa_commit env) sids s = (Inr (), s\<lparr>
    db_committed := (\<lambda>db. db_committed s db @ concat (map (db_pending s) (filter (\<lambda>sid. db_owner s sid = db) sids))),
    db_pending := (\<lambda>sid. if sid \<in> set sids then [] else db_pending s sid)\<rparr>)"
  using assms(1)
proof (induction sids arbitrary: s)
  case (Cons x xs)
  let ?s = "s\<lparr>db_committed := (db_committed s)(db_owner s x := db_committed s (db_owner s x) @ db_pending s x),
    db_pending := (db_pending s)(x := [])\<rparr>"
  have one: "sa_commit env x s = (Inr (), ?s)" by (simp add: sa_commit_def assms(2))
  have "map (db_pending ?s) (filter P xs) = map (db_pending s) (filter P xs)" for P
    using Cons.prems by (intro map_cong) auto
  note m = this
  show ?case
    unfolding eff_gather.simps one using Cons.IH [of ?s] Cons.prems
    by (simp only: prod.case sum.case distinct.simps)
      (simp add: m fun_eq_iff del: fun_upd_apply, simp add: fun_eq_iff)
qed simp

lemma gather_rollback:
  "eff_gather sa_rollback sids s = (Inr (), s\<lparr>db_pending := (\<lambda>sid. if sid \<in> set sids then [] else db_pending s sid)\<rparr>)"
  by (induction sids arbitrary: s) (auto simp: sa_rollback_def eff_simps fun_upd_def fun_eq_iff)

lemma gather_close:
  "eff_gather sa_close sids s = (Inr (), s\<lparr>db_pending := (\<lambda>sid. if sid \<in> set sids then [] else db_pending s sid),
     db_open := fold remove1 sids (db_open s)\<rparr>)"
  by (induction sids arbitrary: s) (auto simp: sa_close_def eff_simps fun_upd_def fun_eq_iff)

definition with_factory :: "'w db_sys \<Rightarrow> 'w db_sys" where
  "with_factory s = s\<lparr>db_factories := Suc (db_factories s), db_registry := (db_registry s)(db_factories s := [])\<rparr>"

lemma new_factory_run: "new_factory s = (Inr (db_factories s), with_factory s)"
  by (simp add: new_factory_def eff_simps with_factory_def)


text \<open>A function that writes in the session of its task and is cancelled.\<close>

definition demo_cancelled :: "nat \<Rightarrow> (nat db_sys, unit) eff" where
  "demo_cancelled f = eff_bind (scoped_session f 0) (\<lambda>sid. eff_bind (session_write sid 2) (\<lambda>_. eff_raise CancelledError))"


text \<open>When a commit fails, the others have been committed, and no session is closed.\<close>

lemma gather_commit_open: "db_open (snd (eff_gather (sa_commit env) sids s)) = db_open s"
proof (induction sids arbitrary: s)
  case (Cons x xs)
  have "db_open (snd (sa_commit env x s)) = db_open s" by (simp add: sa_commit_def split: option.split)
  then show ?case using Cons.IH [of "snd (sa_commit env x s)"] by (auto split: prod.splits sum.splits)
qed simp

lemma concurrent_commit_fails_leaks:
  assumes "db_concurrent_session env func s = (res, s')" and "func (db_factories s) (with_factory s) = (Inr x, s2)"
    and "eff_gather (sa_commit env) (factory_sessions (db_factories s) s2)
      (snd (tally_scoped (increment_committed (int (length (factory_sessions (db_factories s) s2)))) s2)) = (Inl e, s3)"
  shows "res = Inl e \<and> db_open s' = db_open s2"
  using assms gather_commit_open [of env "factory_sessions (db_factories s) s2"
      "snd (tally_scoped (increment_committed (int (length (factory_sessions (db_factories s) s2)))) s2)"]
  by (simp add: db_concurrent_session_def eff_bind_def [of new_factory] new_factory_run
      eff_simps commit_sessions_def tally_scoped_def)

end
