(* ===== verification/Validation.thy ===== *)
theory Validation
  imports Taas_Prelude "HOL-Library.Sublist"
begin

text \<open>
  \<open>libs/foundation/src/foundation/utils/validation.py\<close>: the validation and normalisation of e-mail
  addresses, passwords, names, user names, slugs and phone numbers. A string is a list of the
  characters of Latin-1 (a \<open>char\<close>), so case and white space are those of its 256 code points. A
  pattern of the module \<open>re\<close> is the list of its pieces, each a class of characters with the bounds
  of its repetition, and matches when the string splits accordingly; the three patterns with a
  back reference have functions of their own. The digest of a password is a parameter.
\<close>

section \<open>Characters and strings of Python\<close>

definition code_point :: "char \<Rightarrow> nat" where
  "code_point c = of_char c"

definition py_space :: "char \<Rightarrow> bool" where
  "py_space c \<longleftrightarrow> code_point c \<in> {9..13} \<union> {28..32} \<union> {133, 160}"

definition az_upper :: "char \<Rightarrow> bool" where
  "az_upper c \<longleftrightarrow> 65 \<le> code_point c \<and> code_point c \<le> 90"

definition az_lower :: "char \<Rightarrow> bool" where
  "az_lower c \<longleftrightarrow> 97 \<le> code_point c \<and> code_point c \<le> 122"

definition re_digit :: "char \<Rightarrow> bool" where
  "re_digit c \<longleftrightarrow> 48 \<le> code_point c \<and> code_point c \<le> 57"

text \<open>\<open>str.lower\<close>: the letters A to Z and the capitals of the upper half of Latin-1.\<close>

definition lower_char :: "char \<Rightarrow> char" where
  "lower_char c = (if az_upper c \<or> (192 \<le> code_point c \<and> code_point c \<le> 222 \<and> code_point c \<noteq> 215)
     then char_of (code_point c + 32) else c)"

definition py_lower :: "string \<Rightarrow> string" where
  "py_lower s = map lower_char s"

definition py_strip :: "string \<Rightarrow> string" where
  "py_strip s = rev (dropWhile py_space (rev (dropWhile py_space s)))"

text \<open>\<open>re.sub(r'\s+', ' ', s)\<close>; \<open>inside\<close> tells that the run of white space has been replaced.\<close>

fun collapse_spaces :: "bool \<Rightarrow> string \<Rightarrow> string" where
  "collapse_spaces inside [] = []"
| "collapse_spaces inside (c # cs) =
     (if py_space c then (if inside then collapse_spaces True cs else CHR '' '' # collapse_spaces True cs)
      else c # collapse_spaces False cs)"

text \<open>\<open>s.rpartition(sep)\<close> without the separator.\<close>

definition rpartition :: "char \<Rightarrow> string \<Rightarrow> string \<times> string" where
  "rpartition sep s = (if sep \<in> set s
     then (rev (tl (dropWhile (\<lambda>c. c \<noteq> sep) (rev s))), rev (takeWhile (\<lambda>c. c \<noteq> sep) (rev s)))
     else ([], s))"

section \<open>Patterns\<close>

type_synonym piece = "(char \<Rightarrow> bool) \<times> nat \<times> nat option"

abbreviation once :: "(char \<Rightarrow> bool) \<Rightarrow> piece" where
  "once P \<equiv> (P, Suc 0, Some (Suc 0))"

abbreviation many :: "(char \<Rightarrow> bool) \<Rightarrow> piece" where
  "many P \<equiv> (P, 0, None)"

abbreviation some_of :: "(char \<Rightarrow> bool) \<Rightarrow> piece" where
  "some_of P \<equiv> (P, Suc 0, None)"

definition text_of :: "string \<Rightarrow> piece list" where
  "text_of s = map (\<lambda>c. once (\<lambda>d. d = c)) s"

definition re_dot :: "char \<Rightarrow> bool" where
  "re_dot c \<longleftrightarrow> code_point c \<noteq> 10"

definition in_bounds :: "nat \<Rightarrow> nat \<Rightarrow> nat option \<Rightarrow> bool" where
  "in_bounds n lo hi \<longleftrightarrow> lo \<le> n \<and> (case hi of None \<Rightarrow> True | Some h \<Rightarrow> n \<le> h)"

fun re_fits :: "piece list \<Rightarrow> string \<Rightarrow> bool" where
  "re_fits [] s = (s = [])"
| "re_fits ((P, lo, hi) # ps) s =
     list_ex (\<lambda>n. in_bounds n lo hi \<and> list_all P (take n s) \<and> re_fits ps (drop n s)) [0..<Suc (length s)]"

text \<open>\<open>^...$\<close>: the dollar sign also matches before a final line feed.\<close>

definition re_full :: "piece list \<Rightarrow> string \<Rightarrow> bool" where
  "re_full ps s \<longleftrightarrow> re_fits ps s \<or> (s \<noteq> [] \<and> code_point (last s) = 10 \<and> re_fits ps (butlast s))"

text \<open>\<open>pattern.match(s)\<close> without a dollar sign.\<close>

definition re_match :: "piece list \<Rightarrow> string \<Rightarrow> bool" where
  "re_match ps s \<longleftrightarrow> re_fits (ps @ [many (\<lambda>_. True)]) s"

text \<open>\<open>(.)\1{k,}\<close> with \<open>search\<close>, and \<open>^(.)\1{k,}$\<close>.\<close>

fun repeats_search :: "nat \<Rightarrow> string \<Rightarrow> bool" where
  "repeats_search k [] = False"
| "repeats_search k (c # cs) = (re_dot c \<and> take k cs = replicate k c \<or> repeats_search k cs)"

definition repeats_whole :: "nat \<Rightarrow> string \<Rightarrow> bool" where
  "repeats_whole k s \<longleftrightarrow> (let body = (if s \<noteq> [] \<and> code_point (last s) = 10 then butlast s else s) in
     k < length body \<and> re_dot (hd body) \<and> list_all (\<lambda>c. c = hd body) body)"

section \<open>The shared checks\<close>

datatype validation_error =
    ValidationError string
  | PasswordValidationError string

datatype py_text = PStr string | POther

definition ensure_str :: "string \<Rightarrow> (string \<Rightarrow> validation_error) \<Rightarrow> py_text \<Rightarrow> validation_error + string" where
  "ensure_str field exc v = (case v of PStr s \<Rightarrow> Inr s | POther \<Rightarrow> Inl (exc (field @ '' must be a string'')))"

definition validate_not_empty :: "string \<Rightarrow> validation_error + string" where
  "validate_not_empty value = (let cleaned = py_strip value in
     if cleaned = [] then Inl (ValidationError ''Value cannot be empty'') else Inr cleaned)"

definition validate_length :: "string \<Rightarrow> nat \<Rightarrow> nat option \<Rightarrow> validation_error + string" where
  "validate_length value min_length max_length =
     (if length value < min_length then Inl (ValidationError ''Must be at least min_length characters'')
      else case max_length of
        None \<Rightarrow> Inr value
      | Some m \<Rightarrow> if m \<noteq> 0 \<and> m < length value then Inl (ValidationError ''Must not exceed max_length characters'')
                  else Inr value)"

definition control_char :: "char \<Rightarrow> bool" where
  "control_char c \<longleftrightarrow> code_point c \<le> 31 \<or> (127 \<le> code_point c \<and> code_point c \<le> 159)"

definition validate_no_control_chars :: "string \<Rightarrow> validation_error + string" where
  "validate_no_control_chars value =
     (if list_ex (\<lambda>c. code_point c \<notin> {9, 10, 13} \<and> control_char c) value
      then Inl (ValidationError ''Contains invalid control characters'') else Inr value)"

section \<open>Passwords\<close>

definition special_chars :: string where
  "special_chars = ''!@#$%^&*(),.?'' @ [CHR 34] @ '':{}|<>_+=-[]'' @ [CHR 92] @ ''/~`''"

definition common_passwords :: "string list" where
  "common_passwords = [''password'', ''password123'', ''123456789'', ''qwertyuiop'', ''administrator'',
     ''welcome123'', ''password1234'', ''letmein123'', ''admin123456'', ''password12345'']"

definition sequential_prefixes :: "string list" where
  "sequential_prefixes = [''012'', ''123'', ''234'', ''345'', ''456'', ''567'', ''678'', ''789'', ''890'',
     ''abc'', ''bcd'', ''cde'']"

definition keyboard_prefixes :: "string list" where
  "keyboard_prefixes = [''qwe'', ''asd'', ''zxc'']"

definition is_common_password :: "string \<Rightarrow> bool" where
  "is_common_password password = (let password_lower = py_lower password in
     if password_lower \<in> set common_passwords then True
     else if repeats_whole 11 password then True
     else if list_ex (\<lambda>p. prefix p password_lower) sequential_prefixes then True
     else list_ex (\<lambda>p. prefix p password_lower) keyboard_prefixes)"

definition validate_password_strength :: "py_text \<Rightarrow> validation_error + unit" where
  "validate_password_strength v = (case ensure_str ''Password'' PasswordValidationError v of
     Inl e \<Rightarrow> Inl e
   | Inr password \<Rightarrow>
      if length password < 8 then Inl (PasswordValidationError ''Password must be at least 8 characters long'')
      else if 128 < length password then Inl (PasswordValidationError ''Password must not exceed 128 characters'')
      else if \<not> list_ex az_upper password
        then Inl (PasswordValidationError ''Password must contain at least one uppercase letter'')
      else if \<not> list_ex az_lower password
        then Inl (PasswordValidationError ''Password must contain at least one lowercase letter'')
      else if \<not> list_ex re_digit password
        then Inl (PasswordValidationError ''Password must contain at least one digit'')
      else if \<not> list_ex (\<lambda>c. c \<in> set special_chars) password
        then Inl (PasswordValidationError ''Password must contain at least one special character'')
      else if is_common_password password
        then Inl (PasswordValidationError ''Password is too common - please choose a more unique password'')
      else Inr ())"

record password_requirements =
  rq_length :: bool
  rq_uppercase :: bool
  rq_lowercase :: bool
  rq_digits :: bool
  rq_special_chars :: bool
  rq_not_common :: bool

record password_analysis =
  pa_score :: nat
  pa_strength :: string
  pa_requirements :: password_requirements
  pa_feedback :: "string list"

definition password_requirements_of :: "string \<Rightarrow> password_requirements" where
  "password_requirements_of password = \<lparr>rq_length = 8 \<le> length password,
     rq_uppercase = list_ex az_upper password, rq_lowercase = list_ex az_lower password,
     rq_digits = list_ex re_digit password, rq_special_chars = list_ex (\<lambda>c. c \<in> set special_chars) password,
     rq_not_common = (\<not> is_common_password password)\<rparr>"

definition get_password_strength :: "string \<Rightarrow> password_analysis" where
  "get_password_strength password =
    (let rq = password_requirements_of password;
         checks = [(rq_length rq, 2, ''Use at least 12 characters''),
                   (rq_uppercase rq, 1, ''Include uppercase letters''),
                   (rq_lowercase rq, 1, ''Include lowercase letters''),
                   (rq_digits rq, 1, ''Include numbers''),
                   (rq_special_chars rq, 1, ''Include special characters (!@#$%^&*)''),
                   (rq_not_common rq, 1, ''Avoid common passwords'')];
         base = sum_list (map (\<lambda>(ok, points, _). if ok then points else 0) checks);
         feedback = map (\<lambda>(_, _, hint). hint) (filter (\<lambda>(ok, _, _). \<not> ok) checks);
         score = base + (if 16 \<le> length password then 1 else 0) + (if 20 \<le> length password then 1 else 0)
     in \<lparr>pa_score = score,
         pa_strength = (if 7 \<le> score then ''strong'' else if 5 \<le> score then ''medium'' else ''weak''),
         pa_requirements = rq, pa_feedback = feedback\<rparr>)"

definition common_password_hashes :: "string list" where
  "common_password_hashes =
    [''e3b0c44298fc1c149afbf4c8996fb92427ae41e4649b934ca495991b7852b855'',
     ''5e884898da28047151d0e56f8dc6292773603d0d6aabbdd62a11ef721d1542d8'',
     ''65e84be33532fb784c48129675f9eff3a682b27168c0ea744b2cf58ee02337c5'',
     ''8d969eef6ecad3c29a3a629280e686cf0c3f5d5a86aff3ca12020c923adc6c92'',
     ''15e2b0d3c33891ebb0f1ef609ec419420c20e320ce94c65fbc8c3312448eb225'',
     ''a665a45920422f9d417e4867efdc4fb8a04a1f3fff1fa07e998e86f7f7a27ae3'',
     ''9af15b336e6a9619928537df30b2e6a2376569fcf9d7e773eccede65606529a0'',
     ''0b14d501a594442a01c6859541bcb3e8164d183d32937b851835442f69d5c94e'',
     ''e606e38b0d8c19b24cf0ee3808183162ea7cd63ff7912dbb22b5e803286b4446'',
     ''c775e7b757ede630cd0aa1113bd102661ab38829ca52a6422ab782862f268646'']"

text \<open>\<open>digest\<close> is the hexadecimal SHA-256 of the encoded password.\<close>

definition validate_password :: "(string \<Rightarrow> string) \<Rightarrow> py_text \<Rightarrow> validation_error + string" where
  "validate_password digest v = (case ensure_str ''Password'' ValidationError v of
     Inl e \<Rightarrow> Inl e
   | Inr password \<Rightarrow> (case validate_password_strength (PStr password) of
        Inl e \<Rightarrow> Inl e
      | Inr _ \<Rightarrow> if digest password \<in> set common_password_hashes
          then Inl (ValidationError ''Password is too common, please choose a different one'')
          else Inr password))"

section \<open>E-mail addresses\<close>

definition az09 :: "char \<Rightarrow> bool" where
  "az09 c \<longleftrightarrow> az_lower c \<or> re_digit c"

definition azAZ09 :: "char \<Rightarrow> bool" where
  "azAZ09 c \<longleftrightarrow> az_upper c \<or> az_lower c \<or> re_digit c"

definition email_local_char :: "char \<Rightarrow> bool" where
  "email_local_char c \<longleftrightarrow> azAZ09 c \<or> c \<in> set ''._%+-''"

definition email_basic_pattern :: "piece list" where
  "email_basic_pattern = [some_of email_local_char, once (\<lambda>c. c = CHR ''@''), once azAZ09,
     many (\<lambda>c. azAZ09 c \<or> c \<in> set ''.-''), once azAZ09, once (\<lambda>c. c = CHR ''.''),
     (\<lambda>c. az_upper c \<or> az_lower c, 2, None)]"

definition email_blocked_patterns :: "piece list list" where
  "email_blocked_patterns =
    [[many re_dot] @ text_of ''+'' @ [many re_dot] @ text_of ''test'' @ [many re_dot] @ text_of ''@'' @ [many re_dot],
     [many re_dot] @ text_of ''+'' @ [many re_dot] @ text_of ''spam'' @ [many re_dot] @ text_of ''@'' @ [many re_dot],
     text_of ''test'' @ [many re_dot] @ text_of ''@'' @ [many re_dot],
     text_of ''noreply@'' @ [many re_dot],
     text_of ''no-reply@'' @ [many re_dot]]"

definition email_blocked_domains :: "string list" where
  "email_blocked_domains = [''10minutemail.com'', ''tempmail.org'', ''guerrillamail.com'',
     ''mailinator.com'', ''throwaway.email'', ''temp-mail.org'',
     ''yopmail.com'', ''maildrop.cc'', ''dispostable.com'',
     ''trashmail.com'', ''fake-mail.cf'', ''tempmail.net'']"

definition validate_email :: "py_text \<Rightarrow> validation_error + string" where
  "validate_email v = (case ensure_str ''Email'' ValidationError v of
     Inl e \<Rightarrow> Inl e
   | Inr v \<Rightarrow> (let email = py_lower (py_strip v) in
      if 254 < length email then Inl (ValidationError ''Email address too long'')
      else if length email < 3 then Inl (ValidationError ''Email address too short'')
      else if \<not> re_full email_basic_pattern email then Inl (ValidationError ''Invalid email format'')
      else if sublist ''..'' email then Inl (ValidationError ''Invalid email format'')
      else case rpartition (CHR ''@'') email of (local_part, domain) \<Rightarrow>
        if domain \<in> set email_blocked_domains then Inl (ValidationError ''Email domain not allowed'')
        else if list_ex (\<lambda>p. re_match p email) email_blocked_patterns
          then Inl (ValidationError ''Email format not allowed'')
        else if 64 < length local_part then Inl (ValidationError ''Email local part too long'')
        else Inr email))"

section \<open>Names, slugs and phone numbers\<close>

definition validate_name :: "py_text \<Rightarrow> validation_error + string" where
  "validate_name v = (case ensure_str ''Name'' ValidationError v of
     Inl e \<Rightarrow> Inl e
   | Inr v \<Rightarrow> (let name = collapse_spaces False (py_strip v) in
      if length name < 1 then Inl (ValidationError ''Name cannot be empty'')
      else if 100 < length name then Inl (ValidationError ''Name must not exceed 100 characters'')
      else if repeats_search 4 name then Inl (ValidationError ''Name contains suspicious patterns'')
      else Inr name))"

definition reserved_usernames :: "string list" where
  "reserved_usernames = [''admin'', ''root'', ''api'', ''www'', ''mail'', ''ftp'', ''support'', ''help'', ''security'',
     ''privacy'', ''terms'', ''about'', ''contact'', ''blog'', ''news'', ''app'', ''application'', ''system'',
     ''test'', ''user'', ''guest'', ''demo'', ''null'', ''undefined'', ''none'']"

definition username_char :: "char \<Rightarrow> bool" where
  "username_char c \<longleftrightarrow> az09 c \<or> c \<in> set ''_-''"

definition validate_username :: "py_text \<Rightarrow> validation_error + string" where
  "validate_username v = (case ensure_str ''Username'' ValidationError v of
     Inl e \<Rightarrow> Inl e
   | Inr v \<Rightarrow> (let username = py_lower (py_strip v) in
      if length username < 3 then Inl (ValidationError ''Username must be at least 3 characters'')
      else if 30 < length username then Inl (ValidationError ''Username must not exceed 30 characters'')
      else if \<not> re_full [some_of username_char] username
        then Inl (ValidationError ''Username can only contain letters, numbers, hyphens, and underscores'')
      else if \<not> re_match [once az09] username
        then Inl (ValidationError ''Username must start with a letter or number'')
      else if username \<in> set reserved_usernames
        then Inl (ValidationError ''Username is reserved and cannot be used'')
      else if repeats_search 3 username
        then Inl (ValidationError ''Username contains too many repeated characters'')
      else Inr username))"

definition slug_char :: "char \<Rightarrow> bool" where
  "slug_char c \<longleftrightarrow> az09 c \<or> c = CHR ''-''"

definition validate_slug :: "py_text \<Rightarrow> validation_error + string" where
  "validate_slug v = (case ensure_str ''Slug'' ValidationError v of
     Inl e \<Rightarrow> Inl e
   | Inr v \<Rightarrow> (let slug = py_lower (py_strip v) in
      if length slug < 1 then Inl (ValidationError ''Slug cannot be empty'')
      else if 100 < length slug then Inl (ValidationError ''Slug must not exceed 100 characters'')
      else if \<not> re_full [some_of slug_char] slug
        then Inl (ValidationError ''Slug can only contain lowercase letters, numbers, and hyphens'')
      else if prefix ''-'' slug \<or> suffix ''-'' slug
        then Inl (ValidationError ''Slug cannot start or end with a hyphen'')
      else if sublist ''--'' slug then Inl (ValidationError ''Slug cannot contain consecutive hyphens'')
      else Inr slug))"

definition phone_char :: "char \<Rightarrow> bool" where
  "phone_char c \<longleftrightarrow> re_digit c \<or> py_space c \<or> c \<in> set ''-().''"

definition validate_phone :: "py_text \<Rightarrow> validation_error + string" where
  "validate_phone v = (case ensure_str ''Phone number'' ValidationError v of
     Inl e \<Rightarrow> Inl e
   | Inr v \<Rightarrow> (let phone = py_strip v in
      if phone = [] then Inl (ValidationError ''Phone number cannot be empty'')
      else if \<not> re_full [(\<lambda>c. c = CHR ''+'', 0, Some 1), some_of phone_char] phone
        then Inl (ValidationError ''Invalid phone number format'')
      else let digits_only = filter re_digit phone in
        if length digits_only < 7 \<or> 15 < length digits_only
        then Inl (ValidationError ''Phone number must be between 7 and 15 digits'')
        else Inr phone))"

section \<open>Lemmas on characters and strings\<close>

lemma code_point_bound: "code_point c < 256"
  by (simp add: code_point_def)

lemma code_point_char_of: "n < 256 \<Longrightarrow> code_point (char_of n) = n"
  by (simp add: code_point_def)

lemma code_point_inject: "code_point c = code_point d \<longleftrightarrow> c = d"
  by (simp add: code_point_def)

lemmas char_classes = py_space_def az_upper_def az_lower_def re_digit_def re_dot_def

lemma lower_char_code_point: "code_point (lower_char c) =
    (if az_upper c \<or> (192 \<le> code_point c \<and> code_point c \<le> 222 \<and> code_point c \<noteq> 215)
     then code_point c + 32 else code_point c)"
  by (auto simp: lower_char_def az_upper_def code_point_char_of)

lemma lower_char_facts [simp]:
  "lower_char (lower_char c) = lower_char c" "py_space (lower_char c) = py_space c" "\<not> az_upper (lower_char c)"
proof -
  show u: "\<not> az_upper (lower_char c)" by (auto simp: az_upper_def lower_char_code_point)
  show "py_space (lower_char c) = py_space c" by (auto simp: py_space_def az_upper_def lower_char_code_point)
  have "\<not> (192 \<le> code_point (lower_char c) \<and> code_point (lower_char c) \<le> 222 \<and> code_point (lower_char c) \<noteq> 215)"
    by (auto simp: lower_char_code_point az_upper_def split: if_splits)
  with u show "lower_char (lower_char c) = lower_char c"
    by (subst lower_char_def) (auto simp only: if_False de_Morgan_disj simp_thms)
qed

lemma py_lower_idem [simp]: "py_lower (py_lower s) = py_lower s"
  by (simp add: py_lower_def)

lemma dropWhile_space_lower: "dropWhile py_space (py_lower s) = py_lower (dropWhile py_space s)"
  by (simp add: py_lower_def dropWhile_map comp_def)

lemma py_lower_rev: "rev (py_lower s) = py_lower (rev s)"
  by (simp add: py_lower_def rev_map)

lemma py_strip_lower: "py_strip (py_lower s) = py_lower (py_strip s)"
  by (simp add: py_strip_def dropWhile_space_lower py_lower_rev)

definition stripped :: "string \<Rightarrow> bool" where
  "stripped s \<longleftrightarrow> (s = [] \<or> \<not> py_space (hd s) \<and> \<not> py_space (last s))"

lemma stripped_strip: "stripped s \<Longrightarrow> py_strip s = s"
proof (cases "s = []")
  case False
  moreover assume "stripped s"
  ultimately have "dropWhile py_space s = s" "dropWhile py_space (rev s) = rev s"
    by (simp_all add: stripped_def dropWhile_eq_self_iff hd_rev)
  then show ?thesis by (simp add: py_strip_def)
qed (simp add: py_strip_def)

lemma strip_stripped [simp]: "stripped (py_strip s)"
proof -
  let ?t = "dropWhile py_space s" and ?u = "dropWhile py_space (rev (dropWhile py_space s))"
  have "\<not> py_space (last (rev ?u)) \<and> \<not> py_space (hd (rev ?u))" if "?u \<noteq> []"
  proof
    show "\<not> py_space (last (rev ?u))" using hd_dropWhile [OF that] by (simp add: last_rev)
    have "?t \<noteq> []" using that by (metis dropWhile.simps(1) rev.simps(1))
    then have "\<not> py_space (hd ?t)" by (rule hd_dropWhile)
    moreover have "last ?u = last (rev ?t)"
      using that by (metis last_appendR takeWhile_dropWhile_id)
    ultimately show "\<not> py_space (hd (rev ?u))" using \<open>?t \<noteq> []\<close> by (simp add: hd_rev last_rev)
  qed
  then show ?thesis by (auto simp: stripped_def py_strip_def)
qed

lemma strip_idem [simp]: "py_strip (py_strip s) = py_strip s"
  by (rule stripped_strip) simp

lemma stripped_lower: "stripped s \<Longrightarrow> stripped (py_lower s)"
  by (auto simp: stripped_def py_lower_def hd_map last_map)

lemma normalised [simp]: "py_lower (py_strip (py_lower (py_strip s))) = py_lower (py_strip s)"
  by (simp add: stripped_strip stripped_lower)

lemma collapse_idem: "collapse_spaces b (collapse_spaces b s) = collapse_spaces b s"
proof (induction b s rule: collapse_spaces.induct)
  case (2 b c cs)
  have "py_space (CHR '' '')" by (simp add: py_space_def code_point_def)
  with 2 show ?case by auto
qed simp

lemma collapse_stripped:
  assumes "stripped s"
  shows "stripped (collapse_spaces False s)"
proof -
  have last: "t \<noteq> [] \<Longrightarrow> \<not> py_space (last t) \<Longrightarrow>
      collapse_spaces b t \<noteq> [] \<and> \<not> py_space (last (collapse_spaces b t))" for b t
    by (induction b t rule: collapse_spaces.induct) (auto split: if_splits)
  show ?thesis
  proof (cases s)
    case (Cons c cs)
    then have c: "\<not> py_space c" "\<not> py_space (last s)" using assms by (auto simp: stripped_def)
    with last [of s False] Cons show ?thesis by (auto simp: stripped_def)
  qed (simp add: stripped_def)
qed

section \<open>Lemmas on patterns\<close>

lemma re_fits_Cons: "re_fits ((P, lo, hi) # ps) s \<longleftrightarrow>
    (\<exists>u v. s = u @ v \<and> in_bounds (length u) lo hi \<and> list_all P u \<and> re_fits ps v)" (is "_ = ?R")
proof
  assume "re_fits ((P, lo, hi) # ps) s"
  then obtain n where n: "n \<le> length s" "in_bounds n lo hi" "list_all P (take n s)" "re_fits ps (drop n s)"
    by (auto simp: list_ex_iff less_Suc_eq_le simp del: upt_Suc)
  then show ?R
    by (intro exI [where x = "take n s"] exI [where x = "drop n s"]) (simp add: min_absorb2)
next
  assume ?R
  then obtain u v where "s = u @ v" "in_bounds (length u) lo hi" "list_all P u" "re_fits ps v" by blast
  then show "re_fits ((P, lo, hi) # ps) s"
    by (auto simp: list_ex_iff simp del: upt_Suc intro!: bexI [where x = "length u"])
qed

declare re_fits.simps(2) [simp del]

lemma in_bounds_simps [simp]:
  "in_bounds n lo None \<longleftrightarrow> lo \<le> n" "in_bounds n lo (Some h) \<longleftrightarrow> lo \<le> n \<and> n \<le> h"
  by (simp_all add: in_bounds_def)

lemma re_fits_once: "re_fits (once P # ps) s \<longleftrightarrow> (\<exists>c v. s = c # v \<and> P c \<and> re_fits ps v)"
proof
  assume "re_fits (once P # ps) s"
  then show "\<exists>c v. s = c # v \<and> P c \<and> re_fits ps v"
    by (auto simp: re_fits_Cons le_Suc_eq length_Suc_conv)
next
  assume "\<exists>c v. s = c # v \<and> P c \<and> re_fits ps v"
  then obtain c v where "s = [c] @ v" "P c" "re_fits ps v" by auto
  then show "re_fits (once P # ps) s"
    unfolding re_fits_Cons by (intro exI [where x = "[c]"] exI [where x = v]) simp
qed

lemma re_fits_many: "re_fits (many P # ps) s \<longleftrightarrow> (\<exists>u v. s = u @ v \<and> list_all P u \<and> re_fits ps v)"
  by (simp add: re_fits_Cons)

lemma re_fits_some: "re_fits (some_of P # ps) s \<longleftrightarrow>
    (\<exists>u v. s = u @ v \<and> u \<noteq> [] \<and> list_all P u \<and> re_fits ps v)"
  by (simp add: re_fits_Cons Suc_le_eq)

lemmas re_fits_pieces = re_fits_once re_fits_many re_fits_some

lemma re_fits_end: "re_fits [] s \<longleftrightarrow> s = []"
  by simp

lemma re_fits_many_end: "re_fits [(P, lo, None)] s \<longleftrightarrow> lo \<le> length s \<and> list_all P s"
  by (auto simp: re_fits_Cons)

lemma re_full_stripped: "stripped s \<Longrightarrow> re_full ps s \<longleftrightarrow> re_fits ps s"
proof -
  assume "stripped s"
  then have "s \<noteq> [] \<Longrightarrow> code_point (last s) \<noteq> 10" by (auto simp: stripped_def py_space_def)
  then show ?thesis by (auto simp: re_full_def)
qed

lemma re_fits_text: "re_fits (text_of w @ ps) s \<longleftrightarrow> (\<exists>v. s = w @ v \<and> re_fits ps v)"
  by (induction w arbitrary: s) (auto simp: text_of_def re_fits_once simp del: re_fits.simps)

section \<open>Passwords\<close>

lemma common_passwords_plain: "w \<in> set common_passwords \<Longrightarrow> c \<in> set w \<Longrightarrow> c \<notin> set special_chars"
  by (auto simp: common_passwords_def special_chars_def)

lemma special_char_lower:
  assumes "c \<in> set special_chars"
  shows "lower_char c = c"
proof -
  have "list_all (\<lambda>c. lower_char c = c) special_chars"
    by (simp add: special_chars_def lower_char_def az_upper_def code_point_def)
  with assms show ?thesis by (simp add: list_all_iff)
qed

text \<open>
  After the checks of the character classes the list of common passwords and the check for one
  repeated character cannot apply.
\<close>

lemma common_after_classes:
  assumes "list_ex az_upper p" and "list_ex az_lower p" and "list_ex (\<lambda>c. c \<in> set special_chars) p"
  shows "is_common_password p \<longleftrightarrow> list_ex (\<lambda>w. prefix w (py_lower p)) (sequential_prefixes @ keyboard_prefixes)"
proof -
  obtain c where c: "c \<in> set p" "c \<in> set special_chars" using assms(3) by (auto simp: list_ex_iff)
  then have "c \<in> set (py_lower p)" by (force simp: py_lower_def special_char_lower)
  with c(2) have listed: "py_lower p \<notin> set common_passwords" using common_passwords_plain by blast
  obtain a b where ab: "a \<in> set p" "az_upper a" "b \<in> set p" "az_lower b"
    using assms(1,2) by (auto simp: list_ex_iff)
  have "\<not> repeats_whole 11 p"
  proof
    assume rep: "repeats_whole 11 p"
    define body where "body = (if p \<noteq> [] \<and> code_point (last p) = 10 then butlast p else p)"
    have in_body: "x \<in> set body" if "x \<in> set p" "code_point x \<noteq> 10" for x
      using that by (cases p rule: rev_cases) (auto simp: body_def)
    have all: "x \<in> set body \<Longrightarrow> x = hd body" for x
      using rep by (auto simp: repeats_whole_def body_def Let_def list_all_iff)
    have "a \<in> set body" "b \<in> set body" using ab by (auto intro!: in_body simp: az_upper_def az_lower_def)
    then have "a = b" using all by metis
    then show False using ab by (simp add: az_upper_def az_lower_def)
  qed
  with listed show ?thesis by (auto simp: is_common_password_def Let_def)
qed

text \<open>C10: a password is accepted exactly when it has 8 to 128 characters, a capital and a small
  letter, a digit and a special character, and does not begin with one of the sequences or
  keyboard rows, whatever its case: the list of common passwords and the pattern of a repeated
  character never decide.\<close>

theorem password_accepted_iff:
  "validate_password_strength (PStr p) = Inr () \<longleftrightarrow>
     8 \<le> length p \<and> length p \<le> 128 \<and> list_ex az_upper p \<and> list_ex az_lower p \<and> list_ex re_digit p \<and>
     list_ex (\<lambda>c. c \<in> set special_chars) p \<and>
     \<not> list_ex (\<lambda>w. prefix w (py_lower p)) (sequential_prefixes @ keyboard_prefixes)"
  using common_after_classes [of p]
  by (auto simp: validate_password_strength_def ensure_str_def simp del: list_ex_append split: if_splits)

text \<open>the strength meter against the check: a password is accepted exactly when it has at most
  128 characters and the meter has nothing to advise, but it is called strong when it has 8
  characters and misses no requirement, 16 and misses at most one, or 20 and misses at most two.\<close>

theorem password_meter:
  "(validate_password_strength (PStr p) = Inr () \<longleftrightarrow>
     length p \<le> 128 \<and> pa_feedback (get_password_strength p) = []) \<and>
   (pa_strength (get_password_strength p) = ''strong'' \<longleftrightarrow>
     8 \<le> length p \<and> length (pa_feedback (get_password_strength p)) \<le>
       (if length p < 16 then 0 else if length p < 20 then 1 else 2))"
proof
  show "validate_password_strength (PStr p) = Inr () \<longleftrightarrow>
     length p \<le> 128 \<and> pa_feedback (get_password_strength p) = []"
    by (auto simp: validate_password_strength_def ensure_str_def get_password_strength_def
        password_requirements_of_def Let_def)
  show "pa_strength (get_password_strength p) = ''strong'' \<longleftrightarrow>
     8 \<le> length p \<and> length (pa_feedback (get_password_strength p)) \<le>
       (if length p < 16 then 0 else if length p < 20 then 1 else 2)"
    by (simp add: get_password_strength_def password_requirements_of_def Let_def)
qed

section \<open>E-mail addresses and slugs\<close>

lemma rpartition_unique:
  assumes "sep \<notin> set d"
  shows "rpartition sep (l @ sep # d) = (l, d)"
proof -
  have all: "\<And>c. c \<in> set (rev d) \<Longrightarrow> c \<noteq> sep" using assms by auto
  have "takeWhile (\<lambda>c. c \<noteq> sep) (rev d @ sep # rev l) = rev d"
    using takeWhile_append2 [of "rev d" "\<lambda>c. c \<noteq> sep" "sep # rev l"] all by simp
  moreover have "dropWhile (\<lambda>c. c \<noteq> sep) (rev d @ sep # rev l) = sep # rev l"
    using dropWhile_append2 [of "rev d" "\<lambda>c. c \<noteq> sep" "sep # rev l"] all by simp
  ultimately show ?thesis by (simp add: rpartition_def)
qed

lemma azAZ09_at [simp]: "\<not> azAZ09 (CHR ''@'')" "\<not> az_upper (CHR ''@'')" "\<not> az_lower (CHR ''@'')"
  by (simp_all add: azAZ09_def az_upper_def az_lower_def re_digit_def code_point_def)

lemma email_basic_split:
  assumes "re_fits email_basic_pattern e"
  obtains l d where "e = l @ CHR ''@'' # d" and "l \<noteq> []" and "list_all email_local_char l"
    and "CHR ''@'' \<notin> set d" and "CHR ''.'' \<in> set d"
proof -
  from assms obtain l d where e: "e = l @ CHR ''@'' # d" and l: "l \<noteq> []" "list_all email_local_char l"
    and d: "re_fits (drop 2 email_basic_pattern) d"
    by (force simp: email_basic_pattern_def re_fits_pieces)
  from d obtain a m b t where "d = a # m @ b # CHR ''.'' # t" "azAZ09 a"
    "list_all (\<lambda>c. azAZ09 c \<or> c \<in> set ''.-'') m" "azAZ09 b" "list_all (\<lambda>c. az_upper c \<or> az_lower c) t"
    by (force simp: email_basic_pattern_def re_fits_pieces re_fits_many_end)
  then have "CHR ''@'' \<notin> set d" "CHR ''.'' \<in> set d" by (auto simp: list_all_iff)
  with e l show thesis by (rule that)
qed

lemma normal_inputs:
  "validate_email (PStr (py_lower (py_strip s))) = validate_email (PStr s)"
  "validate_name (PStr (collapse_spaces False (py_strip s))) = validate_name (PStr s)"
  "validate_username (PStr (py_lower (py_strip s))) = validate_username (PStr s)"
  "validate_slug (PStr (py_lower (py_strip s))) = validate_slug (PStr s)"
  "validate_phone (PStr (py_strip s)) = validate_phone (PStr s)"
proof -
  have name: "py_strip (collapse_spaces False (py_strip s)) = collapse_spaces False (py_strip s)"
    by (rule stripped_strip [OF collapse_stripped]) simp
  show "validate_email (PStr (py_lower (py_strip s))) = validate_email (PStr s)"
    by (simp add: validate_email_def ensure_str_def)
  show "validate_name (PStr (collapse_spaces False (py_strip s))) = validate_name (PStr s)"
    by (simp add: validate_name_def ensure_str_def name collapse_idem)
  show "validate_username (PStr (py_lower (py_strip s))) = validate_username (PStr s)"
    by (simp add: validate_username_def ensure_str_def)
  show "validate_slug (PStr (py_lower (py_strip s))) = validate_slug (PStr s)"
    by (simp add: validate_slug_def ensure_str_def)
  show "validate_phone (PStr (py_strip s)) = validate_phone (PStr s)"
    by (simp add: validate_phone_def ensure_str_def)
qed

lemma email_stages:
  assumes "validate_email (PStr v) = Inr e"
  shows "e = py_lower (py_strip v)" "length e \<le> 254" "3 \<le> length e" "re_fits email_basic_pattern e"
    "\<not> sublist ''..'' e" "snd (rpartition (CHR ''@'') e) \<notin> set email_blocked_domains"
    "\<not> list_ex (\<lambda>p. re_match p e) email_blocked_patterns" "length (fst (rpartition (CHR ''@'') e)) \<le> 64"
proof -
  have "stripped (py_lower (py_strip v))" by (simp add: stripped_lower)
  note full = re_full_stripped [OF this]
  from assms show "e = py_lower (py_strip v)" "length e \<le> 254" "3 \<le> length e" "re_fits email_basic_pattern e"
    "\<not> sublist ''..'' e" "snd (rpartition (CHR ''@'') e) \<notin> set email_blocked_domains"
    "\<not> list_ex (\<lambda>p. re_match p e) email_blocked_patterns" "length (fst (rpartition (CHR ''@'') e)) \<le> 64"
    by (auto simp: validate_email_def ensure_str_def Let_def full
        simp del: list_ex_append split: if_splits prod.splits)
qed

lemma blocked_prefixes:
  assumes "prefix ''test'' l \<or> l = ''noreply'' \<or> l = ''no-reply''" and "list_all re_dot (l @ CHR ''@'' # d)"
  shows "list_ex (\<lambda>p. re_match p (l @ CHR ''@'' # d)) email_blocked_patterns"
proof -
  have any: "re_fits [many (\<lambda>_. True)] s" for s by (simp add: re_fits_many_end list_all_iff)
  have tail: "re_fits [many re_dot, many (\<lambda>_. True)] s" for s
    using any [of s] by (subst re_fits_many) (intro exI [where x = "[]"] exI [where x = s], simp)
  have at: "re_fits (text_of ''@'' @ [many re_dot, many (\<lambda>_. True)]) (CHR ''@'' # s)" for s
    using tail [of s] by (simp add: re_fits_text)
  from assms(1) consider u where "l = ''test'' @ u" | "l = ''noreply''" | "l = ''no-reply''"
    by (auto simp: prefix_def)
  then show ?thesis
  proof cases
    case 1
    have "list_all re_dot u" using assms(2) 1 by simp
    then have "re_fits ((many re_dot) # text_of ''@'' @ [many re_dot, many (\<lambda>_. True)]) (u @ CHR ''@'' # d)"
      using at [of d] by (auto simp: re_fits_many)
    then have "re_fits (text_of ''test'' @ (many re_dot) # text_of ''@'' @ [many re_dot, many (\<lambda>_. True)])
        (l @ CHR ''@'' # d)"
      by (simp add: re_fits_text 1)
    then show ?thesis by (simp add: email_blocked_patterns_def re_match_def)
  next
    case 2
    have "re_fits (text_of ''noreply@'' @ [many re_dot, many (\<lambda>_. True)]) (l @ CHR ''@'' # d)"
      using tail [of d] by (simp add: re_fits_text 2)
    then show ?thesis by (simp add: email_blocked_patterns_def re_match_def)
  next
    case 3
    have "re_fits (text_of ''no-reply@'' @ [many re_dot, many (\<lambda>_. True)]) (l @ CHR ''@'' # d)"
      using tail [of d] by (simp add: re_fits_text 3)
    then show ?thesis by (simp add: email_blocked_patterns_def re_match_def)
  qed
qed

lemma email_chars_dot:
  assumes "re_fits email_basic_pattern e"
  shows "list_all re_dot e"
proof -
  have c: "re_dot (CHR ''@'')" "re_dot (CHR ''.'')" "\<And>c. azAZ09 c \<Longrightarrow> re_dot c" "\<And>c. az_upper c \<or> az_lower c \<Longrightarrow> re_dot c"
    "\<And>c. email_local_char c \<Longrightarrow> re_dot c" "\<And>c. azAZ09 c \<or> c = CHR ''.'' \<or> c = CHR ''-'' \<Longrightarrow> re_dot c"
    by (auto simp: re_dot_def azAZ09_def az_upper_def az_lower_def re_digit_def email_local_char_def code_point_def)
  from assms show ?thesis
    by (auto simp: email_basic_pattern_def re_fits_pieces re_fits_many_end list_all_iff c)
qed

text \<open>an accepted e-mail address is the given one stripped and in small letters, at most 254
  characters long, a local part of 1 to 64 of the admitted characters and a domain with a dot that
  is not on the block list; the local part does not begin with test and is not a noreply name; no
  two dots follow each other; and validating it again changes nothing.\<close>

theorem email_accepted:
  assumes "validate_email (PStr v) = Inr e"
  shows "e = py_lower (py_strip v) \<and> length e \<le> 254 \<and> \<not> sublist ''..'' e \<and> validate_email (PStr e) = Inr e \<and>
    (\<exists>l d. e = l @ CHR ''@'' # d \<and> l \<noteq> [] \<and> length l \<le> 64 \<and> list_all email_local_char l \<and>
       CHR ''@'' \<notin> set d \<and> CHR ''.'' \<in> set d \<and> d \<notin> set email_blocked_domains \<and>
       \<not> prefix ''test'' l \<and> l \<noteq> ''noreply'' \<and> l \<noteq> ''no-reply'')"
proof -
  note st = email_stages [OF assms]
  obtain l d where e: "e = l @ CHR ''@'' # d" "l \<noteq> []" "list_all email_local_char l" "CHR ''@'' \<notin> set d" "CHR ''.'' \<in> set d"
    by (rule email_basic_split [OF st(4)])
  have part: "rpartition (CHR ''@'') e = (l, d)" using rpartition_unique [OF e(4), of l] e(1) by simp
  have "\<not> (prefix ''test'' l \<or> l = ''noreply'' \<or> l = ''no-reply'')"
    using blocked_prefixes [of l d] st(7) email_chars_dot [OF st(4)] e(1) by metis
  moreover have "validate_email (PStr e) = Inr e" using assms st(1) normal_inputs(1) by metis
  ultimately show ?thesis using e st part by (metis fst_conv snd_conv)
qed

theorem email_accepted_witness:
  "validate_email (PStr '' Jo@Ex.org'') = Inr ''jo@ex.org'' \<and> length ''jo@ex.org'' \<le> 254"
proof -
  have "validate_email (PStr '' Jo@Ex.org'') = Inr ''jo@ex.org''" by code_simp
  from email_accepted [OF this] this show ?thesis by metis
qed

definition validators :: "(py_text \<Rightarrow> validation_error + string) list" where
  "validators = [validate_email, validate_name, validate_username, validate_slug, validate_phone]"

text \<open>what a validation returns is a normal form: validating it again returns it unchanged, for
  e-mail addresses, names, user names, slugs and phone numbers.\<close>

theorem validation_normal_form:
  assumes "f \<in> set validators" and "f v = Inr w"
  shows "f (PStr w) = Inr w"
proof -
  obtain s where v: "v = PStr s"
    using assms by (cases v) (auto simp: validators_def validate_email_def validate_name_def
        validate_username_def validate_slug_def validate_phone_def ensure_str_def)
  from assms consider "validate_email (PStr s) = Inr w" "f = validate_email"
    | "validate_name (PStr s) = Inr w" "f = validate_name"
    | "validate_username (PStr s) = Inr w" "f = validate_username"
    | "validate_slug (PStr s) = Inr w" "f = validate_slug"
    | "validate_phone (PStr s) = Inr w" "f = validate_phone"
    by (auto simp: validators_def v)
  then show ?thesis
  proof cases
    case 1
    then show ?thesis using email_stages(1) normal_inputs(1) by metis
  next
    case 2
    then have "w = collapse_spaces False (py_strip s)"
      by (auto simp: validate_name_def ensure_str_def Let_def split: if_splits)
    with 2 normal_inputs(2) show ?thesis by metis
  next
    case 3
    then have "w = py_lower (py_strip s)"
      by (auto simp: validate_username_def ensure_str_def Let_def split: if_splits)
    with 3 normal_inputs(3) show ?thesis by metis
  next
    case 4
    then have "w = py_lower (py_strip s)"
      by (auto simp: validate_slug_def ensure_str_def Let_def split: if_splits)
    with 4 normal_inputs(4) show ?thesis by metis
  next
    case 5
    then have "w = py_strip s"
      by (auto simp: validate_phone_def ensure_str_def Let_def split: if_splits)
    with 5 normal_inputs(5) show ?thesis by metis
  qed
qed

theorem validation_normal_form_witness: "validate_name (PStr ''Ada L'') = Inr ''Ada L''"
proof -
  have "validate_name (PStr '' Ada   L '') = Inr ''Ada L''" by code_simp
  then show ?thesis by (intro validation_normal_form [of validate_name "PStr '' Ada   L ''"])
      (simp_all add: validators_def)
qed

text \<open>The grammar of slugs: words of small letters and digits, joined by single hyphens.\<close>

fun dash_join :: "string list \<Rightarrow> string" where
  "dash_join [] = []"
| "dash_join [w] = w"
| "dash_join (w # ws) = w @ CHR ''-'' # dash_join ws"

definition slug_word :: "string \<Rightarrow> bool" where
  "slug_word w \<longleftrightarrow> w \<noteq> [] \<and> list_all az09 w"

definition slug_shape :: "string \<Rightarrow> bool" where
  "slug_shape s \<longleftrightarrow> s \<noteq> [] \<and> list_all slug_char s \<and> hd s \<noteq> CHR ''-'' \<and> last s \<noteq> CHR ''-'' \<and>
     \<not> sublist ''--'' s"

lemma az09_dash [simp]: "\<not> az09 (CHR ''-'')"
  by (simp add: az09_def az_lower_def re_digit_def code_point_def)

lemma sublist_dashes: "sublist ''--'' (u @ v) \<longleftrightarrow> sublist ''--'' u \<or> sublist ''--'' v \<or>
    (u \<noteq> [] \<and> v \<noteq> [] \<and> last u = CHR ''-'' \<and> hd v = CHR ''-'')"
proof (induction u)
  case (Cons a u)
  then show ?case by (cases u; cases v) (auto simp: sublist_Cons_right)
qed simp

lemma word_no_dashes: "list_all az09 w \<Longrightarrow> \<not> sublist ''--'' w"
  by (auto simp: sublist_def list_all_iff)

lemma dash_join_shape:
  assumes "ws \<noteq> []" and "list_all slug_word ws"
  shows "slug_shape (dash_join ws)"
  using assms
proof (induction ws rule: dash_join.induct)
  case (2 w)
  then have w: "w \<noteq> []" "list_all az09 w" by (auto simp: slug_word_def)
  then have "az09 (hd w)" "az09 (last w)" by (auto simp: list_all_iff)
  then have "hd w \<noteq> CHR ''-''" "last w \<noteq> CHR ''-''" by (metis az09_dash)+
  with w word_no_dashes [OF w(2)] show ?case by (auto simp: slug_shape_def slug_char_def list_all_iff)
next
  case (3 w v vs)
  then have w: "w \<noteq> []" "list_all az09 w" and IH: "slug_shape (dash_join (v # vs))"
    by (auto simp: slug_word_def)
  then have ends: "az09 (hd w)" "az09 (last w)" by (auto simp: list_all_iff)
  have chars: "list_all slug_char w" using w(2) by (auto simp: list_all_iff slug_char_def)
  have "\<not> sublist ''--'' (CHR ''-'' # dash_join (v # vs))"
    using IH by (cases "dash_join (v # vs)") (auto simp: slug_shape_def sublist_Cons_right)
  then have "\<not> sublist ''--'' (w @ CHR ''-'' # dash_join (v # vs))"
    using ends word_no_dashes [OF w(2)] by (auto simp: sublist_dashes)
  with w ends chars IH show ?case by (auto simp: slug_shape_def slug_char_def)
qed simp

lemma shape_dash_join:
  assumes "slug_shape s"
  shows "\<exists>ws. ws \<noteq> [] \<and> list_all slug_word ws \<and> s = dash_join ws"
  using assms
proof (induction "length s" arbitrary: s rule: less_induct)
  case less
  define w where "w = takeWhile (\<lambda>c. c \<noteq> CHR ''-'') s"
  define t where "t = dropWhile (\<lambda>c. c \<noteq> CHR ''-'') s"
  have s: "s = w @ t" by (simp add: w_def t_def)
  have "list_all slug_char w" using less.prems s by (auto simp: slug_shape_def)
  moreover have "CHR ''-'' \<notin> set w" by (auto simp: w_def dest: set_takeWhileD)
  ultimately have "list_all az09 w" by (auto simp: slug_char_def list_all_iff)
  moreover have "w \<noteq> []" using less.prems by (cases s) (auto simp: w_def slug_shape_def)
  ultimately have w: "slug_word w" by (simp add: slug_word_def)
  show ?case
  proof (cases t)
    case Nil
    then show ?thesis using w s by (intro exI [where x = "[w]"]) simp
  next
    case (Cons c r)
    then have c: "c = CHR ''-''" using hd_dropWhile [of "\<lambda>c. c \<noteq> CHR ''-''" s] by (auto simp: t_def)
    have r: "r \<noteq> []" using less.prems s Cons c by (cases r) (auto simp: slug_shape_def)
    have dd: "\<not> sublist ''--'' (CHR ''-'' # r)" using less.prems s Cons c by (auto simp: slug_shape_def sublist_dashes)
    then have "hd r \<noteq> CHR ''-''" using r by (cases r) (auto simp: sublist_Cons_right)
    moreover have "\<not> sublist ''--'' r" using dd by (auto simp: sublist_Cons_right)
    ultimately have "slug_shape r" using less.prems s Cons r by (auto simp: slug_shape_def)
    then obtain ws where ws: "ws \<noteq> []" "list_all slug_word ws" "r = dash_join ws"
      using less.hyps [of r] s Cons by auto
    then have "s = dash_join (w # ws)" using s Cons c by (cases ws) auto
    with w ws(2) show ?thesis by (intro exI [where x = "w # ws"]) simp
  qed
qed

lemma prefix_dash: "prefix ''-'' s \<longleftrightarrow> s \<noteq> [] \<and> hd s = CHR ''-''"
  by (cases s) auto

lemma suffix_dash: "suffix ''-'' s \<longleftrightarrow> s \<noteq> [] \<and> last s = CHR ''-''"
  by (cases s rule: rev_cases) auto

text \<open>a slug is accepted exactly when the stripped text in small letters has at most 100
  characters and is a sequence of non-empty words of letters and digits joined by single hyphens;
  the result is that text.\<close>

theorem slug_grammar:
  "validate_slug (PStr v) = Inr s \<longleftrightarrow> s = py_lower (py_strip v) \<and> length s \<le> 100 \<and>
     (\<exists>ws. ws \<noteq> [] \<and> list_all slug_word ws \<and> s = dash_join ws)"
proof -
  have "re_full [some_of slug_char] (py_lower (py_strip v)) \<longleftrightarrow>
      py_lower (py_strip v) \<noteq> [] \<and> list_all slug_char (py_lower (py_strip v))"
    by (simp add: re_full_stripped stripped_lower re_fits_many_end Suc_le_eq)
  then have "validate_slug (PStr v) = Inr s \<longleftrightarrow>
      s = py_lower (py_strip v) \<and> length s \<le> 100 \<and> slug_shape s"
    by (auto simp: validate_slug_def ensure_str_def Let_def slug_shape_def prefix_dash suffix_dash Suc_le_eq)
  moreover have "slug_shape s \<longleftrightarrow> (\<exists>ws. ws \<noteq> [] \<and> list_all slug_word ws \<and> s = dash_join ws)"
    using shape_dash_join dash_join_shape by metis
  ultimately show ?thesis by simp
qed

lemma length_zero_unbounded: "validate_length value 0 (Some 0) = Inr value"
  by (simp add: validate_length_def)

end
