(* ===== verification/Env_Config.thy ===== *)
theory Env_Config
  imports Validation "HOL-Library.AList"
begin

text \<open>
  \<open>libs/foundation/src/foundation/utils/env_utils.py\<close>: the parsing of environment variables, which every
  settings class of the program rests on. The environment is a map; \<open>json.loads\<close> and \<open>str\<close> of a JSON
  value are parameters; \<open>int\<close> and \<open>float\<close> of a text are defined on Latin-1, a finite \<open>float\<close> being a
  rational. A type hint is what the code tells apart of it. The branch for the text
  \<open>list[pathlib._local.Path]\<close> follows one with the same test and is never taken; it is left out.
\<close>

section \<open>Numbers in texts\<close>

text \<open>Digits with single underscores between them, as a number with the count of its digits.\<close>

fun digits_value :: "bool \<Rightarrow> string \<Rightarrow> nat \<Rightarrow> nat \<Rightarrow> (nat \<times> nat) option" where
  "digits_value after_digit [] n len = (if after_digit then Some (n, len) else None)"
| "digits_value after_digit (c # cs) n len =
     (if re_digit c then digits_value True cs (10 * n + (code_point c - 48)) (Suc len)
      else if c = CHR ''_'' \<and> after_digit then digits_value False cs n len
      else None)"

definition signed :: "string \<Rightarrow> bool \<times> string" where
  "signed s = (case s of c # cs \<Rightarrow> if c = CHR ''-'' then (True, cs) else if c = CHR ''+'' then (False, cs) else (False, s)
     | [] \<Rightarrow> (False, []))"

text \<open>\<open>int(s)\<close>\<close>

definition int_of_text :: "string \<Rightarrow> int option" where
  "int_of_text s = (case signed (py_strip s) of (neg, ds) \<Rightarrow>
     (case digits_value False ds 0 0 of None \<Rightarrow> None | Some (n, _) \<Rightarrow> Some (if neg then - int n else int n)))"

datatype py_float = Fin rat | Inf | NegInf | NaN

text \<open>The digits before and after a point, one of which may be missing.\<close>

definition decimal_value :: "string \<Rightarrow> rat option" where
  "decimal_value s =
     (let whole = takeWhile (\<lambda>c. c \<noteq> CHR ''.'') s; rest = dropWhile (\<lambda>c. c \<noteq> CHR ''.'') s in
      if rest = [] then (case digits_value False whole 0 0 of None \<Rightarrow> None | Some (n, _) \<Rightarrow> Some (of_nat n))
      else if whole = [] then (case digits_value False (tl rest) 0 0 of None \<Rightarrow> None | Some (m, k) \<Rightarrow> Some (of_nat m / 10 ^ k))
      else if tl rest = [] then (case digits_value False whole 0 0 of None \<Rightarrow> None | Some (n, _) \<Rightarrow> Some (of_nat n))
      else (case (digits_value False whole 0 0, digits_value False (tl rest) 0 0) of
          (Some (n, _), Some (m, k)) \<Rightarrow> Some (of_nat n + of_nat m / 10 ^ k)
        | _ \<Rightarrow> None))"

definition exponent_value :: "string \<Rightarrow> int option" where
  "exponent_value s = (case signed s of (neg, ds) \<Rightarrow>
     (case digits_value False ds 0 0 of None \<Rightarrow> None | Some (n, _) \<Rightarrow> Some (if neg then - int n else int n)))"

definition scaled :: "rat \<Rightarrow> int \<Rightarrow> rat" where
  "scaled q e = (if 0 \<le> e then q * 10 ^ nat e else q / 10 ^ nat (- e))"

definition unsigned_float :: "string \<Rightarrow> py_float option" where
  "unsigned_float t =
     (let s = py_lower t; m = takeWhile (\<lambda>c. c \<noteq> CHR ''e'') s; x = dropWhile (\<lambda>c. c \<noteq> CHR ''e'') s in
      if s = ''inf'' \<or> s = ''infinity'' then Some Inf
      else if s = ''nan'' then Some NaN
      else case (decimal_value m, if x = [] then Some 0 else exponent_value (tl x)) of
          (Some q, Some e) \<Rightarrow> Some (Fin (scaled q e))
        | _ \<Rightarrow> None)"

fun float_neg :: "py_float \<Rightarrow> py_float" where
  "float_neg (Fin q) = Fin (- q)"
| "float_neg Inf = NegInf"
| "float_neg NegInf = Inf"
| "float_neg NaN = NaN"

text \<open>\<open>float(s)\<close>\<close>

definition float_of_text :: "string \<Rightarrow> py_float option" where
  "float_of_text s = (case signed (py_strip s) of (neg, t) \<Rightarrow>
     (case unsigned_float t of None \<Rightarrow> None | Some f \<Rightarrow> Some (if neg then float_neg f else f)))"

section \<open>Scalars\<close>

definition true_values :: "string list" where
  "true_values = [''true'', ''1'', ''yes'', ''y'', ''t'', ''on'', ''True'']"

definition false_values :: "string list" where
  "false_values = [''false'', ''0'', ''no'', ''n'', ''f'', ''off'', '''', ''False'']"

definition parse_bool :: "string \<Rightarrow> string \<Rightarrow> py_exn + bool" where
  "parse_bool key value =
     (let normalized = py_lower (py_strip value) in
      if normalized \<in> set true_values then Inr True
      else if normalized \<in> set false_values then Inr False
      else Inl (ValueError key))"

definition parse_int :: "string \<Rightarrow> string \<Rightarrow> py_exn + int" where
  "parse_int key value = (case int_of_text (py_strip value) of None \<Rightarrow> Inl (ValueError key) | Some n \<Rightarrow> Inr n)"

definition parse_float :: "string \<Rightarrow> string \<Rightarrow> py_exn + py_float" where
  "parse_float key value = (case float_of_text (py_strip value) of
       None \<Rightarrow> Inl (ValueError key)
     | Some f \<Rightarrow> if f = NaN then Inl (ValueError key) else Inr f)"

section \<open>Lists and dictionaries\<close>

datatype env_val =
    EV_None
  | EV_Bool bool
  | EV_Int int
  | EV_Float py_float
  | EV_Str string
  | EV_Path string
  | EV_List "env_val list"
  | EV_Dict "(string \<times> string) list"
  | EV_Other string

datatype item_constructor = C_Str | C_Int | C_Float | C_Path

text \<open>A constructor on a text, and on a JSON value: \<open>None\<close> stands for the \<open>ValueError\<close> or \<open>TypeError\<close> it raises.\<close>

fun construct_text :: "item_constructor \<Rightarrow> string \<Rightarrow> env_val option" where
  "construct_text C_Str s = Some (EV_Str s)"
| "construct_text C_Int s = map_option EV_Int (int_of_text s)"
| "construct_text C_Float s = map_option EV_Float (float_of_text s)"
| "construct_text C_Path s = Some (EV_Path s)"

fun construct_json :: "(jval \<Rightarrow> string) \<Rightarrow> item_constructor \<Rightarrow> jval \<Rightarrow> env_val option" where
  "construct_json py_str C_Str v = Some (EV_Str (py_str v))"
| "construct_json py_str c (JStr s) = construct_text c s"
| "construct_json py_str C_Int (JInt n) = Some (EV_Int n)"
| "construct_json py_str C_Int (JBool b) = Some (EV_Int (if b then 1 else 0))"
| "construct_json py_str C_Int (JNum q) = Some (EV_Int (py_int q))"
| "construct_json py_str C_Float (JInt n) = Some (EV_Float (Fin (of_int n)))"
| "construct_json py_str C_Float (JBool b) = Some (EV_Float (Fin (if b then 1 else 0)))"
| "construct_json py_str C_Float (JNum q) = Some (EV_Float (Fin q))"
| "construct_json py_str _ _ = None"

fun all_some :: "'a option list \<Rightarrow> 'a list option" where
  "all_some [] = Some []"
| "all_some (x # xs) = (case x of None \<Rightarrow> None | Some y \<Rightarrow> map_option ((#) y) (all_some xs))"

text \<open>\<open>s.split(c)\<close>\<close>

fun split_char :: "char \<Rightarrow> string \<Rightarrow> string list" where
  "split_char c [] = [[]]"
| "split_char c (x # xs) = (if x = c then [] # split_char c xs
     else (case split_char c xs of [] \<Rightarrow> [[x]] | w # ws \<Rightarrow> (x # w) # ws))"

definition parse_list ::
  "(string \<Rightarrow> jval option) \<Rightarrow> (jval \<Rightarrow> string) \<Rightarrow> string \<Rightarrow> string \<Rightarrow> item_constructor \<Rightarrow> py_exn + env_val list" where
  "parse_list json_loads py_str key value c =
     (if prefix ''['' value then
        (if \<not> suffix '']'' value then Inl (ValueError key)
         else (case json_loads value of
             Some (JList items) \<Rightarrow> (case all_some (map (construct_json py_str c) items) of
                 None \<Rightarrow> Inl (ValueError key) | Some xs \<Rightarrow> Inr xs)
           | _ \<Rightarrow> Inl (ValueError key)))
      else (case all_some (map (\<lambda>item. construct_text c (py_strip item)) (split_char CHR '','' value)) of
          None \<Rightarrow> Inl (ValueError key) | Some xs \<Rightarrow> Inr xs))"

definition parse_dict_json ::
  "(string \<Rightarrow> jval option) \<Rightarrow> (jval \<Rightarrow> string) \<Rightarrow> string \<Rightarrow> string \<Rightarrow> py_exn + (string \<times> string) list" where
  "parse_dict_json json_loads py_str key value = (case json_loads value of
       Some (JObj kvs) \<Rightarrow> Inr (fold (\<lambda>(k, v). AList.update k (py_str v)) kvs [])
     | _ \<Rightarrow> Inl (TypeError key))"

fun dict_items :: "string \<Rightarrow> string list \<Rightarrow> (string \<times> string) list \<Rightarrow> py_exn + (string \<times> string) list" where
  "dict_items key [] d = Inr d"
| "dict_items key (item # items) d =
     (if py_strip item = [] then dict_items key items d
      else if CHR ''='' \<notin> set item then Inl (TypeError key)
      else dict_items key items (AList.update (py_strip (takeWhile (\<lambda>c. c \<noteq> CHR ''='') item))
        (py_strip (tl (dropWhile (\<lambda>c. c \<noteq> CHR ''='') item))) d))"

definition parse_dict_comma :: "string \<Rightarrow> string \<Rightarrow> py_exn + (string \<times> string) list" where
  "parse_dict_comma key value = dict_items key (split_char CHR '','' value) []"

definition parse_dict ::
  "(string \<Rightarrow> jval option) \<Rightarrow> (jval \<Rightarrow> string) \<Rightarrow> string \<Rightarrow> string \<Rightarrow> py_exn + (string \<times> string) list" where
  "parse_dict json_loads py_str key value =
     (if prefix ''{'' (py_strip value) then parse_dict_json json_loads py_str key value
      else parse_dict_comma key value)"

section \<open>Reading a variable\<close>

text \<open>
  The parts of a type hint: no hint; a list with the type of its items; a dictionary or a \<open>TypedDict\<close>; a
  class, of which other ones than the scalars come with what they make of a text; and hints that are
  no class.
\<close>

datatype item_arg = A_Str | A_Int | A_Float | A_Path | A_Other

datatype py_type = Ty_Str | Ty_Int | Ty_Float | Ty_Bool | Ty_Path | Ty_None | Ty_Class "string \<Rightarrow> py_exn + string"

datatype type_hint = H_Unset | H_List item_arg | H_Dict | H_Type py_type | H_Other

fun item_constructor_of :: "item_arg \<Rightarrow> item_constructor option" where
  "item_constructor_of A_Str = Some C_Str"
| "item_constructor_of A_Int = Some C_Int"
| "item_constructor_of A_Float = Some C_Float"
| "item_constructor_of A_Path = Some C_Path"
| "item_constructor_of A_Other = None"

fun is_path :: "env_val \<Rightarrow> bool" where "is_path (EV_Path _) = True" | "is_path _ = False"
fun is_int :: "env_val \<Rightarrow> bool" where "is_int (EV_Int _) = True" | "is_int _ = False"
fun is_number :: "env_val \<Rightarrow> bool" where "is_number (EV_Int _) = True" | "is_number (EV_Float _) = True" | "is_number _ = False"

text \<open>The constructor of the items of a default list; a truth value is no \<open>int\<close> here.\<close>

definition default_item_constructor :: "env_val list \<Rightarrow> item_constructor" where
  "default_item_constructor xs =
     (if xs \<noteq> [] \<and> list_all is_path xs then C_Path
      else if xs \<noteq> [] \<and> list_all is_int xs then C_Int
      else if xs \<noteq> [] \<and> list_all is_number xs then C_Float
      else C_Str)"

text \<open>What the first part of \<open>get_config_val\<close> decides to do with the text.\<close>

datatype parse_plan = P_List item_constructor | P_Dict | P_Type py_type | P_Text | P_Fail

fun plan_of :: "type_hint \<Rightarrow> env_val \<Rightarrow> parse_plan" where
  "plan_of (H_List a) d = (case item_constructor_of a of None \<Rightarrow> P_Fail | Some c \<Rightarrow> P_List c)"
| "plan_of H_Dict d = P_Dict"
| "plan_of (H_Type t) d = P_Type t"
| "plan_of H_Other d = P_Text"
| "plan_of H_Unset (EV_Path _) = P_Type Ty_Path"
| "plan_of H_Unset (EV_List xs) = P_List (default_item_constructor xs)"
| "plan_of H_Unset (EV_Dict _) = P_Dict"
| "plan_of H_Unset (EV_Bool _) = P_Type Ty_Bool"
| "plan_of H_Unset (EV_Int _) = P_Type Ty_Int"
| "plan_of H_Unset (EV_Float _) = P_Type Ty_Float"
| "plan_of H_Unset (EV_Str _) = P_Type Ty_Str"
| "plan_of H_Unset EV_None = P_Text"
| "plan_of H_Unset (EV_Other _) = P_Text"

definition result_map :: "('a \<Rightarrow> 'b) \<Rightarrow> py_exn + 'a \<Rightarrow> py_exn + 'b" where
  "result_map f r = (case r of Inl e \<Rightarrow> Inl e | Inr x \<Rightarrow> Inr (f x))"

fun run_plan ::
  "(string \<Rightarrow> jval option) \<Rightarrow> (jval \<Rightarrow> string) \<Rightarrow> string \<Rightarrow> string \<Rightarrow> parse_plan \<Rightarrow> py_exn + env_val" where
  "run_plan json_loads py_str key value P_Fail = Inl (ValueError key)"
| "run_plan json_loads py_str key value (P_List c) = result_map EV_List (parse_list json_loads py_str key value c)"
| "run_plan json_loads py_str key value P_Dict = result_map EV_Dict (parse_dict json_loads py_str key value)"
| "run_plan json_loads py_str key value (P_Type Ty_Str) = Inr (EV_Str value)"
| "run_plan json_loads py_str key value (P_Type Ty_Int) = result_map EV_Int (parse_int key value)"
| "run_plan json_loads py_str key value (P_Type Ty_Float) = result_map EV_Float (parse_float key value)"
| "run_plan json_loads py_str key value (P_Type Ty_Bool) = result_map EV_Bool (parse_bool key value)"
| "run_plan json_loads py_str key value (P_Type Ty_Path) = Inr (EV_Path value)"
| "run_plan json_loads py_str key value (P_Type Ty_None) = Inr (EV_Str value)"
| "run_plan json_loads py_str key value (P_Type (Ty_Class f)) = result_map EV_Other (f value)"
| "run_plan json_loads py_str key value P_Text = Inr (EV_Str value)"

definition get_config_val ::
  "(string \<Rightarrow> string option) \<Rightarrow> (string \<Rightarrow> jval option) \<Rightarrow> (jval \<Rightarrow> string) \<Rightarrow> string \<Rightarrow> env_val \<Rightarrow> type_hint \<Rightarrow>
   py_exn + env_val" where
  "get_config_val getenv json_loads py_str key dflt hint = (case getenv key of
       None \<Rightarrow> Inr dflt
     | Some value \<Rightarrow> run_plan json_loads py_str key value (plan_of hint dflt))"

text \<open>\<open>get_env\<close> defers the reading: the environment is the one at the call of its result.\<close>

definition get_env ::
  "(string \<Rightarrow> jval option) \<Rightarrow> (jval \<Rightarrow> string) \<Rightarrow> string \<Rightarrow> env_val \<Rightarrow> type_hint \<Rightarrow>
   (string \<Rightarrow> string option) \<Rightarrow> py_exn + env_val" where
  "get_env json_loads py_str key dflt hint getenv = get_config_val getenv json_loads py_str key dflt hint"

section \<open>The type of a value\<close>

fun is_str :: "env_val \<Rightarrow> bool" where "is_str (EV_Str _) = True" | "is_str _ = False"

fun is_float :: "env_val \<Rightarrow> bool" where "is_float (EV_Float _) = True" | "is_float _ = False"

fun item_is :: "item_constructor \<Rightarrow> env_val \<Rightarrow> bool" where
  "item_is C_Str = is_str"
| "item_is C_Int = is_int"
| "item_is C_Float = is_float"
| "item_is C_Path = is_path"

fun list_of :: "item_constructor \<Rightarrow> env_val \<Rightarrow> bool" where
  "list_of c (EV_List xs) = list_all (item_is c) xs"
| "list_of c _ = False"

fun is_dict :: "env_val \<Rightarrow> bool" where "is_dict (EV_Dict d) = distinct (map fst d)" | "is_dict _ = False"

fun scalar_is :: "py_type \<Rightarrow> env_val \<Rightarrow> bool" where
  "scalar_is Ty_Int x = is_int x"
| "scalar_is Ty_Float (EV_Float f) = (f \<noteq> NaN)"
| "scalar_is Ty_Float _ = False"
| "scalar_is Ty_Bool (EV_Bool _) = True"
| "scalar_is Ty_Bool _ = False"
| "scalar_is Ty_Path x = is_path x"
| "scalar_is (Ty_Class _) (EV_Other _) = True"
| "scalar_is (Ty_Class _) _ = False"
| "scalar_is _ x = is_str x"

text \<open>What a value read under a hint, or under a default without one, has to be.\<close>

fun fits :: "type_hint \<Rightarrow> env_val \<Rightarrow> env_val \<Rightarrow> bool" where
  "fits (H_List a) d x = (case item_constructor_of a of None \<Rightarrow> False | Some c \<Rightarrow> list_of c x)"
| "fits H_Dict d x = is_dict x"
| "fits (H_Type t) d x = scalar_is t x"
| "fits H_Other d x = is_str x"
| "fits H_Unset (EV_Int _) x = scalar_is Ty_Int x"
| "fits H_Unset (EV_Float _) x = scalar_is Ty_Float x"
| "fits H_Unset (EV_Bool _) x = scalar_is Ty_Bool x"
| "fits H_Unset (EV_Path _) x = scalar_is Ty_Path x"
| "fits H_Unset (EV_List xs) x = list_of (default_item_constructor xs) x"
| "fits H_Unset (EV_Dict _) x = is_dict x"
| "fits H_Unset _ x = is_str x"

lemma construct_text_is: "construct_text c s = Some x \<Longrightarrow> item_is c x"
  by (cases c) auto

lemma construct_json_is: "construct_json py_str c v = Some x \<Longrightarrow> item_is c x"
  by (induction py_str c v rule: construct_json.induct) (auto dest: construct_text_is)

lemma all_some_list_all:
  "all_some (map f xs) = Some ys \<Longrightarrow> (\<And>x y. f x = Some y \<Longrightarrow> P y) \<Longrightarrow> list_all P ys"
  by (induction xs arbitrary: ys) (auto split: option.splits)

lemma parse_list_result:
  "case parse_list json_loads py_str key val c of Inl e \<Rightarrow> e = ValueError key | Inr xs \<Rightarrow> list_all (item_is c) xs"
  by (auto simp: parse_list_def split: option.split jval.split
      dest: all_some_list_all [where P = "item_is c"] intro: construct_text_is construct_json_is
      elim!: all_some_list_all)

lemma dict_items_result:
  "distinct (map fst d) \<Longrightarrow> case dict_items key items d of Inl e \<Rightarrow> e = TypeError key | Inr d' \<Rightarrow> distinct (map fst d')"
  by (induction key items d rule: dict_items.induct) (auto simp: distinct_update)

lemma fold_update_distinct: "distinct (map fst d) \<Longrightarrow> distinct (map fst (fold (\<lambda>(k, v). AList.update k (f v)) kvs d))"
  by (induction kvs arbitrary: d) (auto simp: distinct_update)

lemma parse_dict_result:
  "case parse_dict json_loads py_str key val of Inl e \<Rightarrow> e = TypeError key | Inr d \<Rightarrow> distinct (map fst d)"
  using dict_items_result [of "[]" key "split_char CHR '','' val"]
  by (auto simp: parse_dict_def parse_dict_json_def parse_dict_comma_def fold_update_distinct
      split: option.splits jval.splits)

text \<open>A hint that is a class of its own fails as its constructor does.\<close>

fun own_class :: "type_hint \<Rightarrow> bool" where "own_class (H_Type (Ty_Class _)) = True" | "own_class _ = False"

lemma run_plan_result:
  assumes "\<not> own_class hint"
  shows "case run_plan json_loads py_str key val (plan_of hint d) of
    Inl e \<Rightarrow> e \<in> {ValueError key, TypeError key} | Inr x \<Rightarrow> fits hint d x"
proof -
  have L: "case result_map EV_List (parse_list json_loads py_str key val c) of
      Inl e \<Rightarrow> e \<in> {ValueError key, TypeError key} | Inr x \<Rightarrow> list_of c x" for c
    using parse_list_result [where json_loads = json_loads and py_str = py_str and key = key and val = val and c = c] by (auto simp: result_map_def split: sum.splits)
  have D: "case result_map EV_Dict (parse_dict json_loads py_str key val) of
      Inl e \<Rightarrow> e \<in> {ValueError key, TypeError key} | Inr x \<Rightarrow> is_dict x"
    using parse_dict_result [where json_loads = json_loads and py_str = py_str and key = key and val = val] by (auto simp: result_map_def split: sum.splits)
  have T: "case run_plan json_loads py_str key val (P_Type t) of
      Inl e \<Rightarrow> e \<in> {ValueError key, TypeError key} | Inr x \<Rightarrow> scalar_is t x" if "\<And>f. t \<noteq> Ty_Class f" for t
    using that by (cases t) (auto simp: result_map_def parse_int_def parse_float_def parse_bool_def Let_def
        split: sum.splits option.splits if_splits)
  show ?thesis
  proof (cases hint)
    case (H_List a)
    then show ?thesis using L by (cases "item_constructor_of a") (auto cong del: sum.case_cong_weak)
  next
    case H_Unset
    then show ?thesis using L D T by (cases d) (simp_all del: scalar_is.simps run_plan.simps(4-8) cong del: sum.case_cong_weak, simp_all)
  next
    case (H_Type t)
    with assms have "\<And>f. t \<noteq> Ty_Class f" by auto
    with H_Type T [of t] show ?thesis by (simp del: scalar_is.simps run_plan.simps cong del: sum.case_cong_weak)
  qed (use D in \<open>simp_all cong del: sum.case_cong_weak\<close>)
qed



section \<open>Round trips\<close>

fun env_join :: "string list \<Rightarrow> string" where
  "env_join [] = []"
| "env_join [x] = x"
| "env_join (x # y # xs) = x @ CHR '','' # env_join (y # xs)"

lemma split_char_ne [simp]: "split_char c s \<noteq> []"
  by (induction c s rule: split_char.induct) (auto split: list.splits)

lemma split_char_append: "c \<notin> set x \<Longrightarrow> split_char c (x @ c # s) = x # split_char c s"
  by (induction x) auto

lemma split_char_plain: "c \<notin> set x \<Longrightarrow> split_char c x = [x]"
  by (induction x) auto

lemma split_comma_join: "xs \<noteq> [] \<Longrightarrow> list_all (\<lambda>x. CHR '','' \<notin> set x) xs \<Longrightarrow> split_char CHR '','' (env_join xs) = xs"
  by (induction xs rule: env_join.induct) (simp_all add: split_char_plain split_char_append)

text \<open>A text written by hand: nothing to strip, no comma.\<close>

definition env_plain :: "string \<Rightarrow> bool" where
  "env_plain x \<longleftrightarrow> py_strip x = x \<and> CHR '','' \<notin> set x"

lemma all_some_map_Some: "(\<And>x. x \<in> set xs \<Longrightarrow> f x = Some (g x)) \<Longrightarrow> all_some (map f xs) = Some (map g xs)"
  by (induction xs) auto

text \<open>A list of texts written with commas reads as itself, unless it begins with a bracket.\<close>

lemma env_list_round_trip:
  assumes "xs \<noteq> []" and "list_all env_plain xs" and "\<not> prefix ''['' (env_join xs)"
  shows "parse_list json_loads py_str key (env_join xs) C_Str = Inr (map EV_Str xs)"
proof -
  have "list_all (\<lambda>x. CHR '','' \<notin> set x) xs" using assms(2) by (auto simp: list_all_iff env_plain_def)
  moreover have "all_some (map (\<lambda>item. construct_text C_Str (py_strip item)) xs) = Some (map EV_Str xs)"
    using assms(2) by (intro all_some_map_Some) (auto simp: list_all_iff env_plain_def)
  ultimately show ?thesis using assms(1,3) by (simp add: parse_list_def split_comma_join)
qed

lemma takeWhile_eq: "CHR ''='' \<notin> set k \<Longrightarrow> takeWhile (\<lambda>c. c \<noteq> CHR ''='') (k @ CHR ''='' # v) = k"
  by (induction k) auto

lemma dropWhile_eq: "CHR ''='' \<notin> set k \<Longrightarrow> dropWhile (\<lambda>c. c \<noteq> CHR ''='') (k @ CHR ''='' # v) = CHR ''='' # v"
  by (induction k) auto

lemma strip_ne: "c \<in> set s \<Longrightarrow> \<not> py_space c \<Longrightarrow> py_strip s \<noteq> []"
  by (auto simp: py_strip_def dropWhile_eq_Nil_conv) (metis in_set_conv_decomp dropWhile_append3 set_rev Un_iff set_append list.set_intros(1) takeWhile_dropWhile_id set_takeWhileD)

lemma update_fresh: "k \<notin> fst ` set d \<Longrightarrow> AList.update k v d = d @ [(k, v)]"
  by (induction d) auto

definition dict_item :: "string \<times> string \<Rightarrow> string" where
  "dict_item kv = fst kv @ CHR ''='' # snd kv"

lemma dict_items_run:
  assumes "list_all (\<lambda>(k, v). env_plain k \<and> env_plain v \<and> CHR ''='' \<notin> set k) kvs"
    and "distinct (map fst (d @ kvs))"
  shows "dict_items key (map dict_item kvs) d = Inr (d @ kvs)"
  using assms
proof (induction kvs arbitrary: d)
  case (Cons kv kvs)
  obtain k v where kv: "kv = (k, v)" by fastforce
  have eq: "\<not> py_space CHR ''=''" by (simp add: py_space_def code_point_def)
  have "CHR ''='' \<in> set (dict_item kv)" by (simp add: dict_item_def)
  with eq have "py_strip (dict_item kv) \<noteq> []" by (metis strip_ne)
  moreover have "k \<notin> fst ` set d" using Cons.prems(2) kv by auto
  ultimately have "dict_items key (map dict_item (kv # kvs)) d = dict_items key (map dict_item kvs) (d @ [kv])"
    using Cons.prems(1) kv by (simp add: dict_item_def takeWhile_eq dropWhile_eq env_plain_def update_fresh)
  then show ?case using Cons by simp
qed simp

text \<open>A dictionary written as \<open>k=v,...\<close> reads as itself, unless it begins with a brace.\<close>

lemma env_dict_round_trip:
  assumes "kvs \<noteq> []" and "list_all (\<lambda>(k, v). env_plain k \<and> env_plain v \<and> CHR ''='' \<notin> set k) kvs"
    and "distinct (map fst kvs)" and "\<not> prefix ''{'' (py_strip (env_join (map dict_item kvs)))"
  shows "parse_dict json_loads py_str key (env_join (map dict_item kvs)) = Inr kvs"
proof -
  have "list_all (\<lambda>x. CHR '','' \<notin> set x) (map dict_item kvs)"
    using assms(2) by (auto simp: list_all_iff dict_item_def env_plain_def)
  then show ?thesis using assms dict_items_run [of kvs "[]" key]
    by (simp add: parse_dict_def parse_dict_comma_def split_comma_join)
qed

text \<open>The two spellings with a capital in the tables are never compared with.\<close>

lemma parse_bool_values: "parse_bool key v = Inr True \<longleftrightarrow> py_lower (py_strip v) \<in> {''true'', ''1'', ''yes'', ''y'', ''t'', ''on''}"
proof -
  have "lower_char c \<noteq> CHR ''T''" for c
    by (auto simp: lower_char_def az_upper_def code_point_def dest!: arg_cong [where f = "of_char :: char \<Rightarrow> nat"])
  then have "py_lower w \<noteq> ''True''" for w by (cases w) (auto simp: py_lower_def)
  then show ?thesis by (auto simp: parse_bool_def true_values_def Let_def)
qed

end
