(* ===== verification/Kafka_Security.thy ===== *)
theory Kafka_Security
  imports Env_Config Rest_Client
begin

text \<open>
  The security of the connections to Kafka: the settings
  (\<open>libs/foundation/src/foundation/messaging/kafka/kafka_settings.py\<close>), the configuration made of them
  (\<open>kafka_security.py\<close>), the bundle of certificates carried in a variable (\<open>utils/ca_data_utils.py\<close>), and
  what the two clients are given (\<open>libs/messaging_kafka/src/messaging_kafka/aiokafka_security.py\<close>,
  \<open>libs/messaging_faststream/src/messaging_faststream/fs_security.py\<close>). The module \<open>ssl\<close> and the file
  system are parameters.
\<close>

section \<open>Certificates in a variable\<close>

definition pem_cert_marker :: string where
  "pem_cert_marker = ''-----BEGIN CERTIFICATE-----''"

definition base64_value :: "char \<Rightarrow> nat option" where
  "base64_value c = (if c \<in> set base64_alphabet then Some (length (takeWhile (\<lambda>x. x \<noteq> c) base64_alphabet)) else None)"

text \<open>\<open>base64.b64decode(s, validate=True)\<close>; \<open>None\<close> stands for \<open>binascii.Error\<close>.\<close>

fun b64decode :: "string \<Rightarrow> nat list option" where
  "b64decode [] = Some []"
| "b64decode (a # b # c # d # rest) =
     (case (base64_value a, base64_value b) of
        (Some x, Some y) \<Rightarrow>
          (case (base64_value c, base64_value d) of
             (Some z, Some w) \<Rightarrow> map_option (\<lambda>bs. (x * 4 + y div 16) # (y mod 16 * 16 + z div 4) # (z mod 4 * 64 + w) # bs) (b64decode rest)
           | (Some z, None) \<Rightarrow> if d = CHR ''='' \<and> rest = [] then Some [x * 4 + y div 16, y mod 16 * 16 + z div 4] else None
           | (None, None) \<Rightarrow> if c = CHR ''='' \<and> d = CHR ''='' \<and> rest = [] then Some [x * 4 + y div 16] else None
           | (None, Some w) \<Rightarrow> None)
      | _ \<Rightarrow> None)"
| "b64decode s = None"

text \<open>\<open>bs.decode('ascii')\<close>\<close>

definition ascii_decode :: "nat list \<Rightarrow> string option" where
  "ascii_decode bs = (if list_all (\<lambda>b. b < 128) bs then Some (map char_of bs) else None)"

text \<open>\<open>s.replace('\\n', '\n')\<close>: a backslash with an \<open>n\<close> becomes a newline.\<close>

fun unescape_newlines :: "string \<Rightarrow> string" where
  "unescape_newlines (b # n # cs) = (if code_point b = 92 \<and> n = CHR ''n'' then char_of (10 :: nat) # unescape_newlines cs
     else b # unescape_newlines (n # cs))"
| "unescape_newlines s = s"

definition normalize_ca_data :: "string \<Rightarrow> py_exn + string" where
  "normalize_ca_data raw =
     (let data = py_strip raw;
          compact = filter (\<lambda>c. \<not> py_space c) data;
          pem = (if sublist pem_cert_marker data then Inr data
                 else if \<not> list_all (\<lambda>c. code_point c < 128) compact
                 then Inl (ValueError ''string argument should contain only ASCII characters'')
                 else (case Option.bind (b64decode compact) ascii_decode of
                     None \<Rightarrow> Inl (ValueError ''KAFKA_CA_DATA is neither PEM nor base64-encoded PEM'')
                   | Some text \<Rightarrow> Inr (py_strip text))) in
      case pem of
        Inl e \<Rightarrow> Inl e
      | Inr data \<Rightarrow>
          (let data = py_strip (unescape_newlines data) in
           if \<not> sublist pem_cert_marker data then Inl (ValueError ''KAFKA_CA_DATA does not contain a block'')
           else Inr (data @ [char_of (10 :: nat)])))"

section \<open>The configuration\<close>

record kafka_security_settings =
  kx_protocol :: "string option"
  kx_sasl_mechanism :: "string option"
  kx_sasl_username :: "string option"
  kx_sasl_password :: "string option"
  kx_ssl_ca_location :: "string option"
  kx_ca_data :: "string option"
  kx_ssl_check_hostname :: bool
  kx_ssl_strict_verify :: bool

text \<open>The settings from the environment; a text or a truth value is read as declared.\<close>

definition optional_setting :: "(string \<Rightarrow> string option) \<Rightarrow> string \<Rightarrow> py_exn + string option" where
  "optional_setting getenv key =
     (case get_env (\<lambda>_. None) (\<lambda>_. []) key EV_None (H_Type Ty_Str) getenv of
        Inl e \<Rightarrow> Inl e
      | Inr (EV_Str s) \<Rightarrow> Inr (Some s)
      | Inr _ \<Rightarrow> Inr None)"

definition flag_setting :: "(string \<Rightarrow> string option) \<Rightarrow> string \<Rightarrow> py_exn + bool" where
  "flag_setting getenv key =
     (case get_env (\<lambda>_. None) (\<lambda>_. []) key (EV_Bool True) (H_Type Ty_Bool) getenv of
        Inl e \<Rightarrow> Inl e
      | Inr (EV_Bool b) \<Rightarrow> Inr b
      | Inr _ \<Rightarrow> Inr True)"

definition kafka_settings_read :: "(string \<Rightarrow> string option) \<Rightarrow> (unit, kafka_security_settings) eff" where
  "kafka_settings_read getenv =
     (let text_of = (\<lambda>key u. (optional_setting getenv key, u)); flag = (\<lambda>key u. (flag_setting getenv key, u)) in
      eff_bind (text_of ''KAFKA_SECURITY_PROTOCOL'') (\<lambda>protocol.
      eff_bind (text_of ''KAFKA_SASL_MECHANISM'') (\<lambda>mechanism.
      eff_bind (text_of ''KAFKA_SASL_USERNAME'') (\<lambda>username.
      eff_bind (text_of ''KAFKA_SASL_PASSWORD'') (\<lambda>password.
      eff_bind (text_of ''KAFKA_SSL_CA_LOCATION'') (\<lambda>ca_location.
      eff_bind (text_of ''KAFKA_CA_DATA'') (\<lambda>ca_data.
      eff_bind (flag ''KAFKA_SSL_CHECK_HOSTNAME'') (\<lambda>check_hostname.
      eff_bind (flag ''KAFKA_SSL_STRICT_VERIFY'') (\<lambda>strict_verify.
      eff_return \<lparr>kx_protocol = protocol, kx_sasl_mechanism = mechanism, kx_sasl_username = username,
        kx_sasl_password = password, kx_ssl_ca_location = ca_location, kx_ca_data = ca_data,
        kx_ssl_check_hostname = check_hostname, kx_ssl_strict_verify = strict_verify\<rparr>)))))))))"

text \<open>\<open>kafka_bootstrap_servers_list\<close>\<close>

definition kafka_bootstrap_servers_list :: "string \<Rightarrow> string list" where
  "kafka_bootstrap_servers_list s = filter (\<lambda>x. x \<noteq> []) (map py_strip (split_char CHR '','' s))"

datatype kafka_protocol = PLAINTEXT | SSL | SASL_SSL | SASL_PLAINTEXT

definition protocol_value :: "kafka_protocol \<Rightarrow> string" where
  "protocol_value p = (case p of PLAINTEXT \<Rightarrow> ''PLAINTEXT'' | SSL \<Rightarrow> ''SSL'' | SASL_SSL \<Rightarrow> ''SASL_SSL''
     | SASL_PLAINTEXT \<Rightarrow> ''SASL_PLAINTEXT'')"

text \<open>\<open>KafkaSecurityType(value)\<close>\<close>

definition protocol_of_value :: "string \<Rightarrow> py_exn + kafka_protocol" where
  "protocol_of_value v = (case find (\<lambda>p. protocol_value p = v) [PLAINTEXT, SSL, SASL_SSL, SASL_PLAINTEXT] of
       None \<Rightarrow> Inl (ValueError v)
     | Some p \<Rightarrow> Inr p)"

record kafka_security =
  ky_protocol :: kafka_protocol
  ky_sasl_mechanism :: "string option"
  ky_sasl_username :: "string option"
  ky_sasl_password :: "string option"
  ky_ssl_enabled :: bool
  ky_sasl_enabled :: bool
  ky_ssl_ca_location :: "string option"
  ky_ssl_ca_data :: "string option"
  ky_ssl_check_hostname :: bool
  ky_ssl_strict_verify :: bool

definition kafka_security_init :: "kafka_security_settings \<Rightarrow> py_exn + kafka_security" where
  "kafka_security_init cfg =
     (case protocol_of_value (or_str (kx_protocol cfg) (protocol_value PLAINTEXT)) of
        Inl e \<Rightarrow> Inl e
      | Inr p \<Rightarrow>
          if (p = PLAINTEXT \<or> p = SSL) \<and> kx_sasl_mechanism cfg \<noteq> None then Inl (ValueError ''Invalid configuration'')
          else Inr \<lparr>ky_protocol = p, ky_sasl_mechanism = kx_sasl_mechanism cfg, ky_sasl_username = kx_sasl_username cfg,
            ky_sasl_password = kx_sasl_password cfg, ky_ssl_enabled = suffix ''_SSL'' (protocol_value p),
            ky_sasl_enabled = prefix ''SASL_'' (protocol_value p), ky_ssl_ca_location = kx_ssl_ca_location cfg,
            ky_ssl_ca_data = kx_ca_data cfg, ky_ssl_check_hostname = kx_ssl_check_hostname cfg,
            ky_ssl_strict_verify = kx_ssl_strict_verify cfg\<rparr>)"

text \<open>\<open>kafka_ssl_trust_source\<close>; \<open>str\<close> of a length is a parameter.\<close>

definition kafka_ssl_trust_source :: "(nat \<Rightarrow> string) \<Rightarrow> kafka_security \<Rightarrow> string" where
  "kafka_ssl_trust_source str c =
     (if str_truthy (ky_ssl_ca_location c) then ''file:'' @ or_str (ky_ssl_ca_location c) []
      else if str_truthy (ky_ssl_ca_data c)
        then ''inline KAFKA_CA_DATA ('' @ str (length (or_str (ky_ssl_ca_data c) [])) @ '' chars)''
      else ''system trust store'')"

section \<open>Contexts of TLS\<close>

datatype trust_anchor = Ca_file string | Ca_data string | System_store

record ssl_context =
  sc_anchor :: trust_anchor
  sc_strict :: bool
  sc_check_hostname :: bool

text \<open>\<open>Path.expanduser\<close>, \<open>Path.is_file\<close> and the failures of \<open>ssl.create_default_context\<close>.\<close>

record ssl_env =
  se_expanduser :: "string \<Rightarrow> string"
  se_is_file :: "string \<Rightarrow> bool"
  se_load :: "trust_anchor \<Rightarrow> py_exn option"

definition create_default_context :: "ssl_env \<Rightarrow> trust_anchor \<Rightarrow> py_exn + ssl_context" where
  "create_default_context env a = (case se_load env a of
       Some e \<Rightarrow> Inl e
     | None \<Rightarrow> Inr \<lparr>sc_anchor = a, sc_strict = True, sc_check_hostname = True\<rparr>)"

definition build_ssl_context ::
  "ssl_env \<Rightarrow> string option \<Rightarrow> string option \<Rightarrow> bool \<Rightarrow> bool \<Rightarrow> py_exn + ssl_context" where
  "build_ssl_context env ca_location ca_data check_hostname strict_verify =
     (let made = (if str_truthy ca_location then
            (let ca_path = se_expanduser env (or_str ca_location []) in
             if \<not> se_is_file env ca_path then Inl (FileNotFoundError ca_path)
             else create_default_context env (Ca_file ca_path))
          else if str_truthy ca_data then
            (case normalize_ca_data (or_str ca_data []) of
               Inl e \<Rightarrow> Inl e
             | Inr pem \<Rightarrow> create_default_context env (Ca_data pem))
          else create_default_context env System_store) in
      result_map (\<lambda>context. context\<lparr>sc_strict := strict_verify, sc_check_hostname := check_hostname\<rparr>) made)"

definition build_kafka_ssl_context :: "ssl_env \<Rightarrow> kafka_security \<Rightarrow> py_exn + ssl_context option" where
  "build_kafka_ssl_context env c =
     (if \<not> ky_ssl_enabled c then Inr None
      else result_map Some (build_ssl_context env (ky_ssl_ca_location c) (ky_ssl_ca_data c)
        (ky_ssl_check_hostname c) (ky_ssl_strict_verify c)))"

section \<open>What the clients are given\<close>

text \<open>The security arguments of a client of aiokafka; what is not given is \<open>None\<close>.\<close>

record client_security =
  ck_security_protocol :: "string option"
  ck_sasl_mechanism :: "string option"
  ck_sasl_username :: "string option"
  ck_sasl_password :: "string option"
  ck_ssl_context :: "ssl_context option"

definition no_client_security :: client_security where
  "no_client_security = \<lparr>ck_security_protocol = None, ck_sasl_mechanism = None, ck_sasl_username = None,
     ck_sasl_password = None, ck_ssl_context = None\<rparr>"

definition get_aiokafka_security_kwargs :: "ssl_env \<Rightarrow> kafka_security \<Rightarrow> py_exn + client_security" where
  "get_aiokafka_security_kwargs env c =
     (case (if ky_ssl_enabled c then build_kafka_ssl_context env c else Inr None) of
        Inl e \<Rightarrow> Inl e
      | Inr context \<Rightarrow>
          Inr (if ky_ssl_enabled c then
            \<lparr>ck_security_protocol = Some (if ky_ssl_enabled c then ''SASL_SSL'' else ''SASL_PLAINTEXT''),
             ck_sasl_mechanism = Some ''PLAIN'', ck_sasl_username = ky_sasl_username c,
             ck_sasl_password = ky_sasl_password c, ck_ssl_context = context\<rparr>
           else no_client_security))"

datatype broker_security =
    Base_security "ssl_context option" bool
  | Sasl_security string string string "ssl_context option" bool

definition faststream_mechanisms :: "string list" where
  "faststream_mechanisms = [''PLAIN'', ''SCRAM-SHA-256'', ''SCRAM-SHA-512'']"

definition build_faststream_broker_security :: "ssl_env \<Rightarrow> kafka_security \<Rightarrow> py_exn + broker_security option" where
  "build_faststream_broker_security env c =
     (if \<not> (ky_ssl_enabled c \<or> ky_sasl_enabled c) then Inr None
      else (case build_kafka_ssl_context env c of
          Inl e \<Rightarrow> Inl e
        | Inr context \<Rightarrow>
            if \<not> ky_sasl_enabled c then Inr (Some (Base_security context (ky_ssl_enabled c)))
            else (let mechanism = or_str (ky_sasl_mechanism c) [] in
              if mechanism \<notin> set faststream_mechanisms then Inl (ValueError mechanism)
              else Inr (Some (Sasl_security mechanism (or_str (ky_sasl_username c) []) (or_str (ky_sasl_password c) [])
                context (ky_ssl_enabled c))))))"

section \<open>Which connections are as configured\<close>

text \<open>The protocol a client of aiokafka speaks: without the argument it is PLAINTEXT.\<close>

definition wire_protocol :: "client_security \<Rightarrow> string" where
  "wire_protocol k = or_str (ck_security_protocol k) (protocol_value PLAINTEXT)"

lemma protocol_of_value_iff: "protocol_of_value v = Inr p \<longleftrightarrow> v = protocol_value p"
  by (cases p) (auto simp: protocol_of_value_def protocol_value_def split: if_splits)

lemma protocol_flags:
  "suffix ''_SSL'' (protocol_value p) \<longleftrightarrow> p = SASL_SSL" "prefix ''SASL_'' (protocol_value p) \<longleftrightarrow> p = SASL_SSL \<or> p = SASL_PLAINTEXT"
  by (cases p; simp add: protocol_value_def suffix_def; auto dest: arg_cong [where f = length])+

lemma protocol_value_inject: "protocol_value p = protocol_value q \<longleftrightarrow> p = q"
  by (cases p; cases q) (simp_all add: protocol_value_def)

lemma or_str_text [simp]: "or_str (Some (x # xs)) d = x # xs"
  by (simp add: or_str_def)

lemma build_ssl_context_hostname: "build_ssl_context env loc data h st = Inr x \<Longrightarrow> sc_check_hostname x = h"
  by (auto simp: build_ssl_context_def result_map_def Let_def split: sum.splits)

text \<open>Which settings are accepted: a known protocol, in its exact spelling, and no mechanism without SASL.\<close>

lemma kafka_security_accepts:
  "kafka_security_init cfg = Inr c \<Longrightarrow>
    or_str (kx_protocol cfg) ''PLAINTEXT'' = protocol_value (ky_protocol c) \<and>
    (ky_protocol c \<in> {PLAINTEXT, SSL} \<longrightarrow> kx_sasl_mechanism cfg = None) \<and>
    ky_ssl_enabled c = (ky_protocol c = SASL_SSL) \<and>
    ky_sasl_enabled c = (ky_protocol c \<in> {SASL_SSL, SASL_PLAINTEXT}) \<and> ky_sasl_mechanism c = kx_sasl_mechanism cfg"
  by (auto simp: kafka_security_init_def protocol_of_value_iff protocol_flags protocol_value_def [of PLAINTEXT]
      split: sum.splits if_splits)


definition demo_kafka_settings :: kafka_security_settings where
  "demo_kafka_settings = \<lparr>kx_protocol = Some ''SSL'', kx_sasl_mechanism = None, kx_sasl_username = None, kx_sasl_password = None,
     kx_ssl_ca_location = Some ''/etc/ca.pem'', kx_ca_data = None, kx_ssl_check_hostname = True, kx_ssl_strict_verify = True\<rparr>"

definition demo_ssl_env :: ssl_env where
  "demo_ssl_env = \<lparr>se_expanduser = (\<lambda>p. p), se_is_file = (\<lambda>_. True), se_load = (\<lambda>_. None)\<rparr>"


text \<open>An empty variable is not an unset one: it is a mechanism, which PLAINTEXT refuses.\<close>

lemma empty_mechanism_refused:
  "kafka_security_init (demo_kafka_settings\<lparr>kx_protocol := None, kx_sasl_mechanism := Some []\<rparr>) =
    Inl (ValueError ''Invalid configuration'')"
  by (simp add: kafka_security_init_def protocol_of_value_def protocol_value_def or_str_def)

section \<open>One bundle in three shapes\<close>

lemma base64_value_digit: "base64_value (base64_digit n) = Some (n mod 64)"
proof -
  have l: "n mod 64 < length base64_alphabet" and d: "distinct base64_alphabet" by (simp_all add: base64_alphabet_def)
  have "takeWhile (\<lambda>x. x \<noteq> base64_alphabet ! (n mod 64)) base64_alphabet = take (n mod 64) base64_alphabet"
    using l d by (intro takeWhile_eq_take_P_nth) (auto simp: nth_eq_iff_index_eq)
  with l show ?thesis by (simp add: base64_value_def base64_digit_def)
qed

lemma base64_value_pad: "base64_value CHR ''='' = None"
  by (simp add: base64_value_def base64_alphabet_def)

lemma base64_value_small: "n < 64 \<Longrightarrow> base64_value (base64_digit n) = Some n"
  by (simp add: base64_value_digit)

lemma quartet:
  fixes a b c :: nat
  assumes "a < 256" "b < 256" "c < 256"
  shows "a div 4 < 64" "a mod 4 * 16 + b div 16 < 64" "b mod 16 * 4 + c div 64 < 64"
    "(a mod 4 * 16 + b div 16) div 16 = a mod 4" "(a mod 4 * 16 + b div 16) mod 16 = b div 16"
    "(b mod 16 * 4 + c div 64) div 4 = b mod 16" "(b mod 16 * 4 + c div 64) mod 4 = c div 64"
proof -
  have b: "b div 16 < 16" and c: "c div 64 < 4" and "a div 4 < 64" using assms by simp_all
  then show "a div 4 < 64" "a mod 4 * 16 + b div 16 < 64" "b mod 16 * 4 + c div 64 < 64"
    using mod_less_divisor [of 4 a] mod_less_divisor [of 16 b] by linarith+
  show "(a mod 4 * 16 + b div 16) div 16 = a mod 4" "(a mod 4 * 16 + b div 16) mod 16 = b div 16"
    "(b mod 16 * 4 + c div 64) div 4 = b mod 16" "(b mod 16 * 4 + c div 64) mod 4 = c div 64"
    using b c by simp_all
qed

lemma b64_round_trip: "list_all (\<lambda>b. b < 256) bs \<Longrightarrow> b64decode (b64encode bs) = Some bs"
proof (induction bs rule: b64encode.induct)
  case (2 a)
  then show ?case using quartet [of a 0 0] by (simp add: base64_value_small base64_value_pad)
next
  case (3 a b)
  then have "b div 16 < 16" by auto
  with 3 show ?case using quartet [of a b 0] by (simp add: base64_value_small base64_value_pad)
next
  case (4 a b c bs)
  then have "b div 16 < 16" "c div 64 < 4" by auto
  with 4 show ?case using quartet [of a b c] by (simp add: base64_value_small)
qed simp

lemma base64_text: "set (b64encode bs) \<subseteq> insert (CHR ''='') (set base64_alphabet)"
proof -
  have d: "base64_digit n \<in> set base64_alphabet" for n
    unfolding base64_digit_def by (rule nth_mem) (simp add: base64_alphabet_def)
  show ?thesis by (induction bs rule: b64encode.induct) (use d in auto)
qed

lemma base64_text_chars: "c \<in> set (b64encode bs) \<Longrightarrow> \<not> py_space c \<and> c \<noteq> CHR ''-''"
proof -
  have "list_all (\<lambda>c. \<not> py_space c \<and> c \<noteq> CHR ''-'') (CHR ''='' # base64_alphabet)"
    by (simp add: base64_alphabet_def py_space_def code_point_def)
  then show "c \<in> set (b64encode bs) \<Longrightarrow> ?thesis" using base64_text [of bs] by (auto simp: list_all_iff)
qed

lemma dropWhile_all: "list_all P xs \<Longrightarrow> dropWhile P (xs @ ys) = dropWhile P ys"
  by (induction xs) auto

lemma py_strip_padded:
  assumes "list_all py_space v" and "list_all py_space w" and "s \<noteq> []" and "\<not> py_space (hd s)" and "\<not> py_space (last s)"
  shows "py_strip (v @ s @ w) = s"
proof -
  have "dropWhile py_space (v @ s @ w) = s @ w" using assms by (cases s) (simp_all add: dropWhile_all)
  moreover have "dropWhile py_space (rev w @ rev s) = rev s"
    using assms by (simp add: dropWhile_all dropWhile_eq_self_iff hd_rev)
  ultimately show ?thesis by (simp add: py_strip_def)
qed

lemma py_strip_plain: "s \<noteq> [] \<Longrightarrow> \<not> py_space (hd s) \<Longrightarrow> \<not> py_space (last s) \<Longrightarrow> py_strip s = s"
  using py_strip_padded [of "[]" "[]" s] by simp

text \<open>A text that a store has flattened: its newlines are written as a backslash and an \<open>n\<close>.\<close>

definition flatten_newlines :: "string \<Rightarrow> string" where
  "flatten_newlines s = concat (map (\<lambda>c. if code_point c = 10 then [char_of (92 :: nat), CHR ''n''] else [c]) s)"

lemma unescape_plain: "list_all (\<lambda>c. code_point c \<noteq> 92) s \<Longrightarrow> unescape_newlines s = s"
  by (induction s rule: unescape_newlines.induct) auto

declare code_point_char_of [simp]

lemma unescape_cons: "code_point c \<noteq> 92 \<Longrightarrow> unescape_newlines (c # cs) = c # unescape_newlines cs"
  by (cases cs) auto

lemma flatten_simps [simp]: "flatten_newlines [] = []"
  "flatten_newlines (c # cs) = (if code_point c = 10 then [char_of (92 :: nat), CHR ''n''] else [c]) @ flatten_newlines cs"
  "flatten_newlines (s @ t) = flatten_newlines s @ flatten_newlines t"
  by (simp_all add: flatten_newlines_def)

lemma char_of_code_point: "char_of (code_point c) = c"
  by (simp add: code_point_def)

lemma unescape_flatten: "list_all (\<lambda>c. code_point c \<noteq> 92) s \<Longrightarrow> unescape_newlines (flatten_newlines s) = s"
proof (induction s)
  case (Cons c cs)
  then show ?case using char_of_code_point [of c] by (auto simp: unescape_cons)
qed simp

lemma py_space_newline: "code_point c = 10 \<Longrightarrow> py_space c"
  by (simp add: py_space_def)

lemma flatten_ends:
  assumes "s \<noteq> []" "\<not> py_space (hd s)" "\<not> py_space (last s)"
  shows "flatten_newlines s \<noteq> []" "hd (flatten_newlines s) = hd s" "last (flatten_newlines s) = last s"
proof -
  obtain t c where s: "s = t @ [c]" using assms(1) by (cases s rule: rev_cases) auto
  have "code_point c \<noteq> 10" using assms(3) py_space_newline s by auto
  then show "flatten_newlines s \<noteq> []" "last (flatten_newlines s) = last s" by (simp_all add: s)
  show "hd (flatten_newlines s) = hd s" using assms(1,2) py_space_newline by (cases s) auto
qed

lemma flatten_marker: "sublist pem_cert_marker s \<Longrightarrow> sublist pem_cert_marker (flatten_newlines s)"
proof -
  have "flatten_newlines pem_cert_marker = pem_cert_marker" by (simp add: pem_cert_marker_def code_point_def)
  then show "sublist pem_cert_marker s \<Longrightarrow> ?thesis" by (auto simp: sublist_def) metis
qed

lemma filter_dropWhile: "filter (\<lambda>c. \<not> P c) (dropWhile P s) = filter (\<lambda>c. \<not> P c) s"
  by (induction s) auto

lemma filter_py_strip: "filter (\<lambda>c. \<not> py_space c) (py_strip s) = filter (\<lambda>c. \<not> py_space c) s"
  by (simp add: py_strip_def filter_dropWhile flip: rev_filter)

lemma set_py_strip: "set (py_strip s) \<subseteq> set s"
  by (auto simp: py_strip_def dest!: set_dropWhileD)

lemma base64_no_marker:
  assumes "filter (\<lambda>c. \<not> py_space c) t = b64encode bs"
  shows "\<not> sublist pem_cert_marker (py_strip t)"
proof
  assume "sublist pem_cert_marker (py_strip t)"
  then have "CHR ''-'' \<in> set (py_strip t)" by (auto simp: sublist_def pem_cert_marker_def)
  then have "CHR ''-'' \<in> set t" using set_py_strip by auto
  moreover have "\<not> py_space CHR ''-''" by (simp add: py_space_def code_point_def)
  ultimately have "CHR ''-'' \<in> set (filter (\<lambda>c. \<not> py_space c) t)" by simp
  then show False using base64_text_chars assms by auto
qed

lemma base64_ascii: "list_all (\<lambda>c. code_point c < 128) (b64encode bs)"
proof -
  have "list_all (\<lambda>c. code_point c < 128) (CHR ''='' # base64_alphabet)"
    by (simp add: base64_alphabet_def code_point_def)
  then show ?thesis using base64_text [of bs] by (auto simp: list_all_iff)
qed

text \<open>A bundle as a person would write it: it contains a certificate, has no backslash and no space around it.\<close>

definition pem_text :: "string \<Rightarrow> bool" where
  "pem_text s \<longleftrightarrow> sublist pem_cert_marker s \<and> list_all (\<lambda>c. code_point c < 128 \<and> code_point c \<noteq> 92) s
     \<and> \<not> py_space (hd s) \<and> \<not> py_space (last s)"

lemma pem_text_facts:
  assumes "pem_text s"
  shows "s \<noteq> []" "py_strip s = s" "unescape_newlines s = s" "unescape_newlines (flatten_newlines s) = s"
    "py_strip (flatten_newlines s) = flatten_newlines s" "ascii_decode (map code_point s) = Some s"
proof -
  show n: "s \<noteq> []" using assms by (auto simp: pem_text_def pem_cert_marker_def)
  show "py_strip s = s" using assms n by (simp add: pem_text_def py_strip_plain)
  have b: "list_all (\<lambda>c. code_point c \<noteq> 92) s" using assms by (auto simp: pem_text_def list_all_iff)
  then show "unescape_newlines s = s" "unescape_newlines (flatten_newlines s) = s"
    by (simp_all add: unescape_plain unescape_flatten)
  have h: "\<not> py_space (hd s)" "\<not> py_space (last s)" using assms by (simp_all add: pem_text_def)
  show "py_strip (flatten_newlines s) = flatten_newlines s"
    using flatten_ends [OF n h] h by (simp add: py_strip_plain)
  have "map (char_of \<circ> code_point) s = s" by (simp add: char_of_code_point map_idI)
  then show "ascii_decode (map code_point s) = Some s"
    using assms by (auto simp: ascii_decode_def pem_text_def list_all_iff)
qed

text \<open>C20: A bundle of certificates arrives unchanged in every shape that the deployment may give it: as it is with
  white space around it, flattened to one line with its newlines written as a backslash and an \<open>n\<close>, or in base64,
  broken over lines or not; OpenSSL is given the text with the newline it needs at the end.\<close>

theorem ca_bundle_shapes:
  assumes "pem_text pem" and "list_all py_space v" and "list_all py_space w"
    and "filter (\<lambda>c. \<not> py_space c) t = b64encode (map code_point pem)"
  shows "normalize_ca_data (v @ pem @ w) = Inr (pem @ [char_of (10 :: nat)])
    \<and> normalize_ca_data (flatten_newlines pem) = Inr (pem @ [char_of (10 :: nat)])
    \<and> normalize_ca_data t = Inr (pem @ [char_of (10 :: nat)])"
proof (intro conjI)
  note f = pem_text_facts [OF assms(1)]
  have m: "sublist pem_cert_marker pem" and h: "\<not> py_space (hd pem)" "\<not> py_space (last pem)"
    using assms(1) by (simp_all add: pem_text_def)
  show "normalize_ca_data (v @ pem @ w) = Inr (pem @ [char_of (10 :: nat)])"
    using py_strip_padded [OF assms(2,3) f(1) h] m f by (simp add: normalize_ca_data_def)
  show "normalize_ca_data (flatten_newlines pem) = Inr (pem @ [char_of (10 :: nat)])"
    using flatten_marker [OF m] m f by (simp add: normalize_ca_data_def)
  have "list_all (\<lambda>b. b < 256) (map code_point pem)" using assms(1) by (auto simp: pem_text_def list_all_iff)
  from b64_round_trip [OF this] show "normalize_ca_data t = Inr (pem @ [char_of (10 :: nat)])"
    using base64_no_marker [OF assms(4)] assms(4) m f base64_ascii by (simp add: normalize_ca_data_def filter_py_strip)
qed

definition demo_pem :: string where
  "demo_pem = pem_cert_marker @ [char_of (10 :: nat)] @ ''MIIB''"

theorem ca_bundle_shapes_witness:
  "normalize_ca_data ('' '' @ demo_pem @ ''  '') = Inr (demo_pem @ [char_of (10 :: nat)])
    \<and> normalize_ca_data (flatten_newlines demo_pem) = Inr (demo_pem @ [char_of (10 :: nat)])
    \<and> normalize_ca_data ('' '' @ b64encode (map code_point demo_pem)) = Inr (demo_pem @ [char_of (10 :: nat)])"
proof (rule ca_bundle_shapes)
  show "pem_text demo_pem"
    by (simp add: pem_text_def demo_pem_def sublist_appendI prefix_imp_sublist)
      (simp add: pem_cert_marker_def code_point_def py_space_def)
  show "list_all py_space '' ''" "list_all py_space ''  ''" by (simp_all add: py_space_def code_point_def)
  have "\<forall>c \<in> set (b64encode (map code_point demo_pem)). \<not> py_space c" using base64_text_chars by blast
  then show "filter (\<lambda>c. \<not> py_space c) ('' '' @ b64encode (map code_point demo_pem)) = b64encode (map code_point demo_pem)"
    by (simp add: py_space_def code_point_def)
qed

end
