(* ===== verification/Email_Delivery.thy ===== *)
theory Email_Delivery
  imports Env_Config Rest_Client
begin

text \<open>
  \<open>libs/foundation/src/foundation/email\<close>: messages (\<open>types.py\<close>), the service that builds and sends them
  (\<open>service.py\<close>), the backends (\<open>backends/base.py\<close>, \<open>smtp.py\<close>, \<open>resend.py\<close>, \<open>sendgrid.py\<close>) and their choice
  (\<open>backends/__init__.py\<close>, \<open>config.py\<close>, \<open>email_settings.py\<close>). The client of SMTP, the HTTP transport, the
  storage of templates, and the reading and writing of an address with a name by \<open>email.utils\<close> are parameters. The package
  has each class of exceptions twice (\<open>email/exceptions.py\<close>, \<open>exceptions/exceptions.py\<close>); one constructor
  stands for both, as no code modelled here tells them apart. Texts of exceptions are left out.
\<close>

section \<open>Messages\<close>

record email_message =
  em_subject :: string
  em_body :: "string option"
  em_from_email :: "string option"
  em_to :: "string list"
  em_cc :: "string list"
  em_bcc :: "string list"
  em_reply_to :: "string list"
  em_headers :: "(string \<times> string) list"
  em_attachments :: "(string \<times> nat list \<times> string) list"
  em_alternatives :: "(string \<times> string) list"

definition mail_attach :: "string \<Rightarrow> nat list \<Rightarrow> string \<Rightarrow> email_message \<Rightarrow> email_message" where
  "mail_attach filename content mimetype m = m\<lparr>em_attachments := em_attachments m @ [(filename, content, mimetype)]\<rparr>"

definition attach_alternative :: "string \<Rightarrow> string \<Rightarrow> email_message \<Rightarrow> email_message" where
  "attach_alternative content mimetype m = m\<lparr>em_alternatives := em_alternatives m @ [(content, mimetype)]\<rparr>"

definition mail_recipients :: "email_message \<Rightarrow> string list" where
  "mail_recipients m = em_to m @ em_cc m @ em_bcc m"

text \<open>\<open>EmailMultiAlternatives.__post_init__\<close>\<close>

definition multi_alternatives :: "string option \<Rightarrow> email_message \<Rightarrow> email_message" where
  "multi_alternatives html_body m = (case html_body of None \<Rightarrow> m | Some h \<Rightarrow> attach_alternative h ''text/html'' m)"

section \<open>Building a message\<close>

record 'w mail_env =
  ms_subject_prefix :: string
  ms_from_email :: string
  ms_get_template :: "string \<Rightarrow> ('w, string) eff"
  ms_render_template :: "string \<Rightarrow> (string \<times> string) list \<Rightarrow> ('w, string) eff"

record mail_request =
  mr_template :: string
  mr_context :: "(string \<times> string) list"
  mr_to :: "string list"
  mr_subject :: "string option"
  mr_from_email :: "string option"
  mr_cc :: "string list option"
  mr_bcc :: "string list option"
  mr_attachments :: "(string \<times> nat list \<times> string) list option"
  mr_alternatives :: "(string \<times> string) list option"

definition or_list :: "'a list option \<Rightarrow> 'a list" where
  "or_list x = (case x of None \<Rightarrow> [] | Some xs \<Rightarrow> xs)"

text \<open>
  The message, and the list of alternatives of the caller afterwards: unless it is empty it is the list of the
  message, so the body is appended to it.
\<close>

definition mail_build_message :: "'w mail_env \<Rightarrow> mail_request \<Rightarrow> ('w, email_message \<times> (string \<times> string) list option) eff" where
  "mail_build_message env r =
     eff_bind (ms_get_template env (mr_template r)) (\<lambda>template_content.
     eff_bind (ms_render_template env template_content (mr_context r)) (\<lambda>body.
     let subject = ms_subject_prefix env @ (case mr_subject r of None \<Rightarrow> ''None'' | Some s \<Rightarrow> s);
         m = multi_alternatives (Some body)
           \<lparr>em_subject = subject, em_body = None, em_from_email = Some (or_str (mr_from_email r) (ms_from_email env)),
            em_to = mr_to r, em_cc = or_list (mr_cc r), em_bcc = or_list (mr_bcc r), em_reply_to = [], em_headers = [],
            em_attachments = or_list (mr_attachments r), em_alternatives = or_list (mr_alternatives r)\<rparr>
     in eff_return (m, if or_list (mr_alternatives r) = [] then mr_alternatives r else Some (em_alternatives m))))"

section \<open>What the backends share\<close>

text \<open>
  \<open>parseaddr\<close> and \<open>formataddr\<close>, which refuses an address that is not ASCII; and whether a part with a name
  and a type is accepted as an attachment.
\<close>

record mail_lib =
  ml_parseaddr :: "string \<Rightarrow> string \<times> string"
  ml_formataddr :: "string \<Rightarrow> string \<Rightarrow> string option"
  ml_part_accepted :: "string \<Rightarrow> nat list \<Rightarrow> string \<Rightarrow> string \<Rightarrow> bool"

record mail_settings =
  mb_fail_silently :: bool
  mb_default_from_email :: "string option"
  mb_default_from_name :: "string option"

definition resolve_from :: "mail_lib \<Rightarrow> mail_settings \<Rightarrow> email_message \<Rightarrow> py_exn + string \<times> string \<times> string" where
  "resolve_from lib c m =
     (let raw_from = or_str (em_from_email m) (or_str (mb_default_from_email c) []) in
      case ml_parseaddr lib raw_from of (name, email) \<Rightarrow>
        (let name = (if name = [] \<and> str_truthy (mb_default_from_name c) then or_str (mb_default_from_name c) [] else name) in
         if email = [] then Inr (email, name, [])
         else (case ml_formataddr lib name email of None \<Rightarrow> Inl (ValueError email) | Some formatted \<Rightarrow> Inr (email, name, formatted))))"

text \<open>The state of a backend: whether it holds a connection, and the outside.\<close>

definition set_connection :: "bool \<Rightarrow> (bool \<times> 'w, unit) eff" where
  "set_connection b = eff_modify (\<lambda>s. (b, snd s))"

text \<open>The loop over the messages; \<open>reraise\<close> tells which exceptions leave it as they are.\<close>

primrec send_loop ::
  "(email_message \<Rightarrow> ('s, unit) eff) \<Rightarrow> (py_exn \<Rightarrow> bool) \<Rightarrow> bool \<Rightarrow> email_message list \<Rightarrow> nat \<Rightarrow> ('s, nat) eff" where
  "send_loop send reraise silently [] num_sent = eff_return num_sent"
| "send_loop send reraise silently (m # ms) num_sent =
     eff_bind (eff_catch (eff_bind (send m) (\<lambda>_. eff_return (num_sent + 1))) is_exception
       (\<lambda>e. if reraise e then eff_raise e else if \<not> silently then eff_raise EmailDeliveryError else eff_return num_sent))
     (send_loop send reraise silently ms)"

definition backend_send ::
  "('s, bool) eff \<Rightarrow> ('s, unit) eff \<Rightarrow> (email_message \<Rightarrow> ('s, unit) eff) \<Rightarrow> (py_exn \<Rightarrow> bool) \<Rightarrow> bool \<Rightarrow>
   email_message list \<Rightarrow> ('s, nat) eff" where
  "backend_send opens closes send reraise silently ms =
     (if ms = [] then eff_return 0
      else eff_bind opens (\<lambda>new_connection.
        eff_finally (send_loop send reraise silently ms 0) (if new_connection then closes else eff_return ())))"

section \<open>SMTP\<close>

text \<open>A message of the module \<open>email\<close>.\<close>

record std_message =
  sd_headers :: "(string \<times> string) list"
  sd_text :: string
  sd_html :: "string list"
  sd_parts :: "(string \<times> nat list \<times> string \<times> string) list"

definition line_break :: "char \<Rightarrow> bool" where
  "line_break c \<longleftrightarrow> code_point c \<in> {10..13} \<union> {28..30} \<union> {133}"

text \<open>\<open>len(s.splitlines()) > 1\<close>\<close>

fun multi_line :: "string \<Rightarrow> bool" where
  "multi_line [] = False"
| "multi_line (c # cs) = (if line_break c
     then (case cs of [] \<Rightarrow> False | d # ds \<Rightarrow> if code_point c = 13 \<and> code_point d = 10 then ds \<noteq> [] else True)
     else multi_line cs)"

text \<open>The headers of which there may be one at most.\<close>

definition single_headers :: "string list" where
  "single_headers = [''subject'', ''date'', ''orig-date'', ''from'', ''sender'', ''reply-to'', ''to'', ''cc'', ''bcc'',
     ''mime-version'', ''content-type'', ''content-disposition'', ''content-transfer-encoding'', ''message-id'']"

text \<open>\<open>msg[key] = value\<close>\<close>

definition set_header :: "string \<Rightarrow> string \<Rightarrow> (std_message, unit) eff" where
  "set_header key v = eff_bind (eff_get sd_headers) (\<lambda>hs.
     if py_lower key \<in> set single_headers \<and> py_lower key \<in> set (map (py_lower \<circ> fst) hs) then eff_raise (ValueError key)
     else if multi_line v then eff_raise (ValueError key)
     else eff_modify (\<lambda>s. s\<lparr>sd_headers := sd_headers s @ [(key, v)]\<rparr>))"

text \<open>\<open>msg.set_content(body)\<close>: there is no handler for \<open>None\<close>.\<close>

definition set_content :: "string option \<Rightarrow> (std_message, unit) eff" where
  "set_content body = (case body of None \<Rightarrow> eff_raise (KeyError ''NoneType'') | Some b \<Rightarrow> eff_modify (\<lambda>s. s\<lparr>sd_text := b\<rparr>))"

definition add_attachment :: "mail_lib \<Rightarrow> string \<times> nat list \<times> string \<Rightarrow> (std_message, unit) eff" where
  "add_attachment lib part = (case part of (filename, content, mimetype) \<Rightarrow>
     if CHR ''/'' \<notin> set mimetype then eff_raise (ValueError mimetype)
     else (let maintype = takeWhile (\<lambda>c. c \<noteq> CHR ''/'') mimetype; subtype = tl (dropWhile (\<lambda>c. c \<noteq> CHR ''/'') mimetype) in
       if \<not> ml_part_accepted lib filename content maintype subtype then eff_raise (ValueError filename)
       else eff_modify (\<lambda>s. s\<lparr>sd_parts := sd_parts s @ [(filename, content, maintype, subtype)]\<rparr>)))"

definition optional_header :: "string \<Rightarrow> string list \<Rightarrow> (std_message, unit) eff" where
  "optional_header key xs = (if xs = [] then eff_return () else set_header key (comma_join xs))"

definition smtp_fill_message :: "mail_lib \<Rightarrow> mail_settings \<Rightarrow> email_message \<Rightarrow> (std_message, unit) eff" where
  "smtp_fill_message lib c m =
     eff_bind (set_header ''Subject'' (em_subject m)) (\<lambda>_.
     eff_bind (\<lambda>s. (resolve_from lib c m, s)) (\<lambda>(_, _, from_formatted).
     eff_bind (set_header ''From'' from_formatted) (\<lambda>_.
     eff_bind (set_header ''To'' (comma_join (em_to m))) (\<lambda>_.
     eff_bind (optional_header ''Cc'' (em_cc m)) (\<lambda>_.
     eff_bind (optional_header ''Bcc'' (em_bcc m)) (\<lambda>_.
     eff_bind (optional_header ''Reply-To'' (em_reply_to m)) (\<lambda>_.
     eff_bind (eff_for (em_headers m) (\<lambda>(key, v). set_header key v)) (\<lambda>_.
     eff_bind (set_content (em_body m)) (\<lambda>_.
     eff_bind (eff_for (em_alternatives m) (\<lambda>(content, mimetype).
       if mimetype = ''text/html'' then eff_modify (\<lambda>s. s\<lparr>sd_html := sd_html s @ [content]\<rparr>) else eff_return ())) (\<lambda>_.
     eff_for (em_attachments m) (add_attachment lib)))))))))))"

definition smtp_build_message :: "mail_lib \<Rightarrow> mail_settings \<Rightarrow> email_message \<Rightarrow> py_exn + std_message" where
  "smtp_build_message lib c m =
     (case smtp_fill_message lib c m \<lparr>sd_headers = [], sd_text = [], sd_html = [], sd_parts = []\<rparr> of
        (Inl e, _) \<Rightarrow> Inl e
      | (Inr _, msg) \<Rightarrow> Inr msg)"

record smtp_config =
  sf_host :: string
  sf_port :: int
  sf_username :: "string option"
  sf_password :: "string option"
  sf_use_tls :: bool
  sf_use_ssl :: bool
  sf_timeout :: int

text \<open>The client \<open>aiosmtplib.SMTP\<close> made of a configuration, and what it raises.\<close>

datatype smtp_error = Smtp_authentication | Smtp_connect | Smtp_other string | Smtp_cancelled

type_synonym 'w smtp_call = "'w \<Rightarrow> smtp_error option \<times> 'w"

record 'w smtp_ops =
  so_connect :: "smtp_config \<Rightarrow> 'w smtp_call"
  so_starttls :: "'w smtp_call"
  so_login :: "string \<Rightarrow> string \<Rightarrow> 'w smtp_call"
  so_send :: "std_message \<Rightarrow> 'w smtp_call"
  so_quit :: "'w smtp_call"

definition smtp_exn :: "smtp_error \<Rightarrow> py_exn" where
  "smtp_exn e = (case e of Smtp_authentication \<Rightarrow> SMTPAuthenticationError | Smtp_connect \<Rightarrow> SMTPConnectError
     | Smtp_other t \<Rightarrow> SMTPException t | Smtp_cancelled \<Rightarrow> CancelledError)"

definition smtp_do :: "'w smtp_call \<Rightarrow> (bool \<times> 'w, unit) eff" where
  "smtp_do call s = (case call (snd s) of (None, w) \<Rightarrow> (Inr (), (fst s, w)) | (Some e, w) \<Rightarrow> (Inl (smtp_exn e), (fst s, w)))"

definition smtp_handshake :: "'w smtp_ops \<Rightarrow> smtp_config \<Rightarrow> (bool \<times> 'w, bool) eff" where
  "smtp_handshake ops cf =
     eff_bind (smtp_do (so_connect ops cf)) (\<lambda>_.
     eff_bind (if sf_use_tls cf \<and> \<not> sf_use_ssl cf then smtp_do (so_starttls ops) else eff_return ()) (\<lambda>_.
     eff_bind (if str_truthy (sf_username cf) \<and> str_truthy (sf_password cf)
       then eff_catch (smtp_do (so_login ops (or_str (sf_username cf) []) (or_str (sf_password cf) [])))
         (\<lambda>e. e = SMTPAuthenticationError) (\<lambda>_. eff_bind (set_connection False) (\<lambda>_. eff_raise EmailAuthenticationError))
       else eff_return ()) (\<lambda>_. eff_return True)))"

definition smtp_open :: "'w smtp_ops \<Rightarrow> smtp_config \<Rightarrow> bool \<Rightarrow> (bool \<times> 'w, bool) eff" where
  "smtp_open ops cf silently =
     eff_bind (eff_get fst) (\<lambda>held. if held then eff_return False else
     eff_bind (set_connection True) (\<lambda>_.
     let fail = (\<lambda>e. if \<not> silently then eff_raise e else eff_return False) in
     eff_catch (smtp_handshake ops cf) is_exception
       (\<lambda>e. if e = SMTPConnectError then eff_bind (set_connection False) (\<lambda>_. fail EmailConnectionError)
            else if e = EmailAuthenticationError then fail e
            else eff_bind (set_connection False) (\<lambda>_. fail EmailConnectionError))))"

definition smtp_close :: "'w smtp_ops \<Rightarrow> bool \<Rightarrow> (bool \<times> 'w, unit) eff" where
  "smtp_close ops silently =
     eff_bind (eff_get fst) (\<lambda>held. if \<not> held then eff_return ()
       else eff_finally (eff_catch (smtp_do (so_quit ops)) is_exception (\<lambda>e. if \<not> silently then eff_raise e else eff_return ()))
         (set_connection False))"

definition smtp_send_message :: "'w smtp_ops \<Rightarrow> mail_lib \<Rightarrow> mail_settings \<Rightarrow> email_message \<Rightarrow> (bool \<times> 'w, unit) eff" where
  "smtp_send_message ops lib c m =
     eff_bind (eff_get fst) (\<lambda>held. if \<not> held then eff_raise (RuntimeError ''SMTP connection not established'')
       else (case smtp_build_message lib c m of Inl e \<Rightarrow> eff_raise e | Inr msg \<Rightarrow> smtp_do (so_send ops msg)))"

definition smtp_send_messages ::
  "'w smtp_ops \<Rightarrow> mail_lib \<Rightarrow> smtp_config \<Rightarrow> mail_settings \<Rightarrow> email_message list \<Rightarrow> (bool \<times> 'w, nat) eff" where
  "smtp_send_messages ops lib cf c =
     backend_send (smtp_open ops cf (mb_fail_silently c)) (smtp_close ops (mb_fail_silently c)) (smtp_send_message ops lib c)
       (\<lambda>_. False) (mb_fail_silently c)"

section \<open>The interfaces over HTTP\<close>

record mail_response =
  mp_status_code :: int
  mp_retry_after :: "string option"
  mp_text_fails :: "py_exn option"

text \<open>The transport: opened with the key, closed, and a request.\<close>

record 'w api_ops =
  ao_open :: "string \<Rightarrow> ('w, unit) eff"
  ao_close :: "('w, unit) eff"
  ao_post :: "string \<Rightarrow> jval \<Rightarrow> ('w, mail_response) eff"

definition api_open :: "'w api_ops \<Rightarrow> string \<Rightarrow> (bool \<times> 'w, bool) eff" where
  "api_open ops api_key =
     eff_bind (eff_get fst) (\<lambda>held. if held then eff_return False else
     eff_bind (set_connection True) (\<lambda>_. eff_bind (eff_snd (ao_open ops api_key)) (\<lambda>_. eff_return True)))"

definition api_close :: "'w api_ops \<Rightarrow> bool \<Rightarrow> (bool \<times> 'w, unit) eff" where
  "api_close ops silently =
     eff_bind (eff_get fst) (\<lambda>held. if \<not> held then eff_return ()
       else eff_finally (eff_catch (eff_snd (ao_close ops)) is_exception (\<lambda>e. if \<not> silently then eff_raise e else eff_return ()))
         (set_connection False))"

definition opt_field :: "bool \<Rightarrow> string \<Rightarrow> jval \<Rightarrow> (string \<times> jval) list" where
  "opt_field present key v = (if present then [(key, v)] else [])"

definition j_texts :: "string list \<Rightarrow> jval" where
  "j_texts xs = JList (map JStr xs)"

definition j_dict :: "(string \<times> string) list \<Rightarrow> jval" where
  "j_dict kvs = JObj (map (\<lambda>(k, v). (k, JStr v)) kvs)"

text \<open>The first alternative in HTML.\<close>

definition html_alternative :: "email_message \<Rightarrow> string option" where
  "html_alternative m = map_option fst (find (\<lambda>(_, mimetype). mimetype = ''text/html'') (em_alternatives m))"

definition resend_payload :: "mail_lib \<Rightarrow> mail_settings \<Rightarrow> email_message \<Rightarrow> py_exn + jval" where
  "resend_payload lib c m = result_map (\<lambda>(_, _, from_formatted). JObj (
     [(''from'', JStr from_formatted), (''to'', j_texts (em_to m)), (''subject'', JStr (em_subject m))] @
     opt_field (str_truthy (em_body m)) ''text'' (JStr (or_str (em_body m) [])) @
     (case html_alternative m of None \<Rightarrow> [] | Some content \<Rightarrow> [(''html'', JStr content)]) @
     opt_field (em_cc m \<noteq> []) ''cc'' (j_texts (em_cc m)) @
     opt_field (em_bcc m \<noteq> []) ''bcc'' (j_texts (em_bcc m)) @
     (case em_reply_to m of [] \<Rightarrow> [] | [r] \<Rightarrow> [(''reply_to'', JStr r)] | rs \<Rightarrow> [(''reply_to'', j_texts rs)]) @
     opt_field (em_headers m \<noteq> []) ''headers'' (j_dict (em_headers m)) @
     opt_field (em_attachments m \<noteq> []) ''attachments'' (JList (map (\<lambda>(filename, content, _).
       JObj [(''filename'', JStr filename), (''content'', JStr (b64encode content))]) (em_attachments m))))) (resolve_from lib c m)"

definition sendgrid_payload :: "mail_lib \<Rightarrow> mail_settings \<Rightarrow> email_message \<Rightarrow> py_exn + jval" where
  "sendgrid_payload lib c m = result_map (\<lambda>(from_email, from_name, _).
     let address = (\<lambda>email. JObj [(''email'', JStr email)]); addresses = (\<lambda>xs. JList (map address xs));
         personalization = JObj ([(''to'', addresses (em_to m))] @ opt_field (em_cc m \<noteq> []) ''cc'' (addresses (em_cc m)) @
           opt_field (em_bcc m \<noteq> []) ''bcc'' (addresses (em_bcc m)));
         part = (\<lambda>type v. JObj [(''type'', JStr type), (''value'', JStr v)]);
         content = (if str_truthy (em_body m) then [part ''text/plain'' (or_str (em_body m) [])] else []) @
           (case html_alternative m of None \<Rightarrow> [] | Some h \<Rightarrow> [part ''text/html'' h])
     in JObj (
     [(''personalizations'', JList [personalization]), (''subject'', JStr (em_subject m)),
      (''from'', JObj ([(''email'', JStr from_email)] @ opt_field (from_name \<noteq> []) ''name'' (JStr from_name)))] @
     opt_field (content \<noteq> []) ''content'' (JList content) @
     (case em_reply_to m of [] \<Rightarrow> [] | r # _ \<Rightarrow> [(''reply_to'', address r)]) @
     opt_field (em_headers m \<noteq> []) ''headers'' (j_dict (em_headers m)) @
     opt_field (em_attachments m \<noteq> []) ''attachments'' (JList (map (\<lambda>(filename, content, mimetype).
       JObj [(''filename'', JStr filename), (''content'', JStr (b64encode content)), (''type'', JStr mimetype)])
       (em_attachments m))))) (resolve_from lib c m)"

datatype mail_api = Resend | SendGrid

definition api_url :: "mail_api \<Rightarrow> string" where
  "api_url a = (case a of Resend \<Rightarrow> ''https://api.resend.com/emails'' | SendGrid \<Rightarrow> ''https://api.sendgrid.com/v3/mail/send'')"

definition api_payload :: "mail_api \<Rightarrow> mail_lib \<Rightarrow> mail_settings \<Rightarrow> email_message \<Rightarrow> py_exn + jval" where
  "api_payload a = (case a of Resend \<Rightarrow> resend_payload | SendGrid \<Rightarrow> sendgrid_payload)"

text \<open>What is raised for a response.\<close>

definition api_response_error :: "mail_response \<Rightarrow> py_exn option" where
  "api_response_error r =
     (if mp_status_code r = 429
      then (if str_truthy (mp_retry_after r)
        then (case int_of_text (or_str (mp_retry_after r) []) of
            None \<Rightarrow> Some (ValueError (or_str (mp_retry_after r) []))
          | Some n \<Rightarrow> Some (EmailRateLimitError (Some n)))
        else Some (EmailRateLimitError None))
      else if 400 \<le> mp_status_code r
        then Some (case mp_text_fails r of Some e \<Rightarrow> e | None \<Rightarrow> EmailDeliveryError)
      else None)"

definition api_send_message ::
  "mail_api \<Rightarrow> 'w api_ops \<Rightarrow> mail_lib \<Rightarrow> mail_settings \<Rightarrow> email_message \<Rightarrow> (bool \<times> 'w, unit) eff" where
  "api_send_message a ops lib c m =
     eff_bind (eff_get fst) (\<lambda>held. if \<not> held then eff_raise (RuntimeError ''transport not initialized'')
       else (case api_payload a lib c m of
           Inl e \<Rightarrow> eff_raise e
         | Inr payload \<Rightarrow> eff_bind (eff_snd (ao_post ops (api_url a) payload)) (\<lambda>r.
             case api_response_error r of Some e \<Rightarrow> eff_raise e | None \<Rightarrow> eff_return ())))"

fun is_rate_limit :: "py_exn \<Rightarrow> bool" where
  "is_rate_limit (EmailRateLimitError _) = True"
| "is_rate_limit _ = False"

definition api_send_messages ::
  "mail_api \<Rightarrow> 'w api_ops \<Rightarrow> mail_lib \<Rightarrow> string \<Rightarrow> mail_settings \<Rightarrow> email_message list \<Rightarrow> (bool \<times> 'w, nat) eff" where
  "api_send_messages a ops lib api_key c =
     backend_send (api_open ops api_key) (api_close ops (mb_fail_silently c)) (api_send_message a ops lib c)
       is_rate_limit (mb_fail_silently c)"

section \<open>The choice of a backend\<close>

datatype backend_choice =
    Backend_name string
  | Use_smtp smtp_config
  | Use_resend string
  | Use_sendgrid string
  | Use_mailgun

datatype mail_backend = Smtp_backend smtp_config | Api_backend mail_api string

record email_config =
  ec_backend :: backend_choice
  ec_from_email :: string
  ec_from_name :: string
  ec_fail_silently :: bool

definition default_smtp_config :: smtp_config where
  "default_smtp_config = \<lparr>sf_host = ''localhost'', sf_port = 25, sf_username = None, sf_password = None,
     sf_use_tls = False, sf_use_ssl = False, sf_timeout = 30\<rparr>"

text \<open>\<open>ResendConfig.__post_init__\<close>\<close>

definition resend_config :: "string \<Rightarrow> py_exn + string" where
  "resend_config api_key = (if api_key = [] then Inl (ValueError ''Resend API key must be provided'') else Inr api_key)"

text \<open>
  A class of the registry, made without a configuration. \<open>ConsoleBackend\<close> does not define the abstract
  method \<open>close\<close>, so it cannot be instantiated. A class named by its path is a parameter.
\<close>

definition backend_by_name :: "(string \<Rightarrow> py_exn + mail_backend) \<Rightarrow> string \<Rightarrow> py_exn + mail_backend" where
  "backend_by_name load name =
     (if name = ''console'' then Inl (TypeError ''ConsoleBackend'')
      else if name = ''smtp'' then Inr (Smtp_backend default_smtp_config)
      else if name = ''resend'' then result_map (Api_backend Resend) (resend_config [])
      else if name = ''sendgrid'' then Inr (Api_backend SendGrid [])
      else if CHR ''.'' \<notin> set name then Inl (ValueError name)
      else load name)"

definition get_backend ::
  "(string \<Rightarrow> py_exn + mail_backend) \<Rightarrow> backend_choice \<Rightarrow> bool option \<Rightarrow> email_config option \<Rightarrow>
   py_exn + mail_backend \<times> mail_settings" where
  "get_backend load choice silently config =
     (let made = (case choice of
            Backend_name name \<Rightarrow> backend_by_name load name
          | Use_smtp cf \<Rightarrow> Inr (Smtp_backend cf)
          | Use_resend key \<Rightarrow> Inr (Api_backend Resend key)
          | Use_sendgrid key \<Rightarrow> Inr (Api_backend SendGrid key)
          | Use_mailgun \<Rightarrow> backend_by_name load ''mailgun'');
          resolved = (case silently of Some b \<Rightarrow> b
            | None \<Rightarrow> (case config of None \<Rightarrow> False | Some ec \<Rightarrow> ec_fail_silently ec))
      in result_map (\<lambda>b. (b, \<lparr>mb_fail_silently = resolved, mb_default_from_email = map_option ec_from_email config,
           mb_default_from_name = map_option ec_from_name config\<rparr>)) made)"

record email_settings =
  es_backend :: string
  es_from_email :: string
  es_from_name :: string
  es_smtp :: smtp_config
  es_resend_api_key :: string

definition get_email_config :: "email_settings \<Rightarrow> py_exn + email_config" where
  "get_email_config st = result_map
     (\<lambda>b. \<lparr>ec_backend = b, ec_from_email = es_from_email st, ec_from_name = es_from_name st, ec_fail_silently = False\<rparr>)
     (if es_backend st = ''smtp'' then Inr (Use_smtp (es_smtp st))
      else if es_backend st = ''resend'' then result_map Use_resend (resend_config (es_resend_api_key st))
      else Inr (Backend_name (es_backend st)))"

section \<open>The service\<close>

record 'w mail_outside =
  mo_smtp :: "'w smtp_ops"
  mo_api :: "'w api_ops"
  mo_lib :: mail_lib
  mo_load :: "string \<Rightarrow> py_exn + mail_backend"

definition mail_open :: "'w mail_outside \<Rightarrow> mail_backend \<Rightarrow> mail_settings \<Rightarrow> (bool \<times> 'w, bool) eff" where
  "mail_open out b c = (case b of Smtp_backend cf \<Rightarrow> smtp_open (mo_smtp out) cf (mb_fail_silently c)
     | Api_backend _ key \<Rightarrow> api_open (mo_api out) key)"

definition mail_close :: "'w mail_outside \<Rightarrow> mail_backend \<Rightarrow> mail_settings \<Rightarrow> (bool \<times> 'w, unit) eff" where
  "mail_close out b c = (case b of Smtp_backend _ \<Rightarrow> smtp_close (mo_smtp out) (mb_fail_silently c)
     | Api_backend _ _ \<Rightarrow> api_close (mo_api out) (mb_fail_silently c))"

definition mail_send :: "'w mail_outside \<Rightarrow> mail_backend \<Rightarrow> mail_settings \<Rightarrow> email_message list \<Rightarrow> (bool \<times> 'w, nat) eff" where
  "mail_send out b c = (case b of Smtp_backend cf \<Rightarrow> smtp_send_messages (mo_smtp out) (mo_lib out) cf c
     | Api_backend a key \<Rightarrow> api_send_messages a (mo_api out) (mo_lib out) key c)"

text \<open>The backend of the context manager with its connection, or none.\<close>

type_synonym 'w mailer = "(mail_backend \<times> mail_settings \<times> bool) option \<times> 'w"

definition mailer_send_messages :: "'w mail_outside \<Rightarrow> email_config \<Rightarrow> email_message list \<Rightarrow> ('w mailer, nat) eff" where
  "mailer_send_messages out ec ms s =
     (if ms = [] then (Inr 0, s)
      else (case fst s of
        Some (b, c, held) \<Rightarrow>
          (case mail_send out b c ms (held, snd s) of (r, (held', w)) \<Rightarrow> (r, (Some (b, c, held'), w)))
      | None \<Rightarrow>
          (case get_backend (mo_load out) (ec_backend ec) None (Some ec) of
             Inl e \<Rightarrow> (Inl e, s)
           | Inr (b, c) \<Rightarrow>
               (case eff_finally (eff_bind (mail_open out b c) (\<lambda>_. mail_send out b c ms)) (mail_close out b c) (False, snd s) of
                  (r, (_, w)) \<Rightarrow> (r, (None, w))))))"

definition mailer_send_message :: "'w mail_outside \<Rightarrow> email_config \<Rightarrow> email_message \<Rightarrow> ('w mailer, nat) eff" where
  "mailer_send_message out ec m = mailer_send_messages out ec [m]"

definition mailer_enter :: "'w mail_outside \<Rightarrow> email_config \<Rightarrow> ('w mailer, unit) eff" where
  "mailer_enter out ec s = (case fst s of
       Some _ \<Rightarrow> (Inr (), s)
     | None \<Rightarrow> (case get_backend (mo_load out) (ec_backend ec) None (Some ec) of
         Inl e \<Rightarrow> (Inl e, s)
       | Inr (b, c) \<Rightarrow> (case mail_open out b c (False, snd s) of
             (r, (held, w)) \<Rightarrow> (result_map (\<lambda>_. ()) r, (Some (b, c, held), w)))))"

definition mailer_exit :: "'w mail_outside \<Rightarrow> ('w mailer, unit) eff" where
  "mailer_exit out s = (case fst s of
       None \<Rightarrow> (Inr (), s)
     | Some (b, c, held) \<Rightarrow> (case mail_close out b c (held, snd s) of
           (Inl e, (held', w)) \<Rightarrow> (Inl e, (Some (b, c, held'), w))
         | (Inr _, (_, w)) \<Rightarrow> (Inr (), (None, w))))"

section \<open>Connections\<close>

text \<open>What a backend promises of its connection.\<close>

locale mail_transport =
  fixes opens :: "(bool \<times> 'w, bool) eff" and closes :: "(bool \<times> 'w, unit) eff"
    and send :: "email_message \<Rightarrow> (bool \<times> 'w, unit) eff"
  assumes open_reuses: "fst s \<Longrightarrow> opens s = (Inr False, s)"
    and open_connects: "\<not> fst s \<Longrightarrow> opens s = (Inr new, s') \<Longrightarrow> fst s' = new"
    and close_disconnects: "closes s = (r, s') \<Longrightarrow> \<not> fst s'"
    and send_keeps: "send m s = (r', s') \<Longrightarrow> fst s' = fst s"
begin

lemma loop_keeps: "send_loop send reraise silently ms n s = (r, s') \<Longrightarrow> fst s' = fst s"
proof (induction ms arbitrary: n s r s')
  case (Cons m ms)
  obtain r1 s1 where one: "send m s = (r1, s1)" by (rule prod.exhaust)
  have k: "fst s1 = fst s" using send_keeps [OF one] .
  show ?case
    using Cons.prems one Cons.IH k
    by (cases r1) (auto simp: eff_simps split: if_splits sum.splits prod.splits)
qed (simp add: eff_simps)

text \<open>Sending leaves a connection that was there, and closes the one it opened.\<close>

lemma send_restores_connection:
  assumes "backend_send opens closes send reraise silently ms s = (r, s')" and "\<And>e. fst (opens s) \<noteq> Inl e"
  shows "fst s' = fst s"
proof (cases "ms = []")
  case True
  with assms(1) show ?thesis by (simp add: backend_send_def eff_simps)
next
  case False
  obtain ro s1 where o: "opens s = (ro, s1)" by (rule prod.exhaust)
  with assms(2) obtain new where new: "ro = Inr new" by (cases ro) auto
  obtain rl s2 where l: "send_loop send reraise silently ms 0 s1 = (rl, s2)" by (rule prod.exhaust)
  have "fst s2 = fst s1" using loop_keeps [OF l] .
  moreover have "fst s1 = (fst s \<or> new)" "fst s \<Longrightarrow> \<not> new"
    using open_reuses [of s] open_connects [of s new s1] o new by (cases "fst s"; auto)+
  moreover obtain rc s3 where "closes s2 = (rc, s3)" by (rule prod.exhaust)
  ultimately show ?thesis
    using assms(1) False o new l close_disconnects [of s2 rc s3]
    by (auto simp: backend_send_def eff_simps split: if_splits sum.splits)
qed

end

lemma smtp_open_connected: "fst s \<Longrightarrow> smtp_open ops cf silently s = (Inr False, s)"
  by (simp add: smtp_open_def eff_simps)

lemma smtp_do_result:
  "\<exists>w' r. smtp_do call (h, w) = (r, (h, w')) \<and> r \<noteq> Inl EmailAuthenticationError"
  by (auto simp: smtp_do_def smtp_exn_def split: prod.splits option.splits smtp_error.splits)

text \<open>Only a refused login drops the connection.\<close>

lemma handshake_result:
  "\<exists>w' r h. smtp_handshake ops cf (True, w) = (r, (h, w')) \<and> (h \<longleftrightarrow> r \<noteq> Inl EmailAuthenticationError) \<and> r \<noteq> Inr False"
proof -
  obtain w1 r1 where 1: "smtp_do (so_connect ops cf) (True, w) = (r1, (True, w1))" "r1 \<noteq> Inl EmailAuthenticationError"
    using smtp_do_result by metis
  obtain w2 r2 where 2: "(if sf_use_tls cf \<and> \<not> sf_use_ssl cf then smtp_do (so_starttls ops) else eff_return ()) (True, w1) =
      (r2, (True, w2))" "r2 \<noteq> Inl EmailAuthenticationError"
    using smtp_do_result [of "so_starttls ops" True w1] by (cases "sf_use_tls cf \<and> \<not> sf_use_ssl cf") (auto simp: eff_simps)
  obtain w3 r3 where 3: "smtp_do (so_login ops (or_str (sf_username cf) []) (or_str (sf_password cf) [])) (True, w2) = (r3, (True, w3))"
      "r3 \<noteq> Inl EmailAuthenticationError"
    using smtp_do_result by metis
  let ?login = "if str_truthy (sf_username cf) \<and> str_truthy (sf_password cf)
       then eff_catch (smtp_do (so_login ops (or_str (sf_username cf) []) (or_str (sf_password cf) [])))
         (\<lambda>e. e = SMTPAuthenticationError) (\<lambda>_. eff_bind (set_connection False) (\<lambda>_. eff_raise EmailAuthenticationError))
       else eff_return ()"
  have 4: "\<exists>h w4 r4. ?login (True, w2) = (r4, (h, w4)) \<and> (h \<longleftrightarrow> r4 \<noteq> Inl EmailAuthenticationError)"
    using 3 by (cases r3) (auto simp: eff_catch_def set_connection_def eff_simps)
  show ?thesis
  proof (cases r1)
    case (Inl e)
    with 1 show ?thesis by (auto simp: smtp_handshake_def eff_bind_def)
  next
    case r1: (Inr u1)
    show ?thesis
    proof (cases r2)
      case (Inl e)
      with 1 2 r1 show ?thesis by (auto simp: smtp_handshake_def eff_bind_def)
    next
      case (Inr u2)
      from 4 obtain h w4 r4 where "?login (True, w2) = (r4, (h, w4))" "h \<longleftrightarrow> r4 \<noteq> Inl EmailAuthenticationError" by blast
      with 1 2 r1 Inr show ?thesis
        unfolding smtp_handshake_def eff_bind_def by (cases r4) (simp_all add: eff_return_def)
    qed
  qed
qed

lemma smtp_open_result:
  assumes "\<not> fst s" and "smtp_open ops cf silently s = (r, s')"
  shows "(r = Inr True \<and> fst s') \<or> (silently \<and> r = Inr False \<and> \<not> fst s') \<or>
    (\<exists>e. r = Inl e \<and> (is_exception e \<longrightarrow> \<not> silently \<and> \<not> fst s' \<and> e \<in> {EmailConnectionError, EmailAuthenticationError}))"
proof -
  obtain w' rh h where h: "smtp_handshake ops cf (True, snd s) = (rh, (h, w'))"
    "h \<longleftrightarrow> rh \<noteq> Inl EmailAuthenticationError" "rh \<noteq> Inr False"
    using handshake_result [of ops cf "snd s"] by auto
  show ?thesis
  proof (cases rh)
    case (Inr b)
    with h assms show ?thesis by (auto simp: smtp_open_def set_connection_def eff_simps)
  next
    case (Inl e)
    have "(r, s') = (if \<not> is_exception e then (rh, (h, w'))
        else (if silently then Inr False else Inl (if e = EmailAuthenticationError then e else EmailConnectionError), (False, w')))"
      unfolding assms(2) [symmetric] using h(1,2) assms(1) Inl
      by (simp add: smtp_open_def set_connection_def eff_simps Let_def)
    with Inl show ?thesis by (cases "is_exception e"; cases silently) simp_all
  qed
qed

lemma smtp_close_disconnects: "smtp_close ops silently s = (r, s') \<Longrightarrow> \<not> fst s'"
  by (auto simp: smtp_close_def set_connection_def eff_simps split: if_splits prod.splits sum.splits)

lemma smtp_send_keeps: "smtp_send_message ops lib c m s = (r, s') \<Longrightarrow> fst s' = fst s"
  by (auto simp: smtp_send_message_def smtp_do_def eff_simps split: if_splits prod.splits sum.splits option.splits)

interpretation smtp_link: mail_transport "smtp_open ops cf silently" "smtp_close ops silently" "smtp_send_message ops lib c"
  for ops :: "'w smtp_ops" and cf silently lib c
proof
  show "smtp_open ops cf silently s = (Inr False, s)" if "fst s" for s :: "bool \<times> 'w"
    using that by (rule smtp_open_connected)
  show "fst s' = new" if "\<not> fst s" "smtp_open ops cf silently s = (Inr new, s')" for s s' :: "bool \<times> 'w" and new
    using smtp_open_result [OF that] by auto
qed (auto dest: smtp_close_disconnects smtp_send_keeps)

lemma api_close_disconnects: "api_close ops silently s = (r, s') \<Longrightarrow> \<not> fst s'"
  by (auto simp: api_close_def set_connection_def eff_simps split: if_splits prod.splits sum.splits)

lemma api_send_keeps: "api_send_message a ops lib c m s = (r, s') \<Longrightarrow> fst s' = fst s"
  by (auto simp: api_send_message_def eff_simps split: if_splits prod.splits sum.splits option.splits)

lemma api_open_result:
  "api_open ops key (h, w) = (if h then (Inr False, (h, w)) else (case ao_open ops key w of
     (Inl e, w') \<Rightarrow> (Inl e, (True, w')) | (Inr _, w') \<Rightarrow> (Inr True, (True, w'))))"
  by (simp add: api_open_def set_connection_def eff_simps split: prod.split sum.split)

interpretation api_link: mail_transport "api_open ops key" "api_close ops silently" "api_send_message a ops lib c"
  for ops :: "'w api_ops" and key silently a lib c
proof
  show "api_open ops key s = (Inr False, s)" if "fst s" for s :: "bool \<times> 'w"
    using that by (cases s) (simp add: api_open_result)
  show "fst s' = new" if "\<not> fst s" "api_open ops key s = (Inr new, s')" for s s' :: "bool \<times> 'w" and new
    using that by (cases s) (auto simp: api_open_result split: prod.splits sum.splits)
qed (auto dest: api_close_disconnects api_send_keeps)

text \<open>C99: A backend that has sent leaves its connection as it found it, whatever became of the messages: one that was
  open stays open, one it opened is closed. A failure to open is the exception: with a transport over
  HTTP the transport stays, so that the next messages are refused as not initialised.
\<close>

theorem backend_restores_connection:
  assumes "mail_send out b c ms s = (r, s')" and "\<And>e. fst (mail_open out b c s) \<noteq> Inl e"
  shows "fst s' = fst s"
proof (cases b)
  case (Smtp_backend cf)
  with assms show ?thesis
    by (intro smtp_link.send_restores_connection) (auto simp: mail_send_def mail_open_def smtp_send_messages_def)
next
  case (Api_backend a key)
  with assms show ?thesis
    by (intro api_link.send_restores_connection) (auto simp: mail_send_def mail_open_def api_send_messages_def)
qed

section \<open>How many were sent\<close>

text \<open>What became of each message, up to the first exception at which sending stops.\<close>

primrec deliveries ::
  "(email_message \<Rightarrow> ('s, unit) eff) \<Rightarrow> (py_exn \<Rightarrow> bool) \<Rightarrow> email_message list \<Rightarrow> 's \<Rightarrow> (py_exn + unit) list \<times> 's" where
  "deliveries send stop [] s = ([], s)"
| "deliveries send stop (m # ms) s = (case send m s of (r, s') \<Rightarrow>
     (if \<exists>e. r = Inl e \<and> stop e then ([r], s') else (case deliveries send stop ms s' of (rs, s'') \<Rightarrow> (r # rs, s''))))"

definition stops :: "(py_exn \<Rightarrow> bool) \<Rightarrow> bool \<Rightarrow> py_exn \<Rightarrow> bool" where
  "stops reraise silently e \<longleftrightarrow> \<not> is_exception e \<or> reraise e \<or> \<not> silently"

text \<open>What is reported: the number of those accepted, or the exception.\<close>

definition reported :: "(py_exn \<Rightarrow> bool) \<Rightarrow> bool \<Rightarrow> nat \<Rightarrow> (py_exn + unit) list \<Rightarrow> py_exn + nat" where
  "reported reraise silently n rs = (case find (\<lambda>r. \<exists>e. r = Inl e \<and> stops reraise silently e) rs of
       Some (Inl e) \<Rightarrow> Inl (if is_exception e \<and> \<not> reraise e then EmailDeliveryError else e)
     | _ \<Rightarrow> Inr (n + length (filter (\<lambda>r. r = Inr ()) rs)))"

lemma reported_simps:
  "reported reraise silently n (Inr u # rs) = reported reraise silently (n + 1) rs"
  "reported reraise silently n (Inl e # rs) = (if stops reraise silently e
     then Inl (if is_exception e \<and> \<not> reraise e then EmailDeliveryError else e) else reported reraise silently n rs)"
  by (simp_all add: reported_def split: option.split sum.split)

lemma send_loop_reported:
  "send_loop send reraise silently ms n s =
    (case deliveries send (stops reraise silently) ms s of (rs, s') \<Rightarrow> (reported reraise silently n rs, s'))"
proof (induction ms arbitrary: n s)
  case Nil
  show ?case by (simp add: reported_def eff_simps)
next
  case (Cons m ms)
  obtain r s1 where one: "send m s = (r, s1)" by (rule prod.exhaust)
  obtain rs s2 where more: "deliveries send (stops reraise silently) ms s1 = (rs, s2)" by (rule prod.exhaust)
  show ?case
  proof (cases r)
    case (Inr u)
    with one more Cons.IH [of "n + 1" s1] show ?thesis by (simp add: eff_simps reported_simps)
  next
    case (Inl e)
    with one more Cons.IH [of n s1] stops_def [of reraise silently e] show ?thesis
      by (cases "stops reraise silently e") (auto simp: eff_simps reported_simps)
  qed
qed

section \<open>Templated messages\<close>

lemma mail_build_result:
  assumes "mail_build_message env r w = (Inr (m, alts), w')"
  obtains body where "em_body m = None" and "em_alternatives m = or_list (mr_alternatives r) @ [(body, ''text/html'')]"
    and "em_to m = mr_to r" and "alts = (if or_list (mr_alternatives r) = [] then mr_alternatives r else Some (em_alternatives m))"
    and "em_subject m = ms_subject_prefix env @ (case mr_subject r of None \<Rightarrow> ''None'' | Some s \<Rightarrow> s)"
  using assms
  by (auto simp: mail_build_message_def multi_alternatives_def attach_alternative_def eff_simps Let_def
      split: prod.splits sum.splits)

text \<open>The module \<open>email\<close> has no content for a missing body, so no such message is made.\<close>

definition never_cancelled :: "('s, 'a) eff \<Rightarrow> bool" where
  "never_cancelled m \<longleftrightarrow> (\<forall>s e. fst (m s) = Inl e \<longrightarrow> is_exception e)"

definition always_raises :: "('s, 'a) eff \<Rightarrow> bool" where
  "always_raises m \<longleftrightarrow> (\<forall>s. \<exists>e. fst (m s) = Inl e \<and> is_exception e)"

lemma always_raises_bind:
  "always_raises m \<Longrightarrow> always_raises (eff_bind m k)"
  "never_cancelled m \<Longrightarrow> (\<And>x. always_raises (k x)) \<Longrightarrow> always_raises (eff_bind m k)"
  unfolding always_raises_def never_cancelled_def eff_bind_def
  by (simp_all split: prod.split sum.split) (metis fst_conv sum.inject(1) sum.simps(4))+

lemma never_cancelled_header: "never_cancelled (set_header key v)"
  by (simp add: never_cancelled_def set_header_def eff_simps)

lemma never_cancelled_for: "(\<And>x. never_cancelled (f x)) \<Longrightarrow> never_cancelled (eff_for xs f)"
proof (induction xs)
  case (Cons x xs)
  then have "never_cancelled (eff_for xs f)" "never_cancelled (f x)" by blast+
  then show ?case unfolding never_cancelled_def by (auto split: prod.splits sum.splits) (metis fst_conv)
qed (simp add: never_cancelled_def)

lemma smtp_build_without_body:
  assumes "em_body m = None"
  shows "\<exists>e. smtp_build_message lib c m = Inl e \<and> is_exception e"
proof -
  have o: "never_cancelled (optional_header key xs)" for key xs
    using never_cancelled_header by (simp add: optional_header_def never_cancelled_def eff_return_def)
  have f: "never_cancelled (eff_for hs (\<lambda>h. set_header (fst h) (snd h)))" for hs
    using never_cancelled_header by (intro never_cancelled_for)
  have r: "never_cancelled (\<lambda>s. (resolve_from lib c m, s))"
    by (simp add: never_cancelled_def resolve_from_def Let_def split: prod.split option.split)
  have n: "always_raises (set_content (em_body m))" by (simp add: assms always_raises_def set_content_def eff_simps)
  have "always_raises (smtp_fill_message lib c m)"
    unfolding smtp_fill_message_def split_beta
    by (rule always_raises_bind(1) [OF n] always_raises_bind(2) never_cancelled_header o f r)+
  then obtain e where "fst (smtp_fill_message lib c m \<lparr>sd_headers = [], sd_text = [], sd_html = [], sd_parts = []\<rparr>) = Inl e"
    "is_exception e" unfolding always_raises_def by blast
  then show ?thesis by (auto simp: smtp_build_message_def split: prod.split sum.split)
qed

lemma smtp_nothing_sent:
  assumes "\<forall>m \<in> set ms. em_body m = None"
  shows "send_loop (smtp_send_message ops lib c) (\<lambda>_. False) silently ms n s =
    (if ms = [] \<or> silently then Inr n else Inl EmailDeliveryError, s)"
  using assms
proof (induction ms arbitrary: n)
  case Nil
  show ?case by (simp add: eff_return_def)
next
  case (Cons m ms)
  have "\<exists>e. smtp_send_message ops lib c m s = (Inl e, s) \<and> is_exception e"
    using smtp_build_without_body [of m lib c] Cons.prems
    by (cases "fst s") (auto simp: smtp_send_message_def eff_simps)
  then obtain e where "smtp_send_message ops lib c m s = (Inl e, s)" "is_exception e" by blast
  with Cons show ?case by (cases silently) (simp_all add: eff_simps)
qed

lemma smtp_without_bodies:
  assumes "\<forall>m \<in> set ms. em_body m = None" and "ms \<noteq> []"
  shows "smtp_send_messages ops lib cf c ms = (let silently = mb_fail_silently c in
    eff_bind (smtp_open ops cf silently) (\<lambda>new. eff_finally
      (\<lambda>s. (if silently then Inr 0 else Inl EmailDeliveryError, s)) (if new then smtp_close ops silently else eff_return ())))"
proof -
  have "send_loop (smtp_send_message ops lib c) (\<lambda>_. False) silently ms 0 =
      (\<lambda>s. (if silently then Inr 0 else Inl EmailDeliveryError, s))" for silently
    by (rule ext) (simp add: smtp_nothing_sent [OF assms(1)] assms(2))
  with assms(2) show ?thesis by (simp add: smtp_send_messages_def backend_send_def Let_def)
qed

lemma smtp_other_send [simp]:
  "smtp_open (ops\<lparr>so_send := f\<rparr>) = smtp_open ops" "smtp_close (ops\<lparr>so_send := f\<rparr>) = smtp_close ops"
  by (intro ext, simp add: smtp_open_def smtp_handshake_def smtp_close_def cong: if_cong)+

lemma eff_finally_value: "fst (eff_finally m k s) = Inr x \<Longrightarrow> fst (m s) = Inr x"
  by (auto simp: eff_finally_def split: prod.splits sum.splits)

lemma eff_bind_value: "fst (eff_bind m k s) = Inr x \<Longrightarrow> \<exists>y s'. fst (k y s') = Inr x"
  by (auto simp: eff_bind_def split: prod.splits sum.splits)

text \<open>C30: No message made of a template is ever sent by SMTP. The service makes it without a text, for which the
  backend has no content: the server is given nothing, whatever it would do with a message, and the
  service raises, or reports 0 when it fails silently.\<close>

theorem smtp_templated_mail_lost:
  assumes "mail_build_message env r w0 = (Inr (m, alts), w1)" and "ec_backend ec = Use_smtp cf"
    and "mailer_send_message out ec m (None, w) = (res, s')"
  shows "mailer_send_message (out\<lparr>mo_smtp := (mo_smtp out)\<lparr>so_send := f\<rparr>\<rparr>) ec m (None, w) = (res, s') \<and>
    (\<forall>n. res = Inr n \<longrightarrow> n = 0 \<and> ec_fail_silently ec)"
proof
  define c where "c = \<lparr>mb_fail_silently = ec_fail_silently ec, mb_default_from_email = Some (ec_from_email ec),
    mb_default_from_name = Some (ec_from_name ec)\<rparr>"
  have "em_body m = None" using assms(1) by (rule mail_build_result)
  then have b: "\<forall>m \<in> set [m]. em_body m = None" by simp
  have g: "get_backend load (ec_backend ec) None (Some ec) = Inr (Smtp_backend cf, c)" for load
    by (simp add: get_backend_def assms(2) result_map_def c_def)
  note d = mailer_send_message_def mailer_send_messages_def mail_open_def mail_send_def mail_close_def
  note n = smtp_without_bodies [OF b]
  show "mailer_send_message (out\<lparr>mo_smtp := (mo_smtp out)\<lparr>so_send := f\<rparr>\<rparr>) ec m (None, w) = (res, s')"
    unfolding assms(3) [symmetric] by (simp add: d g n cong: if_cong)
  let ?run = "eff_bind (smtp_open (mo_smtp out) cf (mb_fail_silently c)) (\<lambda>_. smtp_send_messages (mo_smtp out) (mo_lib out) cf c [m])"
  show "\<forall>n. res = Inr n \<longrightarrow> n = 0 \<and> ec_fail_silently ec"
  proof (intro allI impI)
    fix k assume "res = Inr k"
    with assms(3) obtain s2 where "eff_finally ?run (smtp_close (mo_smtp out) (mb_fail_silently c)) (False, w) = (Inr k, s2)"
      by (auto simp: d g split: prod.splits)
    from eff_finally_value [OF arg_cong [OF this, of fst, unfolded fst_conv]] have "fst (?run (False, w)) = Inr k" .
    from eff_bind_value [OF this]
    obtain s3 where "fst (smtp_send_messages (mo_smtp out) (mo_lib out) cf c [m] s3) = Inr k" by blast
    then have "fst (eff_bind (smtp_open (mo_smtp out) cf (mb_fail_silently c)) (\<lambda>new. eff_finally
        (\<lambda>s. (if mb_fail_silently c then Inr 0 else Inl EmailDeliveryError, s))
        (if new then smtp_close (mo_smtp out) (mb_fail_silently c) else eff_return ())) s3) = Inr k"
      by (simp add: n Let_def)
    from eff_bind_value [OF this]
    obtain new s4 where "fst (eff_finally (\<lambda>s. (if mb_fail_silently c then Inr 0 else Inl EmailDeliveryError, s))
        (if new then smtp_close (mo_smtp out) (mb_fail_silently c) else eff_return ()) s4) = Inr k" by blast
    from eff_finally_value [OF this]
    have "(if mb_fail_silently c then Inr 0 else Inl EmailDeliveryError) = (Inr k :: py_exn + nat)" by simp
    then show "k = 0 \<and> ec_fail_silently ec" by (cases "mb_fail_silently c") (simp_all add: c_def)
  qed
qed

text \<open>A server that accepts everything and keeps what it was sent.\<close>

definition demo_smtp :: "std_message list smtp_ops" where
  "demo_smtp = \<lparr>so_connect = (\<lambda>_ w. (None, w)), so_starttls = (\<lambda>w. (None, w)), so_login = (\<lambda>_ _ w. (None, w)),
     so_send = (\<lambda>m w. (None, w @ [m])), so_quit = (\<lambda>w. (None, w))\<rparr>"

definition demo_outside :: "std_message list mail_outside" where
  "demo_outside = \<lparr>mo_smtp = demo_smtp, mo_api = \<lparr>ao_open = (\<lambda>_. eff_return ()), ao_close = eff_return (),
       ao_post = (\<lambda>_ _. eff_return \<lparr>mp_status_code = 200, mp_retry_after = None, mp_text_fails = None\<rparr>)\<rparr>,
     mo_lib = \<lparr>ml_parseaddr = (\<lambda>a. ([], a)), ml_formataddr = (\<lambda>_ a. Some a), ml_part_accepted = (\<lambda>_ _ _ _. True)\<rparr>,
     mo_load = (\<lambda>n. Inl (ValueError n))\<rparr>"

definition demo_mail_env :: "'w mail_env" where
  "demo_mail_env = \<lparr>ms_subject_prefix = ''taas - '', ms_from_email = ''noreply@taas.io'', ms_get_template = (\<lambda>n. eff_return n),
     ms_render_template = (\<lambda>t ctx. eff_return (t @ concat (map snd ctx)))\<rparr>"

definition demo_mail_request :: "string \<Rightarrow> (string \<times> string) list option \<Rightarrow> mail_request" where
  "demo_mail_request name alts = \<lparr>mr_template = ''Dear '', mr_context = [(''name'', name)], mr_to = [name], mr_subject = None,
     mr_from_email = None, mr_cc = None, mr_bcc = None, mr_attachments = None, mr_alternatives = alts\<rparr>"

definition demo_smtp_mail :: email_config where
  "demo_smtp_mail = \<lparr>ec_backend = Use_smtp default_smtp_config, ec_from_email = ''noreply@taas.io'', ec_from_name = [],
     ec_fail_silently = True\<rparr>"

lemma demo_mail_built:
  "\<exists>m alts'. mail_build_message demo_mail_env (demo_mail_request name alts) w = (Inr (m, alts'), w) \<and>
     alts' = (if or_list alts = [] then alts else Some (em_alternatives m)) \<and>
     em_alternatives m = or_list alts @ [(''Dear '' @ name, ''text/html'')] \<and> em_subject m = ''taas - None''"
  by (simp add: mail_build_message_def demo_mail_env_def demo_mail_request_def eff_simps multi_alternatives_def
      attach_alternative_def Let_def)

lemma smtp_templated_mail_lost_witness:
  "\<exists>m alts s'. mail_build_message demo_mail_env (demo_mail_request ''ada'' None) () = (Inr (m, alts), ()) \<and>
     mailer_send_message demo_outside demo_smtp_mail m (None, []) = (Inr 0, s') \<and> snd s' = []"
proof -
  obtain m alts where m: "mail_build_message demo_mail_env (demo_mail_request ''ada'' None) () = (Inr (m, alts), ())"
    using demo_mail_built [of "''ada''" None "()"] by blast
  then have "em_body m = None" by (rule mail_build_result)
  then have b: "\<forall>m \<in> set [m]. em_body m = None" by simp
  have ec: "ec_backend demo_smtp_mail = Use_smtp default_smtp_config" by (simp add: demo_smtp_mail_def)
  obtain s' where run: "mailer_send_message demo_outside demo_smtp_mail m (None, []) = (Inr 0, s')" "snd s' = []"
    by (simp add: mailer_send_message_def mailer_send_messages_def get_backend_def ec mail_open_def mail_send_def mail_close_def
        smtp_without_bodies [OF b] result_map_def)
      (simp add: demo_outside_def demo_smtp_def demo_smtp_mail_def smtp_open_def smtp_close_def smtp_handshake_def smtp_do_def
        set_connection_def default_smtp_config_def str_truthy_def eff_simps)
  from smtp_templated_mail_lost [OF m ec run(1), of "\<lambda>_ w. (Some Smtp_connect, w)"] m run show ?thesis by blast
qed

text \<open>A list of alternatives that the caller uses for two templated messages carries the first one's body into the
  second: building appends the body to the list of the caller, and both interfaces over HTTP send the
  first alternative in HTML. The second recipient gets what was written for the first.\<close>

theorem shared_alternatives_cross:
  assumes "mail_build_message env r1 w0 = (Inr (m1, alts), w1)" and "mr_alternatives r1 = Some l" and "l \<noteq> []"
    and "list_all (\<lambda>(_, mimetype). mimetype \<noteq> ''text/html'') l" and "mr_alternatives r2 = alts"
    and "mail_build_message env r2 w1 = (Inr (m2, alts'), w2)"
  shows "html_alternative m2 = html_alternative m1 \<and> html_alternative m1 = Some (fst (last (em_alternatives m1)))"
proof -
  obtain b1 where 1: "em_alternatives m1 = l @ [(b1, ''text/html'')]" "alts = Some (em_alternatives m1)"
    using mail_build_result [OF assms(1)] assms(2,3) by (auto simp: or_list_def)
  obtain b2 where 2: "em_alternatives m2 = em_alternatives m1 @ [(b2, ''text/html'')]"
    using mail_build_result [OF assms(6)] assms(5) 1(2) by (auto simp: or_list_def)
  have "find (\<lambda>(_, mimetype). mimetype = ''text/html'') (l @ (b1, ''text/html'') # xs) = Some (b1, ''text/html'')" for xs
    using assms(4) by (induction l) auto
  then show ?thesis by (simp add: html_alternative_def 1 2)
qed

lemma shared_alternatives_cross_witness:
  "\<exists>m1 m2 alts alts'. mail_build_message demo_mail_env (demo_mail_request ''ada'' (Some [(''x'', ''text/calendar'')])) () = (Inr (m1, alts), ()) \<and>
     mail_build_message demo_mail_env (demo_mail_request ''bob'' alts) () = (Inr (m2, alts'), ()) \<and>
     em_to m2 = [''bob''] \<and> html_alternative m2 = Some ''Dear ada''"
proof -
  obtain m1 alts where 1: "mail_build_message demo_mail_env (demo_mail_request ''ada'' (Some [(''x'', ''text/calendar'')])) () = (Inr (m1, alts), ())"
    "em_alternatives m1 = [(''x'', ''text/calendar''), (''Dear ada'', ''text/html'')]"
    using demo_mail_built [of "''ada''" "Some [(''x'', ''text/calendar'')]" "()"] by (auto simp: or_list_def)
  obtain m2 alts' where 2: "mail_build_message demo_mail_env (demo_mail_request ''bob'' alts) () = (Inr (m2, alts'), ())"
    using demo_mail_built [of "''bob''" alts "()"] by blast
  have to: "em_to m2 = [''bob'']" using mail_build_result [OF 2] by (simp add: demo_mail_request_def)
  have "html_alternative m2 = html_alternative m1 \<and> html_alternative m1 = Some (fst (last (em_alternatives m1)))"
    by (rule shared_alternatives_cross [OF 1(1) _ _ _ _ 2, where l = "[(''x'', ''text/calendar'')]"])
      (simp_all add: demo_mail_request_def)
  with 1 2 to show ?thesis by (intro exI [of _ m1] exI [of _ m2] exI [of _ alts] exI [of _ alts']) simp
qed

section \<open>Limits of the interfaces over HTTP\<close>

text \<open>C31: What becomes of a message that the interface refuses because of its rate limit. The limit is reported, with the
  seconds to wait when the header holds a number and without them when it is missing, even by a
  backend that fails silently. But a header that holds a date, as HTTP allows, makes the report itself
  fail: it becomes a failed delivery, and a backend that fails silently goes on sending.\<close>

theorem rate_limit_reported:
  assumes "api_payload a lib c m = Inr p" and "ao_post ops (api_url a) p w = (Inr resp, w')" and "mp_status_code resp = 429"
    and "silently = mb_fail_silently c"
  shows "api_send_messages a ops lib key c (m # ms) (True, w) =
    (if \<not> str_truthy (mp_retry_after resp) then (Inl (EmailRateLimitError None), (True, w'))
     else (case int_of_text (or_str (mp_retry_after resp) []) of
         Some n \<Rightarrow> (Inl (EmailRateLimitError (Some n)), (True, w'))
       | None \<Rightarrow> if silently then send_loop (api_send_message a ops lib c) is_rate_limit True ms 0 (True, w')
           else (Inl EmailDeliveryError, (True, w'))))"
proof -
  have f: "eff_finally (send_loop send is_rate_limit si xs 0) (eff_return ()) s = send_loop send is_rate_limit si xs 0 s" for send si xs s
    by (simp add: eff_finally_def eff_return_def split: prod.split)
  have one: "api_send_message a ops lib c m (True, w) =
      ((case api_response_error resp of Some e \<Rightarrow> Inl e | None \<Rightarrow> Inr ()), (True, w'))"
    using assms(1,2) by (simp add: api_send_message_def eff_simps split: option.split)
  have "api_send_messages a ops lib key c (m # ms) (True, w) = send_loop (api_send_message a ops lib c) is_rate_limit silently (m # ms) 0 (True, w)"
    by (simp add: api_send_messages_def backend_send_def eff_bind_def [of "api_open ops key"] api_open_result f assms(4) del: send_loop.simps)
  with one assms(3) show ?thesis
    by (auto simp: api_response_error_def eff_simps split: option.split)
qed

definition demo_mail :: email_message where
  "demo_mail = \<lparr>em_subject = [], em_body = None, em_from_email = None, em_to = [''a@b.c''], em_cc = [], em_bcc = [], em_reply_to = [],
    em_headers = [], em_attachments = [], em_alternatives = []\<rparr>"

definition demo_limited :: mail_response where
  "demo_limited = \<lparr>mp_status_code = 429, mp_retry_after = Some ''Fri, 31 Dec'', mp_text_fails = None\<rparr>"

definition demo_loud :: mail_settings where
  "demo_loud = \<lparr>mb_fail_silently = False, mb_default_from_email = None, mb_default_from_name = None\<rparr>"

lemma rate_limit_reported_witness:
  "api_send_messages Resend \<lparr>ao_open = (\<lambda>_. eff_return ()), ao_close = eff_return (), ao_post = (\<lambda>_ _. eff_return demo_limited)\<rparr>
     (mo_lib demo_outside) [] demo_loud [demo_mail] (True, ()) = (Inl EmailDeliveryError, (True, ()))"
  (is "api_send_messages Resend ?ops _ _ _ _ _ = _")
proof -
  obtain p where p: "api_payload Resend (mo_lib demo_outside) demo_loud demo_mail = Inr p"
    by (simp add: api_payload_def resend_payload_def resolve_from_def demo_outside_def demo_mail_def demo_loud_def or_str_def
        str_truthy_def result_map_def)
  have post: "ao_post ?ops (api_url Resend) p () = (Inr demo_limited, ())" by (simp add: eff_return_def)
  have limited: "mp_status_code demo_limited = 429" by (simp add: demo_limited_def)
  have n: "int_of_text ''Fri, 31 Dec'' = None"
    by (simp add: int_of_text_def signed_def py_strip_def py_space_def code_point_def re_digit_def)
  have loud: "False = mb_fail_silently demo_loud" by (simp add: demo_loud_def)
  from rate_limit_reported [OF p post limited loud, of "[]" "[]"] show ?thesis
    by (simp add: demo_limited_def n str_truthy_def or_str_def)
qed

section \<open>Which settings give a backend\<close>

text \<open>Of the names the settings may give, only those of SMTP and of the interfaces over HTTP make a backend. With the
  default, \<open>console\<close>, and with \<open>memory\<close>, both documented, every message sent raises and nothing is sent.\<close>

theorem mail_backend_available:
  assumes "get_email_config st = Inr ec" and "CHR ''.'' \<notin> set (es_backend st)"
  shows "if es_backend st \<in> {''smtp'', ''resend'', ''sendgrid''}
    then \<exists>b c. get_backend (mo_load out) (ec_backend ec) None (Some ec) = Inr (b, c)
    else \<exists>e. mailer_send_message out ec m (None, w) = (Inl e, (None, w)) \<and>
      e = (if es_backend st = ''console'' then TypeError ''ConsoleBackend'' else ValueError (es_backend st))"
proof (cases "es_backend st = ''smtp'' \<or> es_backend st = ''resend''")
  case True
  with assms show ?thesis
    by (auto simp: get_email_config_def get_backend_def result_map_def resend_config_def split: if_splits)
next
  case False
  then have "ec_backend ec = Backend_name (es_backend st)"
    using assms(1) by (auto simp: get_email_config_def result_map_def)
  with False assms(2) show ?thesis
    by (auto simp: get_backend_def backend_by_name_def result_map_def mailer_send_message_def mailer_send_messages_def)
qed

definition demo_email_settings :: email_settings where
  "demo_email_settings = \<lparr>es_backend = ''console'', es_from_email = ''noreply@localhost'', es_from_name = ''Litestar App'',
     es_smtp = default_smtp_config, es_resend_api_key = []\<rparr>"

lemma mail_backend_available_witness:
  "\<exists>ec. get_email_config demo_email_settings = Inr ec \<and>
     mailer_send_message demo_outside ec demo_mail (None, []) = (Inl (TypeError ''ConsoleBackend''), (None, []))"
proof -
  obtain ec where ec: "get_email_config demo_email_settings = Inr ec"
    by (simp add: get_email_config_def demo_email_settings_def result_map_def)
  have "CHR ''.'' \<notin> set (es_backend demo_email_settings)" by (simp add: demo_email_settings_def)
  from mail_backend_available [OF ec this, of demo_outside demo_mail "[]"] ec show ?thesis
    by (auto simp: demo_email_settings_def)
qed

end
