(* ===== verification/Keycloak_Base.thy ===== *)
theory Keycloak_Base
  imports Taas_Prelude
begin

text \<open>
  What the Keycloak modules share: the dictionaries of the JSON answers and their operations with
  the exceptions Python raises, objects built from keyword arguments, the reading of an error of
  Keycloak (\<open>parse_keycloak_error\<close> of \<open>libs/iam_keycloak/src/iam_keycloak/utils.py\<close>) and its report
  (\<open>helpers/report_kc_error.py\<close>), and the two shapes of error handling most operations of the
  service have: report and answer a fixed value, or report and raise again. The log and the trace
  behind \<open>report_error\<close> are left out; it is documented never to raise.
\<close>

section \<open>Dictionaries of JSON answers\<close>

text \<open>\<open>d.get(key, default)\<close>\<close>

definition py_get :: "jval \<Rightarrow> string \<Rightarrow> jval \<Rightarrow> ('k, jval) eff" where
  "py_get d key dflt = (case d of
       JObj kvs \<Rightarrow> eff_return (case map_of kvs key of None \<Rightarrow> dflt | Some v \<Rightarrow> v)
     | _ \<Rightarrow> eff_raise (AttributeError ''get''))"

text \<open>\<open>d[key]\<close> with a text as key\<close>

definition py_item :: "jval \<Rightarrow> string \<Rightarrow> ('k, jval) eff" where
  "py_item d key = (case d of
       JObj kvs \<Rightarrow> (case map_of kvs key of None \<Rightarrow> eff_raise (KeyError key) | Some v \<Rightarrow> eff_return v)
     | _ \<Rightarrow> eff_raise (TypeError key))"

text \<open>\<open>d.keys()\<close>, as a list\<close>

definition py_keys :: "jval \<Rightarrow> ('k, jval) eff" where
  "py_keys d = (case d of
       JObj kvs \<Rightarrow> eff_return (JList (map (\<lambda>(k, v). JStr k) kvs))
     | _ \<Rightarrow> eff_raise (AttributeError ''keys''))"

text \<open>What a \<open>for\<close> loop over a value goes through.\<close>

definition py_iter :: "jval \<Rightarrow> ('k, jval list) eff" where
  "py_iter v = (case v of
       JList xs \<Rightarrow> eff_return xs
     | JObj kvs \<Rightarrow> eff_return (map (\<lambda>(k, v). JStr k) kvs)
     | JStr s \<Rightarrow> eff_return (map (\<lambda>c. JStr [c]) s)
     | _ \<Rightarrow> eff_raise (TypeError ''not iterable''))"

text \<open>\<open>bool(v)\<close>\<close>

definition py_bool :: "jval \<Rightarrow> bool" where
  "py_bool v = (case v of
       JNull \<Rightarrow> False | JBool b \<Rightarrow> b | JInt n \<Rightarrow> n \<noteq> 0 | JNum q \<Rightarrow> q \<noteq> 0
     | JStr s \<Rightarrow> s \<noteq> [] | JList xs \<Rightarrow> xs \<noteq> [] | JObj kvs \<Rightarrow> kvs \<noteq> [])"

text \<open>A list of results, stopping at the first exception.\<close>

fun eff_map :: "('x \<Rightarrow> ('k, 'y) eff) \<Rightarrow> 'x list \<Rightarrow> ('k, 'y list) eff" where
  "eff_map f [] = eff_return []"
| "eff_map f (x # xs) = eff_bind (f x) (\<lambda>y. eff_bind (eff_map f xs) (\<lambda>ys. eff_return (y # ys)))"

text \<open>A result or an exception that does not depend on the state.\<close>

definition eff_of :: "py_exn + 'a \<Rightarrow> ('k, 'a) eff" where
  "eff_of r = (case r of Inl e \<Rightarrow> eff_raise e | Inr x \<Rightarrow> eff_return x)"

section \<open>Objects\<close>

text \<open>
  An object is the list of its fields with their values; a class is the list of its fields, each with
  its default or none when it is required. \<open>C(**kwargs)\<close> raises when a field is not known or a
  required one is missing. Of two arguments with one name, which only \<open>**\<close> of a rebuilt dictionary
  can have, the later counts.
\<close>

type_synonym class_fields = "(string \<times> jval option) list"

type_synonym obj = "(string \<times> jval) list"

definition arg_of :: "(string \<times> jval) list \<Rightarrow> string \<Rightarrow> jval option" where
  "arg_of kwargs = map_of (rev kwargs)"

definition obj_new :: "class_fields \<Rightarrow> (string \<times> jval) list \<Rightarrow> py_exn + obj" where
  "obj_new fields kwargs =
     (case find (\<lambda>(k, v). k \<notin> fst ` set fields) kwargs of
        Some (k, v) \<Rightarrow> Inl (TypeError k)
      | None \<Rightarrow> (case find (\<lambda>(f, d). d = None \<and> arg_of kwargs f = None) fields of
          Some (f, d) \<Rightarrow> Inl (TypeError f)
        | None \<Rightarrow> Inr (map (\<lambda>(f, d). (f, case arg_of kwargs f of Some v \<Rightarrow> v | None \<Rightarrow> (case d of Some x \<Rightarrow> x | None \<Rightarrow> JNull))) fields)))"

definition obj_field :: "obj \<Rightarrow> string \<Rightarrow> jval" where
  "obj_field b f = (case map_of b f of None \<Rightarrow> JNull | Some v \<Rightarrow> v)"

text \<open>\<open>setattr(b, f, v)\<close> for a field of the class\<close>

definition obj_set :: "string \<Rightarrow> jval \<Rightarrow> obj \<Rightarrow> obj" where
  "obj_set f v b = map (\<lambda>(g, x). (g, if g = f then v else x)) b"

section \<open>Errors of Keycloak\<close>

fun is_kc_error :: "py_exn \<Rightarrow> bool" where
  "is_kc_error (KeycloakError _ _) = True"
| "is_kc_error _ = False"

text \<open>\<open>except (KeycloakAuthenticationError, KeycloakOperationError)\<close>: a lost connection is neither.\<close>

fun is_kc_refusal :: "py_exn \<Rightarrow> bool" where
  "is_kc_refusal (KeycloakError k _) = (k \<noteq> Kc_connection)"
| "is_kc_refusal _ = False"

fun is_kc_authentication :: "py_exn \<Rightarrow> bool" where
  "is_kc_authentication (KeycloakError Kc_authentication _) = True"
| "is_kc_authentication _ = False"

text \<open>\<open>json.loads(error.error_message)\<close>\<close>

fun kc_json_loads :: "kc_message \<Rightarrow> py_exn + jval" where
  "kc_json_loads (Kc_text (Some v)) = Inr v"
| "kc_json_loads (Kc_text None) = Inl JSONDecodeError"
| "kc_json_loads (Kc_bytes (Some v)) = Inr v"
| "kc_json_loads (Kc_bytes None) = Inl JSONDecodeError"
| "kc_json_loads Kc_bad_bytes = Inl UnicodeDecodeError"

text \<open>\<open>parse_keycloak_error\<close>: a text has no \<open>decode\<close>.\<close>

definition parse_keycloak_error :: "kc_message \<Rightarrow> ('k, jval) eff" where
  "parse_keycloak_error msg = (case msg of
       Kc_text _ \<Rightarrow> eff_raise (AttributeError ''decode'')
     | _ \<Rightarrow> eff_bind (eff_of (kc_json_loads msg)) (\<lambda>error_message.
         eff_bind (py_get error_message ''errorMessage'' JNull) (\<lambda>error.
         if error = JNull then
           eff_bind (py_get error_message ''error_description'' JNull) (\<lambda>error.
           if error = JNull then py_get error_message ''error'' JNull else eff_return error)
         else eff_return error)))"

text \<open>\<open>report_keycloak_error\<close>; the text of another error, \<open>str(e)\<close>, is a parameter.\<close>

definition report_keycloak_error :: "(py_exn \<Rightarrow> string) \<Rightarrow> py_exn \<Rightarrow> ('k, jval) eff" where
  "report_keycloak_error exn_text e = (case e of
       KeycloakError _ msg \<Rightarrow> parse_keycloak_error msg
     | _ \<Rightarrow> eff_return (JStr (exn_text e)))"

text \<open>\<open>try: m / except Exception as e: report_keycloak_error(e, ...); return x\<close>\<close>

definition kc_reported :: "(py_exn \<Rightarrow> string) \<Rightarrow> ('k, 'a) eff \<Rightarrow> 'a \<Rightarrow> ('k, 'a) eff" where
  "kc_reported exn_text m x = eff_catch m is_exception
     (\<lambda>e. eff_bind (report_keycloak_error exn_text e) (\<lambda>_. eff_return x))"

text \<open>\<open>try: m / except Exception as e: report_keycloak_error(e, ...); raise\<close>\<close>

definition reraised :: "(py_exn \<Rightarrow> string) \<Rightarrow> ('k, 'a) eff \<Rightarrow> ('k, 'a) eff" where
  "reraised exn_text m = eff_catch m is_exception
     (\<lambda>e. eff_bind (report_keycloak_error exn_text e) (\<lambda>_. eff_raise e))"

text \<open>\<open>try: m / except KeycloakError as e: report_keycloak_error(e, ...); raise e\<close>\<close>

definition failure_reported :: "(py_exn \<Rightarrow> string) \<Rightarrow> ('k, 'a) eff \<Rightarrow> ('k, 'a) eff" where
  "failure_reported exn_text m = eff_catch m is_kc_error
     (\<lambda>e. eff_bind (report_keycloak_error exn_text e) (\<lambda>_. eff_raise e))"

section \<open>When a report fails\<close>

text \<open>
  A message the report can read is the JSON text of a dictionary in UTF-8 bytes. Any other makes the
  report raise, with one of four exceptions, none of them an error of Keycloak.
\<close>

definition readable :: "py_exn \<Rightarrow> bool" where
  "readable e = (case e of
       KeycloakError _ msg \<Rightarrow> (case msg of Kc_bytes (Some (JObj _)) \<Rightarrow> True | _ \<Rightarrow> False)
     | _ \<Rightarrow> True)"

definition report_failures :: "py_exn list" where
  "report_failures = [AttributeError ''decode'', AttributeError ''get'', JSONDecodeError, UnicodeDecodeError]"

lemma py_get_obj [simp]: "py_get (JObj kvs) key d k = (Inr (case map_of kvs key of None \<Rightarrow> d | Some v \<Rightarrow> v), k)"
  by (simp add: py_get_def eff_defs)

lemma py_get_other [simp]: "(\<And>kvs. d \<noteq> JObj kvs) \<Longrightarrow> py_get d key x k = (Inl (AttributeError ''get''), k)"
  by (cases d) (auto simp: py_get_def eff_defs)

lemma parse_reads: "\<exists>t. parse_keycloak_error (Kc_bytes (Some (JObj kvs))) k = (Inr t, k)"
  by (simp add: parse_keycloak_error_def eff_of_def eff_defs)

lemma parse_fails: "(\<And>kvs. msg \<noteq> Kc_bytes (Some (JObj kvs))) \<Longrightarrow>
  \<exists>x \<in> set report_failures. parse_keycloak_error msg k = (Inl x, k)"
proof (cases msg)
  case (Kc_bytes v)
  moreover assume "\<And>kvs. msg \<noteq> Kc_bytes (Some (JObj kvs))"
  ultimately show ?thesis
    by (cases v) (simp_all add: parse_keycloak_error_def report_failures_def eff_of_def eff_bind_def eff_raise_def eff_return_def)
qed (simp_all add: parse_keycloak_error_def report_failures_def eff_of_def eff_bind_def eff_raise_def)

lemma report_readable: "readable e \<Longrightarrow> \<exists>t. report_keycloak_error tx e k = (Inr t, k)"
  using parse_reads [where k = k]
  by (auto simp: readable_def report_keycloak_error_def eff_return_def
      split: py_exn.splits kc_message.splits option.splits jval.splits)

lemma report_unreadable: "\<not> readable e \<Longrightarrow> \<exists>x \<in> set report_failures. report_keycloak_error tx e k = (Inl x, k)"
  by (auto simp: readable_def report_keycloak_error_def intro!: parse_fails
      split: py_exn.splits kc_message.splits option.splits jval.splits)

lemma report_state [simp]: "snd (report_keycloak_error tx e k) = k"
  by (cases "readable e") (auto dest: report_readable [of e tx k] report_unreadable [of e tx k])

lemma reported_ok: "m k = (Inr x, k') \<Longrightarrow> kc_reported tx m d k = (Inr x, k')"
  by (simp add: kc_reported_def eff_defs)

lemma reported_fails: "m k = (Inl e, k') \<Longrightarrow> is_exception e \<Longrightarrow> readable e \<Longrightarrow> kc_reported tx m d k = (Inr d, k')"
  using report_readable [of e tx k'] by (auto simp: kc_reported_def eff_defs)

lemma reported_state [simp]: "snd (kc_reported tx m d k) = snd (m k)"
proof (cases "m k")
  case (Pair r k')
  show ?thesis
  proof (cases r)
    case (Inl e)
    obtain r' where "report_keycloak_error tx e k' = (r', k')"
      using report_state [of tx e k'] by (metis prod.collapse)
    with Pair Inl show ?thesis
      by (cases r') (simp_all add: kc_reported_def eff_catch_def eff_bind_def eff_return_def)
  qed (use Pair in \<open>simp add: kc_reported_def eff_catch_def\<close>)
qed

text \<open>A report that fails replaces the answer: this is the only way an \<open>Exception\<close> leaves such an operation.\<close>

definition escapes :: "py_exn \<Rightarrow> py_exn \<Rightarrow> bool" where
  "escapes e x \<longleftrightarrow> (if is_exception e then \<not> readable e \<and> x \<in> set report_failures else x = e)"

lemma reported_cases:
  assumes "m k = (Inl e, k')"
  shows "kc_reported tx m d k = (Inr d, k') \<and> is_exception e \<and> readable e \<or>
    (\<exists>x. kc_reported tx m d k = (Inl x, k') \<and> escapes e x)"
proof (cases "is_exception e \<and> readable e")
  case True
  then show ?thesis using reported_fails [of m k e k' tx d] assms by simp
next
  case False
  then show ?thesis using report_unreadable [of e tx k'] assms
    by (cases "is_exception e") (auto simp: kc_reported_def escapes_def eff_catch_def eff_bind_def)
qed

lemma reported_raises: "kc_reported tx m d k = (Inl x, k') \<Longrightarrow> \<exists>e. m k = (Inl e, k') \<and> escapes e x"
  by (cases "fst (m k)"; cases "m k") (auto dest: reported_ok [of m k _ _ tx d] reported_cases [of m k _ _ tx d])

lemma reraised_raises: "m k = (Inl e, k') \<Longrightarrow> \<exists>x. reraised tx m k = (Inl x, k') \<and>
    (x = e \<or> is_exception e \<and> \<not> readable e \<and> x \<in> set report_failures)"
  using report_readable [of e tx k'] report_unreadable [of e tx k']
  by (cases "is_exception e"; cases "readable e") (auto simp: reraised_def eff_catch_def eff_bind_def eff_raise_def)

lemma reraised_ok: "m k = (Inr x, k') \<Longrightarrow> reraised tx m k = (Inr x, k')"
  by (simp add: reraised_def eff_defs)

text \<open>The two handlers that raise again change neither a result nor the state.\<close>

lemma handler_raises:
  "\<exists>x. eff_bind (report_keycloak_error tx e) (\<lambda>_. eff_raise e) k = (Inl x, k)"
  using report_state [of tx e k]
  by (cases "report_keycloak_error tx e k") (auto simp: eff_bind_def eff_raise_def split: sum.splits)

lemma handled_run:
  fixes m :: "('k, 'a) eff"
  assumes "eff_catch m P (\<lambda>e. eff_bind (report_keycloak_error tx e) (\<lambda>_. eff_raise e)) k = (r, k')"
  shows "\<exists>r'. m k = (r', k') \<and> (case r of Inr x \<Rightarrow> r' = Inr x | Inl _ \<Rightarrow> \<exists>e. r' = Inl e)"
proof (cases "m k")
  case (Pair q k1)
  show ?thesis
  proof (cases q)
    case (Inl e)
    obtain x where "eff_bind (report_keycloak_error tx e) (\<lambda>_. eff_raise e :: ('k, 'a) eff) k1 = (Inl x, k1)"
      using handler_raises [of tx e k1] by auto
    with assms Pair Inl show ?thesis by (auto simp: eff_catch_def split: if_splits)
  qed (use assms Pair in \<open>auto simp: eff_catch_def\<close>)
qed

lemmas failure_reported_run = handled_run [where P = is_kc_error, folded failure_reported_def]

lemmas reraised_run = handled_run [where P = is_exception, folded reraised_def]

section \<open>Objects: lemmas\<close>

lemma obj_new_unknown:
  assumes "(k, v) \<in> set kwargs" and "k \<notin> fst ` set fields"
  shows "\<exists>f. obj_new fields kwargs = Inl (TypeError f)"
proof -
  have "find (\<lambda>(k, v). k \<notin> fst ` set fields) kwargs \<noteq> None"
    using assms by (auto simp: find_None_iff)
  then show ?thesis by (auto simp: obj_new_def)
qed

lemma obj_new_missing:
  assumes "(f, None) \<in> set fields" and "f \<notin> fst ` set kwargs"
  shows "\<exists>g. obj_new fields kwargs = Inl (TypeError g)"
proof -
  have "arg_of kwargs f = None" using assms(2) by (simp add: arg_of_def map_of_eq_None_iff)
  then have "find (\<lambda>(f, d). d = None \<and> arg_of kwargs f = None) fields \<noteq> None"
    using assms(1) by (auto simp: find_None_iff)
  then show ?thesis by (auto simp: obj_new_def split: option.splits)
qed

lemma obj_new_fields: "obj_new fields kwargs = Inr b \<Longrightarrow> map fst b = map fst fields"
  by (auto simp: obj_new_def split: option.splits)

lemma map_of_with_key: "map_of (map (\<lambda>(f, d). (f, h f d)) xs) g = map_option (h g) (map_of xs g)"
  by (induction xs) auto

lemma obj_new_field:
  assumes "obj_new fields kwargs = Inr b" and "f \<in> fst ` set fields" and "arg_of kwargs f = Some v"
  shows "obj_field b f = v"
proof -
  obtain d where "map_of fields f = Some d" using assms(2) by (metis map_of_eq_None_iff not_Some_eq)
  with assms show ?thesis by (auto simp: obj_new_def obj_field_def map_of_with_key split: option.splits)
qed

lemma obj_set_fields [simp]: "map fst (obj_set f v b) = map fst b"
  by (auto simp: obj_set_def)

end
