(* ===== verification/Keycloak_Service.thy ===== *)
theory Keycloak_Service
  imports Keycloak_Base Rest_Client
begin

text \<open>
  \<open>KeycloakIamService\<close> (\<open>libs/iam_keycloak/src/iam_keycloak/services/kc_iam_service.py\<close>) but for the
  users and roles of the directory (\<open>Keycloak_Directory\<close>) and registration (\<open>Iam_Signup\<close>): e-mail
  verification, logins, one-time passwords, passwords, tokens, sessions, impersonation, service
  accounts and health, with the settings (\<open>keycloak_settings.py\<close>) and clients (\<open>keycloak_init.py\<close>).
  The server is the record \<open>kc_api\<close> of the requests of the library \<open>python-keycloak\<close> on an opaque
  state. The module uses the names \<open>jwt\<close>, \<open>PasswordPolicy\<close> and \<open>JWTClaimsError\<close> without importing them:
  reading one raises \<open>NameError\<close>, and the settings have no client for impersonation. The code after
  such a name is translated all the same. The check that an administration client exists always
  passes, as the client is created with the service, and is left out, as are log lines.
\<close>

section \<open>Settings and clients\<close>

record kc_settings =
  ks_realm :: string
  ks_host :: string
  ks_client_id :: string
  ks_login_client_id :: string
  ks_login_client_secret :: "string option"
  ks_admin_user :: "string option"
  ks_admin_secret :: "string option"

definition keycloak_settings_init :: "kc_settings \<Rightarrow> py_exn + kc_settings" where
  "keycloak_settings_init s =
     (if ks_host s = [] then Inl (ValueError ''KEYCLOAK_HOST'')
      else if ks_realm s = [] then Inl (ValueError ''KEYCLOAK_REALM'')
      else if ks_client_id s = [] then Inl (ValueError ''KEYCLOAK_CLIENT_ID'')
      else if \<not> str_truthy (ks_login_client_secret s) then Inl (ValueError ''KEYCLOAK_LOGIN_CLIENT_SECRET'')
      else if \<not> str_truthy (ks_admin_user s) then Inl (ValueError ''KEYCLOAK_ADMIN_USER'')
      else if \<not> str_truthy (ks_admin_secret s) then Inl (ValueError ''KEYCLOAK_ADMIN_SECRET'')
      else Inr s)"

text \<open>A \<open>KeycloakOpenID\<close>.\<close>

record oidc_client =
  oc_realm :: string
  oc_client_id :: string
  oc_secret :: "string option"

text \<open>
  What the operations read of the process: the settings, \<open>str\<close> of an exception and of a JSON value,
  \<open>list(set(xs))\<close>, and the time zone (\<open>fromtimestamp\<close>, in microseconds).
\<close>

record iam_env =
  ke_settings :: kc_settings
  ke_exn_text :: "py_exn \<Rightarrow> string"
  ke_str :: "jval \<Rightarrow> string"
  ke_set_list :: "jval list \<Rightarrow> jval list"
  ke_fromtimestamp :: "rat \<Rightarrow> py_exn + int"

definition get_keycloak_openid :: "kc_settings \<Rightarrow> string option \<Rightarrow> ('k, oidc_client) eff" where
  "get_keycloak_openid s realm =
     (if \<not> str_truthy realm \<and> ks_realm s = [] then eff_raise (ValueError ''KEYCLOAK_REALM'')
      else eff_return \<lparr>oc_realm = or_str realm (ks_realm s), oc_client_id = ks_client_id s,
        oc_secret = ks_login_client_secret s\<rparr>)"

text \<open>The client with \<open>client_id = KEYCLOAK_LOGIN_CLIENT_ID\<close>.\<close>

definition login_client :: "kc_settings \<Rightarrow> ('k, oidc_client) eff" where
  "login_client s = eff_bind (get_keycloak_openid s None) (\<lambda>c. eff_return (c\<lparr>oc_client_id := ks_login_client_id s\<rparr>))"

section \<open>The server\<close>

text \<open>The status of an answer, and what its method \<open>json\<close> does.\<close>

record kc_response =
  kr_status :: int
  kr_json :: "py_exn + jval"

type_synonym kwargs = "(string \<times> jval) list"

record 'k kc_api =
  ka_send_verify_email :: "string \<Rightarrow> ('k, unit) eff"
  ka_update_user :: "string \<Rightarrow> jval \<Rightarrow> ('k, unit) eff"
  ka_raw_get :: "string \<Rightarrow> ('k, kc_response) eff"
  ka_raw_post :: "string \<Rightarrow> jval \<Rightarrow> ('k, kc_response) eff"
  ka_raw_delete :: "string \<Rightarrow> ('k, kc_response) eff"
  ka_get_credentials :: "string \<Rightarrow> ('k, jval) eff"
  ka_get_users :: "kwargs \<Rightarrow> ('k, jval) eff"
  ka_get_user :: "string \<Rightarrow> ('k, jval) eff"
  ka_delete_user :: "string \<Rightarrow> ('k, unit) eff"
  ka_send_update_account :: "jval \<Rightarrow> string list \<Rightarrow> ('k, unit) eff"
  ka_set_user_password :: "jval \<Rightarrow> string \<Rightarrow> bool \<Rightarrow> ('k, unit) eff"
  ka_get_realm :: "string \<Rightarrow> ('k, jval) eff"
  ka_get_realms :: "('k, jval) eff"
  ka_get_sessions :: "string \<Rightarrow> ('k, jval) eff"
  ka_user_logout :: "string \<Rightarrow> ('k, unit) eff"
  ka_get_events :: "string \<Rightarrow> int \<Rightarrow> ('k, jval) eff"
  ka_create_client :: "kwargs \<Rightarrow> ('k, jval) eff"
  ka_get_client_secrets :: "jval \<Rightarrow> ('k, jval) eff"
  ka_generate_client_secrets :: "string \<Rightarrow> ('k, jval) eff"
  ka_get_client_service_account_user :: "jval \<Rightarrow> ('k, jval) eff"
  ka_get_realm_role :: "jval \<Rightarrow> ('k, jval) eff"
  ka_assign_realm_roles :: "jval \<Rightarrow> jval list \<Rightarrow> ('k, unit) eff"
  ka_delete_realm_roles_of_user :: "jval \<Rightarrow> jval list \<Rightarrow> ('k, unit) eff"
  ka_get_realm_roles_of_user :: "string \<Rightarrow> ('k, jval) eff"
  ka_get_composite_realm_roles_of_user :: "string \<Rightarrow> ('k, jval) eff"
  ka_realm :: "('k, string option) eff"
  ka_client_id :: "('k, string option) eff"
  ko_token :: "oidc_client \<Rightarrow> kwargs \<Rightarrow> ('k, jval) eff"
  ko_logout :: "oidc_client \<Rightarrow> string \<Rightarrow> ('k, unit) eff"
  ko_introspect :: "oidc_client \<Rightarrow> string \<Rightarrow> ('k, jval) eff"
  ko_refresh_token :: "oidc_client \<Rightarrow> string \<Rightarrow> ('k, jval) eff"
  ko_public_key :: "oidc_client \<Rightarrow> ('k, string) eff"
  ko_decode_token :: "oidc_client \<Rightarrow> string \<Rightarrow> string \<Rightarrow> ('k, jval) eff"

definition opt_jstr :: "string option \<Rightarrow> jval" where
  "opt_jstr s = (case s of None \<Rightarrow> JNull | Some x \<Rightarrow> JStr x)"

text \<open>\<open>try: m; return True / except Exception as e: report; return False\<close>\<close>

definition bool_op :: "iam_env \<Rightarrow> ('k, unit) eff \<Rightarrow> ('k, bool) eff" where
  "bool_op env m = kc_reported (ke_exn_text env) (eff_bind m (\<lambda>_. eff_return True)) False"

section \<open>Names the module does not import\<close>

definition jwt_decode :: "string \<Rightarrow> ('k, jval) eff" where
  "jwt_decode token = eff_raise (NameError ''jwt'')"

definition jwt_now :: "('k, rat) eff" where
  "jwt_now = eff_raise (NameError ''jwt'')"

definition password_policy_new :: "kwargs \<Rightarrow> ('k, obj) eff" where
  "password_policy_new args = eff_raise (NameError ''PasswordPolicy'')"

text \<open>\<open>KeycloakSettings\<close> has no fields for the client of impersonation.\<close>

definition impersonate_client_id :: "kc_settings \<Rightarrow> ('k, string) eff" where
  "impersonate_client_id s = eff_raise (AttributeError ''KEYCLOAK_BUSINESS_IMPERSONATE_CLIENT_ID'')"

definition impersonate_client_secret :: "kc_settings \<Rightarrow> ('k, string) eff" where
  "impersonate_client_secret s = eff_raise (AttributeError ''KEYCLOAK_BUSINESS_IMPERSONATE_CLIENT_SECRET'')"

definition impersonate_client :: "kc_settings \<Rightarrow> ('k, oidc_client) eff" where
  "impersonate_client s = eff_bind (impersonate_client_id s) (\<lambda>i. eff_bind (impersonate_client_secret s)
     (\<lambda>secret. eff_return \<lparr>oc_realm = ks_realm s, oc_client_id = i, oc_secret = Some secret\<rparr>))"

section \<open>Logging out\<close>

definition logout_by_refresh_token :: "iam_env \<Rightarrow> 'k kc_api \<Rightarrow> string \<Rightarrow> string option \<Rightarrow> ('k, bool) eff" where
  "logout_by_refresh_token env api refresh_token realm =
     eff_bind (get_keycloak_openid (ke_settings env) realm) (\<lambda>c.
     eff_catch (eff_bind (ko_logout api c refresh_token) (\<lambda>_. eff_return True)) is_kc_refusal (\<lambda>_. eff_return False))"

definition logout_by_user_id :: "'k kc_api \<Rightarrow> string \<Rightarrow> string option \<Rightarrow> ('k, bool) eff" where
  "logout_by_user_id api user_id session_id =
     eff_catch (eff_bind (ka_user_logout api user_id) (\<lambda>_. eff_return True)) is_exception (\<lambda>_. eff_return False)"

text \<open>
  The methods of \<open>helpers/kc_admin_client.py\<close> and \<open>kc_admin_rest_client.py\<close>: a client of a realm, the
  URL of a realm (\<open>build_url\<close> and \<open>join_url\<close> of the REST client), and the deletion of a session.
\<close>

definition keycloak_openid_connect :: "kc_settings \<Rightarrow> string option \<Rightarrow> string option \<Rightarrow> oidc_client" where
  "keycloak_openid_connect s realm client_id =
     \<lparr>oc_realm = or_str realm (ks_realm s), oc_client_id = or_str client_id (ks_login_client_id s), oc_secret = None\<rparr>"

definition build_realm_url :: "kc_settings \<Rightarrow> string option \<Rightarrow> string \<Rightarrow> string" where
  "build_realm_url s realm sub_url =
     (let url = build_url (ks_host s) (''/admin/realms/'' @ (case realm of None \<Rightarrow> ''None'' | Some r \<Rightarrow> r)) in
      if sub_url \<noteq> [] then join_url [url, sub_url] else url)"

definition admin_delete_session :: "iam_env \<Rightarrow> 'k kc_api \<Rightarrow> jval \<Rightarrow> ('k, kc_response) eff" where
  "admin_delete_session env api session_id = eff_bind (ka_realm api) (\<lambda>r.
     ka_raw_delete api (build_realm_url (ke_settings env) r (''/sessions/'' @ ke_str env session_id)))"

text \<open>
  When decoding raises, the handler \<open>except JWTClaimsError\<close> is looked at, and its name is not known:
  this holds for every exception, those that are no \<open>Exception\<close> included.
\<close>

definition get_session_id_from_token :: "iam_env \<Rightarrow> 'k kc_api \<Rightarrow> string \<Rightarrow> ('k, jval) eff" where
  "get_session_id_from_token env api access_token =
     eff_bind (ka_realm api) (\<lambda>realm.
     eff_bind (ka_client_id api) (\<lambda>client_id.
     let c = keycloak_openid_connect (ke_settings env) realm client_id in
     eff_bind (ko_public_key api c) (\<lambda>pk.
     let key = ''-----BEGIN PUBLIC KEY-----'' @ [CHR 0x0A] @ pk @ [CHR 0x0A] @ ''-----END PUBLIC KEY-----'' in
     eff_catch (eff_bind (ko_decode_token api c access_token key) (\<lambda>t. py_get t ''sid'' JNull))
       (\<lambda>_. True) (\<lambda>_. eff_raise (NameError ''JWTClaimsError'')))))"

definition logout_by_access_token :: "iam_env \<Rightarrow> 'k kc_api \<Rightarrow> string \<Rightarrow> ('k, bool) eff" where
  "logout_by_access_token env api access_token =
     eff_bind (get_session_id_from_token env api access_token) (\<lambda>session_id.
     if \<not> py_bool session_id then eff_return False
     else eff_catch (eff_bind (admin_delete_session env api session_id) (\<lambda>_. eff_return True))
       is_exception (\<lambda>_. eff_return False))"

definition logout :: "'k kc_api \<Rightarrow> string \<Rightarrow> string option \<Rightarrow> ('k, bool) eff" where
  "logout api user_id session_id = logout_by_user_id api user_id session_id"

definition logout_all_sessions :: "'k kc_api \<Rightarrow> string \<Rightarrow> ('k, bool) eff" where
  "logout_all_sessions api user_id = logout_by_user_id api user_id None"

section \<open>E-mail verification\<close>

definition send_email_verification :: "iam_env \<Rightarrow> 'k kc_api \<Rightarrow> string \<Rightarrow> ('k, bool) eff" where
  "send_email_verification env api user_id = bool_op env (ka_send_verify_email api user_id)"

text \<open>\<open>user_id\<close> is used as a text after the test.\<close>

definition verify_email :: "iam_env \<Rightarrow> 'k kc_api \<Rightarrow> string \<Rightarrow> ('k, bool) eff" where
  "verify_email env api token = kc_reported (ke_exn_text env)
     (eff_bind (jwt_decode token) (\<lambda>decoded.
      eff_bind (py_get decoded ''sub'' JNull) (\<lambda>user_id.
      if \<not> py_bool user_id then eff_return False
      else eff_bind (ka_update_user api (ke_str env user_id) (JObj [(''emailVerified'', JBool True)])) (\<lambda>_.
        eff_return True)))) False"

section \<open>Logins\<close>

definition auth_response_fields :: class_fields where
  "auth_response_fields = [(''access_token'', None), (''expires_in'', None), (''refresh_token'', None),
     (''refresh_expires_in'', None), (''token_type'', None), (''id_token'', Some JNull),
     (''not_before_policy'', Some JNull), (''session_state'', Some JNull), (''keep_signed_in'', Some (JBool False))]"

text \<open>Arguments \<open>name=token.get(name)\<close>\<close>

definition token_args :: "jval \<Rightarrow> string list \<Rightarrow> ('k, kwargs) eff" where
  "token_args token names = eff_map (\<lambda>n. eff_bind (py_get token n JNull) (\<lambda>v. eff_return (n, v))) names"

text \<open>
  \<open>except (KeycloakAuthenticationError, KeycloakOperationError) as error: json.loads(...); ...; raise\<close>,
  with whatever is done between.
\<close>

fun kc_error_json :: "py_exn \<Rightarrow> py_exn + jval" where
  "kc_error_json (KeycloakError _ msg) = kc_json_loads msg"
| "kc_error_json e = Inl e"

definition on_refusal :: "('k, 'a) eff \<Rightarrow> (py_exn \<Rightarrow> jval \<Rightarrow> ('k, 'a) eff) \<Rightarrow> ('k, 'a) eff" where
  "on_refusal m h = eff_catch m is_kc_refusal (\<lambda>error. eff_bind (eff_of (kc_error_json error)) (h error))"

record password_auth_request =
  pa_username_or_email :: string
  pa_password :: string
  pa_otp :: "string option"
  pa_keep_signed_in :: bool

definition authenticate_password :: "iam_env \<Rightarrow> 'k kc_api \<Rightarrow> password_auth_request \<Rightarrow> ('k, obj) eff" where
  "authenticate_password env api r =
     (let s = ke_settings env in
      eff_bind (login_client s) (\<lambda>c.
      on_refusal
        (let scope = ''openid profile email organization'' @ (if pa_keep_signed_in r then '' offline_access'' else []) in
         eff_bind (ko_token api c [(''username'', JStr (pa_username_or_email r)), (''password'', JStr (pa_password r)),
             (''totp'', opt_jstr (pa_otp r)), (''client_secret'', opt_jstr (ks_login_client_secret s)), (''scope'', JStr scope)])
           (\<lambda>token.
         eff_bind (token_args token [''access_token'', ''expires_in'', ''refresh_token'', ''refresh_expires_in'',
             ''token_type'', ''id_token'', ''not_before_policy'', ''session_state'']) (\<lambda>args.
         eff_of (obj_new auth_response_fields (args @ [(''keep_signed_in'', JBool (pa_keep_signed_in r))])))))
        (\<lambda>error _. eff_raise error)))"

text \<open>\<open>login\<close> answers with the tokens, or with the description of the refusal.\<close>

definition login :: "iam_env \<Rightarrow> 'k kc_api \<Rightarrow> string \<Rightarrow> string \<Rightarrow> string option \<Rightarrow> bool \<Rightarrow> ('k, obj + jval) eff" where
  "login env api username password otp_code keep_signed_in =
     (let s = ke_settings env in
      if ks_login_client_id s = [] then eff_raise (ValueError ''KEYCLOAK_LOGIN_CLIENT_ID'')
      else eff_bind (login_client s) (\<lambda>c.
      on_refusal
        (let scope = ''openid profile email'' @ (if keep_signed_in then '' offline_access'' else []) in
         eff_bind (ko_token api c [(''username'', JStr username), (''password'', JStr password),
             (''totp'', opt_jstr otp_code), (''client_secret'', opt_jstr (ks_login_client_secret s)), (''scope'', JStr scope)])
           (\<lambda>token.
         eff_bind (token_args token [''access_token'', ''refresh_token'']) (\<lambda>args.
         eff_bind (eff_of (obj_new auth_response_fields args)) (\<lambda>resp. eff_return (Inl resp)))))
        (\<lambda>_ err_message. eff_bind (py_get err_message ''error_description'' JNull) (\<lambda>d. eff_return (Inr d)))))"

definition authenticate_otp :: "iam_env \<Rightarrow> 'k kc_api \<Rightarrow> string \<Rightarrow> string \<Rightarrow> ('k, obj) eff" where
  "authenticate_otp env api username_or_email otp_code =
     (let s = ke_settings env in
      eff_bind (login_client s) (\<lambda>c.
      on_refusal
        (eff_bind (ko_token api c [(''username'', JStr username_or_email), (''totp'', JStr otp_code),
             (''grant_type'', JStr ''password''), (''client_secret'', opt_jstr (ks_login_client_secret s)),
             (''scope'', JStr ''openid profile email'')])
           (\<lambda>token.
         eff_bind (token_args token [''access_token'', ''refresh_token'']) (\<lambda>args.
         eff_of (obj_new auth_response_fields args))))
        (\<lambda>error _. eff_raise error)))"

definition authenticate_social :: "string \<Rightarrow> string \<Rightarrow> ('k, obj) eff" where
  "authenticate_social provider provider_token = eff_raise (NotImplementedError ''Social authentication'')"

text \<open>\<open>str(remember).lower()\<close>\<close>

definition set_remember_me :: "iam_env \<Rightarrow> 'k kc_api \<Rightarrow> string \<Rightarrow> bool \<Rightarrow> ('k, bool) eff" where
  "set_remember_me env api user_id remember = bool_op env (ka_update_user api user_id
     (JObj [(''attributes'', JObj [(''rememberMe'', JList [JStr (if remember then ''true'' else ''false'')])])]))"

section \<open>One-time passwords\<close>

definition realm_url :: "kc_settings \<Rightarrow> string \<Rightarrow> string" where
  "realm_url s path = ks_host s @ ''/admin/realms/'' @ ks_realm s @ path"

definition enable_totp :: "iam_env \<Rightarrow> 'k kc_api \<Rightarrow> string \<Rightarrow> ('k, kwargs) eff" where
  "enable_totp env api user_id = reraised (ke_exn_text env)
     (eff_bind (ka_raw_get api (realm_url (ke_settings env) (''/totp/config/'' @ user_id @ ''/''))) (\<lambda>response.
      eff_bind (eff_of (kr_json response)) (\<lambda>data.
      eff_bind (py_get data ''totpSecret'' JNull) (\<lambda>secret.
      eff_bind (py_get data ''totpSecretEncoded'' JNull) (\<lambda>encoded.
      eff_bind (py_get data ''qrCode'' JNull) (\<lambda>qr.
      eff_return [(''totp_secret'', secret), (''totp_secret_encoded'', encoded), (''qr_code'', qr)]))))))"

text \<open>The text of the error an answer holds is reported, which no text makes fail.\<close>

definition verify_totp :: "iam_env \<Rightarrow> 'k kc_api \<Rightarrow> string \<Rightarrow> string \<Rightarrow> ('k, bool) eff" where
  "verify_totp env api user_id totp_code = kc_reported (ke_exn_text env)
     (eff_bind (enable_totp env api user_id) (\<lambda>totp_config.
      eff_bind (ka_raw_post api (realm_url (ke_settings env) (''/totp/activate/'' @ user_id @ ''/''))
        (JObj [(''deviceName'', JStr ''Authenticator App''), (''totpSecret'', obj_field totp_config ''totp_secret''),
               (''initialCode'', JStr totp_code)])) (\<lambda>response.
      if kr_status response = 204 then eff_return True
      else eff_bind (eff_of (kr_json response)) (\<lambda>r.
        eff_bind (py_get r ''error'' (JStr ''Unknown error'')) (\<lambda>_. eff_return False))))) False"

text \<open>\<open>next((c for c in credentials if c['type'] == 'otp'), None)\<close>\<close>

fun first_otp :: "jval list \<Rightarrow> ('k, jval option) eff" where
  "first_otp [] = eff_return None"
| "first_otp (c # cs) = eff_bind (py_item c ''type'') (\<lambda>t.
     if t = JStr ''otp'' then eff_return (Some c) else first_otp cs)"

definition disable_totp :: "iam_env \<Rightarrow> 'k kc_api \<Rightarrow> string \<Rightarrow> ('k, bool) eff" where
  "disable_totp env api user_id = kc_reported (ke_exn_text env)
     (eff_bind (ka_get_credentials api user_id) (\<lambda>credentials.
      eff_bind (py_iter credentials) (\<lambda>cs.
      eff_bind (first_otp cs) (\<lambda>otp_credential. case otp_credential of
        None \<Rightarrow> eff_return True
      | Some c \<Rightarrow> eff_bind (py_item c ''id'') (\<lambda>credential_id.
          eff_bind (ka_raw_delete api (realm_url (ke_settings env)
            (''/users/'' @ user_id @ ''/credentials/'' @ ke_str env credential_id @ ''/''))) (\<lambda>response.
          eff_return (kr_status response = 204))))))) False"

definition get_totp_backup_codes :: "string \<Rightarrow> ('k, string list) eff" where
  "get_totp_backup_codes user_id = eff_return []"

section \<open>Passwords\<close>

definition send_password_reset_email :: "iam_env \<Rightarrow> 'k kc_api \<Rightarrow> string \<Rightarrow> ('k, bool) eff" where
  "send_password_reset_email env api email = kc_reported (ke_exn_text env)
     (eff_bind (ka_get_users api [(''email'', JStr email)]) (\<lambda>users.
      if \<not> py_bool users then eff_return True
      else eff_bind (py_iter users) (\<lambda>us.
        eff_bind (py_item (hd us) ''id'') (\<lambda>user_id.
        eff_bind (ka_send_update_account api user_id [''UPDATE_PASSWORD'']) (\<lambda>_. eff_return True))))) False"

definition verify_password_reset_token :: "iam_env \<Rightarrow> string \<Rightarrow> ('k, jval) eff" where
  "verify_password_reset_token env token = kc_reported (ke_exn_text env)
     (eff_bind (jwt_decode token) (\<lambda>decoded.
      eff_bind (py_get decoded ''sub'' JNull) (\<lambda>user_id.
      eff_bind (py_get decoded ''exp'' JNull) (\<lambda>expires.
      if \<not> py_bool expires then eff_return user_id
      else eff_bind jwt_now (\<lambda>now. case expires of
          JInt t \<Rightarrow> eff_return (if of_int t < now then JNull else user_id)
        | JNum t \<Rightarrow> eff_return (if t < now then JNull else user_id)
        | _ \<Rightarrow> eff_raise (TypeError ''<'')))))) JNull"

definition complete_password_reset :: "iam_env \<Rightarrow> 'k kc_api \<Rightarrow> string \<Rightarrow> string \<Rightarrow> ('k, bool) eff" where
  "complete_password_reset env api token new_password =
     eff_bind (verify_password_reset_token env token) (\<lambda>user_id.
     if \<not> py_bool user_id then eff_return False
     else bool_op env (ka_set_user_password api user_id new_password False))"

definition change_password :: "iam_env \<Rightarrow> 'k kc_api \<Rightarrow> string \<Rightarrow> string \<Rightarrow> string \<Rightarrow> ('k, bool) eff" where
  "change_password env api user_id current_password new_password = kc_reported (ke_exn_text env)
     (eff_bind (ka_get_user api user_id) (\<lambda>user.
      eff_bind (py_get user ''username'' JNull) (\<lambda>username.
      eff_bind (login_client (ke_settings env)) (\<lambda>c.
      eff_bind (eff_catch
          (eff_bind (ko_token api c [(''username'', username), (''password'', JStr current_password),
             (''client_secret'', opt_jstr (ks_login_client_secret (ke_settings env)))]) (\<lambda>_. eff_return True))
          is_kc_authentication (\<lambda>_. eff_return False)) (\<lambda>verified.
      if \<not> verified then eff_return False
      else eff_bind (ka_set_user_password api (JStr user_id) new_password False) (\<lambda>_. eff_return True)))))) False"

text \<open>\<open>s.split(' and ')\<close> and \<open>s.split('(')\<close>; \<open>skip\<close> counts what is left of a separator.\<close>

fun split_text :: "nat \<Rightarrow> string \<Rightarrow> string \<Rightarrow> string \<Rightarrow> string list" where
  "split_text skip sep [] word = [rev word]"
| "split_text (Suc n) sep (c # cs) word = split_text n sep cs word"
| "split_text 0 sep (c # cs) word =
     (if prefix sep (c # cs) then rev word # split_text (length sep - 1) sep cs []
      else split_text 0 sep cs (c # word))"

definition rstrip_paren :: "string \<Rightarrow> string" where
  "rstrip_paren s = rev (dropWhile (\<lambda>c. c = CHR '')'') (rev s))"

text \<open>The policies, in the order they are stored.\<close>

fun parse_policies :: "string list \<Rightarrow> kwargs \<Rightarrow> py_exn + kwargs" where
  "parse_policies [] ps = Inr ps"
| "parse_policies (policy # rest) ps =
     (if CHR ''('' \<in> set policy then
        (case split_text 0 ''('' policy [] of
           [name, value] \<Rightarrow> parse_policies rest (AList.update name (JStr (rstrip_paren value)) ps)
         | _ \<Rightarrow> Inl (ValueError ''unpack''))
      else parse_policies rest (AList.update policy (JBool True) ps))"

text \<open>The name of the class is read before its arguments are, so these are left out.\<close>

definition get_password_policy :: "iam_env \<Rightarrow> 'k kc_api \<Rightarrow> ('k, obj) eff" where
  "get_password_policy env api = eff_catch
     (eff_bind (ka_get_realm api (ks_realm (ke_settings env))) (\<lambda>realm.
      eff_bind (py_get realm ''passwordPolicy'' (JStr [])) (\<lambda>policy_string.
      eff_bind (if \<not> py_bool policy_string then eff_return []
                else (case policy_string of
                    JStr t \<Rightarrow> eff_of (parse_policies (split_text 0 '' and '' t []) [])
                  | _ \<Rightarrow> eff_raise (AttributeError ''split''))) (\<lambda>policies.
      password_policy_new policies))))
     is_exception
     (\<lambda>e. eff_bind (report_keycloak_error (ke_exn_text env) e) (\<lambda>_.
       password_policy_new [(''minimum_length'', JInt 8), (''require_digits'', JBool True),
         (''require_lowercase'', JBool True), (''require_uppercase'', JBool True), (''require_special_chars'', JBool True)]))"

section \<open>Tokens\<close>

definition refresh_token :: "iam_env \<Rightarrow> 'k kc_api \<Rightarrow> string \<Rightarrow> ('k, obj) eff" where
  "refresh_token env api tok = on_refusal
     (eff_bind (jwt_decode tok) (\<lambda>decoded.
      eff_bind (py_get decoded ''azp'' JNull) (\<lambda>keycloak_client_id.
      eff_bind (impersonate_client_id (ke_settings env)) (\<lambda>i.
      eff_bind (if keycloak_client_id = JStr i then impersonate_client (ke_settings env)
                else eff_bind (login_client (ke_settings env)) (\<lambda>c.
                  eff_return (c\<lparr>oc_secret := ks_login_client_secret (ke_settings env)\<rparr>))) (\<lambda>c.
      eff_bind (ko_refresh_token api c tok) (\<lambda>token.
      eff_bind (token_args token [''access_token'', ''refresh_token'']) (\<lambda>args.
      eff_of (obj_new auth_response_fields args))))))))
     (\<lambda>error _. eff_raise error)"

text \<open>The answer is the value of \<open>active\<close>, whatever it is.\<close>

definition validate_token :: "iam_env \<Rightarrow> 'k kc_api \<Rightarrow> string \<Rightarrow> ('k, jval) eff" where
  "validate_token env api token =
     eff_bind (get_keycloak_openid (ke_settings env) None) (\<lambda>c.
     kc_reported (ke_exn_text env)
       (eff_bind (ko_introspect api c token) (\<lambda>token_info. py_get token_info ''active'' (JBool False)))
       (JBool False))"

datatype token_type = Access_token | Refresh_token | Id_token | Session_token

definition revoke_token :: "iam_env \<Rightarrow> 'k kc_api \<Rightarrow> string \<Rightarrow> token_type \<Rightarrow> ('k, bool) eff" where
  "revoke_token env api token kind =
     (if kind = Refresh_token then logout_by_refresh_token env api token None else eff_return False)"

end
