(* ===== verification/Keycloak_Sessions.thy ===== *)
theory Keycloak_Sessions
  imports Keycloak_Service
begin

text \<open>
  The sessions, the impersonation of a user, the service accounts and the health check of
  \<open>KeycloakIamService\<close> (\<open>kc_iam_service.py\<close>), on the server of \<open>Keycloak_Service\<close>. An instant is stored in
  an object as the integer of its microseconds.
\<close>

section \<open>Sessions\<close>

definition session_info_fields :: class_fields where
  "session_info_fields = [(''session_id'', None), (''user_id'', None), (''username'', None), (''created_at'', Some JNull),
     (''last_activity'', Some JNull), (''expires_at'', Some JNull), (''ip_address'', Some JNull), (''user_agent'', Some JNull),
     (''transient_user'', Some (JBool False)), (''clients'', Some JNull)]"

text \<open>\<open>xs[0]\<close> of a value that is true\<close>

definition py_first :: "jval \<Rightarrow> ('k, jval) eff" where
  "py_first v = (case v of
       JList (x # xs) \<Rightarrow> eff_return x
     | JStr (c # cs) \<Rightarrow> eff_return (JStr [c])
     | JObj kvs \<Rightarrow> eff_raise (KeyError ''0'')
     | _ \<Rightarrow> eff_raise (TypeError ''not subscriptable''))"

text \<open>The class has no fields \<open>start_time\<close> and \<open>last_access\<close>, and needs \<open>username\<close>.\<close>

definition get_sso_session :: "iam_env \<Rightarrow> 'k kc_api \<Rightarrow> string \<Rightarrow> ('k, obj option) eff" where
  "get_sso_session env api user_id = kc_reported (ke_exn_text env)
     (eff_bind (ka_get_sessions api user_id) (\<lambda>sessions.
      if \<not> py_bool sessions then eff_return None
      else eff_bind (py_first sessions) (\<lambda>latest.
        eff_bind (py_get latest ''id'' JNull) (\<lambda>i.
        eff_bind (py_get latest ''ipAddress'' JNull) (\<lambda>ip.
        eff_bind (py_get latest ''start'' JNull) (\<lambda>start.
        eff_bind (py_get latest ''lastAccess'' JNull) (\<lambda>access.
        eff_bind (py_get latest ''clients'' (JObj [])) (\<lambda>clients.
        eff_bind (py_keys clients) (\<lambda>ks.
        eff_bind (eff_of (obj_new session_info_fields [(''session_id'', i), (''user_id'', JStr user_id),
            (''ip_address'', ip), (''start_time'', start), (''last_access'', access), (''clients'', ks)])) (\<lambda>info.
        eff_return (Some info)))))))))))
     None"

text \<open>\<open>isinstance(v, int)\<close> holds of truth values too; milliseconds are divided into a float.\<close>

definition instant_of :: "iam_env \<Rightarrow> jval \<Rightarrow> ('k, jval) eff" where
  "instant_of env v = (case v of
       JInt ms \<Rightarrow> eff_bind (eff_of (ke_fromtimestamp env (of_int ms / 1000))) (\<lambda>t. eff_return (JInt t))
     | JBool b \<Rightarrow> eff_bind (eff_of (ke_fromtimestamp env ((if b then 1 else 0) / 1000))) (\<lambda>t. eff_return (JInt t))
     | _ \<Rightarrow> eff_return JNull)"

definition session_info :: "iam_env \<Rightarrow> string \<Rightarrow> jval \<Rightarrow> ('k, obj) eff" where
  "session_info env user_id session =
     eff_bind (py_get session ''start'' JNull) (\<lambda>start_time.
     eff_bind (instant_of env start_time) (\<lambda>created_at.
     eff_bind (py_get session ''lastAccess'' JNull) (\<lambda>access.
     eff_bind (instant_of env access) (\<lambda>last_activity.
     eff_bind (py_get session ''id'' JNull) (\<lambda>i.
     eff_bind (py_get session ''username'' JNull) (\<lambda>username.
     eff_bind (py_get session ''ipAddress'' JNull) (\<lambda>ip.
     eff_bind (py_get session ''clients'' (JObj [])) (\<lambda>clients.
     eff_bind (py_keys clients) (\<lambda>ks.
     eff_bind (py_get session ''transientUser'' (JBool False)) (\<lambda>transient.
     eff_of (obj_new session_info_fields [(''session_id'', i), (''user_id'', JStr user_id), (''username'', username),
       (''ip_address'', ip), (''created_at'', created_at), (''last_activity'', last_activity), (''clients'', ks),
       (''transient_user'', transient)])))))))))))"

definition get_directory_user_sessions :: "iam_env \<Rightarrow> 'k kc_api \<Rightarrow> string \<Rightarrow> ('k, obj list) eff" where
  "get_directory_user_sessions env api user_id = kc_reported (ke_exn_text env)
     (eff_bind (ka_get_sessions api user_id) (\<lambda>sessions.
      eff_bind (py_iter sessions) (eff_map (session_info env user_id)))) []"

section \<open>Impersonation\<close>

text \<open>Refusals are reported and raised again; other exceptions pass.\<close>

definition impersonate_user :: "iam_env \<Rightarrow> 'k kc_api \<Rightarrow> string \<Rightarrow> ('k, obj) eff" where
  "impersonate_user env api target_user_id = on_refusal
     (eff_bind (ka_get_user api target_user_id) (\<lambda>user.
      eff_bind (py_get user ''username'' JNull) (\<lambda>target_username.
      eff_bind (impersonate_client (ke_settings env)) (\<lambda>c.
      eff_bind (ko_token api c [(''grant_type'', JStr ''client_credentials'')]) (\<lambda>client_token.
      eff_bind (py_get client_token ''access_token'' JNull) (\<lambda>client_access_token.
      eff_bind (ko_token api c [(''grant_type'', JStr ''urn:ietf:params:oauth:grant-type:token-exchange''),
          (''scope'', JStr ''openid profile email''), (''requested_subject'', target_username),
          (''subject_token'', client_access_token)]) (\<lambda>impersonated_token.
      eff_bind (token_args impersonated_token [''access_token'', ''refresh_token'']) (\<lambda>args.
      eff_of (obj_new auth_response_fields args)))))))))
     (\<lambda>error _. eff_bind (report_keycloak_error (ke_exn_text env) error) (\<lambda>_. eff_raise error))"

definition end_impersonation :: "iam_env \<Rightarrow> 'k kc_api \<Rightarrow> string \<Rightarrow> ('k, bool) eff" where
  "end_impersonation env api impersonation_token = logout_by_refresh_token env api impersonation_token None"

definition event_data :: "jval \<Rightarrow> ('k, kwargs) eff" where
  "event_data event =
     eff_bind (py_get event ''time'' JNull) (\<lambda>time.
     eff_bind (py_get event ''userId'' JNull) (\<lambda>admin.
     eff_bind (py_get event ''details'' (JObj [])) (\<lambda>details.
     eff_bind (py_get details ''impersonated_user_id'' JNull) (\<lambda>target.
     eff_bind (py_get event ''ipAddress'' JNull) (\<lambda>ip.
     eff_bind (py_get event ''type'' JNull) (\<lambda>kind.
     eff_return [(''timestamp'', time), (''admin_user_id'', admin), (''target_user_id'', target),
       (''ip_address'', ip), (''event_type'', kind)]))))))"

definition event_kept :: "string option \<Rightarrow> string option \<Rightarrow> kwargs \<Rightarrow> bool" where
  "event_kept admin_user_id target_user_id d \<longleftrightarrow>
     \<not> (str_truthy admin_user_id \<and> obj_field d ''admin_user_id'' \<noteq> opt_jstr admin_user_id) \<and>
     \<not> (str_truthy target_user_id \<and> obj_field d ''target_user_id'' \<noteq> opt_jstr target_user_id)"

definition get_impersonation_history ::
  "iam_env \<Rightarrow> 'k kc_api \<Rightarrow> string option \<Rightarrow> string option \<Rightarrow> int \<Rightarrow> ('k, kwargs list) eff" where
  "get_impersonation_history env api admin_user_id target_user_id limit = kc_reported (ke_exn_text env)
     (eff_bind (ka_get_events api ''IMPERSONATE'' limit) (\<lambda>events.
      eff_bind (py_iter events) (\<lambda>es.
      eff_bind (eff_map event_data es) (\<lambda>ds. eff_return (filter (event_kept admin_user_id target_user_id) ds))))) []"

section \<open>Service accounts\<close>

definition service_client :: "string \<Rightarrow> string option \<Rightarrow> kwargs" where
  "service_client name description = [(''clientId'', JStr name), (''name'', JStr name),
     (''description'', JStr (or_str description (''Service account for '' @ name))), (''enabled'', JBool True),
     (''serviceAccountsEnabled'', JBool True), (''clientAuthenticatorType'', JStr ''client-secret''),
     (''standardFlowEnabled'', JBool False), (''directAccessGrantsEnabled'', JBool False), (''publicClient'', JBool False)]"

text \<open>A role that cannot be assigned is logged and passed over.\<close>

definition assign_or_log :: "'k kc_api \<Rightarrow> jval \<Rightarrow> string \<Rightarrow> ('k, unit) eff" where
  "assign_or_log api service_user_id role = eff_catch
     (eff_bind (ka_get_realm_role api (JStr role)) (\<lambda>role_obj. ka_assign_realm_roles api service_user_id [role_obj]))
     is_exception (\<lambda>_. eff_return ())"

definition create_service_account ::
  "iam_env \<Rightarrow> 'k kc_api \<Rightarrow> string \<Rightarrow> string option \<Rightarrow> string list option \<Rightarrow> ('k, kwargs) eff" where
  "create_service_account env api name description roles = reraised (ke_exn_text env)
     (eff_bind (ka_create_client api (service_client name description)) (\<lambda>client_id.
      eff_bind (ka_get_client_secrets api client_id) (\<lambda>client_secret.
      eff_bind (ka_get_client_service_account_user api client_id) (\<lambda>service_user_id.
      eff_bind (eff_for (case roles of None \<Rightarrow> [] | Some rs \<Rightarrow> rs) (assign_or_log api service_user_id)) (\<lambda>_.
      eff_bind (py_get client_secret ''value'' JNull) (\<lambda>v.
      eff_return [(''client_id'', JStr name), (''client_secret'', v), (''service_user_id'', service_user_id)]))))))"

definition authenticate_service_account :: "iam_env \<Rightarrow> 'k kc_api \<Rightarrow> string \<Rightarrow> string \<Rightarrow> ('k, obj) eff" where
  "authenticate_service_account env api client_id client_secret =
     (let c = \<lparr>oc_realm = ks_realm (ke_settings env), oc_client_id = client_id, oc_secret = Some client_secret\<rparr> in
      on_refusal
        (eff_bind (ko_token api c [(''grant_type'', JStr ''client_credentials'')]) (\<lambda>token.
         eff_bind (py_get token ''access_token'' JNull) (\<lambda>access_token.
         eff_of (obj_new auth_response_fields [(''access_token'', access_token), (''refresh_token'', JNull)]))))
        (\<lambda>error _. eff_bind (report_keycloak_error (ke_exn_text env) error) (\<lambda>_. eff_raise error)))"

definition rotate_service_account_secret :: "iam_env \<Rightarrow> 'k kc_api \<Rightarrow> string \<Rightarrow> ('k, kwargs) eff" where
  "rotate_service_account_secret env api client_id = reraised (ke_exn_text env)
     (eff_bind (ka_generate_client_secrets api client_id) (\<lambda>new_secret.
      eff_bind (py_get new_secret ''value'' JNull) (\<lambda>v.
      eff_return [(''client_secret'', v), (''rotated_at'', JStr ''now'')])))"

section \<open>Health and realms\<close>

definition health_check :: "iam_env \<Rightarrow> 'k kc_api \<Rightarrow> ('k, kwargs) eff" where
  "health_check env api = (let s = ke_settings env in eff_catch
     (eff_bind (ka_get_realm api (ks_realm s)) (\<lambda>realm.
      eff_bind (py_get realm ''enabled'' (JBool False)) (\<lambda>enabled.
      eff_return [(''status'', JStr ''healthy''), (''service'', JStr ''keycloak''), (''keycloak_url'', JStr (ks_host s)),
        (''realm'', JStr (ks_realm s)), (''realm_enabled'', enabled), (''message'', JStr ''Keycloak service is operational'')])))
     is_exception
     (\<lambda>e. eff_bind (report_keycloak_error (ke_exn_text env) e) (\<lambda>_.
      eff_return [(''status'', JStr ''unhealthy''), (''service'', JStr ''keycloak''),
        (''error'', JStr (ke_exn_text env e)), (''message'', JStr ''Keycloak service is not responding'')])))"

definition realm_entry :: "jval \<Rightarrow> ('k, kwargs) eff" where
  "realm_entry realm =
     eff_bind (py_item realm ''realm'') (\<lambda>name.
     eff_bind (py_get realm ''enabled'' (JBool False)) (\<lambda>enabled.
     eff_bind (py_get realm ''displayName'' (JStr [])) (\<lambda>display_name.
     eff_return [(''realm'', name), (''enabled'', enabled), (''display_name'', display_name)])))"

definition list_all_realms :: "iam_env \<Rightarrow> 'k kc_api \<Rightarrow> ('k, kwargs list) eff" where
  "list_all_realms env api = kc_reported (ke_exn_text env)
     (eff_bind (ka_get_realms api) (\<lambda>realms. eff_bind (py_iter realms) (eff_map realm_entry))) []"

text \<open>\<open>get_realm_id\<close> keeps the identifier of the realm once it has one.\<close>

definition get_realm_id :: "'k kc_api \<Rightarrow> string \<Rightarrow> (jval \<times> 'k, jval) eff" where
  "get_realm_id api realm_name = eff_bind (eff_get fst) (\<lambda>known.
     if py_bool known then eff_return known
     else eff_bind (eff_snd (ka_get_realm api realm_name)) (\<lambda>realm_info.
       eff_bind (py_get realm_info ''id'' JNull) (\<lambda>i.
       eff_bind (eff_modify (\<lambda>s. (i, snd s))) (\<lambda>_. eff_return i))))"

section \<open>Tokens that are granted and lost\<close>

lemma token_args_obj: "token_args (JObj t) names k = (Inr (map (\<lambda>n. (n, case map_of t n of None \<Rightarrow> JNull | Some v \<Rightarrow> v)) names), k)"
  by (induction names) (simp_all add: token_args_def eff_bind_def eff_return_def)

lemma auth_response_incomplete: "''expires_in'' \<notin> fst ` set args \<Longrightarrow> \<exists>f. obj_new auth_response_fields args = Inl (TypeError f)"
  by (rule obj_new_missing [of "''expires_in''"]) (simp_all add: auth_response_fields_def)

lemma on_refusal_raises: "m k = (Inl e, k') \<Longrightarrow> \<not> is_kc_refusal e \<Longrightarrow> on_refusal m h k = (Inl e, k')"
  by (simp add: on_refusal_def eff_catch_def)

text \<open>A grant without an expiry in the arguments of the answer ends in a \<open>TypeError\<close>.\<close>

lemma granted_incomplete:
  assumes "ko_token api c args k = (Inr (JObj t), k')" and "''expires_in'' \<notin> set names"
  shows "\<exists>f. eff_bind (ko_token api c args) (\<lambda>token. eff_bind (token_args token names)
    (\<lambda>as. eff_of (obj_new auth_response_fields as))) k = (Inl (TypeError f), k')"
proof -
  let ?as = "map (\<lambda>n. (n, case map_of t n of None \<Rightarrow> JNull | Some v \<Rightarrow> v)) names"
  obtain f where "obj_new auth_response_fields ?as = Inl (TypeError f)"
    using auth_response_incomplete [of ?as] assms(2) by (auto simp: image_image)
  then show ?thesis using assms(1) by (simp add: eff_bind_def token_args_obj eff_of_def eff_raise_def)
qed

lemma login_client_run: "ks_realm s \<noteq> [] \<Longrightarrow> login_client s k =
    (Inr \<lparr>oc_realm = ks_realm s, oc_client_id = ks_login_client_id s, oc_secret = ks_login_client_secret s\<rparr>, k)"
  by (simp add: login_client_def get_keycloak_openid_def str_truthy_def or_str_def eff_bind_def eff_return_def)

lemma full_auth_response:
  "obj_new auth_response_fields [(''access_token'', a), (''expires_in'', b), (''refresh_token'', c),
     (''refresh_expires_in'', d), (''token_type'', e), (''id_token'', f), (''not_before_policy'', g), (''session_state'', h),
     (''keep_signed_in'', i)] =
   Inr [(''access_token'', a), (''expires_in'', b), (''refresh_token'', c),
     (''refresh_expires_in'', d), (''token_type'', e), (''id_token'', f), (''not_before_policy'', g), (''session_state'', h),
     (''keep_signed_in'', i)]"
  by (simp add: obj_new_def auth_response_fields_def arg_of_def)

text \<open>C33: 
  C99: whatever the server grants, only the login by password hands it on. When every request for a token
  is granted, \<open>login\<close>, the login by one-time password and that of a service account raise a
  \<open>TypeError\<close> after the grant, as they leave out required fields of the answer; a refresh raises
  \<open>NameError\<close> without asking. The login by password answers with the fields of the grant.
\<close>

theorem iam_grants_lost:
  assumes granted: "\<And>c args k. ko_token api c args k = (Inr (JObj t), g k)"
    and "ks_realm (ke_settings env) \<noteq> []" and "ks_login_client_id (ke_settings env) \<noteq> []"
  shows "(\<exists>f. login env api u p otp keep k = (Inl (TypeError f), g k)) \<and>
    (\<exists>f. authenticate_otp env api u code k = (Inl (TypeError f), g k)) \<and>
    (\<exists>f. authenticate_service_account env api i secret k = (Inl (TypeError f), g k)) \<and>
    refresh_token env api tok k = (Inl (NameError ''jwt''), k) \<and>
    (\<exists>resp. authenticate_password env api r k = (Inr resp, g k) \<and>
      map_of resp ''access_token'' = Some (case map_of t ''access_token'' of None \<Rightarrow> JNull | Some v \<Rightarrow> v) \<and>
      map_of resp ''refresh_token'' = Some (case map_of t ''refresh_token'' of None \<Rightarrow> JNull | Some v \<Rightarrow> v))"
proof (intro conjI)
  note run = on_refusal_def eff_catch_def eff_bind_def eff_return_def login_client_run [OF assms(2)] granted
    token_args_obj eff_of_def eff_raise_def Let_def
  let ?a = "case map_of t ''access_token'' of None \<Rightarrow> JNull | Some v \<Rightarrow> v"
    and ?b = "case map_of t ''refresh_token'' of None \<Rightarrow> JNull | Some v \<Rightarrow> v"
  obtain f where two: "obj_new auth_response_fields [(''access_token'', ?a), (''refresh_token'', ?b)] = Inl (TypeError f)"
    using auth_response_incomplete [of "[(''access_token'', ?a), (''refresh_token'', ?b)]"] by auto
  obtain f' where one: "obj_new auth_response_fields [(''access_token'', ?a), (''refresh_token'', JNull)] = Inl (TypeError f')"
    using auth_response_incomplete [of "[(''access_token'', ?a), (''refresh_token'', JNull)]"] by auto
  show "\<exists>f. login env api u p otp keep k = (Inl (TypeError f), g k)"
    using assms(3) by (simp add: login_def run two)
  show "\<exists>f. authenticate_otp env api u code k = (Inl (TypeError f), g k)"
    by (simp add: authenticate_otp_def run two)
  show "\<exists>f. authenticate_service_account env api i secret k = (Inl (TypeError f), g k)"
    by (simp add: authenticate_service_account_def run one)
  show "refresh_token env api tok k = (Inl (NameError ''jwt''), k)"
    by (simp add: refresh_token_def jwt_decode_def on_refusal_def eff_catch_def eff_bind_def eff_raise_def)
  show "\<exists>resp. authenticate_password env api r k = (Inr resp, g k) \<and>
      map_of resp ''access_token'' = Some (case map_of t ''access_token'' of None \<Rightarrow> JNull | Some v \<Rightarrow> v) \<and>
      map_of resp ''refresh_token'' = Some (case map_of t ''refresh_token'' of None \<Rightarrow> JNull | Some v \<Rightarrow> v)"
    by (simp add: authenticate_password_def run full_auth_response)
qed

section \<open>A password is changed after the current one was accepted\<close>

definition password_args :: "kc_settings \<Rightarrow> jval \<Rightarrow> string \<Rightarrow> kwargs" where
  "password_args s username password = [(''username'', username), (''password'', JStr password),
     (''client_secret'', opt_jstr (ks_login_client_secret s))]"

lemma change_password_run:
  assumes "ka_get_user api u k = (Inr (JObj user), k1)" and "ks_realm (ke_settings env) \<noteq> []"
    and "name = (case map_of user ''username'' of None \<Rightarrow> JNull | Some v \<Rightarrow> v)"
    and "c = \<lparr>oc_realm = ks_realm (ke_settings env), oc_client_id = ks_login_client_id (ke_settings env),
      oc_secret = ks_login_client_secret (ke_settings env)\<rparr>"
  shows "change_password env api u cur new k = (case ko_token api c (password_args (ke_settings env) name cur) k1 of
      (Inr t, k2) \<Rightarrow> kc_reported (ke_exn_text env) (eff_bind (ka_set_user_password api (JStr u) new False) (\<lambda>_. eff_return True)) False k2
    | (Inl e, k2) \<Rightarrow> if is_kc_authentication e then (Inr False, k2) else kc_reported (ke_exn_text env) (eff_raise e) False k2)"
proof (cases "ko_token api c (password_args (ke_settings env) name cur) k1")
  case (Pair r k2)
  note run = change_password_def kc_reported_def eff_catch_def eff_bind_def eff_return_def
    login_client_run [OF assms(2)] assms(1) assms(3,4) [symmetric] password_args_def [symmetric]
  show ?thesis using Pair by (cases r) (simp_all add: run eff_raise_def)
qed

text \<open>C11: 
  C99: a password is only changed after the server granted a token for the current one. When the token
  is not granted, nothing of the outcome depends on the request that sets a password, so it was not
  made; and the answer is \<open>True\<close> exactly when the token was granted and the request that sets the new
  password succeeded.
\<close>

theorem change_password_verified:
  assumes "ka_get_user api u k = (Inr (JObj user), k1)" and "ks_realm (ke_settings env) \<noteq> []"
    and name: "name = (case map_of user ''username'' of None \<Rightarrow> JNull | Some v \<Rightarrow> v)"
    and c: "c = \<lparr>oc_realm = ks_realm (ke_settings env), oc_client_id = ks_login_client_id (ke_settings env),
      oc_secret = ks_login_client_secret (ke_settings env)\<rparr>"
    and tok: "ko_token api c (password_args (ke_settings env) name cur) k1 = (r, k2)"
  shows "(\<forall>e. r = Inl e \<longrightarrow> change_password env (api\<lparr>ka_set_user_password := other\<rparr>) u cur new k =
        change_password env api u cur new k \<and> fst (change_password env api u cur new k) \<noteq> Inr True \<and>
        snd (change_password env api u cur new k) = k2) \<and>
    (fst (change_password env api u cur new k) = Inr True \<longleftrightarrow>
      (\<exists>t. r = Inr t) \<and> fst (ka_set_user_password api (JStr u) new False k2) = Inr ())"
proof (cases r)
  case (Inl e)
  let ?api = "api\<lparr>ka_set_user_password := other\<rparr>"
  have "ka_get_user ?api u k = (Inr (JObj user), k1)" using assms(1) by simp
  from change_password_run [OF assms(1,2) name c] change_password_run [OF this assms(2) name c]
  have eqs: "change_password env ?api u cur new k = change_password env api u cur new k"
      "change_password env api u cur new k =
        (if is_kc_authentication e then (Inr False, k2) else kc_reported (ke_exn_text env) (eff_raise e) False k2)"
    using tok Inl by simp_all
  have "fst (kc_reported (ke_exn_text env) (eff_raise e) False k2) \<noteq> Inr True"
    using reported_cases [of "eff_raise e" k2 e k2 "ke_exn_text env" False] by (auto simp: eff_raise_def)
  then show ?thesis using eqs Inl by (simp add: eff_raise_def)
next
  case (Inr t)
  then have run: "change_password env api u cur new k =
      kc_reported (ke_exn_text env) (eff_bind (ka_set_user_password api (JStr u) new False) (\<lambda>_. eff_return True)) False k2"
    using change_password_run [OF assms(1,2) name c] tok by simp
  obtain x k3 where set: "ka_set_user_password api (JStr u) new False k2 = (x, k3)" by fastforce
  let ?m = "eff_bind (ka_set_user_password api (JStr u) new False) (\<lambda>_. eff_return True)"
  show ?thesis
  proof (cases x)
    case (Inl e)
    then have "?m k2 = (Inl e, k3)" using set by (simp add: eff_bind_def)
    from reported_cases [of ?m k2 e k3 "ke_exn_text env" False, OF this] show ?thesis using run set Inr Inl by auto
  next
    case (Inr y)
    then have "?m k2 = (Inr True, k3)" using set by (simp add: eff_bind_def eff_return_def)
    then show ?thesis using run set Inr \<open>r = Inr t\<close> by (simp add: reported_ok)
  qed
qed

section \<open>A small server\<close>

text \<open>
  One user whose password is the state. Every request for a token is granted when the password in it, if
  any, is the user's; all other requests are refused.
\<close>

definition demo_settings :: kc_settings where
  "demo_settings = \<lparr>ks_realm = ''eworksuite'', ks_host = ''http://kc'', ks_client_id = ''web'',
     ks_login_client_id = ''web'', ks_login_client_secret = Some ''s'', ks_admin_user = Some ''admin'',
     ks_admin_secret = Some ''pw''\<rparr>"

definition demo_iam_env :: iam_env where
  "demo_iam_env = \<lparr>ke_settings = demo_settings, ke_exn_text = (\<lambda>_. []), ke_str = (\<lambda>v. case v of JStr s \<Rightarrow> s | _ \<Rightarrow> []),
     ke_set_list = remdups, ke_fromtimestamp = (\<lambda>t. Inr \<lfloor>t * 1000000\<rfloor>)\<rparr>"

text \<open>A server none of whose requests succeeds: each raises \<open>e\<close>.\<close>

definition failing_api :: "py_exn \<Rightarrow> 'k kc_api" where
  "failing_api e = \<lparr>ka_send_verify_email = (\<lambda>_. eff_raise e), ka_update_user = (\<lambda>_ _. eff_raise e),
     ka_raw_get = (\<lambda>_. eff_raise e), ka_raw_post = (\<lambda>_ _. eff_raise e), ka_raw_delete = (\<lambda>_. eff_raise e),
     ka_get_credentials = (\<lambda>_. eff_raise e), ka_get_users = (\<lambda>_. eff_raise e), ka_get_user = (\<lambda>_. eff_raise e),
     ka_delete_user = (\<lambda>_. eff_raise e), ka_send_update_account = (\<lambda>_ _. eff_raise e),
     ka_set_user_password = (\<lambda>_ _ _. eff_raise e), ka_get_realm = (\<lambda>_. eff_raise e), ka_get_realms = eff_raise e,
     ka_get_sessions = (\<lambda>_. eff_raise e), ka_user_logout = (\<lambda>_. eff_raise e), ka_get_events = (\<lambda>_ _. eff_raise e),
     ka_create_client = (\<lambda>_. eff_raise e), ka_get_client_secrets = (\<lambda>_. eff_raise e),
     ka_generate_client_secrets = (\<lambda>_. eff_raise e), ka_get_client_service_account_user = (\<lambda>_. eff_raise e),
     ka_get_realm_role = (\<lambda>_. eff_raise e), ka_assign_realm_roles = (\<lambda>_ _. eff_raise e),
     ka_delete_realm_roles_of_user = (\<lambda>_ _. eff_raise e), ka_get_realm_roles_of_user = (\<lambda>_. eff_raise e),
     ka_get_composite_realm_roles_of_user = (\<lambda>_. eff_raise e), ka_realm = eff_return None, ka_client_id = eff_return None,
     ko_token = (\<lambda>_ _. eff_raise e), ko_logout = (\<lambda>_ _. eff_raise e), ko_introspect = (\<lambda>_ _. eff_raise e),
     ko_refresh_token = (\<lambda>_ _. eff_raise e), ko_public_key = (\<lambda>_. eff_raise e), ko_decode_token = (\<lambda>_ _ _. eff_raise e)\<rparr>"

definition demo_refusal :: py_exn where
  "demo_refusal = KeycloakError Kc_authentication (Kc_bytes (Some (JObj [(''error'', JStr ''refused'')])))"

definition demo_server :: "string kc_api" where
  "demo_server = (failing_api demo_refusal)\<lparr>
     ka_get_user := (\<lambda>u. eff_return (JObj [(''id'', JStr u), (''username'', JStr ''ann'')])),
     ko_token := (\<lambda>c args pw. case map_of args ''password'' of
         Some (JStr p) \<Rightarrow> if p = pw then (Inr (JObj [(''access_token'', JStr ''t'')]), pw) else (Inl demo_refusal, pw)
       | _ \<Rightarrow> (Inr (JObj [(''access_token'', JStr ''t'')]), pw)),
     ka_set_user_password := (\<lambda>_ new _ _. (Inr (), new))\<rparr>"

lemma change_password_verified_witness:
  "change_password demo_iam_env demo_server ''u'' ''wrong'' ''new'' ''old'' = (Inr False, ''old'') \<and>
   change_password demo_iam_env (demo_server\<lparr>ka_set_user_password := (\<lambda>_ _ _ _. (Inr (), []))\<rparr>) ''u'' ''wrong'' ''new'' ''old'' =
     (Inr False, ''old'') \<and>
   fst (change_password demo_iam_env demo_server ''u'' ''old'' ''new'' ''old'') = Inr True"
proof -
  let ?c = "\<lparr>oc_realm = ''eworksuite'', oc_client_id = ''web'', oc_secret = Some ''s''\<rparr>"
  have get: "ka_get_user demo_server ''u'' ''old'' =
      (Inr (JObj [(''id'', JStr ''u''), (''username'', JStr ''ann'')]), ''old'')"
    by (simp add: demo_server_def eff_return_def)
  have c: "?c = \<lparr>oc_realm = ks_realm (ke_settings demo_iam_env), oc_client_id = ks_login_client_id (ke_settings demo_iam_env),
      oc_secret = ks_login_client_secret (ke_settings demo_iam_env)\<rparr>"
    by (simp add: demo_iam_env_def demo_settings_def)
  note f = change_password_verified [OF get _ refl c]
  have tok: "ko_token demo_server ?c (password_args (ke_settings demo_iam_env) (JStr ''ann'') ''wrong'') ''old'' = (Inl demo_refusal, ''old'')"
    "ko_token demo_server ?c (password_args (ke_settings demo_iam_env) (JStr ''ann'') ''old'') ''old'' =
      (Inr (JObj [(''access_token'', JStr ''t'')]), ''old'')"
    by (simp_all add: demo_server_def password_args_def)
  have realm: "ks_realm (ke_settings demo_iam_env) \<noteq> []" by (simp add: demo_iam_env_def demo_settings_def)
  have ok: "fst (change_password demo_iam_env demo_server ''u'' ''old'' ''new'' ''old'') = Inr True"
    using f [OF realm, of "''old''" "Inr (JObj [(''access_token'', JStr ''t'')])" "''old''" "\<lambda>_ _ _ _. (Inr (), [])" "''new''"] tok(2)
    by (simp add: demo_server_def)
  have run: "change_password demo_iam_env demo_server ''u'' ''wrong'' ''new'' ''old'' = (Inr False, ''old'')"
    using change_password_run [OF get realm refl c, of "''wrong''" "''new''"] tok(1) by (simp add: demo_refusal_def)
  with f [OF realm, of "''wrong''" "Inl demo_refusal" "''old''" "\<lambda>_ _ _ _. (Inr (), [])" "''new''"] tok(1) ok
  show ?thesis by simp
qed

lemma iam_grants_lost_witness:
  "(\<exists>f. login demo_iam_env (demo_server\<lparr>ko_token := (\<lambda>c args k. (Inr (JObj [(''access_token'', JStr ''t'')]), k))\<rparr>)
      ''ann'' ''pw'' None False ''old'' = (Inl (TypeError f), ''old''))"
  using iam_grants_lost [of "demo_server\<lparr>ko_token := (\<lambda>c args k. (Inr (JObj [(''access_token'', JStr ''t'')]), k))\<rparr>"
      "[(''access_token'', JStr ''t'')]" "\<lambda>k. k" demo_iam_env "''ann''" "''pw''" None False "''old''"]
  by (simp add: demo_iam_env_def demo_settings_def)

end
