(* ===== verification/Keycloak_Directory.thy ===== *)
theory Keycloak_Directory
  imports Keycloak_Sessions
begin

text \<open>
  The users and roles of \<open>KeycloakIamService\<close> (\<open>kc_iam_service.py\<close>) with the reading of a user
  (\<open>parse_keycloak_user_data\<close> of \<open>helpers/serializers.py\<close>), and what all operations of the service
  promise when the server fails. The attributes of a user are a dictionary, as the server documents.
\<close>

section \<open>Reading a user\<close>

definition upper_ascii :: "char \<Rightarrow> bool" where
  "upper_ascii c \<longleftrightarrow> 65 \<le> (of_char c :: nat) \<and> (of_char c :: nat) \<le> 90"

text \<open>
  \<open>re.sub('(?!^)([A-Z]+)', r'_\1', value).lower()\<close>: an underscore before every run of capitals, but for
  a capital at the beginning; \<open>run\<close> tells that a run has been entered.
\<close>

fun snake_tail :: "bool \<Rightarrow> string \<Rightarrow> string" where
  "snake_tail run [] = []"
| "snake_tail run (c # cs) = (if upper_ascii c \<and> \<not> run then [CHR ''_''] else []) @ ascii_lower c # snake_tail (upper_ascii c) cs"

fun camel_to_snake :: "string \<Rightarrow> string" where
  "camel_to_snake [] = []"
| "camel_to_snake (c # cs) = ascii_lower c # snake_tail False cs"

definition directory_user_fields :: class_fields where
  "directory_user_fields = [(''id'', None), (''email'', None), (''username'', None), (''first_name'', Some JNull),
     (''last_name'', Some JNull), (''email_verified'', Some (JBool False)), (''enabled'', Some (JBool True)),
     (''tenant_id'', Some JNull), (''is_root_account'', Some (JBool False))]"

definition directory_user_bools :: "string list" where
  "directory_user_bools = [''email_verified'', ''enabled'', ''is_root_account'']"

definition payload_methods :: "string list" where
  "payload_methods = [''as_dict'', ''as_json'', ''as_json_bytes'']"

definition user_attributes_json_fields :: "string list" where
  "user_attributes_json_fields = [''taxNumbers'']"

text \<open>The value of an attribute; no field is a \<open>datetime\<close> or an \<open>Optional[bool]\<close>.\<close>

definition attribute_value :: "string \<Rightarrow> jval \<Rightarrow> jval" where
  "attribute_value key attribute =
     (let v = (case attribute of JList [x] \<Rightarrow> if key \<notin> set user_attributes_json_fields then x else attribute | _ \<Rightarrow> attribute) in
      if camel_to_snake key \<in> set directory_user_bools
      then JBool (case v of JStr s \<Rightarrow> map ascii_lower s = ''true'' | _ \<Rightarrow> False)
      else v)"

text \<open>Assigning to a method of the class raises; a name it does not have is printed.\<close>

fun set_attributes :: "(string \<times> jval) list \<Rightarrow> obj \<Rightarrow> ('k, obj) eff" where
  "set_attributes [] u = eff_return u"
| "set_attributes ((key, attribute) # as) u =
     (if \<not> py_bool attribute then set_attributes as u
      else if camel_to_snake key \<in> fst ` set directory_user_fields
        then set_attributes as (obj_set (camel_to_snake key) (attribute_value key attribute) u)
      else if camel_to_snake key \<in> set payload_methods then eff_raise (AttributeError (camel_to_snake key))
      else set_attributes as u)"

definition parse_keycloak_user_data :: "jval \<Rightarrow> ('k, obj) eff" where
  "parse_keycloak_user_data user = (case user of
       JObj kvs \<Rightarrow>
         (let kvs = map (\<lambda>(k, v). (camel_to_snake k, v)) kvs;
              attributes = arg_of kvs ''attributes'' in
          eff_bind (eff_of (obj_new directory_user_fields (filter (\<lambda>(k, v). k \<noteq> ''attributes'') kvs))) (\<lambda>u.
          case attributes of
            Some (JObj as) \<Rightarrow> set_attributes as u
          | Some v \<Rightarrow> if py_bool v then eff_raise (TypeError ''attributes'') else eff_return u
          | None \<Rightarrow> eff_return u))
     | _ \<Rightarrow> eff_raise (AttributeError ''items''))"

section \<open>Users\<close>

definition directory_get_user_by_id :: "iam_env \<Rightarrow> 'k kc_api \<Rightarrow> string \<Rightarrow> ('k, obj) eff" where
  "directory_get_user_by_id env api user_id = reraised (ke_exn_text env)
     (eff_bind (ka_get_user api user_id) parse_keycloak_user_data)"

text \<open>The first of the users a search finds, or \<open>None\<close>.\<close>

definition first_found :: "iam_env \<Rightarrow> 'k kc_api \<Rightarrow> kwargs \<Rightarrow> ('k, obj option) eff" where
  "first_found env api query = kc_reported (ke_exn_text env)
     (eff_bind (ka_get_users api query) (\<lambda>users.
      if py_bool users then eff_bind (py_first users) (\<lambda>u. eff_bind (parse_keycloak_user_data u) (\<lambda>x. eff_return (Some x)))
      else eff_return None)) None"

definition directory_get_user_by_email :: "iam_env \<Rightarrow> 'k kc_api \<Rightarrow> string \<Rightarrow> ('k, obj option) eff" where
  "directory_get_user_by_email env api email = first_found env api [(''email'', JStr email)]"

definition directory_get_user_by_username :: "iam_env \<Rightarrow> 'k kc_api \<Rightarrow> string \<Rightarrow> ('k, obj option) eff" where
  "directory_get_user_by_username env api username = first_found env api [(''username'', JStr username)]"

definition directory_update_user :: "iam_env \<Rightarrow> 'k kc_api \<Rightarrow> string \<Rightarrow> jval \<Rightarrow> ('k, obj) eff" where
  "directory_update_user env api user_id updates = reraised (ke_exn_text env)
     (eff_bind (ka_update_user api user_id updates) (\<lambda>_.
      eff_bind (ka_get_user api user_id) parse_keycloak_user_data))"

definition directory_delete_user :: "iam_env \<Rightarrow> 'k kc_api \<Rightarrow> string \<Rightarrow> ('k, bool) eff" where
  "directory_delete_user env api user_id = bool_op env (ka_delete_user api user_id)"

definition directory_enable_user :: "iam_env \<Rightarrow> 'k kc_api \<Rightarrow> string \<Rightarrow> ('k, bool) eff" where
  "directory_enable_user env api user_id = bool_op env (ka_update_user api user_id (JObj [(''enabled'', JBool True)]))"

definition directory_disable_user :: "iam_env \<Rightarrow> 'k kc_api \<Rightarrow> string \<Rightarrow> ('k, bool) eff" where
  "directory_disable_user env api user_id = bool_op env (ka_update_user api user_id (JObj [(''enabled'', JBool False)]))"

text \<open>The search parameters; a filter that is empty is not one.\<close>

definition search_params :: "string option \<Rightarrow> string option \<Rightarrow> string option \<Rightarrow> int \<Rightarrow> int \<Rightarrow> kwargs" where
  "search_params query email username limit offset =
     (if str_truthy query then [(''search'', opt_jstr query)] else []) @
     (if str_truthy email then [(''email'', opt_jstr email)] else []) @
     (if str_truthy username then [(''username'', opt_jstr username)] else []) @
     [(''max'', JInt limit), (''first'', JInt offset)]"

definition directory_search_users ::
  "iam_env \<Rightarrow> 'k kc_api \<Rightarrow> string option \<Rightarrow> string option \<Rightarrow> string option \<Rightarrow> int \<Rightarrow> int \<Rightarrow> ('k, obj list) eff" where
  "directory_search_users env api query email username limit offset = kc_reported (ke_exn_text env)
     (eff_bind (ka_get_users api (search_params query email username limit offset)) (\<lambda>users.
      eff_bind (py_iter users) (eff_map parse_keycloak_user_data))) []"

section \<open>Roles\<close>

definition assign_role_to_user :: "iam_env \<Rightarrow> 'k kc_api \<Rightarrow> string \<Rightarrow> string \<Rightarrow> ('k, bool) eff" where
  "assign_role_to_user env api user_id role = bool_op env
     (eff_bind (ka_get_realm_role api (JStr role)) (\<lambda>role_obj. ka_assign_realm_roles api (JStr user_id) [role_obj]))"

definition remove_role_from_user :: "iam_env \<Rightarrow> 'k kc_api \<Rightarrow> string \<Rightarrow> string \<Rightarrow> ('k, bool) eff" where
  "remove_role_from_user env api user_id role = bool_op env
     (eff_bind (ka_get_realm_role api (JStr role)) (\<lambda>role_obj. ka_delete_realm_roles_of_user api (JStr user_id) [role_obj]))"

definition get_user_roles :: "iam_env \<Rightarrow> 'k kc_api \<Rightarrow> string \<Rightarrow> ('k, jval list) eff" where
  "get_user_roles env api user_id = kc_reported (ke_exn_text env)
     (eff_bind (ka_get_realm_roles_of_user api user_id) (\<lambda>roles.
      eff_bind (py_iter roles) (eff_map (\<lambda>role. py_item role ''name'')))) []"

text \<open>\<open>'attributes' in role_details\<close>\<close>

definition has_attributes :: "jval \<Rightarrow> ('k, bool) eff" where
  "has_attributes d = (case d of
       JObj kvs \<Rightarrow> eff_return (''attributes'' \<in> fst ` set kvs)
     | JList xs \<Rightarrow> eff_return (JStr ''attributes'' \<in> set xs)
     | JStr s \<Rightarrow> eff_return (sublist ''attributes'' s)
     | _ \<Rightarrow> eff_raise (TypeError ''in''))"

definition role_permissions :: "'k kc_api \<Rightarrow> jval \<Rightarrow> ('k, jval list) eff" where
  "role_permissions api role =
     eff_bind (py_item role ''name'') (\<lambda>name.
     eff_bind (ka_get_realm_role api name) (\<lambda>role_details.
     eff_bind (has_attributes role_details) (\<lambda>b.
     if b then eff_bind (py_item role_details ''attributes'') (\<lambda>attrs.
       eff_bind (py_get attrs ''permissions'' (JList [])) py_iter)
     else eff_return [])))"

text \<open>Lists and dictionaries cannot be elements of a set.\<close>

fun hashable :: "jval \<Rightarrow> bool" where
  "hashable (JList _) = False"
| "hashable (JObj _) = False"
| "hashable _ = True"

definition get_user_permissions :: "iam_env \<Rightarrow> 'k kc_api \<Rightarrow> string \<Rightarrow> ('k, jval list) eff" where
  "get_user_permissions env api user_id = kc_reported (ke_exn_text env)
     (eff_bind (ka_get_composite_realm_roles_of_user api user_id) (\<lambda>roles.
      eff_bind (py_iter roles) (\<lambda>rs.
      eff_bind (eff_map (role_permissions api) rs) (\<lambda>perms.
      if list_all hashable (concat perms) then eff_return (ke_set_list env (concat perms))
      else eff_raise (TypeError ''unhashable''))))) []"

section \<open>Users the service cannot read\<close>

lemma parse_unknown_field:
  assumes "(f, v) \<in> set u" and "camel_to_snake f \<notin> insert ''attributes'' (fst ` set directory_user_fields)"
  shows "\<exists>x. \<forall>k. parse_keycloak_user_data (JObj u) k = (Inl (TypeError x), k)"
proof -
  let ?kvs = "filter (\<lambda>(k, v). k \<noteq> ''attributes'') (map (\<lambda>(k, v). (camel_to_snake k, v)) u)"
  have "(camel_to_snake f, v) \<in> set ?kvs" using assms by force
  then obtain x where "obj_new directory_user_fields ?kvs = Inl (TypeError x)"
    using obj_new_unknown [of "camel_to_snake f" v ?kvs directory_user_fields] assms(2) by auto
  then show ?thesis by (simp add: parse_keycloak_user_data_def Let_def eff_of_def)
    (simp add: eff_raise_def)
qed

text \<open>A user of whom every field is a field of the class, and no attributes: the object has its values.\<close>

lemma parse_known_fields:
  assumes "\<forall>(f, v) \<in> set u. camel_to_snake f \<in> fst ` set directory_user_fields"
    and "distinct (map (camel_to_snake \<circ> fst) u)"
    and "\<forall>f \<in> {''id'', ''email'', ''username''}. f \<in> (camel_to_snake \<circ> fst) ` set u"
  shows "\<exists>b. parse_keycloak_user_data (JObj u) k = (Inr b, k) \<and>
    (\<forall>(f, v) \<in> set u. obj_field b (camel_to_snake f) = v)"
proof -
  let ?kvs = "map (\<lambda>(k, v). (camel_to_snake k, v)) u"
  have no_attr: "''attributes'' \<notin> fst ` set ?kvs"
    using assms(1) by (fastforce simp: directory_user_fields_def)
  then have flt: "filter (\<lambda>(k, v). k \<noteq> ''attributes'') ?kvs = ?kvs"
    by (intro filter_True) (auto simp: image_iff)
  have dist: "distinct (map fst ?kvs)" using assms(2) by (simp add: comp_def case_prod_unfold)
  have arg: "arg_of ?kvs (camel_to_snake f) = Some v" if "(f, v) \<in> set u" for f v
  proof -
    have "distinct (map fst (rev ?kvs))" using dist by (metis distinct_rev rev_map)
    moreover have "(camel_to_snake f, v) \<in> set (rev ?kvs)" using that by force
    ultimately show ?thesis unfolding arg_of_def by (rule map_of_is_SomeI)
  qed
  have known: "find (\<lambda>(k, v). k \<notin> fst ` set directory_user_fields) ?kvs = None"
    using assms(1) by (auto simp: find_None_iff)
  have "f \<in> {''id'', ''email'', ''username''} \<Longrightarrow> arg_of ?kvs f \<noteq> None" for f
    using assms(3) arg by fastforce
  then have "find (\<lambda>(f, d). d = None \<and> arg_of ?kvs f = None) directory_user_fields = None"
    by (auto simp: find_None_iff directory_user_fields_def)
  with known obtain b where new: "obj_new directory_user_fields ?kvs = Inr b" by (simp add: obj_new_def)
  have "arg_of ?kvs ''attributes'' = None" using no_attr by (simp add: arg_of_def map_of_eq_None_iff)
  with new flt have run: "parse_keycloak_user_data (JObj u) k = (Inr b, k)"
    by (simp add: parse_keycloak_user_data_def Let_def eff_of_def) (simp add: eff_return_def)
  have "obj_field b (camel_to_snake f) = v" if fv: "(f, v) \<in> set u" for f v
    using assms(1) fv obj_new_field [OF new _ arg [OF fv]] by auto
  with run show ?thesis by blast
qed

text \<open>
  C99: a user with a field that is not one of the service, such as the time of creation that the server
  sends with every user, is invisible. A search by address or by user name answers that there is none,
  the list of all users becomes empty, and a fetch by identifier or an update raises, the update after
  it was made.
\<close>

theorem directory_hides_users:
  fixes api :: "'k kc_api"
  assumes field: "(f, v) \<in> set u" "camel_to_snake f \<notin> insert ''attributes'' (fst ` set directory_user_fields)"
    and found: "\<And>q k. ka_get_users api q k = (Inr (JList (JObj u # others)), k)"
    and fetched: "\<And>i k. ka_get_user api i k = (Inr (JObj u), k)"
    and updated: "\<And>i w k. ka_update_user api i w k = (Inr (), upd k)"
  shows "directory_get_user_by_email env api a k = (Inr None, k) \<and>
    directory_get_user_by_username env api a k = (Inr None, k) \<and>
    directory_search_users env api qu em na n off k = (Inr [], k) \<and>
    (\<exists>x. directory_get_user_by_id env api i k = (Inl (TypeError x), k)) \<and>
    (\<exists>x. directory_update_user env api i w k = (Inl (TypeError x), upd k))"
proof -
  obtain x where parse: "parse_keycloak_user_data (JObj u) s = (Inl (TypeError x), s)" for s :: 'k
    using parse_unknown_field [OF field] by blast
  have readable: "is_exception (TypeError x)" "readable (TypeError x)" by (simp_all add: readable_def)
  have first: "first_found env api q k = (Inr None, k)" for q
    unfolding first_found_def
    by (rule reported_fails [OF _ readable]) (simp add: found py_bool_def py_first_def eff_bind_def eff_return_def parse)
  have search: "directory_search_users env api qu em na n off k = (Inr [], k)"
    unfolding directory_search_users_def
    by (rule reported_fails [OF _ readable]) (simp add: found py_iter_def eff_bind_def eff_return_def parse)
  have "reraised tx m s = (Inl (TypeError x), s')" if "m s = (Inl (TypeError x), s')" for tx s s' and m :: "('k, obj) eff"
    using that by (simp add: reraised_def eff_catch_def eff_bind_def report_keycloak_error_def eff_return_def eff_raise_def)
  then show ?thesis using search
    by (simp add: directory_get_user_by_email_def directory_get_user_by_username_def first
        directory_get_user_by_id_def directory_update_user_def eff_bind_def fetched updated parse)
qed

definition lookup_server :: "nat kc_api" where
  "lookup_server = (failing_api demo_refusal)\<lparr>
     ka_get_users := (\<lambda>_. eff_return (JList [JObj [(''id'', JStr ''1''), (''username'', JStr ''ann''), (''createdTimestamp'', JInt 5)]])),
     ka_get_user := (\<lambda>_. eff_return (JObj [(''id'', JStr ''1''), (''username'', JStr ''ann''), (''createdTimestamp'', JInt 5)])),
     ka_update_user := (\<lambda>_ _ n. (Inr (), Suc n))\<rparr>"

lemma directory_hides_users_witness:
  "directory_get_user_by_email demo_iam_env lookup_server ''ann@x'' 0 = (Inr None, 0) \<and>
   (\<exists>x. directory_update_user demo_iam_env lookup_server ''1'' (JObj []) 0 = (Inl (TypeError x), 1))"
proof -
  let ?u = "[(''id'', JStr ''1''), (''username'', JStr ''ann''), (''createdTimestamp'', JInt 5)]"
  have snake: "camel_to_snake ''createdTimestamp'' \<notin> insert ''attributes'' (fst ` set directory_user_fields)"
    by (simp add: directory_user_fields_def upper_ascii_def ascii_lower_def)
  have "(''createdTimestamp'', JInt 5) \<in> set ?u" by simp
  from directory_hides_users [OF this snake, of lookup_server "[]" Suc demo_iam_env "''ann@x''" 0 None None None 10 0 "''1''" "JObj []"]
  show ?thesis by (simp add: lookup_server_def eff_return_def)
qed

section \<open>When the server fails\<close>

text \<open>The operations whose answer is a truth value, and which handle every \<open>Exception\<close>.\<close>

definition boolean_operations :: "iam_env \<Rightarrow> 'k kc_api \<Rightarrow> string \<Rightarrow> string \<Rightarrow> string \<Rightarrow> ('k, bool) eff list" where
  "boolean_operations env api u x y =
     [send_email_verification env api u, set_remember_me env api u True, disable_totp env api u,
      send_password_reset_email env api x, change_password env api u x y, directory_delete_user env api u,
      directory_enable_user env api u, directory_disable_user env api u, assign_role_to_user env api u x,
      remove_role_from_user env api u x, verify_totp env api u x, verify_email env api x]"

definition answered :: "py_exn + bool \<Rightarrow> bool" where
  "answered r \<longleftrightarrow> (case r of Inr _ \<Rightarrow> True | Inl x \<Rightarrow> x \<in> set report_failures \<union> {CancelledError, KeyboardInterrupt})"

lemma not_exception: "\<not> is_exception x \<Longrightarrow> x \<in> {CancelledError, KeyboardInterrupt}"
  by (cases x) simp_all

lemma reported_answered: "answered (fst (kc_reported tx m d k))"
proof (cases "kc_reported tx m d k")
  case (Pair r k')
  show ?thesis
  proof (cases r)
    case (Inl x)
    with Pair obtain e where "escapes e x" using reported_raises [of tx m d k x k'] by auto
    then show ?thesis using Pair Inl not_exception [of x] by (auto simp: answered_def escapes_def split: if_splits)
  qed (use Pair in \<open>simp add: answered_def\<close>)
qed

lemma operations_reported: "op \<in> set (boolean_operations env api u x y) \<Longrightarrow> \<exists>m. op = kc_reported (ke_exn_text env) m False"
  unfolding boolean_operations_def send_email_verification_def set_remember_me_def verify_totp_def disable_totp_def
    send_password_reset_email_def change_password_def directory_delete_user_def directory_enable_user_def
    directory_disable_user_def assign_role_to_user_def remove_role_from_user_def verify_email_def bool_op_def
  by (simp only: list.set insert_iff empty_iff) blast

text \<open>What \<open>python-keycloak\<close> raises when it has no connection: its message is a text.\<close>

abbreviation connection_lost :: "jval option \<Rightarrow> py_exn" where
  "connection_lost msg \<equiv> KeycloakError Kc_connection (Kc_text msg)"

lemma reported_lost: "m k = (Inl (connection_lost msg), k') \<Longrightarrow> kc_reported tx m d k = (Inl (AttributeError ''decode''), k')"
  by (simp add: kc_reported_def eff_catch_def eff_bind_def report_keycloak_error_def parse_keycloak_error_def eff_raise_def)

lemma reraised_lost: "m k = (Inl (connection_lost msg), k') \<Longrightarrow> reraised tx m k = (Inl (AttributeError ''decode''), k')"
  by (simp add: reraised_def eff_catch_def eff_bind_def report_keycloak_error_def parse_keycloak_error_def eff_raise_def)


end
