(* ===== verification/Auth_Backend.thy ===== *)
theory Auth_Backend
  imports Keycloak_Service
begin

text \<open>
  The authentication of a request: \<open>KeycloakOpenIDAuthBackend.authenticate\<close>
  (\<open>libs/iam_keycloak/src/iam_keycloak/adapter/keycloak_starlette_middleware.py\<close>) with the cookies of a
  request (\<open>foundation/utils/cookie_parser.py\<close>), the endpoints open to anybody
  (\<open>foundation/state/endpoint.py\<close>) and the user it builds (\<open>domains/entities.py\<close>). The request of the
  user's data by a token and the matching of a regular expression are parameters; log lines are left out.
\<close>

section \<open>Open endpoints and cookies\<close>

text \<open>The set of patterns, as a list; \<open>re_match\<close> is \<open>re.match\<close>.\<close>

definition mark_endpoint_as_allow_any :: "string \<Rightarrow> string list \<Rightarrow> string list" where
  "mark_endpoint_as_allow_any endpoint patterns = List.insert endpoint patterns"

definition is_endpoint_allow_any :: "(string \<Rightarrow> string \<Rightarrow> bool) \<Rightarrow> string list \<Rightarrow> string \<Rightarrow> bool" where
  "is_endpoint_allow_any re_match patterns endpoint = list_ex (\<lambda>p. re_match p endpoint) patterns"

text \<open>\<open>s.split(sep)\<close>, \<open>sep.join(parts)\<close>, \<open>s.replace(old, new)\<close> and \<open>s.split(sep, 1)\<close> where \<open>sep\<close> occurs.\<close>

definition py_split :: "string \<Rightarrow> string \<Rightarrow> string list" where
  "py_split sep s = split_text 0 sep s []"

fun py_join :: "string \<Rightarrow> string list \<Rightarrow> string" where
  "py_join sep [] = []"
| "py_join sep [x] = x"
| "py_join sep (x # y # xs) = x @ sep @ py_join sep (y # xs)"

definition py_replace :: "string \<Rightarrow> string \<Rightarrow> string \<Rightarrow> string" where
  "py_replace old new s = py_join new (py_split old s)"

definition split1 :: "string \<Rightarrow> string \<Rightarrow> (string \<times> string) option" where
  "split1 sep s = (case py_split sep s of
       x # y # ys \<Rightarrow> Some (x, py_join sep (y # ys))
     | _ \<Rightarrow> None)"

text \<open>A pair without an equals sign is left out, as is a name that does not contain the filter.\<close>

definition parse_cookies :: "string \<Rightarrow> string option \<Rightarrow> (string \<times> string) list" where
  "parse_cookies cookie_header wanted =
     (if cookie_header = [] then []
      else fold (\<lambda>pair cookies. case split1 ''='' pair of
            None \<Rightarrow> cookies
          | Some (name, value) \<Rightarrow>
              if \<not> str_truthy wanted \<or> sublist (or_str wanted []) name then AList.update name value cookies else cookies)
        (py_split ''; '' cookie_header) [])"

section \<open>The token of a request\<close>

record auth_conn =
  ac_path :: string
  ac_method :: "string option"
  ac_authorization :: "string option"
  ac_cookie :: "string option"

definition session_cookie :: string where
  "session_cookie = ''authjs.session-token''"

text \<open>\<open>auth.rstrip(';')\<close>\<close>

definition rstrip_semicolon :: "string \<Rightarrow> string" where
  "rstrip_semicolon s = rev (dropWhile (\<lambda>c. c = CHR '';'') (rev s))"

text \<open>The token after \<open>%20\<close> in the first cookie whose text contains a mark; \<open>[]\<close> stands for \<open>None\<close>.\<close>

definition marked_cookie_token :: "string \<Rightarrow> string list \<Rightarrow> string" where
  "marked_cookie_token mark cookies = (case find (sublist mark) cookies of
       None \<Rightarrow> []
     | Some auth \<Rightarrow> (case split1 ''='' (rstrip_semicolon auth) of
         None \<Rightarrow> []
       | Some (_, value) \<Rightarrow> if value = ''false'' then []
           else (case split1 ''%20'' value of None \<Rightarrow> [] | Some (_, token) \<Rightarrow> token)))"

text \<open>
  The loop over the cookies that contain the name reads the value under the name itself, whatever the
  cookie at hand is called.
\<close>

definition session_token :: "string \<Rightarrow> py_exn + string" where
  "session_token cookie_header =
     (let cookies = parse_cookies cookie_header (Some session_cookie) in
      if cookies = [] then Inr []
      else case map_of cookies session_cookie of
          None \<Rightarrow> Inl (KeyError session_cookie)
        | Some token \<Rightarrow> Inr token)"

definition cookie_token :: "string \<Rightarrow> py_exn + string" where
  "cookie_token cookie_header =
     (let cookies = py_split '' '' (py_replace ''; '' '' '' cookie_header) in
      case session_token cookie_header of
        Inl e \<Rightarrow> Inl e
      | Inr token \<Rightarrow>
          (let token = (if token = [] then marked_cookie_token ''auth._token.passkey'' cookies else token);
               token = (if token = [] then marked_cookie_token session_cookie cookies else token) in
           if token = [] then Inl (ValueError ''No valid authentication token found in cookies'') else Inr token))"

text \<open>\<open>_, token = auth_header.split(' ')\<close>: any scheme is accepted.\<close>

definition header_token :: "string \<Rightarrow> py_exn + string" where
  "header_token auth_header = (case py_split '' '' auth_header of
       [_, token] \<Rightarrow> Inr token
     | _ \<Rightarrow> Inl (ValueError ''unpack''))"

definition request_token :: "auth_conn \<Rightarrow> py_exn + string" where
  "request_token conn =
     (if str_truthy (ac_authorization conn) then header_token (or_str (ac_authorization conn) [])
      else if \<not> str_truthy (ac_cookie conn) then Inl (ValueError ''No cookie header present'')
      else cookie_token (or_str (ac_cookie conn) []))"

section \<open>The user\<close>

definition auth_user_fields :: class_fields where
  "auth_user_fields = [(''sub'', None), (''preferred_username'', None), (''name'', Some JNull),
     (''family_name'', Some JNull), (''given_name'', Some JNull), (''email'', Some JNull), (''picture'', Some JNull)]"

text \<open>\<open>KeycloakAuthUser(**user)\<close>\<close>

definition keycloak_auth_user :: "jval \<Rightarrow> py_exn + obj" where
  "keycloak_auth_user user = (case user of JObj kvs \<Rightarrow> obj_new auth_user_fields kvs | _ \<Rightarrow> Inl (TypeError ''**''))"

definition auth_user_display_name :: "obj \<Rightarrow> jval" where
  "auth_user_display_name u = obj_field u ''preferred_username''"

definition auth_user_is_authenticated :: "obj \<Rightarrow> py_exn + bool" where
  "auth_user_is_authenticated u = Inl (NotImplementedError ''is_authenticated'')"

section \<open>The backend\<close>

datatype auth_result = Anonymous | Authenticated obj

fun is_value_error :: "py_exn \<Rightarrow> bool" where
  "is_value_error (ValueError _) = True"
| "is_value_error _ = False"

fun is_kc_denial :: "py_exn \<Rightarrow> bool" where
  "is_kc_denial (KeycloakError k _) = (k = Kc_authentication \<or> k = Kc_get)"
| "is_kc_denial _ = False"

text \<open>The end of both handlers: an open endpoint goes on without a user.\<close>

definition anonymous_if :: "bool \<Rightarrow> ('k, auth_result) eff" where
  "anonymous_if allow = (if allow then eff_return Anonymous else eff_raise AuthenticationError)"

definition authenticate ::
  "(string \<Rightarrow> bool) \<Rightarrow> kc_settings \<Rightarrow> (oidc_client \<Rightarrow> string \<Rightarrow> ('k, jval) eff) \<Rightarrow> auth_conn \<Rightarrow> ('k, auth_result) eff" where
  "authenticate allow_any s userinfo conn =
     (let allow = allow_any (ac_path conn) in
      if ac_method conn = Some ''OPTIONS'' then eff_return Anonymous
      else if \<not> str_truthy (ac_authorization conn) \<and> allow then eff_return Anonymous
      else if \<not> str_truthy (ac_authorization conn) \<and> \<not> str_truthy (ac_cookie conn) then eff_raise AuthenticationError
      else case request_token conn of
          Inl e \<Rightarrow> if is_value_error e then anonymous_if allow else eff_raise e
        | Inr token \<Rightarrow>
            eff_bind (eff_catch
              (eff_bind (get_keycloak_openid s None) (\<lambda>c. eff_bind (userinfo c token) (\<lambda>u. eff_return (Some u))))
              is_kc_denial (\<lambda>_. eff_return None)) (\<lambda>user. case user of
                None \<Rightarrow> anonymous_if allow
              | Some u \<Rightarrow> eff_bind (eff_of (keycloak_auth_user u)) (\<lambda>x. eff_return (Authenticated x))))"

section \<open>Who is authenticated\<close>

lemma split_text_ne [simp]: "split_text n sep s w \<noteq> []"
  by (induction n sep s w rule: split_text.induct) auto

lemma py_join_Cons: "xs \<noteq> [] \<Longrightarrow> py_join sep (x # xs) = x @ sep @ py_join sep xs"
  by (cases xs) simp_all

lemma split_text_join_skip:
  "sep \<noteq> [] \<Longrightarrow> skip \<le> length s \<Longrightarrow> py_join sep (split_text skip sep s w) = rev w @ drop skip s"
proof (induction skip sep s w rule: split_text.induct)
  case (3 sep c cs word)
  show ?case
  proof (cases "prefix sep (c # cs)")
    case True
    then obtain rest where rest: "c # cs = sep @ rest" by (auto simp: prefix_def)
    then have cs: "drop (length sep - 1) cs = rest"
      using 3(3) by (cases sep) simp_all
    have "length sep \<le> Suc (length cs)" using rest by (metis le_add1 length_append length_Cons)
    then have le: "length sep - 1 \<le> length cs" by simp
    have "split_text 0 sep (c # cs) word = rev word # split_text (length sep - 1) sep cs []" using True by simp
    then have "py_join sep (split_text 0 sep (c # cs) word) = rev word @ sep @ rest"
      using 3(1) [OF True 3(3) le] cs by (simp add: py_join_Cons)
    then show ?thesis by (simp only: rest drop_0)
  next
    case False
    then show ?thesis using 3(2) [OF False 3(3)] by simp
  qed
qed auto

lemma split_text_join: "sep \<noteq> [] \<Longrightarrow> py_join sep (split_text 0 sep s w) = rev w @ s"
  using split_text_join_skip [of sep 0 s w] by simp

lemma py_split_join: "sep \<noteq> [] \<Longrightarrow> py_join sep (py_split sep s) = s"
  by (simp add: py_split_def split_text_join)

text \<open>The token of a header is what follows its only blank.\<close>

lemma header_token_reads: "header_token h = Inr token \<Longrightarrow> \<exists>scheme. h = scheme @ '' '' @ token"
  using py_split_join [of "'' ''" h] by (auto simp: header_token_def split: list.splits)

lemma keycloak_auth_user_fields:
  assumes "keycloak_auth_user u = Inr b"
  shows "\<exists>kvs. u = JObj kvs \<and> fst ` set kvs \<subseteq> fst ` set auth_user_fields \<and>
    {''sub'', ''preferred_username''} \<subseteq> fst ` set kvs"
proof -
  obtain kvs where u: "u = JObj kvs" and new: "obj_new auth_user_fields kvs = Inr b"
    using assms by (auto simp: keycloak_auth_user_def split: jval.splits)
  have "k \<in> fst ` set auth_user_fields" if "(k, v) \<in> set kvs" for k v
    using obj_new_unknown [OF that, of auth_user_fields] new by auto
  moreover have "f \<in> fst ` set kvs" if "(f, None) \<in> set auth_user_fields" for f
    using obj_new_missing [OF that, of kvs] new by auto
  ultimately have "fst ` set kvs \<subseteq> fst ` set auth_user_fields" "{''sub'', ''preferred_username''} \<subseteq> fst ` set kvs"
    by (fastforce, simp add: auth_user_fields_def)
  then show ?thesis using u by blast
qed


definition demo_userinfo :: "oidc_client \<Rightarrow> string \<Rightarrow> (unit, jval) eff" where
  "demo_userinfo c token = (if token = ''t1''
     then eff_return (JObj [(''sub'', JStr ''7''), (''preferred_username'', JStr ''ann'')])
     else eff_raise (KeycloakError Kc_authentication (Kc_bytes None)))"

definition demo_conn :: "string \<Rightarrow> auth_conn" where
  "demo_conn h = \<lparr>ac_path = ''/x'', ac_method = Some ''GET'', ac_authorization = Some h, ac_cookie = None\<rparr>"

definition demo_kc :: kc_settings where
  "demo_kc = \<lparr>ks_realm = ''r'', ks_host = ''h'', ks_client_id = ''c'', ks_login_client_id = ''l'',
     ks_login_client_secret = Some ''s'', ks_admin_user = Some ''a'', ks_admin_secret = Some ''p''\<rparr>"


text \<open>
  With the scope \<open>email\<close> the server sends the claim \<open>email_verified\<close> along, which the class does not
  know; and the name of the session cookie has a prefix on secure connections.
\<close>

lemma auth_user_rejects_claim:
  "(''email_verified'', v) \<in> set kvs \<Longrightarrow> \<exists>x. keycloak_auth_user (JObj kvs) = Inl (TypeError x)"
  using obj_new_unknown [of "''email_verified''" v kvs auth_user_fields]
  by (simp add: keycloak_auth_user_def auth_user_fields_def)

lemma secure_session_cookie_raises:
  "cookie_token ''__Secure-authjs.session-token=abc'' = Inl (KeyError session_cookie)"
  by (simp add: cookie_token_def session_token_def parse_cookies_def split1_def py_split_def session_cookie_def
      str_truthy_def or_str_def sublist_code)

end
