(* ===== verification/Iam_Signup.thy ===== *)
theory Iam_Signup
  imports Keycloak_Base "HOL-Library.Sublist"
begin

text \<open>
  Registration: the e-mail step and the submission of \<open>BaseAuthService\<close>
  (\<open>libs/iam/src/iam/auth/services/_auth.py\<close>), the creation of a user and its tenant in the directory by
  \<open>KeycloakIamService\<close> (\<open>libs/iam_keycloak/src/iam_keycloak/services/kc_iam_service.py\<close>) with its helpers,
  and the names of tenants (\<open>libs/iam/src/iam/utils/saas_utils.py\<close>). The directory is Keycloak: its
  requests are the parameter \<open>api\<close> on an opaque state, the locale \<open>signup_directory\<close> states what its
  documentation says of them, and a directory of lists of accounts shows that this can be met. The
  publication of an event is one more parameter. Log lines are left out; the reports of errors are those
  of \<open>Keycloak_Base\<close>, which can raise, and the text they get of other exceptions makes no difference.
\<close>

section \<open>Names of tenants\<close>

text \<open>\<open>char.isalnum()\<close> and \<open>char.isspace()\<close> on ASCII characters.\<close>

definition ascii_alnum :: "char \<Rightarrow> bool" where
  "ascii_alnum c \<longleftrightarrow> (let n = (of_char c :: nat) in
     (48 \<le> n \<and> n \<le> 57) \<or> (65 \<le> n \<and> n \<le> 90) \<or> (97 \<le> n \<and> n \<le> 122))"

definition ascii_space :: "char \<Rightarrow> bool" where
  "ascii_space c \<longleftrightarrow> (let n = (of_char c :: nat) in (9 \<le> n \<and> n \<le> 13) \<or> (28 \<le> n \<and> n \<le> 32))"

definition subdomain_chars :: "char \<Rightarrow> string" where
  "subdomain_chars c = (if ascii_alnum c \<or> c = CHR ''-'' then [ascii_lower c]
     else if ascii_space c then ''-'' else [])"

definition rstrip_dash :: "string \<Rightarrow> string" where
  "rstrip_dash s = rev (dropWhile (\<lambda>c. c = CHR ''-'') (rev s))"

definition generate_saas_subdomain :: "string \<Rightarrow> nat \<Rightarrow> string" where
  "generate_saas_subdomain name max_length = rstrip_dash (take max_length (concat (map subdomain_chars name)))"

text \<open>\<open>s.replace(old, '')\<close>\<close>

fun remove_all :: "nat \<Rightarrow> string \<Rightarrow> string \<Rightarrow> string" where
  "remove_all skip old [] = []"
| "remove_all (Suc k) old (c # cs) = remove_all k old cs"
| "remove_all 0 old (c # cs) = (if prefix old (c # cs) \<and> old \<noteq> [] then remove_all (length old - 1) old cs
     else c # remove_all 0 old cs)"

definition get_keycloak_subdomain :: "string \<Rightarrow> string \<Rightarrow> string" where
  "get_keycloak_subdomain frontend_url domain_alias =
     (if sublist ''https://'' frontend_url
      then domain_alias @ ''.'' @ remove_all 0 ''https://'' frontend_url
      else if sublist ''http://'' frontend_url
      then ''http://'' @ domain_alias @ ''.'' @ remove_all 0 ''http://'' frontend_url
      else frontend_url)"

definition local_part :: "string \<Rightarrow> string" where
  "local_part email = takeWhile (\<lambda>c. c \<noteq> CHR ''@'') email"

definition tenant_alias :: "string \<Rightarrow> string" where
  "tenant_alias name = map (\<lambda>c. if c = CHR '' '' then CHR ''-'' else c) (map ascii_lower name)"

section \<open>The e-mail step\<close>

record auth_world =
  aw_cache :: "string \<Rightarrow> (string \<times> int) option"
  aw_sent :: "(string \<times> string \<times> string option) list"

datatype signup_status = Pending | VerificationSent | Ok | Failed | Existed

definition build_signup_otp_key :: "string \<Rightarrow> string" where
  "build_signup_otp_key email = ''iam_signup_otp:'' @ email"

text \<open>\<open>f'{otp}'\<close> of an optional text\<close>

definition py_optional_str :: "string option \<Rightarrow> string" where
  "py_optional_str x = (case x of None \<Rightarrow> ''None'' | Some s \<Rightarrow> s)"

text \<open>
  \<open>send_otp_to_email\<close>: the message is built with a given code or \<open>generated\<close>, a text is cached for half
  an hour, and the message is sent; what is sent is the address, the code and the link.
\<close>

definition send_otp_to_email ::
  "string \<Rightarrow> string \<Rightarrow> string option \<Rightarrow> string option \<Rightarrow> (auth_world, unit) eff" where
  "send_otp_to_email generated email otp link =
    (let code = (case otp of None \<Rightarrow> generated | Some x \<Rightarrow> if x = [] then generated else x) in
     eff_bind (eff_modify (\<lambda>w. w\<lparr>aw_cache := (aw_cache w)(build_signup_otp_key email \<mapsto>
         (py_optional_str otp @ '':'' @ email, 1800))\<rparr>)) (\<lambda>_.
     eff_modify (\<lambda>w. w\<lparr>aw_sent := aw_sent w @ [(email, code, link)]\<rparr>)))"

definition verify_link :: "string \<Rightarrow> string \<Rightarrow> string" where
  "verify_link frontend_url email = frontend_url @ ''/'' @ ''/verify-account'' @ ''?email='' @ email"

text \<open>\<open>signup_01_onboarding_with_email\<close>; \<open>count_users\<close> is the query of the directory's database.\<close>

definition signup_01_onboarding_with_email ::
  "(string \<Rightarrow> (auth_world, nat) eff) \<Rightarrow> string \<Rightarrow> string \<Rightarrow> string \<Rightarrow> (auth_world, signup_status) eff" where
  "signup_01_onboarding_with_email count_users frontend_url generated email =
     eff_bind (count_users email) (\<lambda>n.
       if n > 0 then eff_return Existed
       else eff_bind (send_otp_to_email generated email None (Some (verify_link frontend_url email)))
         (\<lambda>_. eff_return VerificationSent))"

section \<open>The directory\<close>

record kc_user =
  ku_email :: string
  ku_username :: string
  ku_first_name :: "string option"
  ku_last_name :: "string option"
  ku_password :: "string option"
  ku_email_verified :: bool
  ku_enabled :: bool
  ku_attributes :: "string \<Rightarrow> string option"

record kc_org =
  ko_name :: string
  ko_alias :: string
  ko_domains :: "string list"

record 'k directory_api =
  da_realm_id :: "('k, string) eff"
  da_get_organizations :: "string \<Rightarrow> ('k, string list) eff"
  da_get_users :: "string \<Rightarrow> ('k, string list) eff"
  da_delete_organization :: "string \<Rightarrow> ('k, unit) eff"
  da_delete_user :: "string \<Rightarrow> ('k, unit) eff"
  da_create_organization :: "kc_org \<Rightarrow> ('k, string) eff"
  da_create_user :: "kc_user \<Rightarrow> ('k, string) eff"
  da_organization_user_add :: "string \<Rightarrow> string \<Rightarrow> ('k, unit) eff"

text \<open>\<open>try: m; return True / except Exception as e: report; return False\<close>\<close>

definition succeeds :: "('k, unit) eff \<Rightarrow> ('k, bool) eff" where
  "succeeds m = kc_reported (\<lambda>_. []) (eff_bind m (\<lambda>_. eff_return True)) False"

definition list_all_organizations :: "'k directory_api \<Rightarrow> string \<Rightarrow> ('k, string list) eff" where
  "list_all_organizations api name =
     kc_reported (\<lambda>_. []) (da_get_organizations api name) []"

definition delete_users :: "'k directory_api \<Rightarrow> string list \<Rightarrow> ('k, bool) eff" where
  "delete_users api ids = succeeds (eff_for ids (da_delete_user api))"

definition delete_organizations :: "'k directory_api \<Rightarrow> string list \<Rightarrow> ('k, bool) eff" where
  "delete_organizations api ids = succeeds (eff_for ids (da_delete_organization api))"

section \<open>The submission\<close>

record signup_request =
  sr_otp :: "string option"
  sr_first_name :: "string option"
  sr_last_name :: "string option"
  sr_organization_name :: "string option"
  sr_password :: "string option"
  sr_email :: string

text \<open>\<open>parse_keycloak_user_from_signup_data(data, verify_email=True)\<close>\<close>

definition parse_keycloak_user_from_signup_data :: "signup_request \<Rightarrow> bool \<Rightarrow> kc_user" where
  "parse_keycloak_user_from_signup_data d verify_email = \<lparr>ku_email = sr_email d, ku_username = sr_email d,
     ku_first_name = sr_first_name d, ku_last_name = sr_last_name d, ku_password = sr_password d,
     ku_email_verified = False, ku_enabled = verify_email, ku_attributes = Map.empty\<rparr>"

text \<open>\<open>keycloaiAdminClient.create_user(user_data, verified_email)\<close>\<close>

definition create_user :: "'k directory_api \<Rightarrow> kc_user \<Rightarrow> bool \<Rightarrow> ('k, string \<times> kc_user) eff" where
  "create_user api u verified_email =
    (let u = u\<lparr>ku_email_verified := verified_email\<rparr> in
     eff_bind (da_create_user api u) (\<lambda>i. eff_return (i, u)))"

definition create_organization :: "'k directory_api \<Rightarrow> kc_org \<Rightarrow> ('k, string \<times> kc_org) eff" where
  "create_organization api d = eff_bind (da_create_organization api d) (\<lambda>i. eff_return (i, d))"

record directory_user =
  du_id :: string
  du_email :: string
  du_username :: string
  du_email_verified :: bool
  du_enabled :: bool
  du_tenant_id :: "string option"
  du_is_root_account :: bool

record directory_tenant =
  dt_id :: string
  dt_name :: string
  dt_alias_id :: string

text \<open>\<open>attributes\<close>: of an account just created, a dictionary of the caller.\<close>

record signup_attributes =
  sa_origin :: string
  sa_tenant_directory_id :: "string option"
  sa_tenant_id :: "string option"
  sa_is_root_account :: bool

definition parse_keycloak_registered_user :: "string \<Rightarrow> kc_user \<Rightarrow> signup_attributes \<Rightarrow> directory_user" where
  "parse_keycloak_registered_user i u a = \<lparr>du_id = i, du_email = ku_email u, du_username = ku_username u,
     du_email_verified = ku_email_verified u, du_enabled = ku_enabled u,
     du_tenant_id = sa_tenant_id a, du_is_root_account = sa_is_root_account a\<rparr>"

definition parse_keycloak_registered_organization :: "string \<Rightarrow> kc_org \<Rightarrow> directory_tenant" where
  "parse_keycloak_registered_organization i d = \<lparr>dt_id = i, dt_name = ko_name d, dt_alias_id = ko_alias d\<rparr>"

record directory_created =
  dc_user_id :: string
  dc_email :: string
  dc_username :: string
  dc_user :: directory_user
  dc_tenant :: directory_tenant

record signup_out =
  so_id :: "string option"
  so_status :: signup_status

definition signup_tenant_name :: "signup_request \<Rightarrow> string" where
  "signup_tenant_name d = (case sr_organization_name d of
     None \<Rightarrow> local_part (sr_email d)
   | Some n \<Rightarrow> if n = [] then local_part (sr_email d) else n)"

definition tenant_dict :: "string \<Rightarrow> string \<Rightarrow> kc_org" where
  "tenant_dict frontend_url tenant_name = \<lparr>ko_name = tenant_name, ko_alias = tenant_alias tenant_name,
     ko_domains = [get_keycloak_subdomain frontend_url (generate_saas_subdomain tenant_name 12)]\<rparr>"

text \<open>
  \<open>_create_directory_user\<close>. The dictionary \<open>attributes\<close> is not part of the data of the user when the
  account is created: \<open>kc_user_data.get('attributes', {})\<close> makes a new one, which is stored in the
  data afterwards.
\<close>

definition create_account ::
  "'k directory_api \<Rightarrow> (directory_created \<Rightarrow> ('k, unit) eff) \<Rightarrow> string \<Rightarrow> string \<Rightarrow> signup_request \<Rightarrow> ('k, signup_out) eff" where
  "create_account api publish frontend_url tenant_name d =
    (let kc_user_data = parse_keycloak_user_from_signup_data d True;
         attributes = \<lparr>sa_origin = ''signup'', sa_tenant_directory_id = None, sa_tenant_id = None,
           sa_is_root_account = False\<rparr> in
     eff_bind (create_organization api (tenant_dict frontend_url tenant_name)) (\<lambda>(tenant_directory_id, created_tenant).
     let attributes = attributes\<lparr>sa_tenant_directory_id := Some tenant_directory_id, sa_is_root_account := True\<rparr> in
     eff_bind (create_user api kc_user_data True) (\<lambda>(user_id, created_kc_user).
     eff_bind (da_organization_user_add api user_id tenant_directory_id) (\<lambda>_.
     let directory_user = parse_keycloak_registered_user user_id created_kc_user attributes;
         directory_tenant = parse_keycloak_registered_organization tenant_directory_id created_tenant in
     eff_bind (reraised (\<lambda>_. []) (publish \<lparr>dc_user_id = user_id, dc_email = du_email directory_user,
         dc_username = du_username directory_user, dc_user = directory_user, dc_tenant = directory_tenant\<rparr>)) (\<lambda>_.
     eff_return \<lparr>so_id = Some user_id, so_status = Ok\<rparr>)))))"

definition create_directory_user ::
  "'k directory_api \<Rightarrow> (directory_created \<Rightarrow> ('k, unit) eff) \<Rightarrow> string \<Rightarrow> signup_request \<Rightarrow> ('k, signup_out) eff" where
  "create_directory_user api publish frontend_url d =
    (let tenant_name = signup_tenant_name d in
     eff_bind (da_realm_id api) (\<lambda>_.
     eff_bind (list_all_organizations api tenant_name) (\<lambda>orgs.
     eff_bind (if orgs \<noteq> [] then delete_organizations api orgs else eff_return True) (\<lambda>_.
     eff_bind (da_get_users api (sr_email d)) (\<lambda>users.
     eff_bind (if users \<noteq> [] then delete_users api users else eff_return True) (\<lambda>_.
     failure_reported (\<lambda>_. []) (create_account api publish frontend_url tenant_name d)))))))"

definition signup_02_submit ::
  "'k directory_api \<Rightarrow> (directory_created \<Rightarrow> ('k, unit) eff) \<Rightarrow> string \<Rightarrow> signup_request \<Rightarrow> ('k, signup_out) eff" where
  "signup_02_submit api publish frontend_url d = create_directory_user api publish frontend_url d"

section \<open>What a registration does to the directory\<close>

text \<open>The user that a registration creates: enabled, its address marked as verified, no attributes.\<close>

definition signed_up_user :: "signup_request \<Rightarrow> kc_user" where
  "signed_up_user d = (parse_keycloak_user_from_signup_data d True)\<lparr>ku_email_verified := True\<rparr>"

text \<open>A table without the entries with a property.\<close>

definition without :: "('a \<Rightarrow> bool) \<Rightarrow> (string \<Rightarrow> 'a option) \<Rightarrow> string \<Rightarrow> 'a option" where
  "without P m i = (case m i of None \<Rightarrow> None | Some x \<Rightarrow> if P x then None else Some x)"

lemma without_removed:
  assumes "\<And>i. i \<in> S \<longleftrightarrow> (\<exists>x. m i = Some x \<and> P x)"
  shows "(\<lambda>i. if i \<in> S then None else m i) = without P m"
  using assms by (auto simp: without_def fun_eq_iff split: option.splits)

text \<open>
  \<open>users\<close> and \<open>orgs\<close> are the accounts and organisations of a state; \<open>matches\<close> and \<open>org_matches\<close> say what
  a search by e-mail address and by name finds.
\<close>

locale signup_directory =
  fixes api :: "'k directory_api"
    and users :: "'k \<Rightarrow> string \<Rightarrow> kc_user option"
    and orgs :: "'k \<Rightarrow> string \<Rightarrow> kc_org option"
    and matches :: "string \<Rightarrow> kc_user \<Rightarrow> bool"
    and org_matches :: "string \<Rightarrow> kc_org \<Rightarrow> bool"
  assumes realm: "snd (da_realm_id api k) = k"
    and find_users: "\<exists>ids. da_get_users api e k = (Inr ids, k) \<and>
      (\<forall>i. i \<in> set ids \<longleftrightarrow> (\<exists>u. users k i = Some u \<and> matches e u)) \<and> distinct ids"
    and find_orgs: "\<exists>ids. da_get_organizations api n k = (Inr ids, k) \<and>
      (\<forall>i. i \<in> set ids \<longleftrightarrow> (\<exists>u. orgs k i = Some u \<and> org_matches n u)) \<and> distinct ids"
    and delete_user: "users k i \<noteq> None \<Longrightarrow> \<exists>k'. da_delete_user api i k = (Inr (), k') \<and>
      users k' = (users k)(i := None) \<and> orgs k' = orgs k"
    and delete_org: "orgs k i \<noteq> None \<Longrightarrow> \<exists>k'. da_delete_organization api i k = (Inr (), k') \<and>
      orgs k' = (orgs k)(i := None) \<and> users k' = users k"
    and create_org: "da_create_organization api g k = (Inr i, k') \<Longrightarrow>
      orgs k i = None \<and> orgs k' = (orgs k)(i \<mapsto> g) \<and> users k' = users k"
    and create_org_fails: "da_create_organization api g k = (Inl x, k') \<Longrightarrow> orgs k' = orgs k \<and> users k' = users k"
    and create_user: "da_create_user api u k = (Inr i, k') \<Longrightarrow>
      users k i = None \<and> users k' = (users k)(i \<mapsto> u) \<and> orgs k' = orgs k"
    and create_user_fails: "da_create_user api u k = (Inl x, k') \<Longrightarrow> users k' = users k \<and> orgs k' = orgs k"
    and add_member: "users (snd (da_organization_user_add api i o' k)) = users k \<and>
      orgs (snd (da_organization_user_add api i o' k)) = orgs k"
begin

lemma delete_users_all:
  assumes "distinct ids" and "\<forall>i \<in> set ids. users k i \<noteq> None"
  shows "\<exists>k'. delete_users api ids k = (Inr True, k') \<and> orgs k' = orgs k \<and>
    users k' = (\<lambda>i. if i \<in> set ids then None else users k i)"
proof -
  have "\<exists>k'. eff_for ids (da_delete_user api) k = (Inr (), k') \<and> orgs k' = orgs k \<and>
      users k' = (\<lambda>i. if i \<in> set ids then None else users k i)"
    using assms
  proof (induction ids arbitrary: k)
    case (Cons i ids)
    then obtain k1 where 1: "da_delete_user api i k = (Inr (), k1)" "users k1 = (users k)(i := None)" "orgs k1 = orgs k"
      using delete_user [of k i] by auto
    then have "\<forall>j \<in> set ids. users k1 j \<noteq> None" using Cons.prems by auto
    then obtain k' where "eff_for ids (da_delete_user api) k1 = (Inr (), k')" "orgs k' = orgs k1"
      "users k' = (\<lambda>i. if i \<in> set ids then None else users k1 i)" using Cons.IH [of k1] Cons.prems(1) by auto
    with 1 show ?case by (auto simp: fun_eq_iff)
  qed simp
  then show ?thesis by (auto simp: delete_users_def succeeds_def kc_reported_def eff_defs)
qed

lemma delete_orgs_all:
  assumes "distinct ids" and "\<forall>i \<in> set ids. orgs k i \<noteq> None"
  shows "\<exists>k'. delete_organizations api ids k = (Inr True, k') \<and> users k' = users k \<and>
    orgs k' = (\<lambda>i. if i \<in> set ids then None else orgs k i)"
proof -
  have "\<exists>k'. eff_for ids (da_delete_organization api) k = (Inr (), k') \<and> users k' = users k \<and>
      orgs k' = (\<lambda>i. if i \<in> set ids then None else orgs k i)"
    using assms
  proof (induction ids arbitrary: k)
    case (Cons i ids)
    then obtain k1 where 1: "da_delete_organization api i k = (Inr (), k1)" "orgs k1 = (orgs k)(i := None)" "users k1 = users k"
      using delete_org [of k i] by auto
    then have "\<forall>j \<in> set ids. orgs k1 j \<noteq> None" using Cons.prems by auto
    then obtain k' where "eff_for ids (da_delete_organization api) k1 = (Inr (), k')" "users k' = users k1"
      "orgs k' = (\<lambda>i. if i \<in> set ids then None else orgs k1 i)" using Cons.IH [of k1] Cons.prems(1) by auto
    with 1 show ?case by (auto simp: fun_eq_iff)
  qed simp
  then show ?thesis by (auto simp: delete_organizations_def succeeds_def kc_reported_def eff_defs)
qed

text \<open>The directory after the deletions that begin every registration.\<close>

lemma cleared:
  fixes e :: string and n :: string
  obtains k1 k3 os us where "list_all_organizations api n k = (Inr os, k)"
    and "(if os \<noteq> [] then delete_organizations api os else eff_return True) k = (Inr True, k1)"
    and "da_get_users api e k1 = (Inr us, k1)"
    and "(if us \<noteq> [] then delete_users api us else eff_return True) k1 = (Inr True, k3)"
    and "users k3 = without (matches e) (users k)"
    and "orgs k3 = without (org_matches n) (orgs k)"
proof -
  obtain os where os: "da_get_organizations api n k = (Inr os, k)" "distinct os"
    "\<And>i. i \<in> set os \<longleftrightarrow> (\<exists>g. orgs k i = Some g \<and> org_matches n g)" using find_orgs [of n k] by blast
  obtain k1 where k1: "(if os \<noteq> [] then delete_organizations api os else eff_return True) k = (Inr True, k1)"
    "users k1 = users k" "orgs k1 = (\<lambda>i. if i \<in> set os then None else orgs k i)"
    using delete_orgs_all [of os k] os by (cases "os = []") (auto simp: eff_defs)
  obtain us where us: "da_get_users api e k1 = (Inr us, k1)" "distinct us"
    "\<And>i. i \<in> set us \<longleftrightarrow> (\<exists>u. users k1 i = Some u \<and> matches e u)" using find_users [of e k1] by blast
  obtain k3 where k3: "(if us \<noteq> [] then delete_users api us else eff_return True) k1 = (Inr True, k3)"
    "orgs k3 = orgs k1" "users k3 = (\<lambda>i. if i \<in> set us then None else users k1 i)"
    using delete_users_all [of us k1] us by (cases "us = []") (auto simp: eff_defs)
  have "list_all_organizations api n k = (Inr os, k)"
    by (simp add: list_all_organizations_def kc_reported_def eff_defs os)
  moreover have "users k3 = without (matches e) (users k)"
    unfolding k3(3) k1(2) by (rule without_removed) (simp add: us(3) k1(2))
  moreover have "orgs k3 = without (org_matches n) (orgs k)"
    unfolding k3(2) k1(3) by (rule without_removed) (rule os(3))
  ultimately show thesis using that k1(1) us(1) k3(1) by blast
qed

text \<open>A registration on a directory that answers: deletions first, then at most the new account.\<close>

lemma signup_effect:
  assumes pub: "\<And>ev x. users (snd (publish ev x)) = users x \<and> orgs (snd (publish ev x)) = orgs x"
    and run: "create_directory_user api publish url d k = (r, k')"
  shows "case r of
      Inr out \<Rightarrow> \<exists>i. so_id out = Some i \<and> without (matches (sr_email d)) (users k) i = None \<and>
        users k' = (without (matches (sr_email d)) (users k))(i \<mapsto> signed_up_user d)
    | Inl _ \<Rightarrow> users k' = users k \<or> users k' = without (matches (sr_email d)) (users k) \<or>
        (\<exists>i. users k' = (without (matches (sr_email d)) (users k))(i \<mapsto> signed_up_user d))"
proof -
  let ?n = "signup_tenant_name d" and ?e = "sr_email d"
  let ?U = "without (matches ?e) (users k)"
  obtain k1 k3 os us where c: "list_all_organizations api ?n k = (Inr os, k)"
    "(if os \<noteq> [] then delete_organizations api os else eff_return True) k = (Inr True, k1)"
    "da_get_users api ?e k1 = (Inr us, k1)"
    "(if us \<noteq> [] then delete_users api us else eff_return True) k1 = (Inr True, k3)"
    and U: "users k3 = ?U"
    by (rule cleared)
  obtain a ka where rid: "da_realm_id api k = (a, ka)" by (rule prod.exhaust)
  have ka: "ka = k" using realm [of k] rid by simp
  show ?thesis
  proof (cases a)
    case (Inl x)
    then have "users k' = users k \<and> (\<exists>x. r = Inl x)" using run rid ka
      by (auto simp: create_directory_user_def Let_def eff_bind_def)
    then show ?thesis by auto
  next
    case (Inr rl)
    then have "failure_reported (\<lambda>_. []) (create_account api publish url ?n d) k3 = (r, k')"
      using run rid ka c by (simp add: create_directory_user_def Let_def eff_bind_def)
    from failure_reported_run [OF this] obtain r' where made: "create_account api publish url ?n d k3 = (r', k')"
      and r': "case r of Inr x \<Rightarrow> r' = Inr x | Inl _ \<Rightarrow> \<exists>e. r' = Inl e" by blast
    have pub': "users (snd (reraised tx (publish ev) x)) = users x \<and> orgs (snd (reraised tx (publish ev) x)) = orgs x" for tx ev x
      using reraised_run [of tx "publish ev" x] pub [of ev x] by (metis prod.collapse snd_conv)
    obtain b k4 where b: "da_create_organization api (tenant_dict url ?n) k3 = (b, k4)" by (rule prod.exhaust)
    note step = made b
    show ?thesis
    proof (cases b)
      case (Inl x)
      then have "k' = k4 \<and> r' = Inl x" using step
        by (simp add: create_account_def Let_def eff_bind_def create_organization_def)
      with create_org_fails b Inl U r' show ?thesis by (auto split: sum.splits)
    next
      case b': (Inr g)
      obtain v k5 where v: "da_create_user api (signed_up_user d) k4 = (v, k5)" by (rule prod.exhaust)
      have v': "da_create_user api ((parse_keycloak_user_from_signup_data d True)\<lparr>ku_email_verified := True\<rparr>) k4 = (v, k5)"
        using v by (simp add: signed_up_user_def)
      have k4: "users k4 = ?U" using create_org b b' U by auto
      show ?thesis
      proof (cases v)
        case (Inl x)
        then have "k' = k5 \<and> r' = Inl x" using step b' v'
          by (simp add: create_account_def Let_def eff_bind_def create_organization_def create_user_def eff_return_def)
        with create_user_fails v Inl k4 r' show ?thesis by (auto split: sum.splits)
      next
        case w: (Inr i)
        then have i: "?U i = None" "users k5 = ?U(i \<mapsto> signed_up_user d)"
          using create_user [of "signed_up_user d" k4 i k5] v k4 by simp_all
        have "users k' = users k5 \<and> (\<forall>out. r' = Inr out \<longrightarrow> so_id out = Some i)"
          using step b' v' w add_member [of i g k5] pub'
          by (auto simp: create_account_def Let_def eff_bind_def create_organization_def create_user_def
              eff_return_def split: prod.splits sum.splits) (metis snd_conv)+
        with i r' show ?thesis by (auto split: sum.splits)
      qed
    qed
  qed
qed

end

section \<open>A directory of lists\<close>

text \<open>
  A directory as Keycloak documents it: a search by e-mail finds the addresses that contain the text,
  a name an organisation has already is refused, an address a user has already is refused.
\<close>

record directory =
  dr_users :: "(string \<times> kc_user) list"
  dr_orgs :: "(string \<times> kc_org) list"
  dr_members :: "(string \<times> string) list"

definition fresh_id :: "(string \<times> 'a) list \<Rightarrow> string" where
  "fresh_id xs = replicate (Suc (sum_list (map (length \<circ> fst) xs))) (CHR ''i'')"

definition ids_with :: "('a \<Rightarrow> bool) \<Rightarrow> (string \<times> 'a) list \<Rightarrow> string list" where
  "ids_with P xs = filter (\<lambda>i. case map_of xs i of None \<Rightarrow> False | Some x \<Rightarrow> P x) (remdups (map fst xs))"

definition without_id :: "string \<Rightarrow> (string \<times> 'a) list \<Rightarrow> (string \<times> 'a) list" where
  "without_id i xs = filter (\<lambda>(j, _). j \<noteq> i) xs"

definition email_contains :: "string \<Rightarrow> kc_user \<Rightarrow> bool" where
  "email_contains e u \<longleftrightarrow> sublist e (ku_email u)"

definition org_named :: "string \<Rightarrow> kc_org \<Rightarrow> bool" where
  "org_named n g \<longleftrightarrow> ko_name g = n"

definition list_directory :: "directory directory_api" where
  "list_directory = \<lparr>
     da_realm_id = eff_return ''realm'',
     da_get_organizations = (\<lambda>n k. (Inr (ids_with (org_named n) (dr_orgs k)), k)),
     da_get_users = (\<lambda>e k. (Inr (ids_with (email_contains e) (dr_users k)), k)),
     da_delete_organization = (\<lambda>i k. (Inr (), k\<lparr>dr_orgs := without_id i (dr_orgs k)\<rparr>)),
     da_delete_user = (\<lambda>i k. (Inr (), k\<lparr>dr_users := without_id i (dr_users k)\<rparr>)),
     da_create_organization = (\<lambda>g k. if ids_with (org_named (ko_name g)) (dr_orgs k) \<noteq> []
        then (Inl (UserError ''409''), k)
        else (Inr (fresh_id (dr_orgs k)), k\<lparr>dr_orgs := (fresh_id (dr_orgs k), g) # dr_orgs k\<rparr>)),
     da_create_user = (\<lambda>u k. if ids_with (\<lambda>v. ku_email v = ku_email u) (dr_users k) \<noteq> []
        then (Inl (UserError ''409''), k)
        else (Inr (fresh_id (dr_users k)), k\<lparr>dr_users := (fresh_id (dr_users k), u) # dr_users k\<rparr>)),
     da_organization_user_add = (\<lambda>i g k. (Inr (), k\<lparr>dr_members := (i, g) # dr_members k\<rparr>))\<rparr>"

lemma fresh_id_new: "map_of xs (fresh_id xs) = None"
proof -
  have "length (fst x) \<le> sum_list (map (length \<circ> fst) xs)" if "x \<in> set xs" for x
    using that member_le_sum_list [of "length (fst x)" "map (length \<circ> fst) xs"] by force
  then have "fresh_id xs \<notin> fst ` set xs" by (force simp: fresh_id_def)
  then show ?thesis by (simp add: map_of_eq_None_iff)
qed

lemma map_of_without_id [simp]: "map_of (without_id i xs) = (map_of xs)(i := None)"
  by (induction xs) (auto simp: without_id_def)

lemma ids_with_iff: "i \<in> set (ids_with P xs) \<longleftrightarrow> (\<exists>x. map_of xs i = Some x \<and> P x)"
  by (auto simp: ids_with_def split: option.splits dest: map_of_SomeD intro: rev_image_eqI)

lemma ids_with_distinct: "distinct (ids_with P xs)"
  by (simp add: ids_with_def)

interpretation listed: signup_directory list_directory "\<lambda>k. map_of (dr_users k)" "\<lambda>k. map_of (dr_orgs k)"
  email_contains org_named
  by unfold_locales
    (auto simp: list_directory_def eff_return_def ids_with_iff ids_with_distinct fresh_id_new split: if_splits)

section \<open>Properties\<close>

lemma otp_unused: "create_directory_user api publish url (d\<lparr>sr_otp := x\<rparr>) = create_directory_user api publish url d"
proof -
  have "signup_tenant_name (d\<lparr>sr_otp := x\<rparr>) = signup_tenant_name d"
    by (cases "sr_organization_name d") (simp_all add: signup_tenant_name_def)
  then show ?thesis by (simp add: create_directory_user_def create_account_def parse_keycloak_user_from_signup_data_def)
qed


definition mallory :: signup_request where
  "mallory = \<lparr>sr_otp = None, sr_first_name = None, sr_last_name = None, sr_organization_name = None,
     sr_password = Some ''new'', sr_email = ''ada@x.org''\<rparr>"

definition ada :: kc_user where
  "ada = \<lparr>ku_email = ''ada@x.org'', ku_username = ''ada'', ku_first_name = None, ku_last_name = None,
     ku_password = Some ''old'', ku_email_verified = True, ku_enabled = True, ku_attributes = Map.empty\<rparr>"

definition ada_directory :: directory where
  "ada_directory = \<lparr>dr_users = [(''a'', ada)], dr_orgs = [], dr_members = []\<rparr>"


text \<open>The code of the e-mail step is never stored: for a new address the generated code is mailed, and
  what is cached for its verification is the text None with the address, the same for every code.
\<close>

theorem signup_code_not_stored:
  assumes "count_users email w = (Inr 0, w)"
  shows "\<exists>w'. signup_01_onboarding_with_email count_users url code email w = (Inr VerificationSent, w') \<and>
    aw_cache w' (build_signup_otp_key email) = Some (''None:'' @ email, 1800) \<and>
    aw_sent w' = aw_sent w @ [(email, code, Some (verify_link url email))]"
  using assms by (simp add: signup_01_onboarding_with_email_def send_otp_to_email_def Let_def eff_defs
      py_optional_str_def)

theorem signup_code_not_stored_witness:
  "\<exists>w'. signup_01_onboarding_with_email (\<lambda>_. eff_return 0) ''u'' ''123456'' ''a@b''
      \<lparr>aw_cache = Map.empty, aw_sent = []\<rparr> = (Inr VerificationSent, w') \<and>
    aw_cache w' ''iam_signup_otp:a@b'' = Some (''None:a@b'', 1800)"
  using signup_code_not_stored [of "\<lambda>_. eff_return 0" "''a@b''" "\<lparr>aw_cache = Map.empty, aw_sent = []\<rparr>" "''u''" "''123456''"]
  by (auto simp: eff_return_def build_signup_otp_key_def)

text \<open>The event of a registration never names the tenant in its user, although the account is the root
  account of the tenant just created: the publication only ever sees such events.
\<close>

theorem signup_event_lacks_tenant:
  "create_directory_user api publish url d =
   create_directory_user api (\<lambda>ev. if du_tenant_id (dc_user ev) = None \<and> du_is_root_account (dc_user ev) \<and>
      du_email_verified (dc_user ev) \<and> dc_email ev = sr_email d then publish ev else eff_raise AssertionError) url d"
  by (simp add: create_directory_user_def create_account_def parse_keycloak_registered_user_def create_user_def
      parse_keycloak_user_from_signup_data_def Let_def case_prod_beta eff_bind_assoc)

section \<open>Names of tenants\<close>

lemma rstrip_dash_suffix: "\<not> suffix ''-'' (rstrip_dash s)"
proof
  assume "suffix ''-'' (rstrip_dash s)"
  then have "dropWhile (\<lambda>c. c = CHR ''-'') (rev s) \<noteq> [] \<and> hd (dropWhile (\<lambda>c. c = CHR ''-'') (rev s)) = CHR ''-''"
    by (cases "dropWhile (\<lambda>c. c = CHR ''-'') (rev s)") (auto simp: rstrip_dash_def suffix_def)
  then show False using hd_dropWhile by blast
qed

lemma concat_map_singletons: "\<forall>c \<in> S. f c = [c] \<Longrightarrow> set u \<subseteq> S \<Longrightarrow> concat (map f u) = u"
  by (induction u) auto

lemma length_take_le: "length (take n xs) \<le> n"
  by simp

lemma subdomain_chars_ok: "c \<in> set (subdomain_chars d) \<Longrightarrow> ascii_lower c = c \<and> (ascii_alnum c \<or> c = CHR ''-'')"
  by (auto simp: subdomain_chars_def ascii_alnum_def ascii_lower_def Let_def split: if_splits)

text \<open>A subdomain has at most the given number of characters, all small letters, digits or hyphens,
  and does not end in a hyphen; and names that agree in what fills it get one subdomain.
\<close>

theorem subdomain_bounds:
  "length (generate_saas_subdomain name n) \<le> n \<and>
   list_all (\<lambda>c. ascii_lower c = c \<and> (ascii_alnum c \<or> c = CHR ''-'')) (generate_saas_subdomain name n) \<and>
   \<not> suffix ''-'' (generate_saas_subdomain name n) \<and>
   generate_saas_subdomain name n =
     generate_saas_subdomain (take n (concat (map subdomain_chars name)) @ other) (length (take n (concat (map subdomain_chars name))))"
proof -
  let ?s = "concat (map subdomain_chars name)"
  have in_s: "set (generate_saas_subdomain name n) \<subseteq> set ?s"
  proof
    fix c
    assume "c \<in> set (generate_saas_subdomain name n)"
    then have "c \<in> set (dropWhile (\<lambda>c. c = CHR ''-'') (rev (take n ?s)))"
      unfolding generate_saas_subdomain_def rstrip_dash_def by simp
    then have "c \<in> set (take n ?s)" using set_dropWhileD by fastforce
    then show "c \<in> set ?s" by (rule in_set_takeD)
  qed
  have "length (rstrip_dash s) \<le> length s" for s
    using length_dropWhile_le [of "\<lambda>c. c = CHR ''-''" "rev s"] by (simp add: rstrip_dash_def)
  then have len: "length (generate_saas_subdomain name n) \<le> n"
    unfolding generate_saas_subdomain_def using le_trans [OF _ length_take_le] by blast
  have fixed: "subdomain_chars c = [c]" if "c \<in> set ?s" for c
  proof -
    from that obtain d where "c \<in> set (subdomain_chars d)" by auto
    from subdomain_chars_ok [OF this] show ?thesis by (metis subdomain_chars_def)
  qed
  then have "concat (map subdomain_chars (take n ?s)) = take n ?s"
    by (intro concat_map_singletons [where S = "set ?s"] ballI set_take_subset)
  then have "generate_saas_subdomain (take n ?s @ other) (length (take n ?s)) = generate_saas_subdomain name n"
    by (simp add: generate_saas_subdomain_def min_def)
  moreover have "list_all (\<lambda>c. ascii_lower c = c \<and> (ascii_alnum c \<or> c = CHR ''-'')) (generate_saas_subdomain name n)"
  proof (unfold list_all_iff, rule ballI)
    fix c
    assume "c \<in> set (generate_saas_subdomain name n)"
    with in_s obtain d where "c \<in> set (subdomain_chars d)" by auto
    then show "ascii_lower c = c \<and> (ascii_alnum c \<or> c = CHR ''-'')" by (rule subdomain_chars_ok)
  qed
  moreover have "\<not> suffix ''-'' (generate_saas_subdomain name n)"
    unfolding generate_saas_subdomain_def by (rule rstrip_dash_suffix)
  ultimately show ?thesis using len by simp
qed

end
