(* ===== verification/Service_Registry.thy ===== *)
theory Service_Registry
  imports Taas_Prelude "HOL-Library.AList"
begin

text \<open>
  The registry of services (\<open>libs/foundation/src/foundation/state/service_registry.py\<close>) and the decorator
  that makes a class a singleton (\<open>libs/foundation/src/foundation/utils/singleton.py\<close>). An implementation
  is a factory (anything callable) or an instance; calling a factory is a computation on the registry
  itself and a world, because a factory may ask for other services. The decorator is a transition
  system of threads around its lock.
\<close>

section \<open>The registry\<close>

datatype ('f, 'i) implementation = Factory 'f | Instance 'i

record ('f, 'i) registry =
  reg_services :: "(string \<times> ('f, 'i) implementation \<times> bool) list"
  reg_singletons :: "(string \<times> 'i) list"

type_synonym ('f, 'i, 'w, 'a) reg_op = "(('f, 'i) registry \<times> 'w, 'a) eff"

definition reg_empty :: "('f, 'i) registry" where
  "reg_empty = \<lparr>reg_services = [], reg_singletons = []\<rparr>"

text \<open>\<open>register\<close>; the implementation is returned.\<close>

definition register ::
  "string \<Rightarrow> ('f, 'i) implementation \<Rightarrow> bool \<Rightarrow> ('f, 'i, 'w, ('f, 'i) implementation) reg_op" where
  "register t imp singleton =
     (case (singleton, imp) of
        (False, Instance i) \<Rightarrow> eff_raise (ValueError t)
      | _ \<Rightarrow> eff_bind (eff_modify (\<lambda>(r, w). (r\<lparr>reg_services := AList.update t (imp, singleton) (reg_services r),
            reg_singletons := (let rest = AList.delete t (reg_singletons r) in
              case (singleton, imp) of (True, Instance i) \<Rightarrow> AList.update t i rest | _ \<Rightarrow> rest)\<rparr>, w)))
          (\<lambda>_. eff_return imp))"

text \<open>\<open>get\<close>; \<open>call\<close> runs a factory. Without the service the answer is \<open>None\<close> or an exception.\<close>

definition reg_get ::
  "('f \<Rightarrow> ('f, 'i, 'w, 'i) reg_op) \<Rightarrow> string \<Rightarrow> bool \<Rightarrow> ('f, 'i, 'w, 'i option) reg_op" where
  "reg_get call t raise_if_not_found =
     eff_bind (eff_get (\<lambda>(r, w). (map_of (reg_services r) t, map_of (reg_singletons r) t))) (\<lambda>(service, cached).
     case service of
       None \<Rightarrow> if raise_if_not_found then eff_raise (ValueError t) else eff_return None
     | Some (imp, True) \<Rightarrow> (case cached of
           Some i \<Rightarrow> eff_return (Some i)
         | None \<Rightarrow> (case imp of
             Instance i \<Rightarrow> eff_raise (TypeError t)
           | Factory f \<Rightarrow> eff_bind (call f) (\<lambda>i.
               eff_bind (eff_modify (\<lambda>(r, w). (r\<lparr>reg_singletons := AList.update t i (reg_singletons r)\<rparr>, w))) (\<lambda>_.
               eff_return (Some i)))))
     | Some (imp, False) \<Rightarrow> (case imp of
           Instance i \<Rightarrow> eff_raise (TypeError t)
         | Factory f \<Rightarrow> eff_bind (call f) (\<lambda>i. eff_return (Some i))))"

definition reg_has :: "string \<Rightarrow> ('f, 'i) registry \<Rightarrow> bool" where
  "reg_has t r \<longleftrightarrow> t \<in> fst ` set (reg_services r)"

text \<open>\<open>get_all_running\<close>, in the order of registration\<close>

definition get_all_running :: "('f, 'i) registry \<Rightarrow> (string \<times> 'i) list" where
  "get_all_running r = concat (map (\<lambda>(t, imp, singleton).
     if singleton then (case map_of (reg_singletons r) t of Some i \<Rightarrow> [(t, i)] | None \<Rightarrow> [])
     else (case imp of Instance i \<Rightarrow> [(t, i)] | Factory f \<Rightarrow> [])) (reg_services r))"

text \<open>
  \<open>shutdown_all\<close>: \<open>methods i n\<close> is the method \<open>n\<close> of an instance when it has a callable one; the first of
  three is called, and an \<open>Exception\<close> is logged.
\<close>

definition shutdown_method :: "('i \<Rightarrow> string \<Rightarrow> ('s, unit) eff option) \<Rightarrow> 'i \<Rightarrow> ('s, unit) eff option" where
  "shutdown_method methods i = (case map_option (methods i) (find (\<lambda>n. methods i n \<noteq> None) [''stop'', ''close'', ''aclose'']) of
       Some m \<Rightarrow> m | None \<Rightarrow> None)"

definition shutdown_one :: "('i \<Rightarrow> string \<Rightarrow> ('s, unit) eff option) \<Rightarrow> string \<times> 'i \<Rightarrow> ('s, unit) eff" where
  "shutdown_one methods ti = (case shutdown_method methods (snd ti) of
       None \<Rightarrow> eff_return ()
     | Some m \<Rightarrow> eff_catch m is_exception (\<lambda>_. eff_return ()))"

definition shutdown_all ::
  "('i \<Rightarrow> string \<Rightarrow> ('f, 'i, 'w, unit) reg_op option) \<Rightarrow> ('f, 'i, 'w, unit) reg_op" where
  "shutdown_all methods = eff_bind (eff_get (\<lambda>(r, w). get_all_running r)) (\<lambda>running.
     eff_for running (shutdown_one methods))"

section \<open>What the registry keeps\<close>

text \<open>
  Every type is registered once; what is cached was registered as a singleton; an instance was
  registered as a singleton and is the cached one.
\<close>

definition reg_ok :: "('f, 'i) registry \<Rightarrow> bool" where
  "reg_ok r \<longleftrightarrow> distinct (map fst (reg_services r)) \<and> distinct (map fst (reg_singletons r)) \<and>
     (\<forall>t i. map_of (reg_singletons r) t = Some i \<longrightarrow> (\<exists>imp. map_of (reg_services r) t = Some (imp, True))) \<and>
     (\<forall>t i singleton. map_of (reg_services r) t = Some (Instance i, singleton) \<longrightarrow>
        singleton \<and> map_of (reg_singletons r) t = Some i)"

lemma reg_ok_empty: "reg_ok reg_empty"
  by (simp add: reg_ok_def reg_empty_def)

lemma reg_okD:
  assumes "reg_ok r"
  shows "distinct (map fst (reg_services r))" "distinct (map fst (reg_singletons r))"
    "map_of (reg_singletons r) t = Some i \<Longrightarrow> \<exists>imp. map_of (reg_services r) t = Some (imp, True)"
    "map_of (reg_services r) t = Some (Instance j, s) \<Longrightarrow> s \<and> map_of (reg_singletons r) t = Some j"
  using assms unfolding reg_ok_def by blast+

lemma register_state:
  assumes "singleton \<or> (\<exists>f. imp = Factory f)"
  shows "\<exists>r'. register t imp singleton (r, w) = (Inr imp, (r', w)) \<and>
    map_of (reg_services r') = (map_of (reg_services r))(t \<mapsto> (imp, singleton)) \<and>
    map_of (reg_singletons r') = (map_of (reg_singletons r))(t := (case imp of Instance i \<Rightarrow> Some i | Factory f \<Rightarrow> None)) \<and>
    (distinct (map fst (reg_services r)) \<longrightarrow> distinct (map fst (reg_services r'))) \<and>
    (distinct (map fst (reg_singletons r)) \<longrightarrow> distinct (map fst (reg_singletons r')))"
  using assms by (cases imp; cases singleton)
    (auto simp: register_def eff_defs update_conv' delete_conv' distinct_update distinct_delete Let_def fun_eq_iff)

lemma register_keeps: "keeps (\<lambda>(r, w). reg_ok r) (register t imp singleton)"
proof (rule keepsI)
  fix s :: "('a, 'b) registry \<times> 'c"
  assume "case s of (r, w) \<Rightarrow> reg_ok r"
  then obtain r w where s: "s = (r, w)" and ok: "reg_ok r" by (cases s) simp
  have "case snd (register t imp singleton (r, w)) of (r', w') \<Rightarrow> reg_ok r'"
  proof (cases "singleton \<or> (\<exists>f. imp = Factory f)")
    case True
    from register_state [OF this, of t r w] obtain r' where r':
      "register t imp singleton (r, w) = (Inr imp, (r', w))"
      "map_of (reg_services r') = (map_of (reg_services r))(t \<mapsto> (imp, singleton))"
      "map_of (reg_singletons r') = (map_of (reg_singletons r))(t := (case imp of Instance i \<Rightarrow> Some i | Factory f \<Rightarrow> None))"
      "distinct (map fst (reg_services r'))" "distinct (map fst (reg_singletons r'))"
      using reg_okD(1,2) [OF ok] by blast
    with ok True have "reg_ok r'" by (cases imp) (auto simp: reg_ok_def simp del: map_of_eq_Some_iff, blast+)
    then show ?thesis using r'(1) by simp
  next
    case False
    then have "snd (register t imp singleton (r, w)) = (r, w)"
      by (cases imp) (simp_all add: register_def eff_raise_def)
    then show ?thesis using ok by simp
  qed
  then show "case snd (register t imp singleton s) of (r, w) \<Rightarrow> reg_ok r" by (simp only: s)
qed

lemma map_of_cached: "map_of (concat (map (\<lambda>x. case m (fst x) of Some i \<Rightarrow> [(fst x, i)] | None \<Rightarrow> []) xs)) t =
    (if t \<in> fst ` set xs then m t else None)"
  by (induction xs) (auto simp: map_add_def split: option.splits)

lemma map_fst_cached: "map fst (concat (map (\<lambda>x. case m (fst x) of Some i \<Rightarrow> [(fst x, i)] | None \<Rightarrow> []) xs)) =
    filter (\<lambda>t. m t \<noteq> None) (map fst xs)"
  by (induction xs) (auto split: option.splits)

text \<open>The transient branch of \<open>get_all_running\<close> adds nothing: a transient service is a factory.\<close>

lemma running_cached:
  assumes "reg_ok r"
  shows "map_of (get_all_running r) = map_of (reg_singletons r)" "distinct (map fst (get_all_running r))"
proof -
  let ?g = "\<lambda>(t, imp, singleton). if singleton then (case map_of (reg_singletons r) t of Some i \<Rightarrow> [(t, i)] | None \<Rightarrow> [])
     else (case imp of Instance i \<Rightarrow> [(t, i)] | Factory f \<Rightarrow> [])"
  have g: "?g x = (case map_of (reg_singletons r) (fst x) of Some i \<Rightarrow> [(fst x, i)] | None \<Rightarrow> [])"
    if x: "x \<in> set (reg_services r)" for x
  proof -
    obtain t imp s where e: "x = (t, imp, s)" by (metis prod_cases3)
    then have m: "map_of (reg_services r) t = Some (imp, s)" using x reg_okD(1) [OF assms] by simp
    show ?thesis unfolding e fst_conv
    proof (cases s)
      case False
      then obtain f where "imp = Factory f" using m reg_okD(4) [OF assms, of t _ s] by (cases imp) auto
      moreover have "map_of (reg_singletons r) t = None"
        using reg_okD(3) [OF assms, of t] m False by (cases "map_of (reg_singletons r) t") auto
      ultimately show "?g (t, imp, s) = (case map_of (reg_singletons r) t of Some i \<Rightarrow> [(t, i)] | None \<Rightarrow> [])"
        using False by simp
    qed simp
  qed
  have run: "get_all_running r = concat (map (\<lambda>x. case map_of (reg_singletons r) (fst x) of Some i \<Rightarrow> [(fst x, i)] | None \<Rightarrow> [])
      (reg_services r))"
    unfolding get_all_running_def by (rule arg_cong [where f = concat], rule map_cong [OF refl g])
  have "t \<notin> fst ` set (reg_services r) \<Longrightarrow> map_of (reg_singletons r) t = None" for t
    using reg_okD(3) [OF assms, of t] by (cases "map_of (reg_singletons r) t") (auto simp: map_of_eq_None_iff [symmetric])
  then show "map_of (get_all_running r) = map_of (reg_singletons r)"
    unfolding run by (auto simp: fun_eq_iff map_of_cached)
  show "distinct (map fst (get_all_running r))" unfolding run map_fst_cached by (rule distinct_filter [OF reg_okD(1) [OF assms]])
qed

section \<open>A service is made once, and stopped once\<close>

text \<open>A factory that leaves the registrations alone; it may get other services.\<close>

definition leaves_services :: "(('f, 'i) registry \<times> 'w, 'a) eff \<Rightarrow> bool" where
  "leaves_services m \<longleftrightarrow> (\<forall>s. reg_services (fst (snd (m s))) = reg_services (fst s))"

lemma reg_get_leaves_services:
  assumes "\<And>f. leaves_services (call f)"
  shows "leaves_services (reg_get call t b)"
  unfolding leaves_services_def
proof
  fix s
  have call: "call f (r, w) = (x, (r', w')) \<Longrightarrow> reg_services r' = reg_services r" for f x r w r' w'
    using assms [of f] unfolding leaves_services_def by (metis snd_conv fst_conv)
  show "reg_services (fst (snd (reg_get call t b s))) = reg_services (fst s)"
    by (cases s) (auto simp: reg_get_def eff_defs split: option.splits implementation.splits prod.splits sum.splits bool.splits
        dest!: call)
qed

lemma reg_get_keeps:
  assumes call: "\<And>f. keeps (\<lambda>(r, w). reg_ok r) (call f)" and "\<And>f. leaves_services (call f)"
  shows "keeps (\<lambda>(r, w). reg_ok r) (reg_get call t b)"
proof (rule keepsI)
  fix s :: "('a, 'b) registry \<times> 'c"
  assume ok: "case s of (r, w) \<Rightarrow> reg_ok r"
  obtain r w where s: "s = (r, w)" by fastforce
  have ok': "case s' of (r, w) \<Rightarrow> reg_ok r" and same: "reg_services (fst s') = reg_services r" if "call f s = (x, s')" for f x s'
    using keepsD [OF call ok, of f] that assms(2) [of f] s unfolding leaves_services_def by (metis snd_conv fst_conv)+
  have store: "reg_ok (r'\<lparr>reg_singletons := AList.update t i (reg_singletons r')\<rparr>)"
    if "reg_ok r'" and "map_of (reg_services r') t = Some (Factory f, True)" for r' f i
    using that by (auto simp: reg_ok_def update_conv' distinct_update simp del: map_of_eq_Some_iff, blast)
  show "case snd (reg_get call t b s) of (r, w) \<Rightarrow> reg_ok r"
  proof (cases "map_of (reg_services r) t")
    case None
    then show ?thesis using ok s by (auto simp: reg_get_def eff_defs)
  next
    case (Some p)
    obtain imp single where p: "p = (imp, single)" by fastforce
    show ?thesis
    proof (cases imp)
      case (Instance i)
      then show ?thesis using Some p ok s by (cases single) (auto simp: reg_get_def eff_defs split: option.split)
    next
      case (Factory f)
      obtain x r' w' where c: "call f s = (x, (r', w'))" by (metis prod.collapse)
      have "map_of (reg_services r') t = Some (Factory f, single)" using same [OF c] Some p Factory by simp
      then show ?thesis using Some p Factory ok ok' [OF c] s c store [of r' f]
        by (cases single; cases x) (auto simp: reg_get_def eff_defs split: option.split)
    qed
  qed
qed

text \<open>
  C99: a singleton is made at most once. When \<open>get\<close> answered with an instance of a service that is
  registered as a singleton, every later \<open>get\<close> on that registry answers with the same instance and
  changes nothing, whatever its factory would do now, until the service is registered again.
\<close>

theorem registry_single_instance:
  assumes "\<And>f. leaves_services (call f)"
    and "map_of (reg_services (fst s)) t = Some (imp, True)"
    and "reg_get call t b s = (Inr (Some i), s')"
  shows "reg_get other t b' s' = (Inr (Some i), s')"
proof -
  have services: "reg_services (fst s') = reg_services (fst s)"
  proof -
    have "leaves_services (reg_get call t b)" by (rule reg_get_leaves_services) (rule assms(1))
    then have "reg_services (fst (snd (reg_get call t b s))) = reg_services (fst s)" unfolding leaves_services_def by (rule spec)
    then show ?thesis by (simp only: assms(3) snd_conv)
  qed
  have "map_of (reg_singletons (fst s')) t = Some i"
    using assms(2,3) by (cases s; cases imp)
      (auto simp: reg_get_def eff_defs update_conv' split: option.splits prod.splits sum.splits)
  with services assms(2) show ?thesis by (cases s') (simp add: reg_get_def eff_defs)
qed

lemma eff_for_all_ok:
  "(\<And>x s. x \<in> set xs \<Longrightarrow> fst (f x s) = Inr ()) \<Longrightarrow> eff_for xs f s = (Inr (), fold (\<lambda>x s. snd (f x s)) xs s)"
proof (induction xs arbitrary: s)
  case (Cons x xs)
  obtain s' where "f x s = (Inr (), s')" using Cons.prems [of x s] by (cases "f x s") auto
  then show ?case using Cons by simp
qed simp

text \<open>
  Every running service is stopped, in the order of registration and whatever the methods of the
  others raise; each by one method.
\<close>

lemma shutdown_reaches_all:
  assumes "\<And>ti m s e s'. ti \<in> set (get_all_running r) \<Longrightarrow> shutdown_method methods (snd ti) = Some m \<Longrightarrow>
    m s = (Inl e, s') \<Longrightarrow> is_exception e"
  shows "shutdown_all methods (r, w) =
    (Inr (), fold (\<lambda>ti s. snd (shutdown_one methods ti s)) (get_all_running r) (r, w))"
proof -
  have "fst (shutdown_one methods ti s) = Inr ()" if "ti \<in> set (get_all_running r)" for ti s
    using assms [OF that] by (auto simp: shutdown_one_def eff_defs split: option.splits prod.splits sum.splits)
  then have "eff_for (get_all_running r) (shutdown_one methods) (r, w) =
      (Inr (), fold (\<lambda>ti s. snd (shutdown_one methods ti s)) (get_all_running r) (r, w))"
    by (rule eff_for_all_ok)
  then show ?thesis by (simp add: shutdown_all_def eff_defs)
qed

definition demo_reg_call :: "nat \<Rightarrow> ((nat, nat) registry \<times> nat, nat) eff" where
  "demo_reg_call f = (\<lambda>(r, w). (Inr (10 * f + w), (r, Suc w)))"

lemma registry_single_instance_witness:
  "\<exists>s. reg_get demo_reg_call ''db'' True (\<lparr>reg_services = [(''db'', Factory 1, True)], reg_singletons = []\<rparr>, 5) = (Inr (Some 15), s) \<and>
     reg_get demo_reg_call ''db'' False s = (Inr (Some 15), s)"
proof -
  let ?s = "(\<lparr>reg_services = [(''db'', Factory 1, True)], reg_singletons = []\<rparr>, 5)"
  have l: "leaves_services (demo_reg_call f)" for f by (auto simp: leaves_services_def demo_reg_call_def)
  have m: "map_of (reg_services (fst ?s)) ''db'' = Some (Factory 1, True)" by simp
  obtain s' where g: "reg_get demo_reg_call ''db'' True ?s = (Inr (Some 15), s')"
    by (simp add: reg_get_def eff_defs demo_reg_call_def)
  then show ?thesis using registry_single_instance [OF l m g] by blast
qed

section \<open>The decorator of singletons\<close>

text \<open>
  Threads that call a decorated class. A thread is before its call, waits for the lock after it saw no
  instance, holds the lock in \<open>__new__\<close>, has the instance, holds the lock in \<open>__init__\<close>, or is done or
  failed. The shared state is the instance, the flag that it is initialised, the holder of the lock,
  and the number of instances made and of initialisations that succeeded.
\<close>

datatype thread_pc = Before | Wants_lock | In_new | Leaving_new | Got nat | In_init nat | Done nat | Failed

record single_state =
  ss_instance :: "nat option"
  ss_initialized :: bool
  ss_lock :: "nat option"
  ss_made :: nat
  ss_inits :: nat
  ss_pc :: "nat \<Rightarrow> thread_pc"

definition single_init :: single_state where
  "single_init = \<lparr>ss_instance = None, ss_initialized = False, ss_lock = None, ss_made = 0, ss_inits = 0, ss_pc = (\<lambda>_. Before)\<rparr>"

definition set_pc :: "nat \<Rightarrow> thread_pc \<Rightarrow> single_state \<Rightarrow> single_state" where
  "set_pc t p s = s\<lparr>ss_pc := (ss_pc s)(t := p)\<rparr>"

text \<open>The steps of thread \<open>t\<close>; an instance is named by the number of instances made before it.\<close>

inductive single_step :: "single_state \<Rightarrow> nat \<Rightarrow> single_state \<Rightarrow> bool" where
  sees: "ss_pc s t = Before \<Longrightarrow> ss_instance s = Some i \<Longrightarrow> single_step s t (set_pc t (Got i) s)"
| misses: "ss_pc s t = Before \<Longrightarrow> ss_instance s = None \<Longrightarrow> single_step s t (set_pc t Wants_lock s)"
| locks: "ss_pc s t = Wants_lock \<Longrightarrow> ss_lock s = None \<Longrightarrow> single_step s t (set_pc t In_new (s\<lparr>ss_lock := Some t\<rparr>))"
| makes: "ss_pc s t = In_new \<Longrightarrow> ss_instance s = None \<Longrightarrow>
    single_step s t (set_pc t Leaving_new (s\<lparr>ss_instance := Some (ss_made s), ss_made := Suc (ss_made s)\<rparr>))"
| make_fails: "ss_pc s t = In_new \<Longrightarrow> ss_instance s = None \<Longrightarrow> single_step s t (set_pc t Failed (s\<lparr>ss_lock := None\<rparr>))"
| finds: "ss_pc s t = In_new \<Longrightarrow> ss_instance s \<noteq> None \<Longrightarrow> single_step s t (set_pc t Leaving_new s)"
| unlocks: "ss_pc s t = Leaving_new \<Longrightarrow> ss_instance s = Some i \<Longrightarrow>
    single_step s t (set_pc t (Got i) (s\<lparr>ss_lock := None\<rparr>))"
| locks_init: "ss_pc s t = Got i \<Longrightarrow> ss_lock s = None \<Longrightarrow> single_step s t (set_pc t (In_init i) (s\<lparr>ss_lock := Some t\<rparr>))"
| skips: "ss_pc s t = In_init i \<Longrightarrow> ss_initialized s \<Longrightarrow> single_step s t (set_pc t (Done i) (s\<lparr>ss_lock := None\<rparr>))"
| initialises: "ss_pc s t = In_init i \<Longrightarrow> \<not> ss_initialized s \<Longrightarrow>
    single_step s t (set_pc t (Done i) (s\<lparr>ss_initialized := True, ss_inits := Suc (ss_inits s), ss_lock := None\<rparr>))"
| init_fails: "ss_pc s t = In_init i \<Longrightarrow> \<not> ss_initialized s \<Longrightarrow> single_step s t (set_pc t Failed (s\<lparr>ss_lock := None\<rparr>))"

inductive single_reachable :: "single_state \<Rightarrow> bool" where
  start: "single_reachable single_init"
| step: "single_reachable s \<Longrightarrow> single_step s t s' \<Longrightarrow> single_reachable s'"

inductive_cases single_stepE: "single_step s t s'"

definition holds_lock :: "thread_pc \<Rightarrow> bool" where
  "holds_lock p \<longleftrightarrow> (case p of In_new \<Rightarrow> True | Leaving_new \<Rightarrow> True | In_init _ \<Rightarrow> True | _ \<Rightarrow> False)"

definition instance_of :: "thread_pc \<Rightarrow> nat option" where
  "instance_of p = (case p of Got i \<Rightarrow> Some i | In_init i \<Rightarrow> Some i | Done i \<Rightarrow> Some i | _ \<Rightarrow> None)"

definition single_inv :: "single_state \<Rightarrow> bool" where
  "single_inv s \<longleftrightarrow> (\<forall>t. holds_lock (ss_pc s t) \<longleftrightarrow> ss_lock s = Some t) \<and>
     (ss_instance s = None \<and> ss_made s = 0 \<or> ss_instance s = Some 0 \<and> ss_made s = 1) \<and>
     (\<forall>t i. instance_of (ss_pc s t) = Some i \<longrightarrow> ss_instance s = Some i) \<and>
     (\<forall>t. ss_pc s t = Leaving_new \<longrightarrow> ss_instance s \<noteq> None) \<and>
     (ss_inits s = (if ss_initialized s then 1 else 0)) \<and>
     (\<forall>t i. ss_pc s t = Done i \<longrightarrow> ss_initialized s)"

lemma holds_lock_simps [simp]:
  "holds_lock In_new" "holds_lock Leaving_new" "holds_lock (In_init i)" "\<not> holds_lock Before" "\<not> holds_lock Wants_lock"
  "\<not> holds_lock (Got i)" "\<not> holds_lock (Done i)" "\<not> holds_lock Failed"
  by (simp_all add: holds_lock_def)

lemma instance_of_simps [simp]:
  "instance_of (Got i) = Some i" "instance_of (In_init i) = Some i" "instance_of (Done i) = Some i"
  "instance_of Before = None" "instance_of Wants_lock = None" "instance_of In_new = None" "instance_of Leaving_new = None"
  "instance_of Failed = None"
  by (simp_all add: instance_of_def)

lemma single_inv_step:
  assumes inv: "single_inv s" and step: "single_step s t s'"
  shows "single_inv s'"
proof -
  have "holds_lock (ss_pc s t) \<longleftrightarrow> ss_lock s = Some t" "\<And>i. instance_of (ss_pc s t) = Some i \<Longrightarrow> ss_instance s = Some i"
    "\<And>u. holds_lock (ss_pc s u) \<longleftrightarrow> ss_lock s = Some u"
    "\<And>u i. instance_of (ss_pc s u) = Some i \<Longrightarrow> ss_instance s = Some i"
    using inv by (auto simp: single_inv_def)
  with step inv show ?thesis
    by cases (auto simp: single_inv_def set_pc_def split: if_splits)
qed

lemma single_reachable_inv: "single_reachable s \<Longrightarrow> single_inv s"
proof (induction rule: single_reachable.induct)
  case start
  then show ?case by (simp add: single_inv_def single_init_def holds_lock_def instance_of_def)
qed (rule single_inv_step)

text \<open>
  C99: however the calls of many threads are interleaved, a decorated class has at most one instance,
  which is initialised at most once successfully; all threads that get an instance get the same one, and
  a call that returns hands it out initialised. An initialisation that fails is tried again by the next
  call.
\<close>

theorem singleton_once:
  assumes "single_reachable s"
  shows "ss_made s \<le> 1 \<and> ss_inits s \<le> 1 \<and>
    (\<forall>t i u j. ss_pc s t = Done i \<and> instance_of (ss_pc s u) = Some j \<longrightarrow> i = j) \<and>
    (\<forall>t i. ss_pc s t = Done i \<longrightarrow> ss_initialized s)"
proof -
  note inv = single_reachable_inv [OF assms, unfolded single_inv_def]
  have "i = j" if "ss_pc s t = Done i" and "instance_of (ss_pc s u) = Some j" for t i u j
  proof -
    have "instance_of (ss_pc s t) = Some i" using that(1) by simp
    with that(2) inv show ?thesis by (metis option.inject)
  qed
  moreover have "ss_made s \<le> 1" "ss_inits s \<le> 1" "\<And>t i. ss_pc s t = Done i \<Longrightarrow> ss_initialized s" using inv by auto
  ultimately show ?thesis by blast
qed

definition demo_single :: single_state where
  "demo_single = set_pc 0 Leaving_new (single_init\<lparr>ss_lock := Some 0, ss_instance := Some 0, ss_made := 1\<rparr>)"

text \<open>The first call of a thread, up to the lock it holds after it made the instance.\<close>

lemma demo_single_reachable: "single_reachable demo_single"
proof -
  have "single_reachable (set_pc 0 Wants_lock single_init)"
    by (rule single_reachable.step [OF single_reachable.start single_step.misses]) (simp_all add: single_init_def)
  then have "single_reachable (set_pc 0 In_new ((set_pc 0 Wants_lock single_init)\<lparr>ss_lock := Some 0\<rparr>))" (is "single_reachable ?s")
    by (rule single_reachable.step [OF _ single_step.locks]) (simp_all add: single_init_def set_pc_def)
  then have "single_reachable (set_pc 0 Leaving_new (?s\<lparr>ss_instance := Some (ss_made ?s), ss_made := Suc (ss_made ?s)\<rparr>))"
    by (rule single_reachable.step [OF _ single_step.makes]) (simp_all add: single_init_def set_pc_def)
  then show ?thesis by (simp add: demo_single_def set_pc_def single_init_def)
qed

lemma singleton_once_witness: "ss_made demo_single = 1 \<and> ss_made demo_single \<le> 1 \<and> ss_inits demo_single \<le> 1"
  using singleton_once [OF demo_single_reachable] by (simp add: demo_single_def set_pc_def)

end
