(* ===== verification/Sql_Table.thy ===== *)
theory Sql_Table
  imports Taas_Prelude
begin

text \<open>
  The relational statements the repositories under \<open>libs/resiliant\<close> issue through
  SQLAlchemy, as operations on a table that is a list of rows, and the interface every
  \<open>FOR UPDATE SKIP LOCKED\<close> work queue of the system offers (\<open>claim_queue\<close>): the outbox,
  the dead letter queue and the scheduler each provide it. The database itself is not
  modelled: which of the rows that tie on the key of an \<open>ORDER BY\<close> comes first is a
  parameter of type \<open>sql_order\<close>, all of whose values sort, as SQL prescribes.
\<close>

named_theorems table_simps \<open>rows of updated tables\<close>

section \<open>Statements\<close>

definition sql_where :: "('r \<Rightarrow> bool) \<Rightarrow> 'r list \<Rightarrow> 'r list" where
  "sql_where P t = filter P t"

definition sql_update :: "('r \<Rightarrow> bool) \<Rightarrow> ('r \<Rightarrow> 'r) \<Rightarrow> 'r list \<Rightarrow> 'r list" where
  "sql_update P f t = map (\<lambda>r. if P r then f r else r) t"

definition sql_count :: "('r \<Rightarrow> bool) \<Rightarrow> 'r list \<Rightarrow> int" where
  "sql_count P t = int (length (filter P t))"

text \<open>\<open>LIMIT n\<close>; PostgreSQL rejects a negative count.\<close>

definition sql_limit :: "int \<Rightarrow> 'r list \<Rightarrow> py_exn + 'r list" where
  "sql_limit n rs = (if n < 0 then Inl (DatabaseError ''LIMIT must not be negative'')
                     else Inr (take (nat n) rs))"

lemma set_sql_where [simp]: "set (sql_where P t) = {r \<in> set t. P r}"
  by (auto simp: sql_where_def)

lemma set_sql_update [table_simps]:
  "r \<in> set (sql_update P f t) \<longleftrightarrow> (\<exists>r0 \<in> set t. r = (if P r0 then f r0 else r0))"
  by (auto simp: sql_update_def)

lemma in_sql_update: "r \<in> set t \<Longrightarrow> P r \<Longrightarrow> f r \<in> set (sql_update P f t)"
  by (auto simp: sql_update_def)

lemma in_sql_update_other: "r \<in> set t \<Longrightarrow> \<not> P r \<Longrightarrow> r \<in> set (sql_update P f t)"
  unfolding set_sql_update by (intro bexI [of _ r]) simp_all

lemma sql_update_map_key [table_simps]:
  "(\<And>r. k (f r) = k r) \<Longrightarrow> map k (sql_update P f t) = map k t"
  by (simp add: sql_update_def)

lemma length_sql_update [simp]: "length (sql_update P f t) = length t"
  by (simp add: sql_update_def)

lemma sql_update_unmatched: "(\<And>r. r \<in> set t \<Longrightarrow> \<not> P r) \<Longrightarrow> sql_update P f t = t"
  by (simp add: sql_update_def map_id_on)

lemma sql_count_nonneg [simp]: "0 \<le> sql_count P t"
  by (simp add: sql_count_def)

lemma sql_limit_Inr:
  "sql_limit n rs = Inr xs \<longleftrightarrow> 0 \<le> n \<and> xs = take (nat n) rs"
  by (auto simp: sql_limit_def)

subsection \<open>ORDER BY\<close>

typedef 'r sql_order =
  "{f :: ('r \<Rightarrow> int) \<Rightarrow> 'r list \<Rightarrow> 'r list. \<forall>k xs. mset (f k xs) = mset xs \<and> sorted (map k (f k xs))}"
  morphisms order_by Abs_sql_order
proof
  show "sort_key \<in> {f. \<forall>k xs. mset (f k xs) = mset xs \<and> sorted (map k (f k xs))}"
    by simp
qed

setup_lifting type_definition_sql_order

text \<open>The order a sequential scan with a stable sort gives; used by the witnesses.\<close>

lift_definition stable_order :: "'r sql_order" is sort_key
  by simp

lemma order_by_stable [simp]: "order_by stable_order = sort_key"
  by (rule stable_order.rep_eq)

lemma mset_order_by [simp]: "mset (order_by ob k xs) = mset xs"
  using order_by [of ob] by simp

lemma set_order_by [simp]: "set (order_by ob k xs) = set xs"
  using mset_order_by [of ob k xs] by (metis set_mset_mset)

lemma length_order_by [simp]: "length (order_by ob k xs) = length xs"
  using mset_order_by [of ob k xs] by (metis size_mset)

lemma sorted_order_by [simp]: "sorted (map k (order_by ob k xs))"
  using order_by [of ob] by simp

lemma sorted_take_order_by [simp]: "sorted (map k (take n (order_by ob k xs)))"
  by (metis sorted_order_by sorted_wrt_take take_map)

text \<open>
  \<open>ORDER BY k LIMIT n\<close> returns the smallest keys: whatever is left out is at least as
  large as whatever is returned.
\<close>

lemma order_limit_smallest:
  assumes "x \<in> set (take n (order_by ob k xs))"
    and "y \<in># mset xs - mset (take n (order_by ob k xs))"
  shows "k x \<le> k y"
proof -
  let ?o = "order_by ob k xs"
  have "mset xs = mset (take n ?o) + mset (drop n ?o)"
    by (metis append_take_drop_id mset_append mset_order_by)
  with assms(2) have y: "y \<in> set (drop n ?o)" by simp
  have "sorted (map k (take n ?o) @ map k (drop n ?o))"
    by (metis append_take_drop_id map_append sorted_order_by)
  with assms(1) y show ?thesis by (auto simp: sorted_append)
qed

section \<open>Work queues claimed with SKIP LOCKED\<close>

text \<open>
  Several pollers claim rows of one table. A claim is two statements in one transaction:
  the \<open>SELECT ... FOR UPDATE\<close>, which locks the returned rows, and the \<open>UPDATE\<close> that marks
  them, after which the transaction commits and the locks go. Other transactions run in
  between. With \<open>skip\<close> (the \<open>use_skip_locked\<close> setting) a \<open>SELECT\<close> passes over rows another
  worker holds; without it the query is a plain \<open>SELECT\<close>, which sees them.
\<close>

record 'r claim_state =
  rows :: "'r list"
  selecting :: "nat \<Rightarrow> 'r list" \<comment> \<open>the batch a worker has selected and not yet marked\<close>
  owned :: "nat \<Rightarrow> string set" \<comment> \<open>the ids a worker has claimed and is working on\<close>

definition ids_of :: "('r \<Rightarrow> string) \<Rightarrow> 'r list \<Rightarrow> string set" where
  "ids_of rid rs = rid ` set rs"

definition locked_ids :: "('r \<Rightarrow> string) \<Rightarrow> 'r claim_state \<Rightarrow> string set" where
  "locked_ids rid s = (\<Union>w. ids_of rid (selecting s w))"

text \<open>
  What any other statement may do to the table while claims are in flight: it may insert
  rows under new ids and change rows, but it does not turn a closed row that some worker is
  working on (\<open>own\<close>) into an open one.
\<close>

definition no_reopen ::
  "('r \<Rightarrow> string) \<Rightarrow> ('r \<Rightarrow> bool) \<Rightarrow> string set \<Rightarrow> 'r list \<Rightarrow> 'r list \<Rightarrow> bool" where
  "no_reopen rid opn own t t' \<longleftrightarrow> ids_of rid t \<subseteq> ids_of rid t' \<and>
     ids_of rid (filter opn t') \<inter> own \<subseteq> ids_of rid (filter opn t)"

definition owned_ids :: "'r claim_state \<Rightarrow> string set" where
  "owned_ids s = (\<Union>w. owned s w)"

inductive claim_step ::
  "('r \<Rightarrow> string) \<Rightarrow> ('r \<Rightarrow> bool) \<Rightarrow> ('q \<Rightarrow> string set \<Rightarrow> 'r list \<Rightarrow> 'r list) \<Rightarrow>
   ('q \<Rightarrow> 'r list \<Rightarrow> 'r list \<Rightarrow> 'r list) \<Rightarrow> bool \<Rightarrow> 'r claim_state \<Rightarrow> 'r claim_state \<Rightarrow> bool"
  for rid opn sel mk skip where
  select_batch: "selecting s w = [] \<Longrightarrow>
     batch = sel q (if skip then locked_ids rid s else {}) (rows s) \<Longrightarrow>
     claim_step rid opn sel mk skip s (s\<lparr>selecting := (selecting s)(w := batch)\<rparr>)"
| mark_batch: "selecting s w = batch \<Longrightarrow> batch \<noteq> [] \<Longrightarrow>
     claim_step rid opn sel mk skip s
       (s\<lparr>rows := mk q batch (rows s), selecting := (selecting s)(w := []),
          owned := (owned s)(w := owned s w \<union> ids_of rid batch)\<rparr>)"
| finish_row: "claim_step rid opn sel mk skip s (s\<lparr>owned := (owned s)(w := owned s w - {i})\<rparr>)"
| other_statement: "no_reopen rid opn (owned_ids s) (rows s) t' \<Longrightarrow>
     claim_step rid opn sel mk skip s (s\<lparr>rows := t'\<rparr>)"

inductive claim_reach ::
  "('r \<Rightarrow> string) \<Rightarrow> ('r \<Rightarrow> bool) \<Rightarrow> ('q \<Rightarrow> string set \<Rightarrow> 'r list \<Rightarrow> 'r list) \<Rightarrow>
   ('q \<Rightarrow> 'r list \<Rightarrow> 'r list \<Rightarrow> 'r list) \<Rightarrow> bool \<Rightarrow> 'r list \<Rightarrow> 'r claim_state \<Rightarrow> bool"
  for rid opn sel mk skip t0 where
  claim_start: "claim_reach rid opn sel mk skip t0
     \<lparr>rows = t0, selecting = (\<lambda>_. []), owned = (\<lambda>_. {})\<rparr>"
| claim_next: "claim_reach rid opn sel mk skip t0 s \<Longrightarrow> claim_step rid opn sel mk skip s s' \<Longrightarrow>
     claim_reach rid opn sel mk skip t0 s'"

lemma claim_reach_select:
  assumes "claim_reach rid opn sel mk skip t0 s" and "selecting s w = []"
    and "sel q (if skip then locked_ids rid s else {}) (rows s) = b"
    and "s\<lparr>selecting := (selecting s)(w := b)\<rparr> = s'"
  shows "claim_reach rid opn sel mk skip t0 s'"
proof -
  have "claim_step rid opn sel mk skip s (s\<lparr>selecting := (selecting s)(w := b)\<rparr>)"
    by (rule claim_step.select_batch [where q = q]) (use assms(2,3) in simp_all)
  then show ?thesis using claim_next [OF assms(1)] assms(4) by blast
qed

lemma claim_reach_mark:
  assumes "claim_reach rid opn sel mk skip t0 s" and "selecting s w = b" and "b \<noteq> []"
    and "s\<lparr>rows := mk q b (rows s), selecting := (selecting s)(w := []),
          owned := (owned s)(w := owned s w \<union> ids_of rid b)\<rparr> = s'"
  shows "claim_reach rid opn sel mk skip t0 s'"
  using claim_next [OF assms(1) mark_batch [OF assms(2,3)]] assms(4) by blast

lemma ids_of_Nil [simp]: "ids_of rid [] = {}"
  by (simp add: ids_of_def)

lemma no_reopen_refl [simp]: "no_reopen rid opn own t t"
  by (auto simp: no_reopen_def ids_of_def)

lemma no_reopen_append: "rid r \<notin> own \<Longrightarrow> no_reopen rid opn own t (t @ [r])"
  by (auto simp: no_reopen_def ids_of_def)

lemma ids_of_sql_update [simp]:
  "(\<And>r. rid (f r) = rid r) \<Longrightarrow> ids_of rid (sql_update P f t) = ids_of rid t"
  unfolding ids_of_def by (metis sql_update_map_key list.set_map)

lemma no_reopen_update:
  assumes "\<And>r. rid (f r) = rid r" and "\<And>r. P r \<Longrightarrow> opn (f r) \<Longrightarrow> rid r \<in> own \<Longrightarrow> opn r"
  shows "no_reopen rid opn own t (sql_update P f t)"
proof -
  have "ids_of rid (filter opn (sql_update P f t)) \<inter> own \<subseteq> ids_of rid (filter opn t)"
  proof
    fix i
    assume "i \<in> ids_of rid (filter opn (sql_update P f t)) \<inter> own"
    then obtain r where r: "r \<in> set t" "i = rid r" "opn (if P r then f r else r)" "rid r \<in> own"
      using assms(1) by (auto simp: ids_of_def set_sql_update split: if_splits)
    then have "opn r" using assms(2) by (auto split: if_splits)
    with r show "i \<in> ids_of rid (filter opn t)" by (auto simp: ids_of_def)
  qed
  then show ?thesis using assms(1) by (auto simp: no_reopen_def)
qed

locale claim_queue =
  fixes rid :: "'r \<Rightarrow> string"
    and opn :: "'r \<Rightarrow> bool"
    and sel :: "'q \<Rightarrow> string set \<Rightarrow> 'r list \<Rightarrow> 'r list"
    and mk :: "'q \<Rightarrow> 'r list \<Rightarrow> 'r list \<Rightarrow> 'r list"
  assumes sel_open: "r \<in> set (sel q L t) \<Longrightarrow> r \<in> set t \<and> opn r \<and> rid r \<notin> L"
    and mk_ids: "map rid (mk q b t) = map rid t"
    and mk_closes: "r \<in> set (mk q b t) \<Longrightarrow> rid r \<in> ids_of rid b \<Longrightarrow> \<not> opn r"
    and mk_frame: "r \<in> set (mk q b t) \<Longrightarrow> rid r \<notin> ids_of rid b \<Longrightarrow> r \<in> set t"
begin

lemma ids_mk [simp]: "ids_of rid (mk q b t) = ids_of rid t"
  using mk_ids [of q b t] unfolding ids_of_def by (metis list.set_map)

lemma mk_no_reopen: "no_reopen rid opn own t (mk q b t)"
proof -
  have "ids_of rid (filter opn (mk q b t)) \<subseteq> ids_of rid (filter opn t)"
    unfolding ids_of_def [of rid "filter _ _"]
    using mk_closes [of _ q b t] mk_frame [of _ q b t] by fastforce
  then show ?thesis by (auto simp: no_reopen_def)
qed

lemma sel_ids: "ids_of rid (sel q L t) \<subseteq> ids_of rid (filter opn t) - L"
  using sel_open [of _ q L t] by (auto simp: ids_of_def)

lemma mk_open_ids: "ids_of rid (filter opn (mk q b t)) \<inter> ids_of rid b = {}"
  using mk_closes [of _ q b t] by (auto simp: ids_of_def)

text \<open>A claimed row is not claimed again, whatever the parameters of the next claim.\<close>

lemma reclaim_disjoint: "ids_of rid (sel q' L (mk q b t)) \<inter> ids_of rid b = {}"
  using sel_ids [of q' L "mk q b t"] mk_open_ids [of q b t] by blast

definition claim_inv :: "'r claim_state \<Rightarrow> bool" where
  "claim_inv s \<longleftrightarrow>
     (\<forall>w w'. w \<noteq> w' \<longrightarrow> ids_of rid (selecting s w) \<inter> ids_of rid (selecting s w') = {}) \<and>
     (\<forall>w w'. w \<noteq> w' \<longrightarrow> owned s w \<inter> owned s w' = {}) \<and>
     (\<forall>w w'. ids_of rid (selecting s w) \<inter> owned s w' = {}) \<and>
     (\<forall>w. owned s w \<subseteq> ids_of rid (rows s)) \<and>
     (\<forall>w. ids_of rid (selecting s w) \<subseteq> ids_of rid (rows s)) \<and>
     (\<forall>w. ids_of rid (filter opn (rows s)) \<inter> owned s w = {})"

lemma claim_invD:
  assumes "claim_inv s"
  shows "w \<noteq> w' \<Longrightarrow> owned s w \<inter> owned s w' = {}"
    and "ids_of rid (selecting s w) \<inter> owned s w' = {}"
    and "owned s w \<subseteq> ids_of rid (rows s)"
    and "ids_of rid (filter opn (rows s)) \<inter> owned s w = {}"
    and "w \<noteq> w' \<Longrightarrow> ids_of rid (selecting s w) \<inter> ids_of rid (selecting s w') = {}"
    and "ids_of rid (selecting s w) \<subseteq> ids_of rid (rows s)"
  using assms by (simp_all add: claim_inv_def)

lemma claim_inv_other:
  assumes inv: "claim_inv s" and nr: "no_reopen rid opn (owned_ids s) (rows s) t'"
  shows "claim_inv (s\<lparr>rows := t'\<rparr>)"
proof -
  have "ids_of rid (rows s) \<subseteq> ids_of rid t'"
    and "ids_of rid (filter opn t') \<inter> owned s w \<subseteq> ids_of rid (filter opn (rows s))" for w
    using nr by (auto simp: no_reopen_def owned_ids_def)
  moreover from inv have "owned s w \<subseteq> ids_of rid (rows s)"
    and "ids_of rid (filter opn (rows s)) \<inter> owned s w = {}"
    and "ids_of rid (selecting s w) \<subseteq> ids_of rid (rows s)" for w
    by (simp_all add: claim_inv_def)
  ultimately have "owned s w \<subseteq> ids_of rid t'" "ids_of rid (selecting s w) \<subseteq> ids_of rid t'"
    and "ids_of rid (filter opn t') \<inter> owned s w = {}" for w
    by blast+
  with inv show ?thesis by (simp add: claim_inv_def)
qed

lemma claim_inv_select:
  assumes inv: "claim_inv s" and b: "b = sel q (locked_ids rid s) (rows s)"
  shows "claim_inv (s\<lparr>selecting := (selecting s)(w := b)\<rparr>)"
proof -
  have b': "ids_of rid b \<subseteq> ids_of rid (filter opn (rows s)) - locked_ids rid s"
    unfolding b by (rule sel_ids)
  then have "ids_of rid b \<inter> ids_of rid (selecting s w') = {}" for w'
    by (auto simp: locked_ids_def)
  moreover have "ids_of rid b \<inter> owned s w' = {}" for w'
    using b' inv unfolding claim_inv_def by blast
  moreover have "ids_of rid b \<subseteq> ids_of rid (rows s)"
    using b' by (auto simp: ids_of_def)
  ultimately show ?thesis
    using inv by (auto simp: claim_inv_def)
qed

lemma claim_inv_mark:
  assumes inv: "claim_inv s"
  shows "claim_inv (s\<lparr>rows := mk q (selecting s w) (rows s), selecting := (selecting s)(w := []),
           owned := (owned s)(w := owned s w \<union> ids_of rid (selecting s w))\<rparr>)"
proof -
  have "claim_inv (s\<lparr>rows := mk q (selecting s w) (rows s)\<rparr>)"
    using claim_inv_other [OF inv mk_no_reopen] .
  note D = claim_invD [OF this]
  let ?b = "ids_of rid (selecting s w)"
  let ?o = "(owned s)(w := owned s w \<union> ?b)" and ?l = "(selecting s)(w := [])"
  have "v \<noteq> v' \<Longrightarrow> ids_of rid (?l v) \<inter> ids_of rid (?l v') = {}" for v v'
    using D(5) [of v v'] by simp
  moreover have "v \<noteq> v' \<Longrightarrow> ?o v \<inter> ?o v' = {}" for v v'
    using D(1) [of v v'] D(2) [of w v] D(2) [of w v']
    by (cases "v = w"; cases "v' = w") (simp_all add: Int_Un_distrib Int_Un_distrib2 Int_commute)
  moreover have "ids_of rid (?l v) \<inter> ?o v' = {}" for v v'
    using D(2) [of v v'] D(5) [of v w] by (cases "v' = w") (auto simp: Int_Un_distrib)
  moreover have "?o v \<subseteq> ids_of rid (rows s)" "ids_of rid (?l v) \<subseteq> ids_of rid (rows s)" for v
    using claim_invD(3,6) [OF inv] by simp_all
  moreover have "ids_of rid (filter opn (mk q (selecting s w) (rows s))) \<inter> ?o v = {}" for v
    using D(4) [of v] mk_open_ids [of q "selecting s w" "rows s"]
    by (cases "v = w") (auto simp: Int_Un_distrib)
  ultimately show ?thesis by (simp add: claim_inv_def)
qed

lemma claim_inv_shrink:
  assumes inv: "claim_inv s" and sub: "\<And>w. f w \<subseteq> owned s w"
  shows "claim_inv (s\<lparr>owned := f\<rparr>)"
proof -
  have "w \<noteq> w' \<Longrightarrow> f w \<inter> f w' = {}" for w w'
    using claim_invD(1) [OF inv, of w w'] sub [of w] sub [of w'] by blast
  moreover have "ids_of rid (selecting s w) \<inter> f w' = {}" for w w'
    using claim_invD(2) [OF inv, of w w'] sub [of w'] by blast
  moreover have "f w \<subseteq> ids_of rid (rows s)" for w
    using claim_invD(3) [OF inv, of w] sub [of w] by blast
  moreover have "ids_of rid (filter opn (rows s)) \<inter> f w = {}" for w
    using claim_invD(4) [OF inv, of w] sub [of w] by blast
  ultimately show ?thesis
    using inv by (simp add: claim_inv_def)
qed

lemma claim_inv_step:
  "claim_step rid opn sel mk True s s' \<Longrightarrow> claim_inv s \<Longrightarrow> claim_inv s'"
proof (induction rule: claim_step.induct)
  case (select_batch s w batch q)
  then show ?case using claim_inv_select by simp
next
  case (mark_batch s w batch q)
  then show ?case using claim_inv_mark by blast
next
  case (finish_row s w i)
  then show ?case by (intro claim_inv_shrink) auto
next
  case (other_statement s t')
  then show ?case using claim_inv_other by blast
qed

lemma claim_inv_reach: "claim_reach rid opn sel mk True t0 s \<Longrightarrow> claim_inv s"
proof (induction rule: claim_reach.induct)
  case claim_start
  show ?case by (simp add: claim_inv_def)
next
  case (claim_next s s')
  then show ?case by (blast intro: claim_inv_step)
qed

lemma claims_exclusive:
  "claim_reach rid opn sel mk True t0 s \<Longrightarrow> w \<noteq> w' \<Longrightarrow> owned s w \<inter> owned s w' = {}"
  using claim_inv_reach [of t0 s] by (simp add: claim_inv_def)

lemma claimed_closed:
  "claim_reach rid opn sel mk True t0 s \<Longrightarrow> r \<in> set (rows s) \<Longrightarrow> rid r \<in> owned s w \<Longrightarrow> \<not> opn r"
  using claim_inv_reach [of t0 s] by (fastforce simp: claim_inv_def ids_of_def)

end

end
