(* ===== verification/Outbox_Store.thy ===== *)
theory Outbox_Store
  imports Sql_Table
begin

text \<open>
  The transactional outbox: its configuration (\<open>foundation/resiliant/outbox.py\<close>), its table
  (\<open>db/models/resiliant/_outbox_models.py\<close>), \<open>OutboxRepository\<close> and \<open>OutboxService\<close>
  (\<open>resiliant/outbox/outbox_repository.py\<close>, \<open>outbox_service.py\<close>). The table implements the work
  queue interface \<open>claim_queue\<close>. The clock (\<open>now\<close>), generated ids and the order of rows with
  equal \<open>created_at\<close> (\<open>ob\<close>) are parameters.
\<close>

section \<open>Configuration\<close>

datatype outbox_status = OB_PENDING | OB_PROCESSING | OB_PUBLISHED | OB_FAILED | OB_DEAD_LETTER

record outbox_config =
  oc_enabled :: bool
  oc_poll_strategy :: string
  oc_fixed_poll_interval_ms :: int
  oc_min_poll_interval_ms :: int
  oc_max_poll_interval_ms :: int
  oc_initial_poll_interval_ms :: int
  oc_backoff_growth_factor :: rat
  oc_drain_threshold_ratio :: rat
  oc_batch_size :: int
  oc_concurrent_workers :: int
  oc_max_retries :: int
  oc_processing_timeout_seconds :: int
  oc_use_skip_locked :: bool
  oc_enable_metrics :: bool
  oc_routing_default :: string
  oc_direct_channels :: "string \<rightharpoonup> string"
  oc_outbox_channels :: "string \<rightharpoonup> string"

definition outbox_config_default :: outbox_config where
  "outbox_config_default = \<lparr>oc_enabled = True, oc_poll_strategy = ''fixed'',
     oc_fixed_poll_interval_ms = 3000, oc_min_poll_interval_ms = 100, oc_max_poll_interval_ms = 20000,
     oc_initial_poll_interval_ms = 5000, oc_backoff_growth_factor = 3, oc_drain_threshold_ratio = 1,
     oc_batch_size = 100, oc_concurrent_workers = 1, oc_max_retries = 3,
     oc_processing_timeout_seconds = 30, oc_use_skip_locked = True, oc_enable_metrics = True,
     oc_routing_default = ''outbox'', oc_direct_channels = Map.empty, oc_outbox_channels = Map.empty\<rparr>"

text \<open>
  The constructor with its \<open>__post_init__\<close>. The class is frozen, so the two assignments that
  would clamp the initial interval raise.
\<close>

definition outbox_config_init :: "outbox_config \<Rightarrow> py_exn + outbox_config" where
  "outbox_config_init c =
     (if oc_min_poll_interval_ms c > oc_max_poll_interval_ms c then Inl (ValueError ''min_poll_interval_ms'')
      else if oc_initial_poll_interval_ms c < oc_min_poll_interval_ms c
      then Inl (AttributeError ''initial_poll_interval_ms'')
      else if oc_initial_poll_interval_ms c > oc_max_poll_interval_ms c
      then Inl (AttributeError ''initial_poll_interval_ms'')
      else if oc_batch_size c < 1 then Inl (ValueError ''batch_size'')
      else if oc_concurrent_workers c < 1 then Inl (ValueError ''concurrent_workers'')
      else if oc_poll_strategy c \<notin> {''fixed'', ''adaptive'', ''notify''} then Inl (ValueError ''poll_strategy'')
      else if oc_fixed_poll_interval_ms c < 1 then Inl (ValueError ''fixed_poll_interval_ms'')
      else if oc_backoff_growth_factor c \<le> 1 then Inl (ValueError ''backoff_growth_factor'')
      else Inr c)"

section \<open>The table\<close>

record outbox_row =
  ob_id :: string
  ob_event_id :: string
  ob_event_type :: string
  ob_channel :: string
  ob_ordering_key :: "string option"
  ob_payload :: jdict
  ob_headers :: jdict
  ob_status :: outbox_status
  ob_retry_count :: int
  ob_max_retries :: int
  ob_last_error :: "string option"
  ob_created_at :: int
  ob_updated_at :: int
  ob_processed_at :: "int option"
  ob_source_service :: "string option"
  ob_correlation_id :: "string option"
  ob_user_id :: "string option"

type_synonym outbox_table = "outbox_row list"

section \<open>OutboxRepository\<close>

definition outbox_save :: "outbox_row \<Rightarrow> outbox_table \<Rightarrow> outbox_table" where
  "outbox_save r t = t @ [r]"

definition outbox_eligible :: "int \<Rightarrow> outbox_row \<Rightarrow> bool" where
  "outbox_eligible now r \<longleftrightarrow> ob_status r = OB_PENDING \<and> ob_retry_count r < ob_max_retries r \<and>
     now - timedelta_days 7 \<le> ob_created_at r"

text \<open>\<open>locked\<close>: the ids of rows other transactions hold; only \<open>SKIP LOCKED\<close> passes over them.\<close>

definition outbox_select ::
  "outbox_row sql_order \<Rightarrow> outbox_config \<Rightarrow> int option \<Rightarrow> int \<Rightarrow> string set \<Rightarrow> outbox_table \<Rightarrow>
   py_exn + outbox_row list" where
  "outbox_select ob c batch_size now locked t =
     sql_limit (or_int batch_size (oc_batch_size c)) (order_by ob ob_created_at
       (sql_where (\<lambda>r. outbox_eligible now r \<and> \<not> (oc_use_skip_locked c \<and> ob_id r \<in> locked)) t))"

definition outbox_mark_processing :: "int \<Rightarrow> outbox_row \<Rightarrow> outbox_row" where
  "outbox_mark_processing now r = r\<lparr>ob_status := OB_PROCESSING, ob_updated_at := now\<rparr>"

definition outbox_claim :: "int \<Rightarrow> outbox_row list \<Rightarrow> outbox_table \<Rightarrow> outbox_table" where
  "outbox_claim now events t = (if events = [] then t
     else sql_update (\<lambda>r. ob_id r \<in> ids_of ob_id events) (outbox_mark_processing now) t)"

text \<open>The returned objects are refreshed by the \<open>UPDATE\<close>.\<close>

definition outbox_fetch_pending_batch ::
  "outbox_row sql_order \<Rightarrow> outbox_config \<Rightarrow> int option \<Rightarrow> int \<Rightarrow> string set \<Rightarrow> (outbox_table, outbox_row list) eff" where
  "outbox_fetch_pending_batch ob c batch_size now locked t =
     (case outbox_select ob c batch_size now locked t of
        Inl e \<Rightarrow> (Inl e, t)
      | Inr events \<Rightarrow> (Inr (map (outbox_mark_processing now) events), outbox_claim now events t))"

definition outbox_mark_published :: "int \<Rightarrow> string \<Rightarrow> outbox_table \<Rightarrow> outbox_table" where
  "outbox_mark_published now i = sql_update (\<lambda>r. ob_id r = i)
     (\<lambda>r. r\<lparr>ob_status := OB_PUBLISHED, ob_processed_at := Some now, ob_updated_at := now\<rparr>)"

definition outbox_mark_failed :: "int \<Rightarrow> string \<Rightarrow> string \<Rightarrow> outbox_table \<Rightarrow> outbox_table" where
  "outbox_mark_failed now i err t = (case find (\<lambda>r. ob_id r = i) t of
       None \<Rightarrow> t
     | Some event \<Rightarrow>
         let new_retry_count = ob_retry_count event + 1;
             new_status = (if new_retry_count \<ge> ob_max_retries event then OB_DEAD_LETTER else OB_FAILED)
         in sql_update (\<lambda>r. ob_id r = i)
              (\<lambda>r. r\<lparr>ob_status := new_status, ob_retry_count := new_retry_count,
                     ob_last_error := Some (trunc1000 err), ob_updated_at := now\<rparr>) t)"

definition outbox_stale :: "outbox_config \<Rightarrow> int option \<Rightarrow> int \<Rightarrow> outbox_row \<Rightarrow> bool" where
  "outbox_stale c timeout_seconds now r \<longleftrightarrow> ob_status r = OB_PROCESSING \<and>
     ob_updated_at r < now - timedelta_seconds (or_int timeout_seconds (oc_processing_timeout_seconds c))"

definition outbox_reset_stale_processing ::
  "outbox_config \<Rightarrow> int option \<Rightarrow> int \<Rightarrow> outbox_table \<Rightarrow> int \<times> outbox_table" where
  "outbox_reset_stale_processing c timeout_seconds now t =
     (sql_count (outbox_stale c timeout_seconds now) t,
      sql_update (outbox_stale c timeout_seconds now)
        (\<lambda>r. r\<lparr>ob_status := OB_PENDING, ob_updated_at := now\<rparr>) t)"

record outbox_stats =
  os_pending :: int
  os_processing :: int
  os_published :: int
  os_failed :: int
  os_dead_letter :: int
  os_oldest_pending_age :: "int option" \<comment> \<open>in microseconds\<close>

definition outbox_get_stats :: "int \<Rightarrow> outbox_table \<Rightarrow> outbox_stats" where
  "outbox_get_stats now t =
     (let n = (\<lambda>st. sql_count (\<lambda>r. ob_status r = st) t);
          created = map ob_created_at (sql_where (\<lambda>r. ob_status r = OB_PENDING) t)
      in \<lparr>os_pending = n OB_PENDING, os_processing = n OB_PROCESSING, os_published = n OB_PUBLISHED,
          os_failed = n OB_FAILED, os_dead_letter = n OB_DEAD_LETTER,
          os_oldest_pending_age = (if created = [] then None else Some (now - Min (set created)))\<rparr>)"

section \<open>OutboxService\<close>

text \<open>A domain event, as \<open>save_event\<close> reads it; \<open>ev_class\<close> is \<open>type(event).__name__\<close>.\<close>

record base_event =
  ev_event_id :: string
  ev_event_type :: "string option"
  ev_class :: string
  ev_payload :: jdict
  ev_source :: "string option"
  ev_correlation_id :: "string option"
  ev_user_id :: "string option"

definition outbox_save_event ::
  "outbox_config \<Rightarrow> string \<Rightarrow> int \<Rightarrow> base_event \<Rightarrow> string \<Rightarrow> string option \<Rightarrow> jdict option \<Rightarrow> int option \<Rightarrow>
   outbox_table \<Rightarrow> outbox_row \<times> outbox_table" where
  "outbox_save_event c new_id now ev channel ordering_key headers max_retries t =
     (let r = \<lparr>ob_id = new_id, ob_event_id = ev_event_id ev,
        ob_event_type = or_str (ev_event_type ev) (ev_class ev), ob_channel = channel,
        ob_ordering_key = ordering_key, ob_payload = ev_payload ev, ob_headers = jdict_or_empty headers,
        ob_status = OB_PENDING, ob_retry_count = 0, ob_max_retries = or_int max_retries (oc_max_retries c),
        ob_last_error = None, ob_created_at = now, ob_updated_at = now, ob_processed_at = None,
        ob_source_service = ev_source ev, ob_correlation_id = ev_correlation_id ev, ob_user_id = ev_user_id ev\<rparr>
      in (r, outbox_save r t))"

definition outbox_save_raw_message ::
  "outbox_config \<Rightarrow> string \<Rightarrow> int \<Rightarrow> string \<Rightarrow> string \<Rightarrow> jdict \<Rightarrow> string \<Rightarrow> string option \<Rightarrow> jdict option \<Rightarrow>
   int option \<Rightarrow> outbox_table \<Rightarrow> outbox_row \<times> outbox_table" where
  "outbox_save_raw_message c new_id now event_id channel payload event_type ordering_key headers max_retries t =
     (let r = \<lparr>ob_id = new_id, ob_event_id = event_id, ob_event_type = event_type, ob_channel = channel,
        ob_ordering_key = ordering_key, ob_payload = payload, ob_headers = jdict_or_empty headers,
        ob_status = OB_PENDING, ob_retry_count = 0, ob_max_retries = or_int max_retries (oc_max_retries c),
        ob_last_error = None, ob_created_at = now, ob_updated_at = now, ob_processed_at = None,
        ob_source_service = None, ob_correlation_id = None, ob_user_id = None\<rparr>
      in (r, outbox_save r t))"

section \<open>The outbox is a work queue\<close>

definition outbox_open :: "outbox_row \<Rightarrow> bool" where
  "outbox_open r \<longleftrightarrow> ob_status r = OB_PENDING"

type_synonym outbox_query = "outbox_row sql_order \<times> outbox_config \<times> int option \<times> int"

definition outbox_sel :: "outbox_query \<Rightarrow> string set \<Rightarrow> outbox_table \<Rightarrow> outbox_row list" where
  "outbox_sel q locked t = (case q of (ob, c, n, now) \<Rightarrow>
     (case outbox_select ob (c\<lparr>oc_use_skip_locked := True\<rparr>) n now locked t of Inl _ \<Rightarrow> [] | Inr rs \<Rightarrow> rs))"

definition outbox_mk :: "outbox_query \<Rightarrow> outbox_row list \<Rightarrow> outbox_table \<Rightarrow> outbox_table" where
  "outbox_mk q events t = (case q of (ob, c, n, now) \<Rightarrow> outbox_claim now events t)"

lemma outbox_mark_processing_simps [simp]:
  "ob_id (outbox_mark_processing now r) = ob_id r"
  "ob_status (outbox_mark_processing now r) = OB_PROCESSING"
  "ob_created_at (outbox_mark_processing now r) = ob_created_at r"
  by (simp_all add: outbox_mark_processing_def)

lemma outbox_claim_ids [simp]: "map ob_id (outbox_claim now events t) = map ob_id t"
  by (simp add: outbox_claim_def sql_update_map_key)

lemma set_outbox_claim:
  "r \<in> set (outbox_claim now events t) \<longleftrightarrow> (\<exists>r0 \<in> set t. r = (if ob_id r0 \<in> ids_of ob_id events
     then outbox_mark_processing now r0 else r0))"
  by (auto simp: outbox_claim_def set_sql_update)

lemma outbox_select_facts:
  assumes "outbox_select ob c n now locked t = Inr rs"
  shows "int (length rs) \<le> or_int n (oc_batch_size c)" and "sorted (map ob_created_at rs)"
    and "r \<in> set rs \<Longrightarrow> r \<in> set t \<and> outbox_eligible now r \<and> (oc_use_skip_locked c \<longrightarrow> ob_id r \<notin> locked)"
  using assms by (auto simp: outbox_select_def sql_limit_Inr dest!: in_set_takeD)

lemma outbox_claim_closes:
  assumes "r \<in> set (outbox_claim now events t)" and "ob_id r \<in> ids_of ob_id events"
  shows "\<not> outbox_open r"
proof -
  obtain r0 where "r = (if ob_id r0 \<in> ids_of ob_id events then outbox_mark_processing now r0 else r0)"
    using assms(1) by (auto simp: set_outbox_claim)
  then have "ob_status r = OB_PROCESSING" using assms(2) by (simp split: if_splits)
  then show ?thesis by (simp add: outbox_open_def)
qed

lemma outbox_sel_facts:
  assumes "r \<in> set (outbox_sel (ob, c, n, now) L t)"
  shows "r \<in> set t \<and> outbox_open r \<and> ob_id r \<notin> L"
  using assms outbox_select_facts(3) [of ob "c\<lparr>oc_use_skip_locked := True\<rparr>" n now L t _ r]
  by (cases "outbox_select ob (c\<lparr>oc_use_skip_locked := True\<rparr>) n now L t")
    (simp_all add: outbox_sel_def outbox_open_def outbox_eligible_def)

interpretation outbox_queue: claim_queue ob_id outbox_open outbox_sel outbox_mk
proof
  fix r q L t b
  show "r \<in> set (outbox_sel q L t) \<Longrightarrow> r \<in> set t \<and> outbox_open r \<and> ob_id r \<notin> L"
    by (cases q) (simp add: outbox_sel_facts)
  show "map ob_id (outbox_mk q b t) = map ob_id t"
    by (simp add: outbox_mk_def split: prod.splits)
  show "r \<in> set (outbox_mk q b t) \<Longrightarrow> ob_id r \<in> ids_of ob_id b \<Longrightarrow> \<not> outbox_open r"
    by (cases q) (simp add: outbox_mk_def outbox_claim_closes)
  show "r \<in> set (outbox_mk q b t) \<Longrightarrow> ob_id r \<notin> ids_of ob_id b \<Longrightarrow> r \<in> set t"
    by (auto simp: outbox_mk_def set_outbox_claim split: prod.splits if_splits)
qed

text \<open>
  The other statements of the repository do not reopen an event that a worker owns; the stale
  reset does so only if it reaches one that is still being worked on.
\<close>

lemma outbox_save_no_reopen:
  "ob_id r \<notin> own \<Longrightarrow> no_reopen ob_id outbox_open own t (outbox_save r t)"
  by (simp add: outbox_save_def no_reopen_append)

lemma outbox_mark_published_no_reopen: "no_reopen ob_id outbox_open own t (outbox_mark_published now i t)"
  unfolding outbox_mark_published_def by (rule no_reopen_update) (simp_all add: outbox_open_def)

lemma outbox_mark_failed_no_reopen: "no_reopen ob_id outbox_open own t (outbox_mark_failed now i err t)"
  by (auto simp: outbox_mark_failed_def outbox_open_def Let_def split: option.splits intro!: no_reopen_update)

lemma outbox_reset_no_reopen:
  assumes "\<forall>r \<in> set t. ob_id r \<in> own \<longrightarrow> \<not> outbox_stale c n now r"
  shows "no_reopen ob_id outbox_open own t (snd (outbox_reset_stale_processing c n now t))"
proof -
  let ?f = "\<lambda>r. r\<lparr>ob_status := OB_PENDING, ob_updated_at := now\<rparr>"
  have "sql_update (outbox_stale c n now) ?f t =
      sql_update (\<lambda>r. outbox_stale c n now r \<and> ob_id r \<notin> own) ?f t"
    using assms by (auto simp: sql_update_def)
  then show ?thesis
    by (auto simp: outbox_reset_stale_processing_def intro!: no_reopen_update)
qed

section \<open>Properties\<close>


definition demo_outbox_row :: "string \<Rightarrow> int \<Rightarrow> outbox_row" where
  "demo_outbox_row i created = \<lparr>ob_id = i, ob_event_id = ''e'', ob_event_type = ''paid'', ob_channel = ''orders'',
     ob_ordering_key = None, ob_payload = Map.empty, ob_headers = Map.empty, ob_status = OB_PENDING,
     ob_retry_count = 0, ob_max_retries = 3, ob_last_error = None, ob_created_at = created,
     ob_updated_at = created, ob_processed_at = None, ob_source_service = None, ob_correlation_id = None,
     ob_user_id = None\<rparr>"

definition demo_outbox_query :: outbox_query where
  "demo_outbox_query = (stable_order, outbox_config_default, Some 1, 10)"

lemma demo_outbox_sel:
  "outbox_sel demo_outbox_query {} [demo_outbox_row ''a'' 1, demo_outbox_row ''b'' 2] = [demo_outbox_row ''a'' 1]"
  "outbox_sel demo_outbox_query {''a''} [demo_outbox_row ''a'' 1, demo_outbox_row ''b'' 2] = [demo_outbox_row ''b'' 2]"
  by (simp_all add: demo_outbox_query_def outbox_sel_def outbox_select_def sql_limit_def sql_where_def
      outbox_eligible_def demo_outbox_row_def timedelta_days_def usec_def)

definition demo_outbox_state :: "outbox_row claim_state" where
  "demo_outbox_state = \<lparr>rows = outbox_mk demo_outbox_query [demo_outbox_row ''a'' 1]
        [demo_outbox_row ''a'' 1, demo_outbox_row ''b'' 2],
     selecting = (\<lambda>_. [])(2 := [demo_outbox_row ''b'' 2]), owned = (\<lambda>_. {})(1 := {''a''})\<rparr>"

lemma demo_outbox_reach:
  "claim_reach ob_id outbox_open outbox_sel outbox_mk True [demo_outbox_row ''a'' 1, demo_outbox_row ''b'' 2]
     demo_outbox_state"
proof -
  let ?t = "[demo_outbox_row ''a'' 1, demo_outbox_row ''b'' 2]"
  let ?R = "claim_reach ob_id outbox_open outbox_sel outbox_mk True ?t"
  have 1: "?R \<lparr>rows = ?t, selecting = (\<lambda>_. [])(1 := [demo_outbox_row ''a'' 1]), owned = \<lambda>_. {}\<rparr>"
    by (rule claim_reach_select [OF claim_start, where w = 1 and q = demo_outbox_query])
      (simp_all add: locked_ids_def demo_outbox_sel)
  have l: "locked_ids ob_id \<lparr>rows = ?t, selecting = (\<lambda>_. [])(1 := [demo_outbox_row ''a'' 1]), owned = \<lambda>_. {}\<rparr> = {''a''}"
    by (auto simp: locked_ids_def ids_of_def demo_outbox_row_def split: if_splits)
  have 2: "?R \<lparr>rows = ?t, selecting = (\<lambda>_. [])(1 := [demo_outbox_row ''a'' 1], 2 := [demo_outbox_row ''b'' 2]),
      owned = \<lambda>_. {}\<rparr>"
    by (rule claim_reach_select [OF 1, where w = 2 and q = demo_outbox_query and b = "[demo_outbox_row ''b'' 2]"])
      (simp_all only: l if_True claim_state.simps demo_outbox_sel, simp_all)
  show ?thesis
    by (rule claim_reach_mark [OF 2, where w = 1 and q = demo_outbox_query, OF refl])
      (auto simp: demo_outbox_state_def ids_of_def demo_outbox_row_def)
qed


text \<open>\<open>fetch_pending_batch\<close> returns at most the batch size of events, sorted by creation time
  and now PROCESSING; each was pending, had retries left, was at most seven days old and was not
  locked; and no such event that it left out is older than one it returned. In the table exactly
  the returned events have changed, to PROCESSING.\<close>

theorem outbox_fetch_pending_batch_spec:
  assumes "outbox_fetch_pending_batch ob c n now locked t = (Inr events, t')"
    and "distinct (map ob_id t)" and "oc_use_skip_locked c"
  shows "int (length events) \<le> or_int n (oc_batch_size c) \<and> sorted (map ob_created_at events) \<and>
    (\<forall>e \<in> set events. \<exists>r \<in> set t. e = outbox_mark_processing now r \<and> outbox_eligible now r \<and> ob_id r \<notin> locked) \<and>
    (\<forall>r \<in> set t. \<forall>e \<in> set events. outbox_eligible now r \<and> ob_id r \<notin> locked \<and> ob_id r \<notin> ids_of ob_id events \<longrightarrow>
        ob_created_at e \<le> ob_created_at r) \<and>
    t' = map (\<lambda>r. if ob_id r \<in> ids_of ob_id events then outbox_mark_processing now r else r) t"
proof -
  obtain rs where sel: "outbox_select ob c n now locked t = Inr rs"
    and ev: "events = map (outbox_mark_processing now) rs" and t': "t' = outbox_claim now rs t"
    using assms(1) by (auto simp: outbox_fetch_pending_batch_def split: sum.splits)
  note F = outbox_select_facts [OF sel]
  let ?P = "\<lambda>r. outbox_eligible now r \<and> \<not> (oc_use_skip_locked c \<and> ob_id r \<in> locked)"
  let ?o = "order_by ob ob_created_at (sql_where ?P t)"
  have rs: "rs = take (nat (or_int n (oc_batch_size c))) ?o"
    using sel by (auto simp: outbox_select_def sql_limit_Inr)
  have ids: "ids_of ob_id events = ids_of ob_id rs" by (simp add: ev ids_of_def image_image)
  have oldest: "ob_created_at e \<le> ob_created_at r"
    if r: "r \<in> set t" "outbox_eligible now r" "ob_id r \<notin> locked" "ob_id r \<notin> ids_of ob_id events"
      and e: "e \<in> set events" for r e
  proof -
    obtain e0 where e0: "e0 \<in> set rs" "ob_created_at e = ob_created_at e0" using e by (auto simp: ev)
    have "r \<notin> set rs" using r(4) unfolding ids by (auto simp: ids_of_def)
    moreover have "r \<in> set (sql_where ?P t)" using r by simp
    ultimately have "r \<in># mset (sql_where ?P t) - mset rs"
      by (intro in_mset_diffI)
    then show ?thesis
      using order_limit_smallest [of e0 _ ob ob_created_at "sql_where ?P t" r] e0 by (simp add: rs)
  qed
  have tab: "t' = map (\<lambda>r. if ob_id r \<in> ids_of ob_id events then outbox_mark_processing now r else r) t"
    unfolding t' ids by (auto simp: outbox_claim_def sql_update_def)
  show ?thesis
    using F(1,2) F(3) assms(3) oldest tab by (fastforce simp: ev comp_def)
qed

theorem outbox_fetch_pending_batch_spec_witness:
  "let t = [demo_outbox_row ''b'' 2, demo_outbox_row ''a'' 1];
       (r, t') = outbox_fetch_pending_batch stable_order outbox_config_default (Some 1) 10 {} t in
   r = Inr [outbox_mark_processing 10 (demo_outbox_row ''a'' 1)] \<and>
   t' = [demo_outbox_row ''b'' 2, outbox_mark_processing 10 (demo_outbox_row ''a'' 1)]"
proof -
  let ?t = "[demo_outbox_row ''b'' 2, demo_outbox_row ''a'' 1]"
  let ?evs = "[outbox_mark_processing 10 (demo_outbox_row ''a'' 1)]"
  let ?f = "outbox_fetch_pending_batch stable_order outbox_config_default (Some 1) 10 {} ?t"
  have f: "fst ?f = Inr ?evs"
    by (simp add: outbox_fetch_pending_batch_def outbox_select_def sql_limit_def sql_where_def
        outbox_eligible_def demo_outbox_row_def timedelta_days_def usec_def)
  have "snd ?f = map (\<lambda>r. if ob_id r \<in> ids_of ob_id ?evs then outbox_mark_processing 10 r else r) ?t"
    using outbox_fetch_pending_batch_spec [of stable_order outbox_config_default "Some 1" 10 "{}" ?t ?evs "snd ?f"] f
    by (simp add: prod_eq_iff demo_outbox_row_def outbox_config_default_def)
  with f show ?thesis
    by (simp add: Let_def case_prod_beta ids_of_def) (simp add: demo_outbox_row_def)
qed

text \<open>\<open>mark_failed\<close> changes exactly the event it names: it counts the retry, stores the error
  cut to 1000 characters, and the event becomes DEAD_LETTER when the retries are used up and
  FAILED otherwise. In both cases no later \<open>fetch_pending_batch\<close> returns the event: a failed event
  is never retried.\<close>

theorem outbox_mark_failed_spec:
  assumes "distinct (map ob_id t)" and "r \<in> set t" and t'_def: "t' = outbox_mark_failed now (ob_id r) err t"
  shows "t' = map (\<lambda>x. if ob_id x = ob_id r then x\<lparr>ob_status :=
         if ob_retry_count x + 1 \<ge> ob_max_retries x then OB_DEAD_LETTER else OB_FAILED,
         ob_retry_count := ob_retry_count x + 1, ob_last_error := Some (trunc1000 err), ob_updated_at := now\<rparr>
       else x) t \<and>
     (\<forall>ob c n now' L. case fst (outbox_fetch_pending_batch ob c n now' L t') of
        Inl _ \<Rightarrow> True | Inr events \<Rightarrow> ob_id r \<notin> ids_of ob_id events)"
proof
  have f: "find (\<lambda>x. ob_id x = ob_id r) t = Some r" using find_distinct_key [OF assms(1,2)] by simp
  have same: "x = r" if "x \<in> set t" "ob_id x = ob_id r" for x
    using distinct_map_same [OF assms(1) that(1) assms(2) that(2)] .
  show t': "t' = map (\<lambda>x. if ob_id x = ob_id r then x\<lparr>ob_status :=
         if ob_retry_count x + 1 \<ge> ob_max_retries x then OB_DEAD_LETTER else OB_FAILED,
         ob_retry_count := ob_retry_count x + 1, ob_last_error := Some (trunc1000 err), ob_updated_at := now\<rparr>
       else x) t"
    unfolding t'_def outbox_mark_failed_def f using same by (auto simp: sql_update_def Let_def)
  have closed: "ob_status x \<noteq> OB_PENDING" if "x \<in> set t'" "ob_id x = ob_id r" for x
    using that unfolding t' by (auto split: if_splits)
  show "\<forall>ob c n now' L. case fst (outbox_fetch_pending_batch ob c n now' L t') of
        Inl _ \<Rightarrow> True | Inr events \<Rightarrow> ob_id r \<notin> ids_of ob_id events"
  proof (intro allI)
    fix ob c n now' L
    show "case fst (outbox_fetch_pending_batch ob c n now' L t') of
        Inl _ \<Rightarrow> True | Inr events \<Rightarrow> ob_id r \<notin> ids_of ob_id events"
    proof (cases "outbox_select ob c n now' L t'")
      case (Inr rs)
      have "ob_id x \<noteq> ob_id r" if "x \<in> set rs" for x
        using outbox_select_facts(3) [OF Inr that] closed [of x] by (auto simp: outbox_eligible_def)
      then have "ob_id r \<notin> ids_of ob_id (map (outbox_mark_processing now') rs)"
        unfolding ids_of_def by fastforce
      with Inr show ?thesis by (simp add: outbox_fetch_pending_batch_def)
    qed (simp add: outbox_fetch_pending_batch_def)
  qed
qed

theorem outbox_mark_failed_spec_witness:
  "map ob_status (outbox_mark_failed 9 ''a'' ''boom'' [demo_outbox_row ''a'' 1, demo_outbox_row ''b'' 2]) =
     [OB_FAILED, OB_PENDING]"
  using conjunct1 [OF outbox_mark_failed_spec [of "[demo_outbox_row ''a'' 1, demo_outbox_row ''b'' 2]"
      "demo_outbox_row ''a'' 1" _ 9 "''boom''", OF _ _ refl]]
  by (simp add: demo_outbox_row_def)

text \<open>\<open>OutboxConfig\<close> accepts a configuration only unchanged, and then its intervals are
  ordered, its batch size and number of workers positive and its growth factor above 1. An initial
  interval outside the bounds is not clamped, as \<open>__post_init__\<close> intends, but raises
  \<open>AttributeError\<close>, since the class is frozen.\<close>

theorem outbox_config_init_spec:
  "(outbox_config_init c = Inr c' \<longleftrightarrow> c' = c \<and>
      oc_min_poll_interval_ms c \<le> oc_initial_poll_interval_ms c \<and>
      oc_initial_poll_interval_ms c \<le> oc_max_poll_interval_ms c \<and>
      1 \<le> oc_batch_size c \<and> 1 \<le> oc_concurrent_workers c \<and>
      oc_poll_strategy c \<in> {''fixed'', ''adaptive'', ''notify''} \<and>
      1 \<le> oc_fixed_poll_interval_ms c \<and> 1 < oc_backoff_growth_factor c) \<and>
   (outbox_config_init c = Inl (AttributeError ''initial_poll_interval_ms'') \<longleftrightarrow>
      oc_min_poll_interval_ms c \<le> oc_max_poll_interval_ms c \<and>
      (oc_initial_poll_interval_ms c < oc_min_poll_interval_ms c \<or>
       oc_max_poll_interval_ms c < oc_initial_poll_interval_ms c))"
  unfolding outbox_config_init_def by (auto split: if_splits)

end
