(* ===== verification/Message_Routing.thy ===== *)
theory Message_Routing
  imports Outbox_Store
begin

text \<open>
  \<open>MessageRoutingService\<close> (\<open>libs/foundation/src/foundation/messaging/message_routing_service.py\<close>) and the
  routing of a channel (\<open>MessageRoutingServiceT\<close> in \<open>messaging/types.py\<close>): an event goes to the outbox, in
  the session of the caller or in one of its own, or straight to the broker. What the caller's session has
  written but not committed is apart from what is committed. The broker, the failures of the database and
  the presence of the services in the registry are parameters.
\<close>

section \<open>Routing\<close>

definition get_routing_for_channel :: "outbox_config \<Rightarrow> string \<Rightarrow> string" where
  "get_routing_for_channel c channel =
     (if \<not> oc_enabled c then ''direct''
      else if channel \<in> dom (oc_direct_channels c) then ''direct''
      else if channel \<in> dom (oc_outbox_channels c) then ''outbox''
      else oc_routing_default c)"

section \<open>The service\<close>

text \<open>
  The two services once they are known, the rows that are committed, those the session of the caller
  holds, the number of sessions the service opened and did not close, and the broker.
\<close>

record 'w routing_sys =
  rs_has_messaging :: bool
  rs_has_outbox :: bool
  rs_committed :: outbox_table
  rs_session :: outbox_table
  rs_open :: nat
  rs_broker :: 'w

record routing_env =
  re_config :: outbox_config
  re_messaging_registered :: bool
  re_outbox_registered :: bool
  re_flush_fails :: "outbox_row \<Rightarrow> py_exn option"
  re_commit_fails :: "py_exn option"
  re_new_id :: string
  re_now :: int

definition messaging_service :: "routing_env \<Rightarrow> ('w routing_sys, unit) eff" where
  "messaging_service env s =
     (if rs_has_messaging s then (Inr (), s)
      else if re_messaging_registered env then (Inr (), s\<lparr>rs_has_messaging := True\<rparr>)
      else (Inl (ValueError ''MessagingServiceT''), s))"

definition outbox_service :: "routing_env \<Rightarrow> ('w routing_sys, unit) eff" where
  "outbox_service env s =
     (if rs_has_outbox s then (Inr (), s)
      else if re_outbox_registered env then (Inr (), s\<lparr>rs_has_outbox := True\<rparr>)
      else (Inl (ValueError ''IOutboxService''), s))"

text \<open>Resolving the messaging service raises before \<open>validate\<close> could.\<close>

definition routing_validate :: "routing_env \<Rightarrow> ('w routing_sys, unit) eff" where
  "routing_validate env = (if oc_enabled (re_config env) then eff_return () else messaging_service env)"

text \<open>The row of an event, flushed to a table of rows.\<close>

definition routed_row :: "routing_env \<Rightarrow> base_event \<Rightarrow> string \<Rightarrow> string option \<Rightarrow> jdict option \<Rightarrow> int option \<Rightarrow> outbox_row" where
  "routed_row env ev channel ordering_key headers max_retries =
     fst (outbox_save_event (re_config env) (re_new_id env) (re_now env) ev channel ordering_key headers max_retries [])"

definition save_in_session :: "routing_env \<Rightarrow> outbox_row \<Rightarrow> ('w routing_sys, unit) eff" where
  "save_in_session env r s = (case re_flush_fails env r of
       Some e \<Rightarrow> (Inl e, s)
     | None \<Rightarrow> (Inr (), s\<lparr>rs_session := outbox_save r (rs_session s)\<rparr>))"

text \<open>A session of its own: its row counts when the commit succeeds; only then is it closed.\<close>

definition save_and_commit :: "routing_env \<Rightarrow> outbox_row \<Rightarrow> ('w routing_sys, unit) eff" where
  "save_and_commit env r s = (case re_flush_fails env r of
       Some e \<Rightarrow> (Inl e, s)
     | None \<Rightarrow> (case re_commit_fails env of
         Some e \<Rightarrow> (Inl e, s)
       | None \<Rightarrow> (Inr (), s\<lparr>rs_committed := outbox_save r (rs_committed s), rs_open := rs_open s - 1\<rparr>)))"

definition publish_event ::
  "routing_env \<Rightarrow> (string \<Rightarrow> base_event \<Rightarrow> jdict option \<Rightarrow> string option \<Rightarrow> ('w, unit) eff) \<Rightarrow> base_event \<Rightarrow> string \<Rightarrow> bool \<Rightarrow> string option \<Rightarrow>
   jdict option \<Rightarrow> int option \<Rightarrow> ('w routing_sys, outbox_row option) eff" where
  "publish_event env send ev channel has_session ordering_key headers max_retries =
     (if get_routing_for_channel (re_config env) channel = ''outbox'' then
        eff_bind (if has_session then eff_return () else eff_modify (\<lambda>s. s\<lparr>rs_open := Suc (rs_open s)\<rparr>)) (\<lambda>_.
        eff_bind (outbox_service env) (\<lambda>_.
        let r = routed_row env ev channel ordering_key headers max_retries in
        eff_bind (if has_session then save_in_session env r else save_and_commit env r) (\<lambda>_.
        eff_return (Some r))))
      else
        eff_bind (messaging_service env) (\<lambda>_.
        eff_bind (\<lambda>s. case send channel ev headers ordering_key (rs_broker s) of (x, w) \<Rightarrow> (x, s\<lparr>rs_broker := w\<rparr>)) (\<lambda>_.
        eff_return None)))"

text \<open>What the caller does with its session afterwards.\<close>

definition session_commit :: "'w routing_sys \<Rightarrow> 'w routing_sys" where
  "session_commit s = s\<lparr>rs_committed := rs_committed s @ rs_session s, rs_session := []\<rparr>"

definition session_rollback :: "'w routing_sys \<Rightarrow> 'w routing_sys" where
  "session_rollback s = s\<lparr>rs_session := []\<rparr>"

section \<open>Where an event ends up\<close>

lemma routing_direct_first:
  "channel \<in> dom (oc_direct_channels c) \<Longrightarrow> get_routing_for_channel c channel = ''direct''"
  "\<not> oc_enabled c \<Longrightarrow> get_routing_for_channel c channel = ''direct''"
  by (simp_all add: get_routing_for_channel_def)

lemma routed_row_pending: "ob_status (routed_row env ev ch key hs mr) = OB_PENDING"
  "ob_event_id (routed_row env ev ch key hs mr) = ev_event_id ev" "ob_channel (routed_row env ev ch key hs mr) = ch"
  by (simp_all add: routed_row_def outbox_save_event_def Let_def)


definition demo_routing :: routing_env where
  "demo_routing = \<lparr>re_config = outbox_config_default\<lparr>oc_direct_channels := [''alerts'' \<mapsto> '''']\<rparr>,
     re_messaging_registered = True, re_outbox_registered = True, re_flush_fails = (\<lambda>_. None), re_commit_fails = None,
     re_new_id = ''r1'', re_now = 7\<rparr>"

definition demo_routed_event :: base_event where
  "demo_routed_event = \<lparr>ev_event_id = ''e1'', ev_event_type = Some ''paid'', ev_class = ''Paid'', ev_payload = Map.empty,
     ev_source = None, ev_correlation_id = None, ev_user_id = None\<rparr>"

definition demo_routing_sys :: "string list routing_sys" where
  "demo_routing_sys = \<lparr>rs_has_messaging = False, rs_has_outbox = False, rs_committed = [], rs_session = [], rs_open = 0,
     rs_broker = []\<rparr>"


end
