(* ===== verification/Base_Worker.thy ===== *)
theory Base_Worker
  imports Taas_Prelude
begin

text \<open>
  \<open>libs/foundation/src/foundation/worker/base_worker.py\<close>: the life cycle of a worker process. The
  main coroutine is cut at its awaits into phases; the tasks it owns, the signals, the health
  server and the messaging service act between them, as the steps of a transition system. Of
  \<open>asyncio\<close> the model has what the documentation states: a cancellation is a request the task may take
  any time to follow or ignore; \<open>gather\<close> ends with the first exception, and cancelled or with
  \<open>return_exceptions\<close> only when all its children have ended; \<open>wait_for\<close> that times out waits until
  what it cancelled has ended.
\<close>

section \<open>State\<close>

datatype task_end = Returned | Raised py_exn | Cancelled

record worker_task =
  wt_name :: string
  wt_end :: "task_end option"
  wt_cancel_requested :: bool

definition new_task :: "string \<Rightarrow> worker_task" where
  "new_task n = \<lparr>wt_name = n, wt_end = None, wt_cancel_requested = False\<rparr>"

abbreviation task_done :: "worker_task \<Rightarrow> bool" where
  "task_done t \<equiv> wt_end t \<noteq> None"

text \<open>Where the main coroutine waits.\<close>

datatype worker_phase =
    StartingHealth
  | Gathering
  | CancellingTasks
  | StoppingMessaging
  | StoppingHealth
  | CancellingHealthCheck
  | Finished
  | Killed

record worker =
  wk_running :: bool
  wk_tasks :: "worker_task list"
  wk_health_task :: worker_task
  wk_phase :: worker_phase
  wk_shutdown_requested :: bool
  wk_health_server :: bool
  wk_messaging_stops :: nat

text \<open>\<open>initialize_worker_tasks\<close>, after the hook that registers handlers.\<close>

definition initialize_worker_tasks :: "bool \<Rightarrow> worker_task list" where
  "initialize_worker_tasks consumer_enabled = (if consumer_enabled then [new_task ''kafka_consumer''] else [])"

text \<open>\<open>_owned_pending_tasks\<close>: the current task is never one of them.\<close>

definition owned_tasks :: "worker \<Rightarrow> worker_task list" where
  "owned_tasks s = wk_tasks s @ [wk_health_task s]"

definition owned_pending_tasks :: "worker \<Rightarrow> worker_task list" where
  "owned_pending_tasks s = filter (\<lambda>t. \<not> task_done t) (owned_tasks s)"

definition cancel_task :: "worker_task \<Rightarrow> worker_task" where
  "cancel_task t = (if task_done t then t else t\<lparr>wt_cancel_requested := True\<rparr>)"

definition cancel_owned :: "worker \<Rightarrow> worker" where
  "cancel_owned s = s\<lparr>wk_tasks := map cancel_task (wk_tasks s), wk_health_task := cancel_task (wk_health_task s)\<rparr>"

section \<open>The health endpoint\<close>

datatype health_answer =
    Unhealthy string
  | HealthyTasks "(string \<times> string) list"

definition health_check_handler :: "worker \<Rightarrow> int \<times> health_answer" where
  "health_check_handler s =
     (if \<not> wk_running s then (503, Unhealthy ''Worker not running'')
      else let status = map (\<lambda>t. (wt_name t, if task_done t then ''stopped'' else ''running'')) (wk_tasks s);
               dead = map fst (filter (\<lambda>(_, st). st = ''stopped'') status) in
        if dead \<noteq> [] then (503, Unhealthy (''Worker task(s) stopped: '' @ comma_join dead))
        else (200, HealthyTasks status))"

section \<open>Start and shutdown\<close>

text \<open>
  \<open>main\<close> up to its first await: the health check loop is created and \<open>start\<close> entered, which sets
  \<open>running\<close> and starts the health server when it is enabled.
\<close>

definition worker_main :: "bool \<Rightarrow> worker_task list \<Rightarrow> py_exn + worker" where
  "worker_main health_check_enabled tasks =
     (if tasks = [] then Inl (RuntimeError ''No workers enabled!'')
      else Inr \<lparr>wk_running = True, wk_tasks = tasks, wk_health_task = new_task ''health_check_loop'',
        wk_phase = (if health_check_enabled then StartingHealth else Gathering),
        wk_shutdown_requested = False, wk_health_server = False, wk_messaging_stops = 0\<rparr>)"

text \<open>\<open>await self.messaging_service.stop()\<close>\<close>

definition call_messaging_stop :: "worker \<Rightarrow> worker" where
  "call_messaging_stop s = s\<lparr>wk_phase := StoppingMessaging, wk_messaging_stops := wk_messaging_stops s + 1\<rparr>"

text \<open>The end of \<open>main\<close>: the health check task is cancelled and awaited.\<close>

definition finish_main :: "worker \<Rightarrow> worker" where
  "finish_main s = (if task_done (wk_health_task s) then s\<lparr>wk_phase := Finished\<rparr>
     else s\<lparr>wk_health_task := cancel_task (wk_health_task s), wk_phase := CancellingHealthCheck\<rparr>)"

text \<open>\<open>shutdown\<close> up to its first await\<close>

definition begin_shutdown :: "worker \<Rightarrow> worker" where
  "begin_shutdown s =
     (if \<not> wk_running s then finish_main s
      else let s = s\<lparr>wk_running := False\<rparr> in
        if owned_pending_tasks s = [] then call_messaging_stop s
        else (cancel_owned s)\<lparr>wk_phase := CancellingTasks\<rparr>)"

text \<open>The handler of SIGINT and SIGTERM. \<open>os._exit\<close> ends the process.\<close>

definition handle_shutdown :: "worker \<Rightarrow> worker" where
  "handle_shutdown s =
     (if wk_shutdown_requested s then s\<lparr>wk_phase := Killed\<rparr>
      else let s = s\<lparr>wk_shutdown_requested := True\<rparr> in
        if \<not> wk_running s then s else cancel_owned s)"

definition end_task :: "task_end \<Rightarrow> worker_task \<Rightarrow> worker_task" where
  "end_task r t = t\<lparr>wt_end := Some r\<rparr>"

text \<open>
  What can happen next. A task ends as \<open>Cancelled\<close> only when that was requested.
\<close>

inductive worker_step :: "worker \<Rightarrow> worker \<Rightarrow> bool" where
  task_ends: "\<lbrakk>wk_phase s \<notin> {Finished, Killed}; i < length (wk_tasks s); \<not> task_done (wk_tasks s ! i);
      r = Cancelled \<longrightarrow> wt_cancel_requested (wk_tasks s ! i)\<rbrakk>
    \<Longrightarrow> worker_step s (s\<lparr>wk_tasks := (wk_tasks s)[i := end_task r (wk_tasks s ! i)]\<rparr>)"
| health_task_ends: "\<lbrakk>wk_phase s \<notin> {Finished, Killed}; \<not> task_done (wk_health_task s);
      if wt_cancel_requested (wk_health_task s) then r = Cancelled else r = Returned \<and> \<not> wk_running s\<rbrakk>
    \<Longrightarrow> worker_step s (s\<lparr>wk_health_task := end_task r (wk_health_task s)\<rparr>)"
| signal: "wk_phase s \<notin> {Finished, Killed} \<Longrightarrow> worker_step s (handle_shutdown s)"
| health_server_up: "wk_phase s = StartingHealth
    \<Longrightarrow> worker_step s (s\<lparr>wk_phase := Gathering, wk_health_server := True\<rparr>)"
| health_server_fails: "wk_phase s = StartingHealth \<Longrightarrow> worker_step s (begin_shutdown s)"
| gather_fails: "\<lbrakk>wk_phase s = Gathering; t \<in> set (wk_tasks s); wt_end t \<notin> {None, Some Returned}\<rbrakk>
    \<Longrightarrow> worker_step s (begin_shutdown s)"
| gather_returns: "\<lbrakk>wk_phase s = Gathering; \<forall>t \<in> set (wk_tasks s). wt_end t = Some Returned\<rbrakk>
    \<Longrightarrow> worker_step s (begin_shutdown s)"
| wait_times_out: "wk_phase s = CancellingTasks \<Longrightarrow> worker_step s (cancel_owned s)"
| tasks_cancelled: "\<lbrakk>wk_phase s = CancellingTasks; owned_pending_tasks s = []\<rbrakk>
    \<Longrightarrow> worker_step s (call_messaging_stop s)"
| messaging_stopped: "wk_phase s = StoppingMessaging \<Longrightarrow> worker_step s (s\<lparr>wk_phase := StoppingHealth\<rparr>)"
| messaging_stop_fails: "wk_phase s = StoppingMessaging \<Longrightarrow> worker_step s (finish_main s)"
| health_server_stopped: "wk_phase s = StoppingHealth
    \<Longrightarrow> worker_step s (finish_main (s\<lparr>wk_health_server := False\<rparr>))"
| health_server_stop_fails: "wk_phase s = StoppingHealth \<Longrightarrow> worker_step s (finish_main s)"
| health_check_cancelled: "\<lbrakk>wk_phase s = CancellingHealthCheck; task_done (wk_health_task s)\<rbrakk>
    \<Longrightarrow> worker_step s (s\<lparr>wk_phase := Finished\<rparr>)"

inductive worker_reach :: "bool \<Rightarrow> worker_task list \<Rightarrow> worker \<Rightarrow> bool" for health tasks where
  worker_start: "worker_main health tasks = Inr s \<Longrightarrow> worker_reach health tasks s"
| worker_next: "\<lbrakk>worker_reach health tasks s; worker_step s s'\<rbrakk> \<Longrightarrow> worker_reach health tasks s'"

inductive_cases worker_stepE: "worker_step s s'"

section \<open>The invariant\<close>

lemma cancel_task_end [simp]: "wt_end (cancel_task t) = wt_end t" "wt_name (cancel_task t) = wt_name t"
  by (simp_all add: cancel_task_def)

lemma cancel_owned_simps [simp]:
  "wk_running (cancel_owned s) = wk_running s" "wk_phase (cancel_owned s) = wk_phase s"
  "wk_messaging_stops (cancel_owned s) = wk_messaging_stops s"
  "wk_shutdown_requested (cancel_owned s) = wk_shutdown_requested s"
  "wk_health_server (cancel_owned s) = wk_health_server s"
  by (simp_all add: cancel_owned_def)

definition all_ended :: "worker \<Rightarrow> bool" where
  "all_ended s \<longleftrightarrow> task_done (wk_health_task s) \<and> (\<forall>t \<in> set (wk_tasks s). task_done t)"

lemma no_pending_iff: "owned_pending_tasks s = [] \<longleftrightarrow> all_ended s"
  by (auto simp: owned_pending_tasks_def owned_tasks_def all_ended_def filter_empty_conv)

lemma all_ended_cancel [simp]: "all_ended (cancel_owned s) = all_ended s"
  by (simp add: all_ended_def cancel_owned_def)

definition stop_called :: "worker_phase \<Rightarrow> bool" where
  "stop_called p \<longleftrightarrow> p = StoppingMessaging \<or> p = StoppingHealth \<or> p = Finished"

definition worker_inv :: "worker \<Rightarrow> bool" where
  "worker_inv s \<longleftrightarrow> wk_phase s \<noteq> CancellingHealthCheck \<and>
     (wk_messaging_stops s = 0 \<or> wk_messaging_stops s = 1 \<and> \<not> wk_running s \<and> all_ended s) \<and>
     (wk_phase s \<noteq> Killed \<longrightarrow>
        (wk_running s \<longleftrightarrow> wk_phase s = StartingHealth \<or> wk_phase s = Gathering) \<and>
        (wk_messaging_stops s = 1 \<longleftrightarrow> stop_called (wk_phase s)))"

lemma finish_main_inv: "worker_inv s \<Longrightarrow> stop_called (wk_phase s) \<Longrightarrow> worker_inv (finish_main s)"
  by (auto simp: worker_inv_def finish_main_def all_ended_def stop_called_def)

lemma call_stop_inv:
  "wk_messaging_stops s = 0 \<Longrightarrow> all_ended s \<Longrightarrow> \<not> wk_running s \<Longrightarrow> worker_inv (call_messaging_stop s)"
  by (auto simp: worker_inv_def call_messaging_stop_def all_ended_def stop_called_def)

lemma begin_shutdown_inv:
  assumes "worker_inv s" and "wk_phase s = StartingHealth \<or> wk_phase s = Gathering"
  shows "worker_inv (begin_shutdown s)"
proof -
  have s: "wk_running s" "wk_messaging_stops s = 0" using assms by (auto simp: worker_inv_def stop_called_def)
  show ?thesis
  proof (cases "all_ended (s\<lparr>wk_running := False\<rparr>)")
    case True
    with s show ?thesis by (simp add: begin_shutdown_def Let_def no_pending_iff call_stop_inv)
  next
    case False
    with s show ?thesis by (auto simp: begin_shutdown_def Let_def no_pending_iff worker_inv_def stop_called_def)
  qed
qed

lemma end_task_done: "task_done (end_task r t)"
  by (simp add: end_task_def)

lemma worker_step_inv: "worker_step s s' \<Longrightarrow> worker_inv s \<Longrightarrow> worker_inv s'"
proof (induction rule: worker_step.induct)
  case (task_ends s i r)
  have "\<not> all_ended s" using task_ends.hyps nth_mem [of i "wk_tasks s"] unfolding all_ended_def by blast
  with task_ends.prems show ?case by (auto simp: worker_inv_def)
next
  case (signal s)
  then show ?case
    by (auto simp: handle_shutdown_def Let_def worker_inv_def all_ended_def cancel_owned_def)
next
  case (messaging_stop_fails s)
  then show ?case by (simp add: finish_main_inv stop_called_def)
next
  case (health_server_stopped s)
  have "worker_inv (s\<lparr>wk_health_server := False\<rparr>)"
    using health_server_stopped.prems by (simp add: worker_inv_def all_ended_def)
  with health_server_stopped.hyps show ?case by (simp add: finish_main_inv stop_called_def)
next
  case (health_server_stop_fails s)
  then show ?case by (simp add: finish_main_inv stop_called_def)
next
  case (health_server_fails s)
  then show ?case by (simp add: begin_shutdown_inv)
next
  case (gather_fails s t)
  then show ?case by (simp add: begin_shutdown_inv)
next
  case (gather_returns s)
  then show ?case by (simp add: begin_shutdown_inv)
next
  case (tasks_cancelled s)
  then show ?case by (intro call_stop_inv) (auto simp: worker_inv_def no_pending_iff stop_called_def)
qed (auto simp: worker_inv_def all_ended_def stop_called_def end_task_def cancel_owned_def)

lemma worker_reach_inv: "worker_reach health tasks s \<Longrightarrow> worker_inv s"
proof (induction rule: worker_reach.induct)
  case (worker_start s)
  then show ?case by (auto simp: worker_main_def worker_inv_def stop_called_def split: if_splits)
next
  case (worker_next s s')
  then show ?case using worker_step_inv by blast
qed

text \<open>C9: in every reachable state the messaging service has been stopped at most once, and if so the
  worker is not running any more and every task it owns has ended; a worker that has finished has
  stopped it. So the shutdown never proceeds past a task that does not end, whatever the time-out
  of the wait, and the health check task never remains to be cancelled by \<open>main\<close>.
\<close>

theorem worker_shutdown_order:
  assumes "worker_reach health tasks s"
  shows "wk_messaging_stops s \<le> 1 \<and>
    (wk_messaging_stops s = 1 \<longrightarrow> \<not> wk_running s \<and> (\<forall>t \<in> set (owned_tasks s). task_done t)) \<and>
    (wk_phase s = Finished \<longrightarrow> wk_messaging_stops s = 1) \<and> wk_phase s \<noteq> CancellingHealthCheck"
  using worker_reach_inv [OF assms]
  by (auto simp: worker_inv_def all_ended_def owned_tasks_def stop_called_def)

section \<open>Progress\<close>

fun phase_rank :: "worker_phase \<Rightarrow> nat" where
  "phase_rank StartingHealth = 6"
| "phase_rank Gathering = 5"
| "phase_rank CancellingTasks = 4"
| "phase_rank StoppingMessaging = 3"
| "phase_rank StoppingHealth = 2"
| "phase_rank CancellingHealthCheck = 1"
| "phase_rank Finished = 0"
| "phase_rank Killed = 0"

text \<open>A bound on the steps a worker still makes, besides signals and time-outs.\<close>

definition worker_rank :: "worker \<Rightarrow> nat" where
  "worker_rank s = length (owned_pending_tasks s) + phase_rank (wk_phase s)"

lemma pending_cancel [simp]: "length (owned_pending_tasks (cancel_owned s)) = length (owned_pending_tasks s)"
  by (simp add: owned_pending_tasks_def owned_tasks_def cancel_owned_def filter_map comp_def)

lemma pending_update [simp]:
  "owned_pending_tasks (s\<lparr>wk_phase := p\<rparr>) = owned_pending_tasks s"
  "owned_pending_tasks (s\<lparr>wk_running := b\<rparr>) = owned_pending_tasks s"
  "owned_pending_tasks (s\<lparr>wk_shutdown_requested := b\<rparr>) = owned_pending_tasks s"
  "owned_pending_tasks (s\<lparr>wk_health_server := b\<rparr>) = owned_pending_tasks s"
  "owned_pending_tasks (s\<lparr>wk_messaging_stops := n\<rparr>) = owned_pending_tasks s"
  by (simp_all add: owned_pending_tasks_def owned_tasks_def)

lemma rank_call_stop [simp]: "worker_rank (call_messaging_stop s) = length (owned_pending_tasks s) + 3"
  by (simp add: call_messaging_stop_def worker_rank_def)

lemma rank_finish_main: "worker_rank (finish_main s) \<le> length (owned_pending_tasks s) + 1"
proof -
  have "length (owned_pending_tasks (s\<lparr>wk_health_task := cancel_task (wk_health_task s)\<rparr>)) =
      length (owned_pending_tasks s)"
    by (simp add: owned_pending_tasks_def owned_tasks_def)
  then show ?thesis by (simp add: finish_main_def worker_rank_def)
qed

lemma rank_begin_shutdown: "worker_rank (begin_shutdown s) \<le> length (owned_pending_tasks s) + 4"
  using rank_finish_main [of s]
  by (auto simp: begin_shutdown_def Let_def worker_rank_def [of "(cancel_owned _)\<lparr>wk_phase := _\<rparr>"])

lemma pending_end_task:
  assumes "i < length ts" and "\<not> task_done (ts ! i)"
  shows "length (filter (\<lambda>t. \<not> task_done t) ts) =
    Suc (length (filter (\<lambda>t. \<not> task_done t) (ts[i := end_task r (ts ! i)])))"
  using assms
proof (induction ts arbitrary: i)
  case (Cons t ts)
  then show ?case by (cases i) (auto simp: end_task_def)
qed simp

lemma rank_task_ends:
  assumes "i < length (wk_tasks s)" and "\<not> task_done (wk_tasks s ! i)"
  shows "Suc (worker_rank (s\<lparr>wk_tasks := (wk_tasks s)[i := end_task r (wk_tasks s ! i)]\<rparr>)) = worker_rank s"
  using pending_end_task [OF assms, of r]
  by (simp add: worker_rank_def owned_pending_tasks_def owned_tasks_def)

lemma rank_health_ends:
  assumes "\<not> task_done (wk_health_task s)"
  shows "Suc (worker_rank (s\<lparr>wk_health_task := end_task r (wk_health_task s)\<rparr>)) = worker_rank s"
  using assms by (simp add: worker_rank_def owned_pending_tasks_def owned_tasks_def end_task_def)

lemma worker_rank_mono: "worker_step s s' \<Longrightarrow> worker_rank s' \<le> worker_rank s"
proof (induction rule: worker_step.induct)
  case (task_ends s i r)
  then show ?case using rank_task_ends [of i s r] by simp
next
  case (health_task_ends s r)
  then show ?case using rank_health_ends [of s r] by simp
next
  case (signal s)
  have "worker_rank (cancel_owned x) = worker_rank x" for x by (simp add: worker_rank_def)
  then show ?case by (auto simp: handle_shutdown_def Let_def worker_rank_def)
next
  case (health_server_fails s)
  then show ?case using rank_begin_shutdown [of s] by (simp add: worker_rank_def)
next
  case (gather_fails s t)
  then show ?case using rank_begin_shutdown [of s] by (simp add: worker_rank_def)
next
  case (gather_returns s)
  then show ?case using rank_begin_shutdown [of s] by (simp add: worker_rank_def)
next
  case (messaging_stop_fails s)
  then show ?case using rank_finish_main [of s] by (simp add: worker_rank_def)
next
  case (health_server_stopped s)
  then show ?case using rank_finish_main [of "s\<lparr>wk_health_server := False\<rparr>"] by (simp add: worker_rank_def)
next
  case (health_server_stop_fails s)
  then show ?case using rank_finish_main [of s] by (simp add: worker_rank_def)
qed (simp_all add: worker_rank_def call_messaging_stop_def)

lemma some_pending_can_end:
  assumes "wk_phase s \<notin> {Finished, Killed}" and "\<not> all_ended s"
    and "(\<forall>t \<in> set (wk_tasks s). task_done t) \<Longrightarrow> \<not> wk_running s"
  shows "\<exists>s'. worker_step s s' \<and> worker_rank s' < worker_rank s"
proof (cases "\<forall>t \<in> set (wk_tasks s). task_done t")
  case True
  then have h: "\<not> task_done (wk_health_task s)" using assms(2) by (simp add: all_ended_def)
  let ?r = "if wt_cancel_requested (wk_health_task s) then Cancelled else Returned"
  have "worker_step s (s\<lparr>wk_health_task := end_task ?r (wk_health_task s)\<rparr>)"
    using assms(1,3) h True by (intro health_task_ends) auto
  with rank_health_ends [OF h, of ?r] show ?thesis by (metis Suc_n_not_le_n not_le_imp_less)
next
  case False
  then obtain i where i: "i < length (wk_tasks s)" "\<not> task_done (wk_tasks s ! i)" by (metis in_set_conv_nth)
  then have "worker_step s (s\<lparr>wk_tasks := (wk_tasks s)[i := end_task Returned (wk_tasks s ! i)]\<rparr>)"
    using assms(1) by (intro task_ends) auto
  with rank_task_ends [OF i, of Returned] show ?thesis by (metis Suc_n_not_le_n not_le_imp_less)
qed

lemma gathering_progress:
  assumes "wk_phase s = Gathering"
  shows "\<exists>s'. worker_step s s' \<and> worker_rank s' < worker_rank s"
proof -
  have less: "worker_rank (begin_shutdown s) < worker_rank s"
    using rank_begin_shutdown [of s] assms by (simp add: worker_rank_def)
  consider "\<forall>t \<in> set (wk_tasks s). wt_end t = Some Returned"
    | t where "t \<in> set (wk_tasks s)" "wt_end t \<notin> {None, Some Returned}"
    | "\<not> (\<forall>t \<in> set (wk_tasks s). task_done t)" by blast
  then show ?thesis
  proof cases
    case 1
    with assms less show ?thesis using gather_returns by blast
  next
    case 2
    with assms less show ?thesis using gather_fails by blast
  next
    case 3
    with assms show ?thesis by (intro some_pending_can_end) (auto simp: all_ended_def)
  qed
qed


definition demo_worker :: worker where
  "demo_worker = \<lparr>wk_running = True, wk_tasks = [new_task ''kafka_consumer''],
     wk_health_task = new_task ''health_check_loop'', wk_phase = Gathering, wk_shutdown_requested = False,
     wk_health_server = False, wk_messaging_stops = 0\<rparr>"

lemma demo_worker_reach: "worker_reach False (initialize_worker_tasks True) demo_worker"
  by (rule worker_start) (simp add: worker_main_def initialize_worker_tasks_def demo_worker_def)

text \<open>The worker after its task has failed and the health check been cancelled.\<close>

lemma demo_worker_stopped:
  obtains s where "worker_reach False (initialize_worker_tasks True) s" and "wk_messaging_stops s = 1"
    and "wk_phase s = Finished"
proof -
  let ?R = "worker_reach False (initialize_worker_tasks True)"
  let ?t = "new_task ''kafka_consumer''" and ?h = "new_task ''health_check_loop''"
  let ?e = "end_task (Raised (UserError ''broker'')) ?t"
  let ?a = "demo_worker\<lparr>wk_tasks := [?e]\<rparr>"
  let ?b = "?a\<lparr>wk_running := False, wk_health_task := cancel_task ?h, wk_phase := CancellingTasks\<rparr>"
  let ?c = "?b\<lparr>wk_health_task := end_task Cancelled (cancel_task ?h)\<rparr>"
  have a: "worker_step demo_worker ?a"
    using task_ends [of demo_worker 0 "Raised (UserError ''broker'')"] by (simp add: demo_worker_def new_task_def)
  have "worker_step ?a (begin_shutdown ?a)"
    by (rule gather_fails [where t = ?e]) (simp_all add: demo_worker_def end_task_def)
  moreover have "begin_shutdown ?a = ?b"
    by (simp add: begin_shutdown_def demo_worker_def owned_pending_tasks_def owned_tasks_def cancel_owned_def
        end_task_def new_task_def cancel_task_def)
  ultimately have b: "worker_step ?a ?b" by simp
  have c: "worker_step ?b ?c"
    using health_task_ends [of ?b Cancelled] by (simp add: demo_worker_def new_task_def cancel_task_def)
  have d: "worker_step ?c (call_messaging_stop ?c)"
    by (rule tasks_cancelled)
      (simp_all add: owned_pending_tasks_def owned_tasks_def demo_worker_def end_task_def)
  have e: "worker_step (call_messaging_stop ?c) (finish_main (call_messaging_stop ?c))"
    by (rule messaging_stop_fails) (simp add: call_messaging_stop_def)
  have "?R (finish_main (call_messaging_stop ?c))"
    by (rule worker_next [OF worker_next [OF worker_next [OF worker_next [OF worker_next
        [OF demo_worker_reach a] b] c] d] e])
  moreover have "wk_messaging_stops (finish_main (call_messaging_stop ?c)) = 1"
    "wk_phase (finish_main (call_messaging_stop ?c)) = Finished"
    by (simp_all add: finish_main_def call_messaging_stop_def demo_worker_def end_task_def)
  ultimately show thesis by (rule that)
qed

theorem worker_shutdown_order_witness:
  "\<exists>s. worker_reach False (initialize_worker_tasks True) s \<and> wk_messaging_stops s = 1 \<and> \<not> wk_running s"
proof -
  obtain s where "worker_reach False (initialize_worker_tasks True) s" "wk_messaging_stops s = 1"
    by (rule demo_worker_stopped)
  with worker_shutdown_order [OF this(1)] show ?thesis by auto
qed


text \<open>The endpoint answers 200 exactly while the worker runs and none of its tasks has ended.\<close>

lemma health_check_ok_iff:
  "fst (health_check_handler s) = 200 \<longleftrightarrow> wk_running s \<and> (\<forall>t \<in> set (wk_tasks s). \<not> task_done t)"
  by (auto simp: health_check_handler_def Let_def filter_empty_conv)

end
