(* ===== verification/Redis_Store.thy ===== *)
theory Redis_Store
  imports Taas_Prelude "HOL-Library.Sublist"
begin

text \<open>
  \<open>libs/store_redis/src/store_redis/redis_store.py\<close>: the key/value store behind the response cache and
  the circuit breaker repository. The Redis commands it issues are the parameter \<open>ops\<close>, on an opaque
  server state \<open>'b\<close>; the locale \<open>redis_server\<close> states what Redis documents of them, and a map with
  expiry times shows that this can be met. Times and lifetimes are seconds; a value is a byte string
  of an opaque type \<open>'v\<close>.
\<close>

section \<open>The commands\<close>

text \<open>\<open>GET\<close>, \<open>TTL\<close> (\<open>-2\<close> without the key, \<open>-1\<close> without an expiry), \<open>SET\<close> with an optional \<open>EX\<close>,
  \<open>EXPIRE\<close>, and the deletion of the keys with a property (\<open>DEL\<close> of one key, or \<open>SCAN MATCH\<close> with
  \<open>UNLINK\<close>).\<close>

record ('b, 'v) redis_ops =
  ro_get :: "int \<Rightarrow> string \<Rightarrow> 'b \<Rightarrow> 'v option"
  ro_ttl :: "int \<Rightarrow> string \<Rightarrow> 'b \<Rightarrow> int"
  ro_set :: "int \<Rightarrow> string \<Rightarrow> 'v \<Rightarrow> int option \<Rightarrow> 'b \<Rightarrow> py_exn + 'b"
  ro_expire :: "int \<Rightarrow> string \<Rightarrow> int \<Rightarrow> 'b \<Rightarrow> 'b"
  ro_unlink :: "(string \<Rightarrow> bool) \<Rightarrow> 'b \<Rightarrow> 'b"

locale redis_server =
  fixes ops :: "('b, 'v) redis_ops"
  assumes get_set_now: "ro_set ops now k v ex b = Inr b' \<Longrightarrow> ro_get ops now k b' = Some v"
    and get_set_same: "ro_set ops now k v ex b = Inr b' \<Longrightarrow> ro_get ops t k b' = Some w \<Longrightarrow> w = v"
    and get_set_other: "ro_set ops now k v ex b = Inr b' \<Longrightarrow> k' \<noteq> k \<Longrightarrow> ro_get ops t k' b' = ro_get ops t k' b"
    and set_positive: "(case ex of None \<Rightarrow> True | Some n \<Rightarrow> n > 0) \<Longrightarrow> \<exists>b'. ro_set ops now k v ex b = Inr b'"
    and ttl_set: "ro_set ops now k v ex b = Inr b' \<Longrightarrow> ro_ttl ops now k b' = (case ex of None \<Rightarrow> - 1 | Some n \<Rightarrow> n)"
    and get_expire_past: "n \<le> 0 \<Longrightarrow> ro_get ops t k (ro_expire ops now k n b) = None"
    and get_expire_same: "ro_get ops t k (ro_expire ops now k n b) = Some w \<Longrightarrow> \<exists>t'. ro_get ops t' k b = Some w"
    and get_expire_other: "k' \<noteq> k \<Longrightarrow> ro_get ops t k' (ro_expire ops now k n b) = ro_get ops t k' b"
    and get_unlink: "ro_get ops t k (ro_unlink ops P b) = (if P k then None else ro_get ops t k b)"

section \<open>The store\<close>

text \<open>The namespace: none, or a text; the constructor's default is \<open>TAAS\<close>.\<close>

definition store_namespace :: "string option option \<Rightarrow> string option" where
  "store_namespace arg = (case arg of None \<Rightarrow> Some ''TAAS'' | Some ns \<Rightarrow> ns)"

definition with_namespace :: "string option \<Rightarrow> string \<Rightarrow> string option" where
  "with_namespace ns name = (if str_truthy ns then Some (the ns @ ''_'' @ name) else Some name)"

definition make_key :: "string option \<Rightarrow> string \<Rightarrow> string" where
  "make_key ns key = (if str_truthy ns then the ns @ '':'' @ key else key)"

text \<open>A lifetime is a number of seconds or a \<open>timedelta\<close>, here its fields \<open>days\<close> and \<open>seconds\<close>.\<close>

datatype lifetime = Seconds int | Timedelta int int

definition lifetime_truthy :: "lifetime \<Rightarrow> bool" where
  "lifetime_truthy l = (case l of Seconds n \<Rightarrow> n \<noteq> 0 | Timedelta d s \<Rightarrow> d \<noteq> 0 \<or> s \<noteq> 0)"

text \<open>\<open>renew_for.seconds\<close> is a field, not the length of the interval; the client library converts the
  lifetime of \<open>SET\<close> by its total.\<close>

definition renew_seconds :: "lifetime \<Rightarrow> int" where
  "renew_seconds l = (case l of Seconds n \<Rightarrow> n | Timedelta d s \<Rightarrow> s)"

definition total_seconds :: "lifetime \<Rightarrow> int" where
  "total_seconds l = (case l of Seconds n \<Rightarrow> n | Timedelta d s \<Rightarrow> d * 86400 + s)"

definition store_set ::
  "('b, 'v) redis_ops \<Rightarrow> string option \<Rightarrow> int \<Rightarrow> string \<Rightarrow> 'v \<Rightarrow> lifetime option \<Rightarrow> ('b, unit) eff" where
  "store_set ops ns now key v expires_in b =
     (case ro_set ops now (make_key ns key) v (map_option total_seconds expires_in) b of
        Inl e \<Rightarrow> (Inl e, b) | Inr b' \<Rightarrow> (Inr (), b'))"

definition store_get ::
  "('b, 'v) redis_ops \<Rightarrow> string option \<Rightarrow> int \<Rightarrow> string \<Rightarrow> lifetime option \<Rightarrow> ('b, 'v option) eff" where
  "store_get ops ns now key renew_for b =
     (let k = make_key ns key; data = ro_get ops now k b in
      case renew_for of
        None \<Rightarrow> (Inr data, b)
      | Some l \<Rightarrow>
          if \<not> lifetime_truthy l then (Inr data, b)
          else if ro_ttl ops now k b > 0 then (Inr data, ro_expire ops now k (renew_seconds l) b)
          else (Inr data, b))"

definition store_delete :: "('b, 'v) redis_ops \<Rightarrow> string option \<Rightarrow> string \<Rightarrow> ('b, unit) eff" where
  "store_delete ops ns key b = (Inr (), ro_unlink ops (\<lambda>k. k = make_key ns key) b)"

text \<open>The pattern \<open>{namespace}*:*\<close>, for a namespace without glob characters.\<close>

definition in_bulk_pattern :: "string \<Rightarrow> string \<Rightarrow> bool" where
  "in_bulk_pattern ns k \<longleftrightarrow> prefix ns k \<and> CHR '':'' \<in> set (drop (length ns) k)"

definition store_delete_all :: "('b, 'v) redis_ops \<Rightarrow> string option \<Rightarrow> ('b, unit) eff" where
  "store_delete_all ops ns b =
     (if \<not> str_truthy ns then (Inl (UserError ''ImproperlyConfiguredException''), b)
      else (Inr (), ro_unlink ops (in_bulk_pattern (the ns)) b))"

definition store_exists :: "('b, 'v) redis_ops \<Rightarrow> string option \<Rightarrow> int \<Rightarrow> string \<Rightarrow> ('b, bool) eff" where
  "store_exists ops ns now key b = (Inr (ro_get ops now (make_key ns key) b \<noteq> None), b)"

definition store_expires_in :: "('b, 'v) redis_ops \<Rightarrow> string option \<Rightarrow> int \<Rightarrow> string \<Rightarrow> ('b, int option) eff" where
  "store_expires_in ops ns now key b =
     (let ttl = ro_ttl ops now (make_key ns key) b in (Inr (if ttl = - 2 then None else Some ttl), b))"

section \<open>A server that meets the documentation\<close>

type_synonym 'v expiring_map = "string \<rightharpoonup> ('v \<times> int option)"

definition live :: "int \<Rightarrow> 'v \<times> int option \<Rightarrow> bool" where
  "live now x = (case snd x of None \<Rightarrow> True | Some t \<Rightarrow> now < t)"

definition expiring_ops :: "('v expiring_map, 'v) redis_ops" where
  "expiring_ops = \<lparr>
     ro_get = (\<lambda>now k b. case b k of None \<Rightarrow> None | Some x \<Rightarrow> if live now x then Some (fst x) else None),
     ro_ttl = (\<lambda>now k b. case b k of None \<Rightarrow> - 2
       | Some x \<Rightarrow> if live now x then (case snd x of None \<Rightarrow> - 1 | Some t \<Rightarrow> t - now) else - 2),
     ro_set = (\<lambda>now k v ex b. case ex of None \<Rightarrow> Inr (b(k \<mapsto> (v, None)))
       | Some n \<Rightarrow> if n > 0 then Inr (b(k \<mapsto> (v, Some (now + n)))) else Inl (ValueError ''invalid expire time'')),
     ro_expire = (\<lambda>now k n b. case b k of None \<Rightarrow> b
       | Some x \<Rightarrow> if n \<le> 0 \<or> \<not> live now x then b(k := None) else b(k \<mapsto> (fst x, Some (now + n)))),
     ro_unlink = (\<lambda>P b k. if P k then None else b k)\<rparr>"

interpretation expiring: redis_server expiring_ops
proof (unfold_locales, goal_cases)
  case (7 t k now n b w)
  then show ?case by (auto simp: expiring_ops_def split: option.splits if_splits)
qed (auto simp: expiring_ops_def live_def split: option.splits if_splits)

section \<open>Lemmas\<close>

lemma make_key_inject:
  assumes "CHR '':'' \<notin> set ns" and "CHR '':'' \<notin> set ns'" and "ns \<noteq> []" and "ns' \<noteq> []"
  shows "make_key (Some ns) k = make_key (Some ns') k' \<longleftrightarrow> ns = ns' \<and> k = k'"
proof -
  have "ns @ CHR '':'' # k = ns' @ CHR '':'' # k' \<longleftrightarrow> ns = ns' \<and> k = k'"
    using assms(1,2) by (auto simp: append_eq_append_conv2 Cons_eq_append_conv append_eq_Cons_conv)
  then show ?thesis using assms(3,4) by (simp add: make_key_def str_truthy_def)
qed

context redis_server
begin

lemma store_set_get:
  assumes "store_set ops ns now key v ex b = (Inr (), b')"
  shows "fst (store_get ops ns now key None b') = Inr (Some v)"
    and "make_key ns' key' \<noteq> make_key ns key \<Longrightarrow>
      fst (store_get ops ns' t key' None b') = fst (store_get ops ns' t key' None b)"
  using assms by (auto simp: store_set_def store_get_def Let_def get_set_now get_set_other split: sum.splits)

lemma store_renew_days:
  assumes "ro_ttl ops now (make_key ns key) b > 0" and "d \<noteq> 0"
  shows "fst (store_get ops ns t key None (snd (store_get ops ns now key (Some (Timedelta d 0)) b))) = Inr None"
  using assms by (simp add: store_get_def Let_def lifetime_truthy_def renew_seconds_def get_expire_past)

lemma store_delete_all_get:
  assumes "ns \<noteq> []" and "store_delete_all ops (Some ns) b = (r, b')"
  shows "r = Inr () \<and> fst (store_get ops ns' t key None b') =
    (if in_bulk_pattern ns (make_key ns' key) then Inr None else fst (store_get ops ns' t key None b))"
  using assms by (auto simp: store_delete_all_def store_get_def str_truthy_def get_unlink)

end

lemma in_bulk_pattern_sibling:
  "in_bulk_pattern ns (make_key (Some (ns @ sfx)) key)" if "ns \<noteq> []"
  using that by (auto simp: in_bulk_pattern_def make_key_def str_truthy_def)

section \<open>Properties\<close>

text \<open>The store is a map per namespace. For namespaces without a colon, what is set is what the
  next get returns, and a set changes nothing that any other key of any other namespace returns,
  at any time.\<close>

theorem redis_namespaces_isolated:
  assumes "redis_server ops" and "store_set ops (Some ns) now key v ex b = (Inr (), b')"
    and "CHR '':'' \<notin> set ns" and "CHR '':'' \<notin> set ns'" and "ns \<noteq> []" and "ns' \<noteq> []"
  shows "fst (store_get ops (Some ns) now key None b') = Inr (Some v) \<and>
    (ns' \<noteq> ns \<or> key' \<noteq> key \<longrightarrow>
      fst (store_get ops (Some ns') t key' None b') = fst (store_get ops (Some ns') t key' None b))"
  using redis_server.store_set_get [OF assms(1,2)] make_key_inject [OF assms(4,3,6,5), of key' key] by blast

definition demo_map :: "nat expiring_map" where
  "demo_map = [''TAAS:a'' \<mapsto> (1, Some 500), ''TAAS2:b'' \<mapsto> (2, None)]"

lemma redis_namespaces_isolated_witness:
  "fst (store_get expiring_ops (Some ''TAAS'') 0 ''c'' None (demo_map(''TAAS:c'' \<mapsto> (7, Some 60)))) = Inr (Some (7::nat)) \<and>
   fst (store_get expiring_ops (Some ''TAAS2'') 9 ''b'' None (demo_map(''TAAS:c'' \<mapsto> (7, Some 60)))) =
     fst (store_get expiring_ops (Some ''TAAS2'') 9 ''b'' None demo_map)"
proof -
  have "store_set expiring_ops (Some ''TAAS'') 0 ''c'' 7 (Some (Seconds 60)) demo_map =
      (Inr (), demo_map(''TAAS:c'' \<mapsto> (7, Some 60)))"
    by (simp add: store_set_def expiring_ops_def make_key_def str_truthy_def total_seconds_def)
  from redis_namespaces_isolated [OF expiring.redis_server_axioms this, of "''TAAS2''" "''b''" 9]
  show ?thesis by simp
qed

text \<open>A bulk deletion reaches beyond its children. \<open>delete_all\<close> removes the keys of every namespace
  whose name begins with that of the store, so also of unrelated ones (\<open>TAAS2\<close> beside \<open>TAAS\<close>), and
  leaves every other key alone.\<close>

theorem redis_delete_all_reaches_siblings:
  assumes "redis_server ops" and "store_delete_all ops (Some ns) b = (r, b')" and "ns \<noteq> []"
  shows "(prefix ns ns' \<longrightarrow> fst (store_get ops (Some ns') t key None b') = Inr None) \<and>
    (\<not> prefix ns (make_key (Some ns') key) \<longrightarrow>
      fst (store_get ops (Some ns') t key None b') = fst (store_get ops (Some ns') t key None b))"
proof -
  have "prefix ns ns' \<Longrightarrow> in_bulk_pattern ns (make_key (Some ns') key)"
    using in_bulk_pattern_sibling [OF assms(3)] by (auto simp: prefix_def)
  moreover have "in_bulk_pattern ns k \<Longrightarrow> prefix ns k" for k by (simp add: in_bulk_pattern_def)
  ultimately show ?thesis using redis_server.store_delete_all_get [OF assms(1,3,2), of "Some ns'" t key] by auto
qed

lemma redis_delete_all_reaches_siblings_witness:
  "fst (store_get expiring_ops (Some ''TAAS2'') 9 ''b'' None (snd (store_delete_all expiring_ops (Some ''TAAS'') demo_map))) = Inr None"
  using redis_delete_all_reaches_siblings [OF expiring.redis_server_axioms prod.collapse [symmetric],
      where ns = "''TAAS''" and b = demo_map and ns' = "''TAAS2''" and t = 9 and key = "''b''"]
  by simp

text \<open>Renewing by whole days deletes. A get with \<open>renew_for\<close> a \<open>timedelta\<close> of a whole number of days
  on a key that has an expiry time returns the value and removes the key, because the field
  \<open>seconds\<close> of such an interval is zero.\<close>

theorem redis_renew_by_days_deletes:
  assumes "redis_server ops" and "ro_ttl ops now (make_key ns key) b > 0" and "d \<noteq> 0"
  shows "fst (store_get ops ns now key (Some (Timedelta d 0)) b) = Inr (ro_get ops now (make_key ns key) b) \<and>
    fst (store_get ops ns t key None (snd (store_get ops ns now key (Some (Timedelta d 0)) b))) = Inr None"
  using redis_server.store_renew_days [OF assms] by (simp add: store_get_def Let_def)

lemma redis_renew_by_days_deletes_witness:
  "fst (store_get expiring_ops (Some ''TAAS'') 11 ''a'' None
     (snd (store_get expiring_ops (Some ''TAAS'') 10 ''a'' (Some (Timedelta 1 0)) demo_map))) = Inr None"
proof -
  have "ro_ttl expiring_ops 10 (make_key (Some ''TAAS'') ''a'') demo_map > 0"
    by (simp add: expiring_ops_def make_key_def str_truthy_def demo_map_def live_def)
  from redis_renew_by_days_deletes [OF expiring.redis_server_axioms this, where d = 1 and t = 11] show ?thesis by simp
qed

end
