(* ===== verification/Http_Cache.thy ===== *)
theory Http_Cache
  imports Redis_Store
begin

text \<open>
  \<open>libs/foundation/src/foundation/http/cache.py\<close> and \<open>cache_key_builer.py\<close>: the decorator that caches
  the responses of an endpoint. One decorator is a state (the two variables it rebinds) that all
  calls share; the backend is reached through the operations of \<open>CacheServiceT\<close>, which are
  parameters here and provided by the Redis store. The JSON codec, the digest in the entity tag and
  the endpoint are parameters. \<open>'a\<close> stands for the arguments of the endpoint, the identity of the
  caller included.
\<close>

section \<open>Requests, responses, configuration\<close>

record cache_request =
  cq_path :: string
  cq_method :: string
  cq_cache_control :: "string option"
  cq_if_none_match :: "string option"

record cache_config =
  cc_enabled :: bool
  cc_key_prefix :: string
  cc_ttl :: int

type_synonym headers = "string \<rightharpoonup> string"

record cache_response =
  cp_status :: int
  cp_headers :: headers

record 'a cache_call =
  ck_request :: "cache_request option"
  ck_response :: "cache_response option"
  ck_opts :: "string option"
  ck_args :: 'a

definition HTTP_304_NOT_MODIFIED :: int where "HTTP_304_NOT_MODIFIED = 304"

text \<open>What the wrapper returns: the value of the endpoint, or the response object of a 304.\<close>

datatype 'r cache_result = Result 'r | Not_Modified

section \<open>Keys\<close>

text \<open>The builder gets the function, and ignores it.\<close>

definition custom_cache_key_builder :: "'f \<Rightarrow> string \<Rightarrow> 'a cache_call \<Rightarrow> string" where
  "custom_cache_key_builder func namespace c =
     namespace @ '':'' @
     (case ck_request c of None \<Rightarrow> [] | Some r \<Rightarrow> cq_path r @ '':'') @
     (case ck_opts c of None \<Rightarrow> [] | Some s \<Rightarrow> s)"

definition default_key_builder ::
  "(string \<Rightarrow> string) \<Rightarrow> ('f \<Rightarrow> string) \<Rightarrow> ('a \<Rightarrow> string) \<Rightarrow> 'f \<Rightarrow> string \<Rightarrow> 'a cache_call \<Rightarrow> string" where
  "default_key_builder md5 fn_id show_args func namespace c =
     namespace @ '':'' @ md5 (fn_id func @ '':'' @ show_args (ck_args c))"

definition full_namespace :: "string \<Rightarrow> string \<Rightarrow> string" where
  "full_namespace key_prefix namespace = (if namespace \<noteq> [] then key_prefix @ '':'' @ namespace else key_prefix)"

definition uncacheable :: "cache_config \<Rightarrow> cache_request option \<Rightarrow> bool" where
  "uncacheable cfg rq = (\<not> cc_enabled cfg \<or> (case rq of None \<Rightarrow> False
     | Some r \<Rightarrow> cq_method r \<noteq> ''GET'' \<or> cq_cache_control r = Some ''no-store''))"

section \<open>The decorated endpoint\<close>

record ('b, 'v, 'r) cache_env =
  ce_get :: "string \<Rightarrow> ('b, 'v option) eff"
  ce_expires_in :: "string \<Rightarrow> ('b, int option) eff"
  ce_set :: "string \<Rightarrow> 'v \<Rightarrow> int \<Rightarrow> ('b, unit) eff"
  ce_encode :: "'r \<Rightarrow> 'v option"
  ce_decode :: "'v \<Rightarrow> 'r option"
  ce_etag :: "'v \<Rightarrow> string"
  ce_show :: "int \<Rightarrow> string"
  ce_config :: cache_config

record ('b, 'w) cache_state =
  cs_expire :: "int option"
  cs_backend :: 'b
  cs_world :: 'w

text \<open>The read of the backend: the value with its remaining lifetime; an exception is a miss.\<close>

definition cache_lookup :: "('b, 'v, 'r) cache_env \<Rightarrow> string \<Rightarrow> ('b, 'v option \<times> int option) eff" where
  "cache_lookup env k = eff_catch
     (eff_bind (ce_get env k) (\<lambda>c. case c of
        None \<Rightarrow> eff_return (None, None)
      | Some v \<Rightarrow> eff_bind (ce_expires_in env k) (\<lambda>ttl. eff_return (Some v, ttl))))
     is_exception (\<lambda>_. eff_return (None, None))"

definition cache_store_value :: "('b, 'v, 'r) cache_env \<Rightarrow> string \<Rightarrow> 'v \<Rightarrow> int \<Rightarrow> ('b, unit) eff" where
  "cache_store_value env k v expire = eff_catch (ce_set env k v expire) is_exception (\<lambda>_. eff_return ())"

definition response_headers :: "string \<Rightarrow> string \<Rightarrow> string \<Rightarrow> cache_response \<Rightarrow> cache_response" where
  "response_headers control etag how p = p\<lparr>cp_headers := (cp_headers p)
     (''Cache-Control'' \<mapsto> control, ''ETag'' \<mapsto> etag, ''X-Cache'' \<mapsto> how)\<rparr>"

definition weak_etag :: "('b, 'v, 'r) cache_env \<Rightarrow> 'v \<Rightarrow> string" where
  "weak_etag env v = ''W/'' @ [CHR 0x22] @ ce_etag env v @ [CHR 0x22]"

definition max_age :: "('b, 'v, 'r) cache_env \<Rightarrow> int \<Rightarrow> string" where
  "max_age env n = ''max-age='' @ ce_show env n"

definition call_endpoint ::
  "('w, 'r) eff \<Rightarrow> cache_response option \<Rightarrow> ('b, 'w) cache_state \<Rightarrow>
   (py_exn + 'r cache_result \<times> cache_response option) \<times> ('b, 'w) cache_state" where
  "call_endpoint func p s = (case func (cs_world s) of
     (Inl e, w) \<Rightarrow> (Inl e, s\<lparr>cs_world := w\<rparr>)
   | (Inr r, w) \<Rightarrow> (Inr (Result r, p), s\<lparr>cs_world := w\<rparr>))"

definition cache_miss ::
  "('b, 'v, 'r) cache_env \<Rightarrow> string \<Rightarrow> int \<Rightarrow> ('w, 'r) eff \<Rightarrow> cache_response option \<Rightarrow> ('b, 'w) cache_state \<Rightarrow>
   (py_exn + 'r cache_result \<times> cache_response option) \<times> ('b, 'w) cache_state" where
  "cache_miss env k expire func p s = (case func (cs_world s) of
     (Inl e, w) \<Rightarrow> (Inl e, s\<lparr>cs_world := w\<rparr>)
   | (Inr r, w) \<Rightarrow> (let s1 = s\<lparr>cs_world := w\<rparr> in
       case ce_encode env r of
         None \<Rightarrow> (Inr (Result r, p), s1)
       | Some v \<Rightarrow> (case cache_store_value env k v expire (cs_backend s1) of
           (Inl e, b) \<Rightarrow> (Inl e, s1\<lparr>cs_backend := b\<rparr>)
         | (Inr _, b) \<Rightarrow> (Inr (Result r,
               map_option (response_headers (max_age env expire) (weak_etag env v) ''MISS'') p),
             s1\<lparr>cs_backend := b\<rparr>))))"

definition cache_hit ::
  "('b, 'v, 'r) cache_env \<Rightarrow> 'v \<Rightarrow> int option \<Rightarrow> int \<Rightarrow> 'a cache_call \<Rightarrow> ('w, 'r) eff \<Rightarrow> ('b, 'w) cache_state \<Rightarrow>
   (py_exn + 'r cache_result \<times> cache_response option) \<times> ('b, 'w) cache_state" where
  "cache_hit env v ttl expire c func s =
     (let etag = weak_etag env v;
          p = map_option (response_headers (max_age env (if_none ttl expire)) etag ''HIT'') (ck_response c)
      in if p \<noteq> None \<and> (case ck_request c of None \<Rightarrow> None | Some r \<Rightarrow> cq_if_none_match r) = Some etag
         then (Inr (Not_Modified, map_option (\<lambda>x. x\<lparr>cp_status := HTTP_304_NOT_MODIFIED\<rparr>) p), s)
         else (case ce_decode env v of
             Some r \<Rightarrow> (Inr (Result r, p), s)
           | None \<Rightarrow> call_endpoint func p s))"

definition cache_inner ::
  "('b, 'v, 'r) cache_env \<Rightarrow> ('f \<Rightarrow> string \<Rightarrow> 'a cache_call \<Rightarrow> string) \<Rightarrow> string \<Rightarrow> 'f \<Rightarrow> ('a \<Rightarrow> ('w, 'r) eff) \<Rightarrow>
   'a cache_call \<Rightarrow> ('b, 'w) cache_state \<Rightarrow>
   (py_exn + 'r cache_result \<times> cache_response option) \<times> ('b, 'w) cache_state" where
  "cache_inner env key_builder namespace fid func c s =
     (if uncacheable (ce_config env) (ck_request c) then call_endpoint (func (ck_args c)) (ck_response c) s
      else (let expire = or_int (cs_expire s) (cc_ttl (ce_config env));
                s0 = s\<lparr>cs_expire := Some expire\<rparr>;
                k = key_builder fid (full_namespace (cc_key_prefix (ce_config env)) namespace) c;
                force = (case ck_request c of None \<Rightarrow> False | Some r \<Rightarrow> cq_cache_control r = Some ''no-cache'')
            in case cache_lookup env k (cs_backend s0) of
                 (Inl e, b) \<Rightarrow> (Inl e, s0\<lparr>cs_backend := b\<rparr>)
               | (Inr (cached, ttl), b) \<Rightarrow> (let s1 = s0\<lparr>cs_backend := b\<rparr> in
                   case cached of
                     None \<Rightarrow> cache_miss env k expire (func (ck_args c)) (ck_response c) s1
                   | Some v \<Rightarrow>
                       if force then cache_miss env k expire (func (ck_args c)) (ck_response c) s1
                       else cache_hit env v ttl expire c (func (ck_args c)) s1)))"

section \<open>What the cache needs of a backend\<close>

text \<open>A value read later was written under the same key, or could be read before.\<close>

locale cache_backend =
  fixes bget :: "int \<Rightarrow> string \<Rightarrow> ('b, 'v option) eff"
    and bttl :: "int \<Rightarrow> string \<Rightarrow> ('b, int option) eff"
    and bset :: "int \<Rightarrow> string \<Rightarrow> 'v \<Rightarrow> int \<Rightarrow> ('b, unit) eff"
  assumes after_get: "fst (bget t k (snd (bget now k' b))) = Inr (Some v) \<Longrightarrow> \<exists>t'. fst (bget t' k b) = Inr (Some v)"
    and after_ttl: "fst (bget t k (snd (bttl now k' b))) = Inr (Some v) \<Longrightarrow> \<exists>t'. fst (bget t' k b) = Inr (Some v)"
    and after_set: "fst (bget t k (snd (bset now k' w ex b))) = Inr (Some v) \<Longrightarrow>
      k = k' \<and> v = w \<or> (\<exists>t'. fst (bget t' k b) = Inr (Some v))"
begin

definition holds :: "(string \<Rightarrow> 'v \<Rightarrow> bool) \<Rightarrow> 'b \<Rightarrow> bool" where
  "holds good b \<longleftrightarrow> (\<forall>t k v. fst (bget t k b) = Inr (Some v) \<longrightarrow> good k v)"

lemma holds_get: "holds good b \<Longrightarrow> holds good (snd (bget now k b))"
  unfolding holds_def using after_get by blast

lemma holds_ttl: "holds good b \<Longrightarrow> holds good (snd (bttl now k b))"
  unfolding holds_def using after_ttl by blast

lemma holds_set: "holds good b \<Longrightarrow> good k v \<Longrightarrow> holds good (snd (bset now k v ex b))"
  unfolding holds_def using after_set by blast

definition uses :: "int \<Rightarrow> ('b, 'v, 'r) cache_env \<Rightarrow> bool" where
  "uses now env \<longleftrightarrow> ce_get env = bget now \<and> ce_expires_in env = bttl now \<and> ce_set env = bset now"

lemma lookup_holds:
  assumes "uses now env" and "holds good b" and "cache_lookup env k b = (r, b')"
  shows "holds good b' \<and> (\<forall>v ttl. r = Inr (Some v, ttl) \<longrightarrow> good k v)"
proof -
  obtain c b1 where g: "bget now k b = (c, b1)" by (rule prod.exhaust)
  have h1: "holds good b1" using holds_get [OF assms(2), of now k] g by simp
  obtain d b2 where t: "bttl now k b1 = (d, b2)" by (rule prod.exhaust)
  have h2: "holds good b2" using holds_ttl [OF h1, of now k] t by simp
  have "c = Inr (Some v) \<Longrightarrow> good k v" for v using assms(2) g unfolding holds_def by (metis fst_conv)
  then show ?thesis
    using assms(1,3) g t h1 h2
    by (auto simp: cache_lookup_def uses_def eff_simps split: sum.splits option.splits if_splits)
qed

lemma store_value_holds:
  assumes "uses now env" and "holds good b" and "good k v" and "cache_store_value env k v ex b = (r, b')"
  shows "holds good b'"
proof -
  obtain c b1 where g: "bset now k v ex b = (c, b1)" by (rule prod.exhaust)
  have "holds good b1" using holds_set [OF assms(2,3), of now ex] g by simp
  then show ?thesis using assms(1,4) g
    by (auto simp: cache_store_value_def uses_def eff_simps split: sum.splits if_splits)
qed

end

definition redis_cache_get :: "('b, 'v) redis_ops \<Rightarrow> int \<Rightarrow> string \<Rightarrow> ('b, 'v option) eff" where
  "redis_cache_get ops now k = store_get ops (Some ''TAAS'') now k None"

definition redis_cache_ttl :: "('b, 'v) redis_ops \<Rightarrow> int \<Rightarrow> string \<Rightarrow> ('b, int option) eff" where
  "redis_cache_ttl ops now k = store_expires_in ops (Some ''TAAS'') now k"

definition redis_cache_set :: "('b, 'v) redis_ops \<Rightarrow> int \<Rightarrow> string \<Rightarrow> 'v \<Rightarrow> int \<Rightarrow> ('b, unit) eff" where
  "redis_cache_set ops now k v ex = store_set ops (Some ''TAAS'') now k v (Some (Seconds ex))"

sublocale redis_server \<subseteq> store: cache_backend "redis_cache_get ops" "redis_cache_ttl ops" "redis_cache_set ops"
proof
  fix t now k k' v w ex b
  show "fst (redis_cache_get ops t k (snd (redis_cache_get ops now k' b))) = Inr (Some v) \<Longrightarrow>
      \<exists>t'. fst (redis_cache_get ops t' k b) = Inr (Some v)"
    by (auto simp: redis_cache_get_def store_get_def)
  show "fst (redis_cache_get ops t k (snd (redis_cache_ttl ops now k' b))) = Inr (Some v) \<Longrightarrow>
      \<exists>t'. fst (redis_cache_get ops t' k b) = Inr (Some v)"
    by (auto simp: redis_cache_get_def redis_cache_ttl_def store_get_def store_expires_in_def Let_def)
  assume a: "fst (redis_cache_get ops t k (snd (redis_cache_set ops now k' w ex b))) = Inr (Some v)"
  have inj: "make_key (Some ''TAAS'') k = make_key (Some ''TAAS'') k' \<longleftrightarrow> k = k'"
    by (simp add: make_key_def str_truthy_def)
  show "k = k' \<and> v = w \<or> (\<exists>t'. fst (redis_cache_get ops t' k b) = Inr (Some v))"
  proof (cases "ro_set ops now (make_key (Some ''TAAS'') k') w (Some ex) b")
    case (Inl e)
    with a show ?thesis by (auto simp: redis_cache_get_def redis_cache_set_def store_set_def total_seconds_def)
  next
    case (Inr b')
    then have "ro_get ops t (make_key (Some ''TAAS'') k) b' = Some v"
      using a by (simp add: redis_cache_get_def redis_cache_set_def store_set_def store_get_def total_seconds_def)
    then show ?thesis
      using get_set_same [OF Inr] get_set_other [OF Inr] inj
      by (cases "k = k'") (auto simp: redis_cache_get_def store_get_def)
  qed
qed

interpretation expiring_cache: cache_backend
  "redis_cache_get (expiring_ops :: (nat expiring_map, nat) redis_ops)"
  "redis_cache_ttl expiring_ops" "redis_cache_set expiring_ops"
  by unfold_locales

section \<open>The endpoint behind the cache\<close>

text \<open>The parameters of the decorator that do not change between calls.\<close>

record ('v, 'r) cache_codec =
  co_encode :: "'r \<Rightarrow> 'v option"
  co_decode :: "'v \<Rightarrow> 'r option"
  co_etag :: "'v \<Rightarrow> string"
  co_show :: "int \<Rightarrow> string"

definition redis_env :: "('b, 'v) redis_ops \<Rightarrow> ('v, 'r) cache_codec \<Rightarrow> int \<Rightarrow> cache_config \<Rightarrow> ('b, 'v, 'r) cache_env" where
  "redis_env ops co now cfg = \<lparr>ce_get = redis_cache_get ops now, ce_expires_in = redis_cache_ttl ops now,
     ce_set = redis_cache_set ops now, ce_encode = co_encode co, ce_decode = co_decode co,
     ce_etag = co_etag co, ce_show = co_show co, ce_config = cfg\<rparr>"

text \<open>A run of calls of one decorated function, with the time and the configuration at each.\<close>

fun cache_run ::
  "('b, 'v) redis_ops \<Rightarrow> ('v, 'r) cache_codec \<Rightarrow> ('f \<Rightarrow> string \<Rightarrow> 'a cache_call \<Rightarrow> string) \<Rightarrow> string \<Rightarrow> 'f \<Rightarrow>
   ('a \<Rightarrow> ('w, 'r) eff) \<Rightarrow> (int \<times> cache_config \<times> 'a cache_call) list \<Rightarrow> ('b, 'w) cache_state \<Rightarrow>
   ('a \<times> (py_exn + 'r cache_result \<times> cache_response option)) list" where
  "cache_run ops co kb ns fid func [] s = []"
| "cache_run ops co kb ns fid func ((now, cfg, c) # cs) s =
     (case cache_inner (redis_env ops co now cfg) kb ns fid func c s of
        (r, s') \<Rightarrow> (ck_args c, r) # cache_run ops co kb ns fid func cs s')"

text \<open>A pure endpoint: its value depends on the arguments only.\<close>

definition pure_endpoint :: "('a \<Rightarrow> ('w, 'r) eff) \<Rightarrow> ('a \<Rightarrow> 'r) \<Rightarrow> bool" where
  "pure_endpoint func f \<longleftrightarrow> (\<forall>a w. fst (func a w) = Inr (f a))"

fun answers :: "'r \<Rightarrow> py_exn + 'r cache_result \<times> cache_response option \<Rightarrow> bool" where
  "answers x (Inr (Result r, p)) \<longleftrightarrow> r = x"
| "answers x (Inr (Not_Modified, p)) = True"
| "answers x (Inl e) = False"

definition backend_quiet :: "('b, 'v) redis_ops \<Rightarrow> bool" where
  "backend_quiet ops \<longleftrightarrow> (\<forall>now k v ex b e. ro_set ops now k v ex b = Inl e \<longrightarrow> is_exception e)"

lemma pure_endpointD: "pure_endpoint func f \<Longrightarrow> \<exists>w'. func a w = (Inr (f a), w')"
  by (metis prod.collapse pure_endpoint_def)

lemma lookup_total: "\<exists>cached ttl b'. cache_lookup (redis_env ops co now cfg) k b = (Inr (cached, ttl), b')"
  by (auto simp: cache_lookup_def redis_env_def redis_cache_get_def redis_cache_ttl_def store_get_def
      store_expires_in_def eff_simps Let_def split: option.splits)

lemma store_value_total:
  assumes "backend_quiet ops"
  shows "\<exists>b'. cache_store_value (redis_env ops co now cfg) k v ex b = (Inr (), b')"
  using assms by (auto simp: cache_store_value_def redis_env_def redis_cache_set_def store_set_def
      backend_quiet_def eff_simps split: sum.splits if_splits)

context redis_server
begin

lemma redis_cache_backend:
  "cache_backend (redis_cache_get ops) (redis_cache_ttl ops) (redis_cache_set ops)"
  by unfold_locales

lemma redis_env_uses: "store.uses now (redis_env ops co now cfg)"
  by (simp add: store.uses_def redis_env_def)

lemma miss_answers:
  assumes "backend_quiet ops" and "pure_endpoint func f" and "store.holds good (cs_backend s)"
    and "\<And>v. co_encode co (f a) = Some v \<Longrightarrow> good k v"
    and "cache_miss (redis_env ops co now cfg) k ex (func a) p s = (r, s')"
  shows "answers (f a) r \<and> store.holds good (cs_backend s')"
proof -
  obtain w where w: "func a (cs_world s) = (Inr (f a), w)" using pure_endpointD [OF assms(2)] by blast
  show ?thesis
  proof (cases "co_encode co (f a)")
    case None
    then show ?thesis using assms(3,5) w by (auto simp: cache_miss_def redis_env_def)
  next
    case (Some v)
    obtain b where sv: "cache_store_value (redis_env ops co now cfg) k v ex (cs_backend s) = (Inr (), b)"
      using store_value_total [OF assms(1)] by blast
    have "store.holds good b"
      by (rule store.store_value_holds [OF redis_env_uses assms(3) assms(4) [OF Some] sv])
    moreover have "ce_encode (redis_env ops co now cfg) (f a) = Some v" using Some by (simp add: redis_env_def)
    ultimately show ?thesis using assms(5) w sv by (auto simp: cache_miss_def Let_def)
  qed
qed

lemma inner_answers:
  assumes "backend_quiet ops" and "pure_endpoint func f"
    and "\<And>r v. co_encode co r = Some v \<Longrightarrow> co_decode co v = Some r"
    and key: "\<And>c c'. kb fid (full_namespace P ns) c = kb fid (full_namespace P ns) c' \<Longrightarrow> f (ck_args c) = f (ck_args c')"
    and good: "good = (\<lambda>k v. \<forall>c. kb fid (full_namespace P ns) c = k \<longrightarrow> co_decode co v = Some (f (ck_args c)))"
    and "store.holds good (cs_backend s)" and "cc_key_prefix cfg = P"
    and "cache_inner (redis_env ops co now cfg) kb ns fid func c s = (r, s')"
  shows "answers (f (ck_args c)) r \<and> store.holds good (cs_backend s')"
proof (cases "uncacheable cfg (ck_request c)")
  case True
  obtain w where w: "func (ck_args c) (cs_world s) = (Inr (f (ck_args c)), w)"
    using pure_endpointD [OF assms(2)] by blast
  show ?thesis using True assms(6,8) w by (auto simp: cache_inner_def redis_env_def call_endpoint_def)
next
  case False
  let ?env = "redis_env ops co now cfg" and ?k = "kb fid (full_namespace P ns) c"
  define ex where "ex = or_int (cs_expire s) (cc_ttl cfg)"
  obtain cached ttl b where lk: "cache_lookup ?env ?k (cs_backend s) = (Inr (cached, ttl), b)"
    using lookup_total [of ops co now cfg ?k "cs_backend s"] by blast
  have h: "store.holds good b" and v: "\<And>v. cached = Some v \<Longrightarrow> good ?k v"
    using store.lookup_holds [OF redis_env_uses assms(6) lk] by auto
  let ?s = "s\<lparr>cs_expire := Some ex, cs_backend := b\<rparr>"
  have hs: "store.holds good (cs_backend ?s)" using h by simp
  have enc: "co_encode co (f (ck_args c)) = Some v \<Longrightarrow> good ?k v" for v
    unfolding good using assms(3) [of "f (ck_args c)" v] key by metis
  have cfg: "ce_config ?env = cfg" by (simp add: redis_env_def)
  have split: "(r, s') = cache_miss ?env ?k ex (func (ck_args c)) (ck_response c) ?s \<or>
      (\<exists>v. cached = Some v \<and> (r, s') = cache_hit ?env v ttl ex c (func (ck_args c)) ?s)"
    using assms(8) False lk by (cases cached) (auto simp: cache_inner_def cfg assms(7) ex_def Let_def split: if_splits)
  show ?thesis
  proof (cases "(r, s') = cache_miss ?env ?k ex (func (ck_args c)) (ck_response c) ?s")
    case True
    then have "cache_miss ?env ?k ex (func (ck_args c)) (ck_response c) ?s = (r, s')" by simp
    from miss_answers [where a = "ck_args c" and good = good and k = ?k and co = co,
        OF assms(1,2) hs enc this] show ?thesis .
  next
    case False
    then obtain w where w: "cached = Some w" "(r, s') = cache_hit ?env w ttl ex c (func (ck_args c)) ?s"
      using split by blast
    then have "ce_decode ?env w = Some (f (ck_args c))" using v by (simp add: good redis_env_def)
    then show ?thesis using w(2) h by (auto simp: cache_hit_def Let_def split: if_splits)
  qed
qed

lemma run_answers:
  assumes "backend_quiet ops" and "pure_endpoint func f"
    and "\<And>r v. co_encode co r = Some v \<Longrightarrow> co_decode co v = Some r"
    and "\<And>c c'. kb fid (full_namespace P ns) c = kb fid (full_namespace P ns) c' \<Longrightarrow> f (ck_args c) = f (ck_args c')"
    and "\<forall>(now, cfg, c) \<in> set cs. cc_key_prefix cfg = P"
    and "store.holds (\<lambda>k v. \<forall>c. kb fid (full_namespace P ns) c = k \<longrightarrow> co_decode co v = Some (f (ck_args c))) (cs_backend s)"
  shows "\<forall>(a, r) \<in> set (cache_run ops co kb ns fid func cs s). answers (f a) r"
  using assms(5,6)
proof (induction cs arbitrary: s)
  case Nil
  then show ?case by simp
next
  case (Cons d cs)
  obtain now cfg c where d: "d = (now, cfg, c)" by (rule prod_cases3)
  obtain r s' where i: "cache_inner (redis_env ops co now cfg) kb ns fid func c s = (r, s')" by (rule prod.exhaust)
  have "cc_key_prefix cfg = P" using Cons.prems(1) d by simp
  from inner_answers [where kb = kb and fid = fid and ns = ns, OF assms(1-4) refl Cons.prems(2) this i]
  have "answers (f (ck_args c)) r"
    "store.holds (\<lambda>k v. \<forall>c. kb fid (full_namespace P ns) c = k \<longrightarrow> co_decode co v = Some (f (ck_args c))) (cs_backend s')"
    by auto
  then show ?case using Cons.IH [of s'] Cons.prems(1) d i by simp
qed

end

lemma cache_inner_expire:
  "cs_expire (snd (cache_inner env kb ns fid func c s)) =
    (if uncacheable (ce_config env) (ck_request c) then cs_expire s
     else Some (or_int (cs_expire s) (cc_ttl (ce_config env))))"
  by (auto simp: cache_inner_def Let_def call_endpoint_def cache_miss_def cache_hit_def
      split: prod.splits sum.splits option.splits if_splits)

section \<open>Properties\<close>

text \<open>An endpoint that answers with ten times the number of the user, and counts its runs.\<close>

definition demo_codec :: "(nat, nat) cache_codec" where
  "demo_codec = \<lparr>co_encode = Some, co_decode = Some, co_etag = (\<lambda>_. ''t''), co_show = (\<lambda>_. ''60'')\<rparr>"

definition demo_cfg :: cache_config where
  "demo_cfg = \<lparr>cc_enabled = True, cc_key_prefix = ''app'', cc_ttl = 60\<rparr>"

definition demo_call :: "nat \<Rightarrow> nat cache_call" where
  "demo_call user = \<lparr>ck_request = Some \<lparr>cq_path = ''/me'', cq_method = ''GET'', cq_cache_control = None,
     cq_if_none_match = None\<rparr>, ck_response = None, ck_opts = None, ck_args = user\<rparr>"

definition demo_endpoint :: "nat \<Rightarrow> (nat, nat) eff" where
  "demo_endpoint user n = (Inr (10 * user), Suc n)"

definition demo_cache :: "(nat expiring_map, nat) cache_state" where
  "demo_cache = \<lparr>cs_expire = None, cs_backend = Map.empty, cs_world = 0\<rparr>"

lemma demo_empty: "ro_get expiring_ops t k (cs_backend demo_cache) = None"
  by (simp add: expiring_ops_def demo_cache_def)

lemma expiring_quiet: "backend_quiet expiring_ops"
  by (auto simp: backend_quiet_def expiring_ops_def split: option.splits if_splits)

text \<open>C18: The cache is transparent when its keys are. Let the backend be a Redis server as documented,
  the endpoint pure, the codec invert its encoding, and calls with equal keys have equal values. Then
  in every run from an empty cache, at whatever times, with changing lifetimes and cache directives,
  each call gets the value of its endpoint for its own arguments (or a 304).\<close>

theorem cache_transparent:
  assumes "redis_server ops" and "backend_quiet ops" and "pure_endpoint func f"
    and "\<And>r v. co_encode co r = Some v \<Longrightarrow> co_decode co v = Some r"
    and "\<And>c c'. kb fid (full_namespace P ns) c = kb fid (full_namespace P ns) c' \<Longrightarrow> f (ck_args c) = f (ck_args c')"
    and "\<forall>(now, cfg, c) \<in> set cs. cc_key_prefix cfg = P"
    and "\<And>t k. ro_get ops t k (cs_backend s) = None"
  shows "\<forall>(a, r) \<in> set (cache_run ops co kb ns fid func cs s). answers (f a) r"
proof (rule redis_server.run_answers [OF assms(1-6)])
  show "cache_backend.holds (redis_cache_get ops)
      (\<lambda>k v. \<forall>c. kb fid (full_namespace P ns) c = k \<longrightarrow> co_decode co v = Some (f (ck_args c))) (cs_backend s)"
    using assms(7) by (simp add: cache_backend.holds_def [OF redis_server.redis_cache_backend [OF assms(1)]]
        redis_cache_get_def store_get_def)
qed

lemma cache_transparent_witness:
  "list_all (\<lambda>(a, r). answers (10 * a) r) (cache_run expiring_ops demo_codec (\<lambda>_ _ c. replicate (ck_args c) CHR ''u'') []
     () demo_endpoint [(0, demo_cfg, demo_call 1), (5, demo_cfg, demo_call 2), (9, demo_cfg, demo_call 1)] demo_cache)"
proof -
  have "\<forall>(a, r) \<in> set (cache_run expiring_ops demo_codec (\<lambda>_ _ c. replicate (ck_args c) CHR ''u'') []
     () demo_endpoint [(0, demo_cfg, demo_call 1), (5, demo_cfg, demo_call 2), (9, demo_cfg, demo_call 1)] demo_cache).
     answers (10 * a) r"
    by (rule cache_transparent [where P = "''app''", OF expiring.redis_server_axioms expiring_quiet])
      (auto simp: pure_endpoint_def demo_endpoint_def demo_codec_def demo_cfg_def demo_empty dest: arg_cong [where f = length])
  then show ?thesis by (simp add: list_all_iff)
qed

text \<open>C19: The default keys confuse callers and functions. The builder used unless another is passed looks
  at the path and the argument \<open>opts\<close> only. Two calls that agree on these share an entry: after the
  first was answered and stored, the second gets the first one's value, for whatever other
  arguments (its user, say) and whatever function it was decorated on, which does not run.\<close>

theorem cache_confuses_callers:
  assumes "redis_server ops" and "cc_enabled cfg" and "cc_ttl cfg > 0" and "cs_expire s = None"
    and "ck_request c1 = Some q" and "ck_request c2 = Some q" and "cq_method q = ''GET''"
    and "cq_cache_control q = None" and "cq_if_none_match q = None" and "ck_opts c2 = ck_opts c1"
    and "fst (cache_lookup (redis_env ops co now cfg)
      (custom_cache_key_builder g (full_namespace (cc_key_prefix cfg) ns) c1) (cs_backend s)) = Inr (None, None)"
    and "func1 (ck_args c1) (cs_world s) = (Inr x, w)"
    and "co_encode co x = Some v" and "co_decode co v = Some x"
    and "cache_inner (redis_env ops co now cfg) custom_cache_key_builder ns f1 func1 c1 s = (r1, s1)"
  shows "\<exists>p s2. cache_inner (redis_env ops co now cfg) custom_cache_key_builder ns f2 func2 c2 s1 = (Inr (Result x, p), s2) \<and>
    cs_world s2 = cs_world s1"
proof -
  let ?env = "redis_env ops co now cfg" and ?k = "custom_cache_key_builder g (full_namespace (cc_key_prefix cfg) ns) c1"
  have k: "custom_cache_key_builder f1 (full_namespace (cc_key_prefix cfg) ns) c1 = ?k"
    "custom_cache_key_builder f2 (full_namespace (cc_key_prefix cfg) ns) c2 = ?k"
    using assms(5,6,10) by (simp_all add: custom_cache_key_builder_def)
  have u: "\<not> uncacheable (ce_config ?env) (ck_request c1)" "\<not> uncacheable (ce_config ?env) (ck_request c2)"
    using assms(2,5-8) by (simp_all add: uncacheable_def redis_env_def)
  obtain b where lk: "cache_lookup ?env ?k (cs_backend s) = (Inr (None, None), b)"
    using assms(11) by (cases "cache_lookup ?env ?k (cs_backend s)") auto
  let ?ex = "cc_ttl cfg" and ?kk = "make_key (Some ''TAAS'') ?k"
  obtain b' where st: "ro_set ops now ?kk v (Some ?ex) b = Inr b'"
    using redis_server.set_positive [OF assms(1), of "Some ?ex" now ?kk v b] assms(3) by auto
  have cs: "ce_config ?env = cfg" "ce_encode ?env x = Some v" "ce_decode ?env v = Some x"
    using assms(13,14) by (simp_all add: redis_env_def)
  have "cache_store_value ?env ?k v ?ex b = (Inr (), b')"
    using st by (simp add: cache_store_value_def redis_env_def redis_cache_set_def store_set_def total_seconds_def eff_simps)
  then have s1: "cs_backend s1 = b'" "cs_expire s1 = Some ?ex"
    using assms(4,5,8,12,15) u(1) lk by (auto simp: cache_inner_def cs k Let_def or_int_def cache_miss_def)
  have hit: "cache_lookup ?env ?k b' = (Inr (Some v, (if ro_ttl ops now ?kk b' = - 2 then None else Some (ro_ttl ops now ?kk b'))), b')"
    using redis_server.get_set_now [OF assms(1) st]
    by (simp add: cache_lookup_def redis_env_def redis_cache_get_def redis_cache_ttl_def store_get_def
        store_expires_in_def eff_simps Let_def)
  show ?thesis
    using u(2) assms(6,8,9) s1 hit by (auto simp: cache_inner_def cs k Let_def cache_hit_def)
qed

lemma cache_confuses_callers_witness:
  "\<exists>p s2. cache_inner (redis_env expiring_ops demo_codec 0 demo_cfg) custom_cache_key_builder [] ''g'' demo_endpoint (demo_call 2)
      (snd (cache_inner (redis_env expiring_ops demo_codec 0 demo_cfg) custom_cache_key_builder [] ''f'' demo_endpoint
        (demo_call 1) demo_cache)) = (Inr (Result 10, p), s2)"
proof -
  have "fst (cache_lookup (redis_env expiring_ops demo_codec 0 demo_cfg) k (cs_backend demo_cache)) = Inr (None, None)" for k
    by (simp add: cache_lookup_def redis_env_def redis_cache_get_def store_get_def demo_empty eff_simps Let_def)
  then show ?thesis
    using cache_confuses_callers [OF expiring.redis_server_axioms _ _ _ _ _ _ _ _ _ _ _ _ _ prod.collapse [symmetric],
        where cfg = demo_cfg and co = demo_codec and now = 0 and ?c1.0 = "demo_call 1" and ?c2.0 = "demo_call 2"
          and s = demo_cache and x = 10 and v = 10 and ?func1.0 = demo_endpoint and ?func2.0 = demo_endpoint
          and ?f1.0 = "''f''" and ?f2.0 = "''g''" and ns = "[]"]
    by (fastforce simp: demo_cfg_def demo_call_def demo_codec_def demo_endpoint_def demo_cache_def)
qed

text \<open>The first lifetime stays. The wrapper rebinds the variable \<open>expire\<close> of the decorator: after a
  cacheable call that found a positive lifetime, every later call of every function decorated by it
  uses that one, whatever the configuration says then.\<close>

theorem cache_lifetime_pinned:
  assumes "\<not> uncacheable (ce_config env) (ck_request c)" and "or_int (cs_expire s) (cc_ttl (ce_config env)) \<noteq> 0"
    and "cache_inner env kb ns fid func c s = (r, s1)"
    and "cache_inner env' kb' ns' fid' func' c' s1 = (r', s2)"
  shows "cs_expire s1 = Some (or_int (cs_expire s) (cc_ttl (ce_config env))) \<and> cs_expire s2 = cs_expire s1"
proof -
  have 1: "cs_expire s1 = Some (or_int (cs_expire s) (cc_ttl (ce_config env)))"
    using cache_inner_expire [of env kb ns fid func c s] assms(1,3) by simp
  have 2: "cs_expire s2 = cs_expire s1"
    using cache_inner_expire [of env' kb' ns' fid' func' c' s1] assms(2,4) 1 by (auto simp: or_int_def split: if_splits)
  from 1 2 show ?thesis by simp
qed

lemma cache_lifetime_pinned_witness:
  "cs_expire (snd (cache_inner (redis_env expiring_ops demo_codec 0 (demo_cfg\<lparr>cc_ttl := 5\<rparr>)) custom_cache_key_builder [] ''g''
      demo_endpoint (demo_call 2) (snd (cache_inner (redis_env expiring_ops demo_codec 0 demo_cfg)
        custom_cache_key_builder [] ''f'' demo_endpoint (demo_call 1) demo_cache)))) = Some 60"
proof -
  have "\<not> uncacheable (ce_config (redis_env expiring_ops demo_codec 0 demo_cfg)) (ck_request (demo_call 1))"
    by (simp add: uncacheable_def redis_env_def demo_cfg_def demo_call_def)
  moreover have "or_int (cs_expire demo_cache) (cc_ttl (ce_config (redis_env expiring_ops demo_codec 0 demo_cfg))) = 60"
    by (simp add: redis_env_def demo_cfg_def demo_cache_def)
  ultimately show ?thesis
    using cache_lifetime_pinned [where env = "redis_env expiring_ops demo_codec 0 demo_cfg" and c = "demo_call 1"
        and s = demo_cache and kb = custom_cache_key_builder and ns = "[]" and fid = "''f''" and func = demo_endpoint
        and env' = "redis_env expiring_ops demo_codec 0 (demo_cfg\<lparr>cc_ttl := 5\<rparr>)" and kb' = custom_cache_key_builder
        and ns' = "[]" and fid' = "''g''" and func' = demo_endpoint and c' = "demo_call 2",
        OF _ _ prod.collapse [symmetric] prod.collapse [symmetric]] by simp
qed

text \<open>A broken backend is invisible. When reads and writes of the backend only raise, a call has
  the value, the exception and the effects of its endpoint.\<close>

theorem cache_backend_down:
  assumes "\<And>k b. \<exists>e b'. ce_get env k b = (Inl e, b') \<and> is_exception e"
    and "\<And>k v n b. \<exists>e b'. ce_set env k v n b = (Inl e, b') \<and> is_exception e"
    and "func (ck_args c) (cs_world s) = (x, w)"
    and "cache_inner env kb ns fid func c s = (r, s')"
  shows "cs_world s' = w \<and> (case x of Inl e \<Rightarrow> r = Inl e | Inr y \<Rightarrow> \<exists>p. r = Inr (Result y, p))"
proof -
  have lk: "\<exists>b'. cache_lookup env k b = (Inr (None, None), b')" for k b
    using assms(1) [of k b] by (auto simp: cache_lookup_def eff_simps)
  have st: "\<exists>b'. cache_store_value env k v n b = (Inr (), b')" for k v n b
    using assms(2) [of k v n b] by (auto simp: cache_store_value_def eff_simps)
  show ?thesis
  proof (cases "uncacheable (ce_config env) (ck_request c)")
    case True
    then show ?thesis using assms(3,4) by (cases x) (auto simp: cache_inner_def call_endpoint_def)
  next
    case False
    let ?k = "kb fid (full_namespace (cc_key_prefix (ce_config env)) ns) c"
    let ?ex = "or_int (cs_expire s) (cc_ttl (ce_config env))"
    obtain b where "cache_lookup env ?k (cs_backend s) = (Inr (None, None), b)" using lk by blast
    then have m: "cache_miss env ?k ?ex (func (ck_args c)) (ck_response c)
        (s\<lparr>cs_expire := Some ?ex, cs_backend := b\<rparr>) = (r, s')"
      using assms(4) False by (simp add: cache_inner_def Let_def)
    show ?thesis
    proof (cases x)
      case (Inl e)
      with m assms(3) show ?thesis by (auto simp: cache_miss_def)
    next
      case (Inr y)
      show ?thesis
      proof (cases "ce_encode env y")
        case None
        with Inr m assms(3) show ?thesis by (auto simp: cache_miss_def)
      next
        case (Some v)
        obtain b2 where "cache_store_value env ?k v ?ex b = (Inr (), b2)" using st by blast
        with Inr Some m assms(3) show ?thesis by (auto simp: cache_miss_def Let_def)
      qed
    qed
  qed
qed

lemma cache_backend_down_witness:
  "\<exists>p. fst (cache_inner \<lparr>ce_get = (\<lambda>_ b. (Inl (RuntimeError ''down''), b)), ce_expires_in = (\<lambda>_ b. (Inr None, b)),
      ce_set = (\<lambda>_ _ _ b. (Inl (RuntimeError ''down''), b)), ce_encode = Some, ce_decode = Some, ce_etag = (\<lambda>_. []),
      ce_show = (\<lambda>_. []), ce_config = demo_cfg\<rparr> custom_cache_key_builder [] ''f'' demo_endpoint (demo_call 3) demo_cache) =
    Inr (Result 30, p)"
  using cache_backend_down [where func = demo_endpoint and c = "demo_call 3" and s = demo_cache and x = "Inr 30" and w = 1
      and kb = custom_cache_key_builder and ns = "[]" and fid = "''f''" and env = "\<lparr>ce_get = (\<lambda>_ b. (Inl (RuntimeError ''down''), b)),
        ce_expires_in = (\<lambda>_ b. (Inr None, b)), ce_set = (\<lambda>_ _ _ b. (Inl (RuntimeError ''down''), b)), ce_encode = Some,
        ce_decode = Some, ce_etag = (\<lambda>_. []), ce_show = (\<lambda>_. []), ce_config = demo_cfg\<rparr>", OF _ _ _ prod.collapse [symmetric]]
  by (simp add: demo_endpoint_def demo_call_def demo_cache_def)

end
