(* ===== verification/Rate_Limiter.thy ===== *)
theory Rate_Limiter
  imports Taas_Prelude
begin

text \<open>
  \<open>libs/slowapi_advanced/src/slowapi_advanced/extension.py\<close> and \<open>wrappers.py\<close>: the rate limiter of
  the HTTP layer, its limits and their groups, the check of a request with the fallback to a second
  storage, and the decorated endpoint. The counters are those of the \<open>limits\<close> package: \<open>hit\<close> and
  \<open>check\<close> of a storage, the parser of limit strings and the order of limits are parameters, on an
  opaque storage state \<open>'b\<close> and an opaque type \<open>'i\<close> of limit items. Times are seconds.
\<close>

section \<open>Limits and groups\<close>

record http_request =
  rq_path :: string
  rq_method :: string
  rq_client :: string

text \<open>The scope of a limit is absent, a text, or a callable; the property calls the latter on a name
  that is not defined there.\<close>

datatype limit_scope = No_Scope | Scope_Text string | Scope_Callable

record 'i rate_limit =
  li_limit :: 'i
  li_key_func :: "http_request \<Rightarrow> py_exn + string"
  li_scope_arg :: limit_scope
  li_per_method :: bool
  li_methods :: "string list option"
  li_exempt_when :: "(http_request \<Rightarrow> py_exn + bool) option"
  li_cost :: "http_request \<Rightarrow> py_exn + int"
  li_override_defaults :: bool

definition li_scope :: "'i rate_limit \<Rightarrow> py_exn + string" where
  "li_scope l = (case li_scope_arg l of
     No_Scope \<Rightarrow> Inr [] | Scope_Text s \<Rightarrow> Inr s | Scope_Callable \<Rightarrow> Inl (NameError ''request''))"

definition li_is_exempt :: "'i rate_limit \<Rightarrow> http_request \<Rightarrow> py_exn + bool" where
  "li_is_exempt l rq = (case li_exempt_when l of None \<Rightarrow> Inr False | Some f \<Rightarrow> f rq)"

text \<open>What a group gets its limit string from: a text, a function, or a function of the key of the
  request (for which the key function must take the request).\<close>

datatype limit_provider = Prov_Text string | Prov_Fun "py_exn + string" | Prov_Key_Fun "string \<Rightarrow> py_exn + string"

record 'i limit_group =
  lg_provider :: limit_provider
  lg_limit :: "'i \<Rightarrow> 'i rate_limit"
  lg_key_func :: "http_request \<Rightarrow> py_exn + string"
  lg_key_takes_request :: bool
  lg_request :: "http_request option"

definition lg_limit_raw :: "'i limit_group \<Rightarrow> py_exn + string" where
  "lg_limit_raw g = (case lg_provider g of
     Prov_Text s \<Rightarrow> Inr s
   | Prov_Fun r \<Rightarrow> r
   | Prov_Key_Fun f \<Rightarrow>
       if \<not> lg_key_takes_request g then Inl AssertionError
       else (case lg_request g of
           None \<Rightarrow> Inl (UserError ''request'')
         | Some rq \<Rightarrow> (case lg_key_func g rq of Inl e \<Rightarrow> Inl e | Inr k \<Rightarrow> f k)))"

definition lg_iter :: "(string \<Rightarrow> py_exn + 'i list) \<Rightarrow> 'i limit_group \<Rightarrow> py_exn + 'i rate_limit list" where
  "lg_iter parse_many g = (case lg_limit_raw g of
     Inl e \<Rightarrow> Inl e
   | Inr raw \<Rightarrow> (case parse_many raw of Inl e \<Rightarrow> Inl e | Inr items \<Rightarrow> Inr (map (lg_limit g) items)))"

definition lg_with_request :: "http_request \<Rightarrow> 'i limit_group \<Rightarrow> 'i limit_group" where
  "lg_with_request rq g = g\<lparr>lg_request := Some rq\<rparr>"

text \<open>\<open>list(itertools.chain(*groups))\<close>\<close>

fun chain_groups :: "(string \<Rightarrow> py_exn + 'i list) \<Rightarrow> 'i limit_group list \<Rightarrow> py_exn + 'i rate_limit list" where
  "chain_groups p [] = Inr []"
| "chain_groups p (g # gs) = (case lg_iter p g of
     Inl e \<Rightarrow> Inl e
   | Inr ls \<Rightarrow> (case chain_groups p gs of Inl e \<Rightarrow> Inl e | Inr ms \<Rightarrow> Inr (ls @ ms)))"

text \<open>The dynamic limits of a route: a group that raises \<open>ValueError\<close> is logged and skipped.\<close>

fun dynamic_limits ::
  "(string \<Rightarrow> py_exn + 'i list) \<Rightarrow> http_request \<Rightarrow> 'i limit_group list \<Rightarrow> py_exn + 'i rate_limit list" where
  "dynamic_limits p rq [] = Inr []"
| "dynamic_limits p rq (g # gs) =
     (case lg_iter p (lg_with_request rq g) of
        Inl (ValueError x) \<Rightarrow> dynamic_limits p rq gs
      | Inl e \<Rightarrow> Inl e
      | Inr ls \<Rightarrow> (case dynamic_limits p rq gs of Inl e \<Rightarrow> Inl e | Inr ms \<Rightarrow> Inr (ls @ ms)))"

section \<open>The limiter\<close>

record ('i, 'b) backend =
  be_hit :: "'i \<Rightarrow> string list \<Rightarrow> int \<Rightarrow> ('b, bool) eff"
  be_check :: "('b, bool) eff"

record ('i, 'b) limiter_env =
  le_primary :: "('i, 'b) backend"
  le_fallback :: "('i, 'b) backend"
  le_parse_many :: "string \<Rightarrow> py_exn + 'i list"
  le_less :: "'i \<Rightarrow> 'i \<Rightarrow> bool"
  le_enabled :: bool
  le_swallow_errors :: bool
  le_fallback_enabled :: bool
  le_in_memory_fallback :: "'i limit_group list"
  le_default_limits :: "'i limit_group list"
  le_application_limits :: "'i limit_group list"
  le_key_prefix :: string
  le_key_style_url :: bool
  le_request_filters :: "bool list"
  le_exempt_routes :: "string list"
  le_route_limits :: "string \<rightharpoonup> 'i rate_limit list"
  le_dynamic_route_limits :: "string \<rightharpoonup> 'i limit_group list"
  le_marked :: "string list"

text \<open>The flags about the storage; the two storages; the attribute \<open>view_rate_limit\<close> of the request,
  which does not exist until it is assigned.\<close>

record backend_flags =
  bf_storage_dead :: bool
  bf_check_count :: nat
  bf_last_check :: rat

type_synonym 'i view_limit = "('i \<times> string list) option"

record ('i, 'b) limiter_state =
  ls_flags :: backend_flags
  ls_primary :: 'b
  ls_fallback :: 'b
  ls_view :: "'i view_limit option"

definition MAX_BACKEND_CHECKS :: nat where "MAX_BACKEND_CHECKS = 5"

definition should_check_backend :: "rat \<Rightarrow> backend_flags \<Rightarrow> bool \<times> backend_flags" where
  "should_check_backend now f =
     (let f1 = (if bf_check_count f > MAX_BACKEND_CHECKS then f\<lparr>bf_check_count := 0\<rparr> else f)
      in if now - bf_last_check f1 > 2 ^ bf_check_count f1
         then (True, f1\<lparr>bf_last_check := now, bf_check_count := bf_check_count f1 + 1\<rparr>)
         else (False, f1))"

text \<open>\<open>self.limiter.hit\<close>: on the fallback storage while the main one is marked dead.\<close>

definition limiter_hit ::
  "('i, 'b) limiter_env \<Rightarrow> 'i \<Rightarrow> string list \<Rightarrow> int \<Rightarrow> (('i, 'b) limiter_state, bool) eff" where
  "limiter_hit env item args cost s =
     (if bf_storage_dead (ls_flags s) \<and> le_fallback_enabled env
      then (case be_hit (le_fallback env) item args cost (ls_fallback s) of (r, b) \<Rightarrow> (r, s\<lparr>ls_fallback := b\<rparr>))
      else (case be_hit (le_primary env) item args cost (ls_primary s) of (r, b) \<Rightarrow> (r, s\<lparr>ls_primary := b\<rparr>)))"

definition storage_check :: "('i, 'b) limiter_env \<Rightarrow> (('i, 'b) limiter_state, bool) eff" where
  "storage_check env s = (case be_check (le_primary env) (ls_primary s) of (r, b) \<Rightarrow> (r, s\<lparr>ls_primary := b\<rparr>))"

text \<open>The key and the scope of a limit for a request, or none when the limit is skipped.\<close>

definition limit_args ::
  "('i, 'b) limiter_env \<Rightarrow> http_request \<Rightarrow> string \<Rightarrow> 'i rate_limit \<Rightarrow> py_exn + string list option" where
  "limit_args env rq endpoint l =
     (case li_scope l of
        Inl e \<Rightarrow> Inl e
      | Inr sc \<Rightarrow> (let scope0 = (if sc = [] then endpoint else sc) in
          case li_is_exempt l rq of
            Inl e \<Rightarrow> Inl e
          | Inr ex \<Rightarrow>
              if ex then Inr None
              else if li_methods l \<noteq> None \<and> map ascii_lower (rq_method rq) \<notin> set (the (li_methods l)) then Inr None
              else (let scope = (if li_per_method l then scope0 @ '':'' @ rq_method rq else scope0) in
                case li_key_func l rq of
                  Inl e \<Rightarrow> Inl e
                | Inr key \<Rightarrow>
                    if key = [] \<or> scope = [] then Inr None
                    else Inr (Some (if le_key_prefix env = [] then [key, scope]
                      else [le_key_prefix env, key, scope])))))"

text \<open>The loop of \<open>__evaluate_limits\<close>: the limit that failed, and the one for the headers.\<close>

fun evaluate_loop ::
  "('i, 'b) limiter_env \<Rightarrow> http_request \<Rightarrow> string \<Rightarrow> 'i rate_limit list \<Rightarrow> 'i view_limit \<Rightarrow>
   (('i, 'b) limiter_state, bool \<times> 'i view_limit) eff" where
  "evaluate_loop env rq endpoint [] header s = (Inr (False, header), s)"
| "evaluate_loop env rq endpoint (l # ls) header s =
     (case limit_args env rq endpoint l of
        Inl e \<Rightarrow> (Inl e, s)
      | Inr None \<Rightarrow> evaluate_loop env rq endpoint ls header s
      | Inr (Some args) \<Rightarrow>
          (let header' = (if header = None \<or> le_less env (li_limit l) (fst (the header))
             then Some (li_limit l, args) else header) in
           case li_cost l rq of
             Inl e \<Rightarrow> (Inl e, s)
           | Inr cost \<Rightarrow> (case limiter_hit env (li_limit l) args cost s of
               (Inl e, s') \<Rightarrow> (Inl e, s')
             | (Inr ok, s') \<Rightarrow>
                 if ok then evaluate_loop env rq endpoint ls header' s'
                 else (Inr (True, Some (li_limit l, args)), s'))))"

definition evaluate_limits ::
  "('i, 'b) limiter_env \<Rightarrow> http_request \<Rightarrow> string \<Rightarrow> 'i rate_limit list \<Rightarrow> (('i, 'b) limiter_state, unit) eff" where
  "evaluate_limits env rq endpoint limits s =
     (case evaluate_loop env rq endpoint limits None s of
        (Inl e, s') \<Rightarrow> (Inl e, s')
      | (Inr (failed, header), s') \<Rightarrow>
          (if failed then Inl RateLimitExceeded else Inr (), s'\<lparr>ls_view := Some header\<rparr>))"

section \<open>The check of a request\<close>

text \<open>The limits that apply. A dead storage is probed now and then; while it is dead the fallback
  limits replace all others, except in the middleware for routes with a decorator.\<close>

definition fallback_limits ::
  "('i, 'b) limiter_env \<Rightarrow> rat \<Rightarrow> bool \<Rightarrow> string \<Rightarrow> (('i, 'b) limiter_state, 'i rate_limit list) eff" where
  "fallback_limits env now in_middleware fname s =
     (if \<not> (bf_storage_dead (ls_flags s) \<and> le_fallback_enabled env) then (Inr [], s)
      else if in_middleware \<and> fname \<in> set (le_marked env) then (Inr [], s)
      else (case should_check_backend now (ls_flags s) of (chk, f) \<Rightarrow>
        (let s1 = s\<lparr>ls_flags := f\<rparr> in
         if \<not> chk then (chain_groups (le_parse_many env) (le_in_memory_fallback env), s1)
         else (case storage_check env s1 of
             (Inl e, s2) \<Rightarrow> (Inl e, s2)
           | (Inr alive, s2) \<Rightarrow>
               if alive then (Inr [], s2\<lparr>ls_flags := f\<lparr>bf_storage_dead := False, bf_check_count := 0\<rparr>\<rparr>)
               else (chain_groups (le_parse_many env) (le_in_memory_fallback env), s2)))))"

definition defaults_apply :: "('i, 'b) limiter_env \<Rightarrow> bool \<Rightarrow> string \<Rightarrow> 'i rate_limit list \<Rightarrow> bool" where
  "defaults_apply env in_middleware fname route_limits \<longleftrightarrow>
     (route_limits = [] \<and> \<not> (in_middleware \<and> fname \<in> set (le_marked env)) \<or>
      (\<forall>l \<in> set route_limits. \<not> li_override_defaults l))"

definition normal_limits ::
  "('i, 'b) limiter_env \<Rightarrow> bool \<Rightarrow> string \<Rightarrow> 'i rate_limit list \<Rightarrow> py_exn + 'i rate_limit list" where
  "normal_limits env in_middleware fname route_limits =
     (case (if in_middleware then chain_groups (le_parse_many env) (le_application_limits env) else Inr []) of
        Inl e \<Rightarrow> Inl e
      | Inr app \<Rightarrow>
          if defaults_apply env in_middleware fname route_limits
          then (case chain_groups (le_parse_many env) (le_default_limits env) of
              Inl e \<Rightarrow> Inl e | Inr ds \<Rightarrow> Inr (app @ route_limits @ ds))
          else Inr (app @ route_limits))"

definition check_once ::
  "('i, 'b) limiter_env \<Rightarrow> rat \<Rightarrow> http_request \<Rightarrow> bool \<Rightarrow> string \<Rightarrow> string \<Rightarrow> 'i rate_limit list \<Rightarrow>
   (('i, 'b) limiter_state, unit) eff" where
  "check_once env now rq in_middleware fname endpoint route_limits s =
     (case fallback_limits env now in_middleware fname s of
        (Inl e, s1) \<Rightarrow> (Inl e, s1)
      | (Inr fb, s1) \<Rightarrow>
          (case (if fb = [] then normal_limits env in_middleware fname route_limits else Inr fb) of
             Inl e \<Rightarrow> (Inl e, s1)
           | Inr limits \<Rightarrow> evaluate_limits env rq endpoint limits s1))"

definition mark_dead :: "('i, 'b) limiter_state \<Rightarrow> ('i, 'b) limiter_state" where
  "mark_dead s = s\<lparr>ls_flags := (ls_flags s)\<lparr>bf_storage_dead := True\<rparr>\<rparr>"

lemma limiter_hit_flags: "limiter_hit env item args cost s = (r, s') \<Longrightarrow> ls_flags s' = ls_flags s"
  by (auto simp: limiter_hit_def split: if_splits prod.splits)

lemma evaluate_loop_flags: "evaluate_loop env rq endpoint ls header s = (r, s') \<Longrightarrow> ls_flags s' = ls_flags s"
proof (induction ls arbitrary: header s)
  case Nil
  then show ?case by simp
next
  case (Cons l ls)
  show ?case
  proof (cases "\<exists>args cost ok s1. limit_args env rq endpoint l = Inr (Some args) \<and> li_cost l rq = Inr cost \<and>
      limiter_hit env (li_limit l) args cost s = (Inr ok, s1)")
    case True
    then obtain args cost ok s1 where "limit_args env rq endpoint l = Inr (Some args)" "li_cost l rq = Inr cost"
      and h: "limiter_hit env (li_limit l) args cost s = (Inr ok, s1)" by blast
    with Cons show ?thesis using limiter_hit_flags [OF h] by (auto simp: Let_def split: if_splits)
  next
    case False
    with Cons show ?thesis
      by (auto simp: Let_def dest: limiter_hit_flags split: sum.splits option.splits prod.splits)
  qed
qed

lemma evaluate_limits_flags: "evaluate_limits env rq endpoint ls s = (r, s') \<Longrightarrow> ls_flags s' = ls_flags s"
  by (auto simp: evaluate_limits_def dest: evaluate_loop_flags split: prod.splits sum.splits)

text \<open>What one attempt does to the flags: nothing while the storage counts as alive; a storage that
  counts as dead comes back only by a probe, after which none is due.\<close>

definition check_due :: "rat \<Rightarrow> backend_flags \<Rightarrow> bool" where
  "check_due now f = fst (should_check_backend now f)"

lemma check_due_after [simp]: "\<not> check_due now (f\<lparr>bf_last_check := now\<rparr>)"
  by (simp add: check_due_def should_check_backend_def Let_def)

lemma check_due_dead [simp]: "check_due now (f\<lparr>bf_storage_dead := d\<rparr>) = check_due now f"
  by (simp add: check_due_def should_check_backend_def Let_def)

lemma should_check_flags:
  assumes "should_check_backend now f = (chk, f')"
  shows "bf_storage_dead f' = bf_storage_dead f" and "chk = check_due now f"
    and "chk \<Longrightarrow> bf_last_check f' = now"
  using assms by (auto simp: check_due_def should_check_backend_def Let_def split: if_splits)

lemma check_due_recovered: "bf_last_check f = now \<Longrightarrow> \<not> check_due now f"
  by (simp add: check_due_def should_check_backend_def Let_def)

lemma storage_check_flags: "storage_check env s = (r, s') \<Longrightarrow> ls_flags s' = ls_flags s"
  by (auto simp: storage_check_def split: prod.splits)

lemma fallback_limits_flags:
  assumes "fallback_limits env now mw fname s = (r, s')"
  shows "(\<not> bf_storage_dead (ls_flags s) \<longrightarrow> ls_flags s' = ls_flags s) \<and>
    (bf_storage_dead (ls_flags s) \<and> \<not> bf_storage_dead (ls_flags s') \<longrightarrow>
      check_due now (ls_flags s) \<and> \<not> check_due now (ls_flags s'))"
proof -
  obtain chk f where c: "should_check_backend now (ls_flags s) = (chk, f)" by (rule prod.exhaust)
  note sc = should_check_flags [OF c]
  obtain x s2 where k: "storage_check env (s\<lparr>ls_flags := f\<rparr>) = (x, s2)" by (rule prod.exhaust)
  have k2: "ls_flags s2 = f" using storage_check_flags [OF k] by simp
  have rec: "\<not> check_due now (f\<lparr>bf_storage_dead := False, bf_check_count := 0\<rparr>)" if chk
    using sc(3) [OF that] by (intro check_due_recovered) simp
  let ?alive = "f\<lparr>bf_storage_dead := False, bf_check_count := 0\<rparr>"
  have "s' = s \<or> (bf_storage_dead (ls_flags s) \<and>
      (s' = s\<lparr>ls_flags := f\<rparr> \<or> chk \<and> (s' = s2 \<or> s' = s2\<lparr>ls_flags := ?alive\<rparr>)))"
    using assms by (auto simp: fallback_limits_def Let_def c k split: if_splits sum.splits)
  then have "ls_flags s' = ls_flags s \<or> (bf_storage_dead (ls_flags s) \<and>
      (ls_flags s' = f \<or> chk \<and> ls_flags s' = ?alive))"
    using k2 by auto
  then show ?thesis using sc(1,2) rec by (metis (full_types))
qed

lemma check_once_flags:
  assumes "check_once env now rq mw fname endpoint ls s = (r, s')"
  shows "(\<not> bf_storage_dead (ls_flags s) \<longrightarrow> ls_flags s' = ls_flags s) \<and>
    (bf_storage_dead (ls_flags s) \<and> \<not> bf_storage_dead (ls_flags s') \<longrightarrow>
      check_due now (ls_flags s) \<and> \<not> check_due now (ls_flags s'))"
proof -
  obtain r1 s1 where f: "fallback_limits env now mw fname s = (r1, s1)" by (rule prod.exhaust)
  have "ls_flags s' = ls_flags s1"
    using assms f by (auto simp: check_once_def dest: evaluate_limits_flags split: sum.splits)
  then show ?thesis using fallback_limits_flags [OF f] by simp
qed

text \<open>An attempt that fails for a reason of the storage marks it dead and tries again; the second or
  the third attempt is the last one.\<close>

definition attempts_measure :: "rat \<Rightarrow> backend_flags \<Rightarrow> nat" where
  "attempts_measure now f = (if check_due now f then 2 else 0) + (if bf_storage_dead f then 0 else 1)"

lemma attempts_decrease:
  assumes "check_once env now rq mw fname endpoint ls s = (r, s')" and "\<not> bf_storage_dead (ls_flags s')"
  shows "attempts_measure now (ls_flags (mark_dead s')) < attempts_measure now (ls_flags s)"
  using check_once_flags [OF assms(1)] assms(2)
  by (cases "bf_storage_dead (ls_flags s)") (auto simp: attempts_measure_def mark_dead_def)

function check_attempts ::
  "('i, 'b) limiter_env \<Rightarrow> rat \<Rightarrow> http_request \<Rightarrow> bool \<Rightarrow> string \<Rightarrow> string \<Rightarrow> 'i rate_limit list \<Rightarrow>
   ('i, 'b) limiter_state \<Rightarrow> (py_exn + unit) \<times> ('i, 'b) limiter_state" where
  "check_attempts env now rq mw fname endpoint ls s =
     (case check_once env now rq mw fname endpoint ls s of
        (Inr x, s') \<Rightarrow> (Inr x, s')
      | (Inl e, s') \<Rightarrow>
          if e = RateLimitExceeded \<or> \<not> is_exception e then (Inl e, s')
          else if le_fallback_enabled env \<and> \<not> bf_storage_dead (ls_flags s')
          then check_attempts env now rq mw fname endpoint ls (mark_dead s')
          else if le_swallow_errors env then (Inr (), s') else (Inl e, s'))"
  by pat_completeness auto
termination
  by (relation "measure (\<lambda>(env, now, rq, mw, fname, endpoint, ls, s). attempts_measure now (ls_flags s))")
    (auto dest: attempts_decrease [OF sym])

declare check_attempts.simps [simp del]

definition check_request_limit ::
  "('i, 'b) limiter_env \<Rightarrow> rat \<Rightarrow> http_request \<Rightarrow> string option \<Rightarrow> bool \<Rightarrow> (('i, 'b) limiter_state, unit) eff" where
  "check_request_limit env now rq endpoint_func in_middleware s =
     (let fname = (case endpoint_func of None \<Rightarrow> [] | Some n \<Rightarrow> n);
          endpoint = (if le_key_style_url env then rq_path rq else fname) in
      if endpoint = [] \<or> \<not> le_enabled env \<or> fname \<in> set (le_exempt_routes env) \<or> True \<in> set (le_request_filters env)
      then (Inr (), s)
      else if in_middleware then check_attempts env now rq True fname endpoint [] s
      else (let static = (case le_route_limits env fname of None \<Rightarrow> [] | Some ls \<Rightarrow> ls) in
        case (case le_dynamic_route_limits env fname of None \<Rightarrow> Inr []
            | Some gs \<Rightarrow> dynamic_limits (le_parse_many env) rq gs) of
          Inl e \<Rightarrow> (Inl e, s)
        | Inr dyn \<Rightarrow> check_attempts env now rq False fname endpoint (static @ dyn) s))"

section \<open>The decorated endpoint\<close>

text \<open>The wrapper of \<open>@limiter.limit\<close>: check, run the endpoint, then put the headers of the limit on
  the response (\<open>inject\<close>, see below). Its state is that of the limiter beside the endpoint's world.\<close>

definition limited_endpoint ::
  "('i, 'b) limiter_env \<Rightarrow> rat \<Rightarrow> http_request \<Rightarrow> string \<Rightarrow> bool \<Rightarrow> ('w, 'r) eff \<Rightarrow>
   ('i view_limit \<Rightarrow> 'r \<Rightarrow> (('i, 'b) limiter_state, 'r) eff) \<Rightarrow> (('i, 'b) limiter_state \<times> 'w, 'r) eff" where
  "limited_endpoint env now rq fname check handler inject sw =
     (case (if le_enabled env \<and> check then check_request_limit env now rq (Some fname) False (fst sw)
            else (Inr (), fst sw)) of
        (Inl e, s1) \<Rightarrow> (Inl e, (s1, snd sw))
      | (Inr _, s1) \<Rightarrow> (case handler (snd sw) of
          (Inl e, w) \<Rightarrow> (Inl e, (s1, w))
        | (Inr resp, w) \<Rightarrow>
            if \<not> le_enabled env then (Inr resp, (s1, w))
            else (case ls_view s1 of
                None \<Rightarrow> (Inl (AttributeError ''view_rate_limit''), (s1, w))
              | Some v \<Rightarrow> (case inject v resp s1 of (r, s2) \<Rightarrow> (r, (s2, w))))))"

text \<open>The response headers are a list of pairs; how numbers and dates are printed, and how an existing
  \<open>Retry-After\<close> is read, are parameters.\<close>

record ('i, 'b) header_env =
  he_enabled :: bool
  he_stats_primary :: "'i \<Rightarrow> string list \<Rightarrow> ('b, rat \<times> int) eff"
  he_stats_fallback :: "'i \<Rightarrow> string list \<Rightarrow> ('b, rat \<times> int) eff"
  he_amount :: "'i \<Rightarrow> int"
  he_str :: "int \<Rightarrow> string"
  he_str_float :: "rat \<Rightarrow> string"
  he_retry_value :: "rat \<Rightarrow> rat \<Rightarrow> string"
  he_retry_time :: "string \<Rightarrow> py_exn + rat"

type_synonym headers = "(string \<times> string) list"

definition set_header :: "string \<Rightarrow> string \<Rightarrow> headers \<Rightarrow> headers" where
  "set_header k v hs = filter (\<lambda>h. fst h \<noteq> k) hs @ [(k, v)]"

definition window_stats ::
  "('i, 'b) limiter_env \<Rightarrow> ('i, 'b) header_env \<Rightarrow> 'i \<Rightarrow> string list \<Rightarrow> (('i, 'b) limiter_state, rat \<times> int) eff" where
  "window_stats env henv item args s =
     (if bf_storage_dead (ls_flags s) \<and> le_fallback_enabled env
      then (case he_stats_fallback henv item args (ls_fallback s) of (r, b) \<Rightarrow> (r, s\<lparr>ls_fallback := b\<rparr>))
      else (case he_stats_primary henv item args (ls_primary s) of (r, b) \<Rightarrow> (r, s\<lparr>ls_primary := b\<rparr>)))"

text \<open>The body of the \<open>try\<close>: the result beside the headers written so far.\<close>

definition inject_once ::
  "('i, 'b) limiter_env \<Rightarrow> ('i, 'b) header_env \<Rightarrow> rat \<Rightarrow> 'i \<Rightarrow> string list \<Rightarrow> headers \<Rightarrow>
   ('i, 'b) limiter_state \<Rightarrow> (py_exn + unit) \<times> headers \<times> ('i, 'b) limiter_state" where
  "inject_once env henv now item args hs s =
     (case window_stats env henv item args s of
        (Inl e, s1) \<Rightarrow> (Inl e, hs, s1)
      | (Inr (reset, remaining), s1) \<Rightarrow>
          (let hs1 = hs @ [(''X-RateLimit-Limit'', he_str henv (he_amount henv item)),
               (''X-RateLimit-Remaining'', he_str henv remaining),
               (''X-RateLimit-Reset'', he_str_float henv (1 + reset))] in
           case (case map_of hs1 ''Retry-After'' of
               None \<Rightarrow> Inr (1 + reset)
             | Some old \<Rightarrow> (case he_retry_time henv old of Inl e \<Rightarrow> Inl e | Inr t \<Rightarrow> Inr (max t (1 + reset)))) of
             Inl e \<Rightarrow> (Inl e, hs1, s1)
           | Inr t \<Rightarrow> (Inr (), set_header ''Retry-After'' (he_retry_value henv t now) hs1, s1)))"

text \<open>\<open>_inject_headers\<close>. With the storage already dead the handler of the \<open>try\<close> cannot fall back
  again; else it falls back, writes the headers a second time, and then still swallows or raises the
  first exception.\<close>

definition inject_dead ::
  "('i, 'b) limiter_env \<Rightarrow> ('i, 'b) header_env \<Rightarrow> rat \<Rightarrow> 'i \<Rightarrow> string list \<Rightarrow> headers \<Rightarrow>
   ('i, 'b) limiter_state \<Rightarrow> (py_exn + headers) \<times> ('i, 'b) limiter_state" where
  "inject_dead env henv now item args hs s =
     (case inject_once env henv now item args hs s of
        (Inr _, hs1, s1) \<Rightarrow> (Inr hs1, s1)
      | (Inl e, hs1, s1) \<Rightarrow> if le_swallow_errors env then (Inr hs1, s1) else (Inl e, s1))"

definition inject_headers ::
  "('i, 'b) limiter_env \<Rightarrow> ('i, 'b) header_env \<Rightarrow> rat \<Rightarrow> 'i view_limit \<Rightarrow> headers \<Rightarrow>
   (('i, 'b) limiter_state, headers) eff" where
  "inject_headers env henv now current hs s =
     (case current of
        None \<Rightarrow> (Inr hs, s)
      | Some (item, args) \<Rightarrow>
          if \<not> (le_enabled env \<and> he_enabled henv) then (Inr hs, s)
          else (case inject_once env henv now item args hs s of
              (Inr _, hs1, s1) \<Rightarrow> (Inr hs1, s1)
            | (Inl e, hs1, s1) \<Rightarrow>
                if le_in_memory_fallback env \<noteq> [] \<and> \<not> bf_storage_dead (ls_flags s1)
                then (case inject_dead env henv now item args hs1 (mark_dead s1) of
                    (Inl e2, s2) \<Rightarrow> (Inl e2, s2)
                  | (Inr hs2, s2) \<Rightarrow> if le_swallow_errors env then (Inr hs2, s2) else (Inl e, s2))
                else if le_swallow_errors env then (Inr hs1, s1) else (Inl e, s1)))"

section \<open>Lemmas\<close>

text \<open>Limits whose key, scope, exemption and cost do not raise for a request.\<close>

definition total_limit :: "('i, 'b) limiter_env \<Rightarrow> http_request \<Rightarrow> string \<Rightarrow> 'i rate_limit \<Rightarrow> bool" where
  "total_limit env rq endpoint l \<longleftrightarrow>
     (\<exists>a. limit_args env rq endpoint l = Inr a) \<and> (\<exists>c. li_cost l rq = Inr c)"

definition total_groups ::
  "('i, 'b) limiter_env \<Rightarrow> http_request \<Rightarrow> string \<Rightarrow> 'i limit_group list \<Rightarrow> bool" where
  "total_groups env rq endpoint gs \<longleftrightarrow> (\<exists>ls. chain_groups (le_parse_many env) gs = Inr ls \<and>
     (\<forall>l \<in> set ls. total_limit env rq endpoint l))"

text \<open>The configuration raises nothing for the request, a probe of the storage answers, the
  fallback storage works, and the main one fails with ordinary exceptions.\<close>

definition fallback_ready :: "('i, 'b) limiter_env \<Rightarrow> http_request \<Rightarrow> string \<Rightarrow> bool" where
  "fallback_ready env rq endpoint \<longleftrightarrow> le_fallback_enabled env \<and>
     total_groups env rq endpoint (le_in_memory_fallback env) \<and>
     total_groups env rq endpoint (le_default_limits env) \<and>
     total_groups env rq endpoint (le_application_limits env) \<and>
     (\<forall>b. \<exists>ok. fst (be_check (le_primary env) b) = Inr ok) \<and>
     (\<forall>i a c b. \<exists>ok. fst (be_hit (le_fallback env) i a c b) = Inr ok) \<and>
     (\<forall>i a c b e. fst (be_hit (le_primary env) i a c b) = Inl e \<longrightarrow> is_exception e \<and> e \<noteq> RateLimitExceeded)"

lemma fallback_readyD:
  assumes "fallback_ready env rq endpoint"
  shows "le_fallback_enabled env" and "total_groups env rq endpoint (le_in_memory_fallback env)"
    and "total_groups env rq endpoint (le_default_limits env)"
    and "total_groups env rq endpoint (le_application_limits env)"
    and "\<exists>ok. fst (be_check (le_primary env) b) = Inr ok"
    and "\<exists>ok. fst (be_hit (le_fallback env) i a c b) = Inr ok"
    and "fst (be_hit (le_primary env) i a c b) = Inl e \<Longrightarrow> is_exception e \<and> e \<noteq> RateLimitExceeded"
  using assms unfolding fallback_ready_def by blast+

lemma limiter_hit_dead:
  assumes "fallback_ready env rq endpoint" and "bf_storage_dead (ls_flags s)"
  shows "limiter_hit env i a c s \<noteq> (Inl e, s')"
proof
  assume "limiter_hit env i a c s = (Inl e, s')"
  then have "fst (be_hit (le_fallback env) i a c (ls_fallback s)) = Inl e"
    using assms(2) fallback_readyD(1) [OF assms(1)] by (auto simp: limiter_hit_def split: prod.splits)
  with fallback_readyD(6) [OF assms(1), of i a c "ls_fallback s"] show False by auto
qed

lemma limiter_hit_error:
  assumes "fallback_ready env rq endpoint" and "limiter_hit env i a c s = (Inl e, s')"
  shows "\<not> bf_storage_dead (ls_flags s) \<and> is_exception e"
proof -
  have nd: "\<not> bf_storage_dead (ls_flags s)" using limiter_hit_dead [OF assms(1)] assms(2) by blast
  then have "fst (be_hit (le_primary env) i a c (ls_primary s)) = Inl e"
    using assms(2) by (auto simp: limiter_hit_def split: prod.splits)
  then have "is_exception e" using fallback_readyD(7) [OF assms(1)] by blast
  with nd show ?thesis by simp
qed

lemma evaluate_loop_error:
  assumes "fallback_ready env rq endpoint" and "\<forall>l \<in> set ls. total_limit env rq endpoint l"
    and "evaluate_loop env rq endpoint ls header s = (Inl e, s')"
  shows "\<not> bf_storage_dead (ls_flags s) \<and> is_exception e"
  using assms(2,3)
proof (induction ls arbitrary: header s)
  case Nil
  then show ?case by simp
next
  case (Cons l ls)
  obtain a c where a: "limit_args env rq endpoint l = Inr a" and c: "li_cost l rq = Inr c"
    using Cons.prems(1) by (auto simp: total_limit_def)
  show ?case
  proof (cases a)
    case None
    with Cons a show ?thesis by simp
  next
    case (Some args)
    obtain x s1 where h: "limiter_hit env (li_limit l) args c s = (x, s1)" by (rule prod.exhaust)
    show ?thesis
    proof (cases x)
      case (Inl e')
      with Cons.prems(2) a c Some h have "limiter_hit env (li_limit l) args c s = (Inl e, s1)"
        by (simp add: Let_def)
      then show ?thesis by (rule limiter_hit_error [OF assms(1)])
    next
      case (Inr ok)
      with Cons.prems(2) a c Some h obtain header' where
        "evaluate_loop env rq endpoint ls header' s1 = (Inl e, s')"
        by (auto simp: Let_def split: if_splits)
      moreover have "\<forall>l \<in> set ls. total_limit env rq endpoint l" using Cons.prems(1) by simp
      ultimately have "\<not> bf_storage_dead (ls_flags s1) \<and> is_exception e" by (intro Cons.IH)
      with limiter_hit_flags [OF h] show ?thesis by simp
    qed
  qed
qed

lemma evaluate_limits_error:
  assumes "fallback_ready env rq endpoint" and "\<forall>l \<in> set ls. total_limit env rq endpoint l"
    and "evaluate_limits env rq endpoint ls s = (Inl e, s')" and "e \<noteq> RateLimitExceeded"
  shows "\<not> bf_storage_dead (ls_flags s') \<and> is_exception e"
proof -
  have "evaluate_loop env rq endpoint ls None s = (Inl e, s')"
    using assms(3,4) by (auto simp: evaluate_limits_def split: prod.splits sum.splits if_splits)
  then show ?thesis using evaluate_loop_error [OF assms(1,2)] evaluate_loop_flags by metis
qed

lemma chain_total:
  "total_groups env rq endpoint gs \<Longrightarrow>
   \<exists>ls. chain_groups (le_parse_many env) gs = Inr ls \<and> (\<forall>l \<in> set ls. total_limit env rq endpoint l)"
  by (simp add: total_groups_def)

lemma chk_ok: "fallback_ready env rq endpoint \<Longrightarrow> storage_check env s \<noteq> (Inl e, s')"
  using fallback_readyD(5) [of env rq endpoint "ls_primary s"]
  by (auto simp: storage_check_def split: prod.splits)

lemma fallback_limits_ready:
  assumes "fallback_ready env rq endpoint" and "fallback_limits env now mw fname s = (r, s')"
  shows "\<exists>ls. r = Inr ls \<and> (\<forall>l \<in> set ls. total_limit env rq endpoint l)"
proof -
  obtain ls where "chain_groups (le_parse_many env) (le_in_memory_fallback env) = Inr ls"
    "\<forall>l \<in> set ls. total_limit env rq endpoint l"
    using chain_total [OF fallback_readyD(2) [OF assms(1)]] by blast
  moreover have "r = Inr [] \<or> r = chain_groups (le_parse_many env) (le_in_memory_fallback env)"
    using assms(2) chk_ok [OF assms(1)]
    by (auto simp: fallback_limits_def Let_def split: if_splits prod.splits sum.splits)
  ultimately show ?thesis by auto
qed

lemma normal_limits_ready:
  assumes "fallback_ready env rq endpoint" and "\<forall>l \<in> set rls. total_limit env rq endpoint l"
  shows "\<exists>ls. normal_limits env mw fname rls = Inr ls \<and> (\<forall>l \<in> set ls. total_limit env rq endpoint l)"
proof -
  obtain ds where "chain_groups (le_parse_many env) (le_default_limits env) = Inr ds"
    "\<forall>l \<in> set ds. total_limit env rq endpoint l"
    using chain_total [OF fallback_readyD(3) [OF assms(1)]] by blast
  moreover obtain as where "chain_groups (le_parse_many env) (le_application_limits env) = Inr as"
    "\<forall>l \<in> set as. total_limit env rq endpoint l"
    using chain_total [OF fallback_readyD(4) [OF assms(1)]] by blast
  ultimately show ?thesis using assms(2) by (auto simp: normal_limits_def)
qed

lemma check_once_error:
  assumes "fallback_ready env rq endpoint" and "\<forall>l \<in> set rls. total_limit env rq endpoint l"
    and "check_once env now rq mw fname endpoint rls s = (Inl e, s')" and "e \<noteq> RateLimitExceeded"
  shows "\<not> bf_storage_dead (ls_flags s') \<and> is_exception e"
proof -
  obtain x s1 where f: "fallback_limits env now mw fname s = (x, s1)" by (rule prod.exhaust)
  obtain fb where fb: "x = Inr fb" "\<forall>l \<in> set fb. total_limit env rq endpoint l"
    using fallback_limits_ready [OF assms(1) f] by blast
  obtain ns where ns: "normal_limits env mw fname rls = Inr ns" "\<forall>l \<in> set ns. total_limit env rq endpoint l"
    using normal_limits_ready [OF assms(1,2)] by blast
  let ?ls = "if fb = [] then ns else fb"
  have "evaluate_limits env rq endpoint ?ls s1 = (Inl e, s')"
    using assms(3) f fb(1) ns(1) by (auto simp: check_once_def split: if_splits)
  moreover have "\<forall>l \<in> set ?ls. total_limit env rq endpoint l" using fb(2) ns(2) by simp
  ultimately show ?thesis using evaluate_limits_error [OF assms(1)] assms(4) by blast
qed

lemma check_attempts_ready:
  assumes "fallback_ready env rq endpoint" and "\<forall>l \<in> set rls. total_limit env rq endpoint l"
  shows "fst (check_attempts env now rq mw fname endpoint rls s) \<in> {Inr (), Inl RateLimitExceeded}"
  using assms
proof (induction env now rq mw fname endpoint rls s rule: check_attempts.induct)
  case (1 env now rq mw fname endpoint rls s)
  show ?case
  proof (cases "check_once env now rq mw fname endpoint rls s")
    case (Pair x s')
    show ?thesis
    proof (cases "\<exists>e. x = Inl e \<and> e \<noteq> RateLimitExceeded")
      case True
      then obtain e where e: "x = Inl e" "e \<noteq> RateLimitExceeded" by blast
      have c: "\<not> bf_storage_dead (ls_flags s') \<and> is_exception e"
        using check_once_error [OF "1.prems"] Pair e by blast
      have "check_attempts env now rq mw fname endpoint rls s = check_attempts env now rq mw fname endpoint rls (mark_dead s')"
        using Pair e c fallback_readyD(1) [OF "1.prems"(1)] by (subst check_attempts.simps) simp
      moreover have "fst (check_attempts env now rq mw fname endpoint rls (mark_dead s')) \<in> {Inr (), Inl RateLimitExceeded}"
        using "1.IH" [OF Pair [symmetric] e(1)] c e(2) fallback_readyD(1) [OF "1.prems"(1)] "1.prems" by simp
      ultimately show ?thesis by simp
    next
      case False
      then have "x = Inl RateLimitExceeded \<or> x = Inr ()" by (cases x) auto
      then show ?thesis using Pair by (subst check_attempts.simps) auto
    qed
  qed
qed

section \<open>Properties\<close>

text \<open>A storage that fails in every call but claims to be alive, and a fallback that is used up.\<close>

definition demo_limit :: "nat \<Rightarrow> nat rate_limit" where
  "demo_limit i = \<lparr>li_limit = i, li_key_func = (\<lambda>rq. Inr (rq_client rq)), li_scope_arg = No_Scope, li_per_method = False,
     li_methods = None, li_exempt_when = None, li_cost = (\<lambda>_. Inr 1), li_override_defaults = True\<rparr>"

definition demo_group :: "nat limit_group" where
  "demo_group = \<lparr>lg_provider = Prov_Text ''1/minute'', lg_limit = demo_limit, lg_key_func = (\<lambda>rq. Inr (rq_client rq)),
     lg_key_takes_request = True, lg_request = None\<rparr>"

definition demo_limiter :: "(nat, unit) limiter_env" where
  "demo_limiter = \<lparr>
     le_primary = \<lparr>be_hit = (\<lambda>_ _ _ b. (Inl (RuntimeError ''down''), b)), be_check = (\<lambda>b. (Inr True, b))\<rparr>,
     le_fallback = \<lparr>be_hit = (\<lambda>_ _ _ b. (Inr False, b)), be_check = (\<lambda>b. (Inr True, b))\<rparr>,
     le_parse_many = (\<lambda>_. Inr [7]), le_less = (<), le_enabled = True, le_swallow_errors = False,
     le_fallback_enabled = True, le_in_memory_fallback = [demo_group], le_default_limits = [demo_group],
     le_application_limits = [], le_key_prefix = [], le_key_style_url = True, le_request_filters = [],
     le_exempt_routes = [''m.free''], le_route_limits = Map.empty, le_dynamic_route_limits = Map.empty, le_marked = []\<rparr>"

definition demo_flags :: backend_flags where
  "demo_flags = \<lparr>bf_storage_dead = False, bf_check_count = 0, bf_last_check = 0\<rparr>"

definition demo_limiter_state :: "(nat, unit) limiter_state" where
  "demo_limiter_state = \<lparr>ls_flags = demo_flags, ls_primary = (), ls_fallback = (), ls_view = None\<rparr>"

definition demo_request :: http_request where
  "demo_request = \<lparr>rq_path = ''/x'', rq_method = ''GET'', rq_client = ''10.0.0.1''\<rparr>"

lemma demo_limiter_simps:
  "le_route_limits demo_limiter = Map.empty" "le_dynamic_route_limits demo_limiter = Map.empty"
  "le_key_style_url demo_limiter" "le_enabled demo_limiter" "le_exempt_routes demo_limiter = [''m.free'']"
  "chain_groups (le_parse_many demo_limiter) (le_default_limits demo_limiter) = Inr [demo_limit 7]"
  "chain_groups (le_parse_many demo_limiter) (le_application_limits demo_limiter) = Inr []"
  "le_in_memory_fallback demo_limiter = [demo_group]" "le_fallback_enabled demo_limiter"
  "\<not> le_swallow_errors demo_limiter"
  by (simp_all add: demo_limiter_def demo_group_def lg_iter_def lg_limit_raw_def)

lemma demo_fallback_ready: "fallback_ready demo_limiter demo_request (rq_path demo_request)"
proof -
  have "total_limit demo_limiter demo_request (rq_path demo_request) (demo_limit 7)"
    by (simp add: total_limit_def limit_args_def li_scope_def li_is_exempt_def demo_limit_def demo_request_def
        demo_limiter_def Let_def)
  then show ?thesis
    by (simp add: fallback_ready_def total_groups_def) (auto simp: demo_limiter_def demo_group_def lg_iter_def lg_limit_raw_def)
qed



text \<open>C17: The probes of a dead storage. The counter stays at six or below; a probe comes more than a
  second after the one before; and once thirty-two seconds have passed the next request probes.\<close>

theorem rl_probe_backoff:
  assumes "bf_check_count f \<le> MAX_BACKEND_CHECKS + 1" and "should_check_backend now f = (chk, f')"
  shows "bf_check_count f' \<le> MAX_BACKEND_CHECKS + 1 \<and>
    (chk \<longrightarrow> now - bf_last_check f > 1 \<and> bf_last_check f' = now) \<and>
    (\<not> chk \<longrightarrow> bf_last_check f' = bf_last_check f \<and> now - bf_last_check f \<le> 32)"
proof -
  let ?n = "if bf_check_count f > MAX_BACKEND_CHECKS then 0 else bf_check_count f"
  have n: "?n \<le> 5" by (simp add: MAX_BACKEND_CHECKS_def)
  define p :: rat where "p = 2 ^ ?n"
  have "p \<le> 2 ^ 5" unfolding p_def using n by (intro power_increasing) simp_all
  moreover have "1 \<le> p" unfolding p_def by (rule one_le_power) simp
  moreover have "bf_check_count f' = (if chk then ?n + 1 else ?n)" "chk = (now - bf_last_check f > p)"
    "bf_last_check f' = (if chk then now else bf_last_check f)"
    using assms(2) by (auto simp: should_check_backend_def Let_def p_def split: if_splits)
  ultimately show ?thesis using n by (auto simp: MAX_BACKEND_CHECKS_def)
qed

lemma rl_probe_backoff_witness:
  "fst (should_check_backend 33 demo_flags) \<and> bf_last_check (snd (should_check_backend 33 demo_flags)) = 33"
proof -
  have "bf_check_count demo_flags \<le> MAX_BACKEND_CHECKS + 1" by (simp add: demo_flags_def)
  from rl_probe_backoff [OF this prod.collapse [symmetric], where now = 33] show ?thesis by (auto simp: demo_flags_def)
qed

lemma defaults_apply_middleware [simp]: "defaults_apply env True fname []"
  by (simp add: defaults_apply_def)

definition with_marks :: "string list \<Rightarrow> ('i, 'b) limiter_env \<Rightarrow> ('i, 'b) limiter_env" where
  "with_marks ms env = env\<lparr>le_marked := ms\<rparr>"

text \<open>The guard for decorated routes is without effect. While the storage is alive, the middleware
  takes no notice of which routes carry a decorator: it counts a route whose (dynamic) limits
  override the defaults against the defaults all the same.\<close>

theorem rl_marks_ignored_by_middleware:
  assumes "chain_groups (le_parse_many env) (le_application_limits env) = Inr as"
    and "chain_groups (le_parse_many env) (le_default_limits env) = Inr ds"
    and "\<not> bf_storage_dead (ls_flags s)"
  shows "check_once (with_marks ms env) now rq True fname endpoint [] s =
    evaluate_limits (with_marks ms env) rq endpoint (as @ ds) s"
  using assms by (simp add: check_once_def fallback_limits_def normal_limits_def with_marks_def)

lemma rl_marks_ignored_by_middleware_witness:
  "check_once (with_marks [''m.f''] demo_limiter) 1 demo_request True ''m.f'' ''/x'' [] demo_limiter_state =
    evaluate_limits (with_marks [''m.f''] demo_limiter) demo_request ''/x'' ([] @ [demo_limit 7]) demo_limiter_state"
  by (rule rl_marks_ignored_by_middleware)
    (simp_all add: demo_limiter_simps demo_limiter_state_def demo_flags_def)

text \<open>An unchecked endpoint crashes after it ran. When the decorated route is exempt, or a request
  filter applies, the check returns without assigning \<open>view_rate_limit\<close>; the wrapper runs the
  endpoint, whose effects stay, and then raises \<open>AttributeError\<close> instead of returning its response.\<close>

theorem rl_exempt_endpoint_crashes:
  assumes "le_enabled env" and "fname \<in> set (le_exempt_routes env) \<or> True \<in> set (le_request_filters env)"
    and "ls_view s = None" and "handler w = (Inr resp, w')"
  shows "limited_endpoint env now rq fname check handler inject (s, w) =
    (Inl (AttributeError ''view_rate_limit''), (s, w'))"
proof -
  have "check_request_limit env now rq (Some fname) False s = (Inr (), s)"
    using assms(2) by (auto simp: check_request_limit_def Let_def)
  then show ?thesis using assms by (simp add: limited_endpoint_def)
qed

lemma rl_exempt_endpoint_crashes_witness:
  "limited_endpoint demo_limiter 1 demo_request ''m.free'' True (\<lambda>n. (Inr ''ok'', Suc n)) (\<lambda>v r s. (Inr r, s))
      (demo_limiter_state, 0) = (Inl (AttributeError ''view_rate_limit''), (demo_limiter_state, 1))"
  using rl_exempt_endpoint_crashes [where env = demo_limiter and fname = "''m.free''" and s = demo_limiter_state
      and handler = "\<lambda>n. (Inr ''ok'', Suc n)" and w = 0 and w' = 1 and resp = "''ok''"]
  by (simp add: demo_limiter_simps demo_limiter_state_def)

text \<open>The fallback of the headers does not help. When the storage fails only when the headers are
  written, the limiter falls back and can write them, and raises the first error nevertheless, unless
  errors are swallowed: the request fails although its endpoint ran.\<close>

theorem rl_header_fallback_raises:
  assumes "le_enabled env" and "he_enabled henv" and "le_in_memory_fallback env \<noteq> []"
    and "le_fallback_enabled env" and "\<not> le_swallow_errors env" and "\<not> bf_storage_dead (ls_flags s)"
    and "fst (he_stats_primary henv item args (ls_primary s)) = Inl e"
    and "fst (he_stats_fallback henv item args (ls_fallback s)) = Inr (reset, remaining)"
    and "map_of hs ''Retry-After'' = None"
  shows "\<exists>s' s2 hs'. inject_headers env henv now (Some (item, args)) hs s = (Inl e, s2) \<and>
    bf_storage_dead (ls_flags s2) \<and>
    inject_dead env henv now item args hs (mark_dead s') = (Inr hs', s2)"
proof -
  obtain b where b: "he_stats_primary henv item args (ls_primary s) = (Inl e, b)"
    using assms(7) by (cases "he_stats_primary henv item args (ls_primary s)") auto
  obtain c where c: "he_stats_fallback henv item args (ls_fallback s) = (Inr (reset, remaining), c)"
    using assms(8) by (cases "he_stats_fallback henv item args (ls_fallback s)") auto
  let ?s' = "s\<lparr>ls_primary := b\<rparr>"
  have one: "inject_once env henv now item args hs s = (Inl e, hs, ?s')"
    using assms(6) b by (simp add: inject_once_def window_stats_def)
  have st: "window_stats env henv item args (mark_dead ?s') = (Inr (reset, remaining), (mark_dead ?s')\<lparr>ls_fallback := c\<rparr>)"
    using assms(4) c by (simp add: window_stats_def mark_dead_def)
  obtain hs' where two: "inject_dead env henv now item args hs (mark_dead ?s') = (Inr hs', (mark_dead ?s')\<lparr>ls_fallback := c\<rparr>)"
    using assms(9) by (simp add: inject_dead_def inject_once_def st Let_def map_add_def)
  then have "inject_headers env henv now (Some (item, args)) hs s = (Inl e, (mark_dead ?s')\<lparr>ls_fallback := c\<rparr>)"
    using assms(1-3,5,6) one by (simp add: inject_headers_def)
  moreover have "bf_storage_dead (ls_flags ((mark_dead ?s')\<lparr>ls_fallback := c\<rparr>))" by (simp add: mark_dead_def)
  ultimately show ?thesis using two by blast
qed

definition demo_header_env :: "(nat, unit) header_env" where
  "demo_header_env = \<lparr>he_enabled = True, he_stats_primary = (\<lambda>_ _ b. (Inl (RuntimeError ''down''), b)),
     he_stats_fallback = (\<lambda>_ _ b. (Inr (5, 3), b)), he_amount = int, he_str = (\<lambda>_. ''n''), he_str_float = (\<lambda>_. ''x''),
     he_retry_value = (\<lambda>_ _. ''r''), he_retry_time = (\<lambda>_. Inr 0)\<rparr>"

lemma rl_header_fallback_raises_witness:
  "\<exists>s2. inject_headers demo_limiter demo_header_env 1 (Some (7, [''k''])) [] demo_limiter_state =
    (Inl (RuntimeError ''down''), s2)"
proof -
  have "\<exists>s' s2 hs'. inject_headers demo_limiter demo_header_env 1 (Some (7, [''k''])) [] demo_limiter_state =
      (Inl (RuntimeError ''down''), s2) \<and> bf_storage_dead (ls_flags s2) \<and>
      inject_dead demo_limiter demo_header_env 1 7 [''k''] [] (mark_dead s') = (Inr hs', s2)"
    by (rule rl_header_fallback_raises [where reset = 5 and remaining = 3])
      (simp_all add: demo_limiter_simps demo_header_env_def demo_limiter_state_def demo_flags_def)
  then show ?thesis by blast
qed

end
