(* ===== verification/Query_Builder.thy ===== *)
theory Query_Builder
  imports Taas_Prelude "HOL-Library.Sublist"
begin

text \<open>
  \<open>libs/db/src/db/utils/query_builder.py\<close>: filters given as keyword arguments are turned into the
  WHERE clause of a SELECT. A clause is an abstract syntax tree of the SQL expressions the builder
  makes, and \<open>sql_eval\<close> is their meaning on a row, in the three-valued logic of SQL (\<open>None\<close> is
  unknown). What depends on the database (the order of values, the date of a timestamp, case
  folding) and on Python's \<open>str\<close> and \<open>strptime\<close> is a parameter.
\<close>

section \<open>Expressions\<close>

datatype sql_value = V_null | V_int int | V_bool bool | V_str string | V_date string

datatype filter_value = F_none | F_scalar sql_value | F_list "sql_value list"

datatype cmp_op = Op_eq | Op_ne | Op_gt | Op_ge | Op_lt | Op_le

datatype cond =
    C_cmp cmp_op string filter_value
  | C_in string "sql_value list"
  | C_not cond
  | C_like string string
  | C_ilike string string
  | C_is_null string
  | C_is_not_null string
  | C_date_eq string filter_value
  | C_and "cond list"
  | C_or "cond list"

record py_env =
  pe_str :: "filter_value \<Rightarrow> string"
  pe_strptime :: "string \<Rightarrow> string option"
  pe_attrs :: "string \<Rightarrow> bool"

section \<open>The conditions of the filters\<close>

definition value_truthy :: "filter_value \<Rightarrow> bool" where
  "value_truthy v = (case v of F_none \<Rightarrow> False | F_list xs \<Rightarrow> xs \<noteq> []
     | F_scalar V_null \<Rightarrow> False | F_scalar (V_int n) \<Rightarrow> n \<noteq> 0 | F_scalar (V_bool b) \<Rightarrow> b
     | F_scalar (V_str s) \<Rightarrow> s \<noteq> [] | F_scalar (V_date d) \<Rightarrow> True)"

definition as_in_list :: "filter_value \<Rightarrow> sql_value list" where
  "as_in_list v = (case v of F_list xs \<Rightarrow> xs | F_scalar x \<Rightarrow> [x] | F_none \<Rightarrow> [V_null])"

definition date_condition :: "py_env \<Rightarrow> string \<Rightarrow> filter_value \<Rightarrow> py_exn + cond option" where
  "date_condition env field v = (case v of
     F_scalar (V_str s) \<Rightarrow> (case pe_strptime env s of
         None \<Rightarrow> Inl (ValueError field) | Some d \<Rightarrow> Inr (Some (C_date_eq field (F_scalar (V_date d)))))
   | _ \<Rightarrow> Inr (Some (C_date_eq field v)))"

definition build_single_condition ::
  "py_env \<Rightarrow> string \<Rightarrow> string \<Rightarrow> filter_value \<Rightarrow> py_exn + cond option" where
  "build_single_condition env field op v =
     (let s = pe_str env v in
      if \<not> pe_attrs env field then Inr None
      else if op = ''eq'' then (case v of F_list xs \<Rightarrow> Inr (Some (C_in field xs)) | _ \<Rightarrow> Inr (Some (C_cmp Op_eq field v)))
      else if op = ''neq'' then Inr (Some (C_cmp Op_ne field v))
      else if op = ''icontains'' then Inr (Some (C_ilike field (''%'' @ s @ ''%'')))
      else if op = ''contains'' then Inr (Some (C_like field (''%'' @ s @ ''%'')))
      else if op = ''gt'' then Inr (Some (C_cmp Op_gt field v))
      else if op = ''gte'' then Inr (Some (C_cmp Op_ge field v))
      else if op = ''lt'' then Inr (Some (C_cmp Op_lt field v))
      else if op = ''lte'' then Inr (Some (C_cmp Op_le field v))
      else if op = ''in'' then Inr (Some (C_in field (as_in_list v)))
      else if op = ''nin'' then Inr (Some (C_not (C_in field (as_in_list v))))
      else if op = ''isnull'' then Inr (Some (if value_truthy v then C_is_null field else C_is_not_null field))
      else if op = ''startswith'' then Inr (Some (C_like field (s @ ''%'')))
      else if op = ''istartswith'' then Inr (Some (C_ilike field (s @ ''%'')))
      else if op = ''endswith'' then Inr (Some (C_like field (''%'' @ s)))
      else if op = ''iendswith'' then Inr (Some (C_ilike field (''%'' @ s)))
      else if op = ''ci'' then Inr (Some (C_ilike field s))
      else if op = ''iexact'' then Inr (Some (C_ilike field s))
      else if op = ''date'' then date_condition env field v
      else Inr None)"

text \<open>\<open>key.split('__', 1)\<close>\<close>

fun split_once :: "string \<Rightarrow> (string \<times> string) option" where
  "split_once (a # b # r) = (if a = CHR 0x5F \<and> b = CHR 0x5F then Some ([], r)
     else map_option (\<lambda>(x, y). (a # x, y)) (split_once (b # r)))"
| "split_once _ = None"

definition parse_key :: "string \<Rightarrow> string \<times> string" where
  "parse_key key = (case split_once key of Some fo \<Rightarrow> fo | None \<Rightarrow> (key, ''eq''))"

type_synonym filters = "(string \<times> filter_value) list"

text \<open>The loop over the keyword arguments: the conditions that are not None, or the first error.\<close>

fun collect_conditions :: "py_env \<Rightarrow> filters \<Rightarrow> py_exn + cond list" where
  "collect_conditions env [] = Inr []"
| "collect_conditions env ((key, v) # kvs) =
     (if v = F_none then collect_conditions env kvs
      else (case parse_key key of (field, op) \<Rightarrow>
        (case build_single_condition env field op v of
           Inl e \<Rightarrow> Inl e
         | Inr c \<Rightarrow> (case collect_conditions env kvs of
             Inl e \<Rightarrow> Inl e
           | Inr cs \<Rightarrow> Inr (case c of None \<Rightarrow> cs | Some c' \<Rightarrow> c' # cs)))))"

section \<open>The statements\<close>

record select_stm =
  st_where :: "cond list"
  st_order :: "(string \<times> bool) list"
  st_offset :: "int option"
  st_limit :: "int option"

definition select_all :: select_stm where
  "select_all = \<lparr>st_where = [], st_order = [], st_offset = None, st_limit = None\<rparr>"

definition add_where :: "cond \<Rightarrow> select_stm \<Rightarrow> select_stm" where
  "add_where c stm = stm\<lparr>st_where := st_where stm @ [c]\<rparr>"

definition stm_or_new :: "select_stm option \<Rightarrow> select_stm" where
  "stm_or_new stm = (case stm of None \<Rightarrow> select_all | Some s \<Rightarrow> s)"

definition build_filters :: "py_env \<Rightarrow> select_stm option \<Rightarrow> filters \<Rightarrow> py_exn + select_stm" where
  "build_filters env stm kwargs = (case collect_conditions env kwargs of
     Inl e \<Rightarrow> Inl e
   | Inr cs \<Rightarrow> Inr (if cs = [] then stm_or_new stm else add_where (C_and cs) (stm_or_new stm)))"

definition build_or_filters :: "py_env \<Rightarrow> select_stm option \<Rightarrow> filters \<Rightarrow> py_exn + select_stm" where
  "build_or_filters env stm kwargs = (case collect_conditions env kwargs of
     Inl e \<Rightarrow> Inl e
   | Inr cs \<Rightarrow> Inr (if cs = [] then stm_or_new stm else add_where (C_or cs) (stm_or_new stm)))"

fun or_group_conditions :: "py_env \<Rightarrow> filters list \<Rightarrow> py_exn + cond list" where
  "or_group_conditions env [] = Inr []"
| "or_group_conditions env (g # gs) = (case collect_conditions env g of
     Inl e \<Rightarrow> Inl e
   | Inr cs \<Rightarrow> (case or_group_conditions env gs of
       Inl e \<Rightarrow> Inl e
     | Inr ds \<Rightarrow> Inr (if cs = [] then ds else C_or cs # ds)))"

text \<open>A missing argument and an empty one are treated alike.\<close>

definition build_filters_advanced ::
  "py_env \<Rightarrow> select_stm option \<Rightarrow> filters \<Rightarrow> filters \<Rightarrow> filters list \<Rightarrow> py_exn + select_stm" where
  "build_filters_advanced env stm and_filters or_filters or_groups =
     (case collect_conditions env and_filters of
        Inl e \<Rightarrow> Inl e
      | Inr as \<Rightarrow> (case collect_conditions env or_filters of
          Inl e \<Rightarrow> Inl e
        | Inr os \<Rightarrow> (case or_group_conditions env or_groups of
            Inl e \<Rightarrow> Inl e
          | Inr gs \<Rightarrow>
              (let cs = (if as = [] then [] else [C_and as]) @ (if os = [] then [] else [C_or os]) @ gs
               in Inr (if cs = [] then stm_or_new stm else add_where (C_and cs) (stm_or_new stm))))))"

text \<open>\<open>order_query\<close>: \<open>split\<close> without a bound makes three parts or more of a key with two separators,
  which cannot be unpacked; an unknown attribute raises \<open>AttributeError\<close>.\<close>

definition order_query :: "py_env \<Rightarrow> select_stm \<Rightarrow> string \<Rightarrow> py_exn + select_stm" where
  "order_query env stm order_by =
     (case (case split_once order_by of
              None \<Rightarrow> Inr (order_by, ''asc'')
            | Some (a, o') \<Rightarrow> if split_once o' = None then Inr (a, o')
                else Inl (ValueError ''too many values to unpack'')) of
        Inl e \<Rightarrow> Inl e
      | Inr (attr, ord) \<Rightarrow> if pe_attrs env attr
          then Inr (stm\<lparr>st_order := st_order stm @ [(attr, ord = ''desc'')]\<rparr>)
          else Inl (AttributeError attr))"

definition paginate_query :: "int \<Rightarrow> int \<Rightarrow> select_stm \<Rightarrow> select_stm" where
  "paginate_query offset limit stm = stm\<lparr>st_offset := Some offset, st_limit := Some limit\<rparr>"

section \<open>Meaning\<close>

text \<open>LIKE: a percent sign matches any text, an underscore any character, and a backslash makes the
  next character literal (the default escape of PostgreSQL).\<close>

fun like_match :: "string \<Rightarrow> string \<Rightarrow> bool" where
  "like_match [] s \<longleftrightarrow> s = []"
| "like_match (p # ps) s \<longleftrightarrow>
     (if p = CHR ''%'' then (like_match ps s \<or> (case s of [] \<Rightarrow> False | c # cs \<Rightarrow> like_match (p # ps) cs))
      else if p = CHR 0x5F then (case s of [] \<Rightarrow> False | c # cs \<Rightarrow> like_match ps cs)
      else if p = CHR 0x5C then
        (case ps of [] \<Rightarrow> False | q # qs \<Rightarrow> (case s of [] \<Rightarrow> False | c # cs \<Rightarrow> c = q \<and> like_match qs cs))
      else (case s of [] \<Rightarrow> False | c # cs \<Rightarrow> c = p \<and> like_match ps cs))"

record sql_sem =
  ss_less :: "sql_value \<Rightarrow> sql_value \<Rightarrow> bool"
  ss_date :: "sql_value \<Rightarrow> sql_value"
  ss_fold :: "string \<Rightarrow> string"

type_synonym db_row = "string \<Rightarrow> sql_value"

definition sql_cmp :: "sql_sem \<Rightarrow> cmp_op \<Rightarrow> sql_value \<Rightarrow> sql_value \<Rightarrow> bool option" where
  "sql_cmp sem op a b =
     (if a = V_null \<or> b = V_null then None
      else Some (case op of Op_eq \<Rightarrow> a = b | Op_ne \<Rightarrow> a \<noteq> b
        | Op_gt \<Rightarrow> ss_less sem b a | Op_ge \<Rightarrow> a = b \<or> ss_less sem b a
        | Op_lt \<Rightarrow> ss_less sem a b | Op_le \<Rightarrow> a = b \<or> ss_less sem a b))"

definition sql_in :: "sql_value \<Rightarrow> sql_value list \<Rightarrow> bool option" where
  "sql_in a vs = (if vs = [] then Some False else if a = V_null then None
     else if a \<in> set vs then Some True else if V_null \<in> set vs then None else Some False)"

text \<open>A comparison with a list or LIKE on a value that is no text is an error of the database; it
  selects no row here.\<close>

fun sql_eval :: "sql_sem \<Rightarrow> db_row \<Rightarrow> cond \<Rightarrow> bool option" where
  "sql_eval sem row (C_cmp op f v) = (case v of F_scalar x \<Rightarrow> sql_cmp sem op (row f) x | _ \<Rightarrow> None)"
| "sql_eval sem row (C_in f vs) = sql_in (row f) vs"
| "sql_eval sem row (C_not c) = map_option Not (sql_eval sem row c)"
| "sql_eval sem row (C_like f p) = (case row f of V_str s \<Rightarrow> Some (like_match p s) | _ \<Rightarrow> None)"
| "sql_eval sem row (C_ilike f p) =
     (case row f of V_str s \<Rightarrow> Some (like_match (ss_fold sem p) (ss_fold sem s)) | _ \<Rightarrow> None)"
| "sql_eval sem row (C_is_null f) = Some (row f = V_null)"
| "sql_eval sem row (C_is_not_null f) = Some (row f \<noteq> V_null)"
| "sql_eval sem row (C_date_eq f v) = (case v of
     F_scalar x \<Rightarrow> if row f = V_null then None else sql_cmp sem Op_eq (ss_date sem (row f)) x | _ \<Rightarrow> None)"
| "sql_eval sem row (C_and cs) =
     (let rs = map (sql_eval sem row) cs in
      if Some False \<in> set rs then Some False else if None \<in> set rs then None else Some True)"
| "sql_eval sem row (C_or cs) =
     (let rs = map (sql_eval sem row) cs in
      if Some True \<in> set rs then Some True else if None \<in> set rs then None else Some False)"

text \<open>The rows a statement selects, before ordering and pagination.\<close>

definition selects :: "sql_sem \<Rightarrow> select_stm \<Rightarrow> db_row \<Rightarrow> bool" where
  "selects sem stm row \<longleftrightarrow> (\<forall>c \<in> set (st_where stm). sql_eval sem row c = Some True)"

section \<open>Lemmas\<close>

lemma sql_and_true [simp]: "sql_eval sem row (C_and cs) = Some True \<longleftrightarrow> (\<forall>c \<in> set cs. sql_eval sem row c = Some True)"
proof -
  have t: "b = Some True \<longleftrightarrow> b \<noteq> None \<and> b \<noteq> Some False" for b :: "bool option" by (cases b) auto
  let ?S = "sql_eval sem row ` set cs"
  have "sql_eval sem row (C_and cs) = Some True \<longleftrightarrow> Some False \<notin> ?S \<and> None \<notin> ?S" by (simp add: Let_def)
  also have "\<dots> \<longleftrightarrow> (\<forall>c \<in> set cs. sql_eval sem row c \<noteq> None \<and> sql_eval sem row c \<noteq> Some False)"
    by (metis image_iff)
  finally show ?thesis by (simp only: t)
qed

lemma sql_or_true [simp]: "sql_eval sem row (C_or cs) = Some True \<longleftrightarrow> (\<exists>c \<in> set cs. sql_eval sem row c = Some True)"
  by (auto simp: Let_def image_iff)

declare sql_eval.simps(9,10) [simp del]

lemma selects_where [simp]: "selects sem (add_where c stm) row \<longleftrightarrow> selects sem stm row \<and> sql_eval sem row c = Some True"
  by (auto simp: selects_def add_where_def)

text \<open>The filters that become a condition.\<close>

definition filter_condition :: "py_env \<Rightarrow> string \<times> filter_value \<Rightarrow> cond option" where
  "filter_condition env kv = (case kv of (key, v) \<Rightarrow>
     if v = F_none then None
     else case build_single_condition env (fst (parse_key key)) (snd (parse_key key)) v of
       Inl _ \<Rightarrow> None | Inr c \<Rightarrow> c)"

lemma collect_conditions_eq:
  "collect_conditions env kvs = Inr cs \<Longrightarrow> cs = List.map_filter (filter_condition env) kvs"
proof (induction kvs arbitrary: cs)
  case Nil
  then show ?case by (simp add: List.map_filter_simps)
next
  case (Cons kv kvs)
  obtain key v where kv: "kv = (key, v)" by (rule prod.exhaust)
  show ?case
  proof (cases "v = F_none")
    case True
    then show ?thesis using Cons by (simp add: kv List.map_filter_simps filter_condition_def)
  next
    case False
    obtain f op where k: "parse_key key = (f, op)" by (rule prod.exhaust)
    obtain c ds where "build_single_condition env f op v = Inr c" "collect_conditions env kvs = Inr ds"
      "cs = (case c of None \<Rightarrow> ds | Some c' \<Rightarrow> c' # ds)"
      using Cons.prems False by (auto simp: kv k split: sum.splits)
    with Cons.IH False show ?thesis
      by (simp add: kv k List.map_filter_simps filter_condition_def split: option.splits)
  qed
qed

lemma collect_conditions_set:
  "collect_conditions env kvs = Inr cs \<Longrightarrow> c \<in> set cs \<longleftrightarrow> (\<exists>kv \<in> set kvs. filter_condition env kv = Some c)"
  by (drule collect_conditions_eq) (force simp: List.map_filter_def)

lemma or_groups_singletons:
  "or_group_conditions env (map (\<lambda>f. [f]) kvs) =
    (case collect_conditions env kvs of Inl e \<Rightarrow> Inl e | Inr cs \<Rightarrow> Inr (map (\<lambda>c. C_or [c]) cs))"
proof (induction kvs)
  case Nil
  then show ?case by simp
next
  case (Cons kv kvs)
  obtain key v where "kv = (key, v)" by (rule prod.exhaust)
  with Cons show ?case by (auto split: sum.splits option.splits prod.splits)
qed

subsection \<open>LIKE on plain text\<close>

definition plain :: "string \<Rightarrow> bool" where
  "plain v \<longleftrightarrow> CHR ''%'' \<notin> set v \<and> CHR 0x5F \<notin> set v \<and> CHR 0x5C \<notin> set v"

declare like_match.simps(2) [simp del]

lemma like_char:
  "plain [p] \<Longrightarrow> like_match (p # ps) s \<longleftrightarrow> (case s of [] \<Rightarrow> False | c # cs \<Rightarrow> c = p \<and> like_match ps cs)"
proof -
  assume "plain [p]"
  then have "p \<noteq> CHR ''%''" "p \<noteq> CHR 0x5F" "p \<noteq> CHR 0x5C" by (auto simp: plain_def)
  then show ?thesis by (subst like_match.simps) simp
qed

lemma like_plain_append:
  "plain v \<Longrightarrow> like_match (v @ ps) s \<longleftrightarrow> (\<exists>r. s = v @ r \<and> like_match ps r)"
proof (induction v arbitrary: s)
  case Nil
  then show ?case by simp
next
  case (Cons p v)
  then have "plain [p]" "plain v" by (auto simp: plain_def)
  with Cons.IH show ?case by (cases s) (auto simp: like_char)
qed

lemma like_percent_step:
  "like_match (CHR ''%'' # ps) s \<longleftrightarrow>
    like_match ps s \<or> (case s of [] \<Rightarrow> False | c # cs \<Rightarrow> like_match (CHR ''%'' # ps) cs)"
  by (subst like_match.simps) simp

lemma like_percent: "like_match (CHR ''%'' # ps) s \<longleftrightarrow> (\<exists>a r. s = a @ r \<and> like_match ps r)"
proof (induction s)
  case Nil
  then show ?case by (subst like_percent_step) simp
next
  case (Cons c s)
  have "like_match (CHR ''%'' # ps) (c # s) \<longleftrightarrow> like_match ps (c # s) \<or> like_match (CHR ''%'' # ps) s"
    by (subst like_percent_step) simp
  also have "\<dots> \<longleftrightarrow> like_match ps (c # s) \<or> (\<exists>a r. s = a @ r \<and> like_match ps r)" using Cons by simp
  also have "\<dots> \<longleftrightarrow> (\<exists>a r. c # s = a @ r \<and> like_match ps r)"
    by (metis Cons_eq_append_conv)
  finally show ?case .
qed

lemma like_any: "like_match [CHR ''%''] s"
  by (simp add: like_percent)

lemma like_contains: "plain v \<Longrightarrow> like_match (CHR ''%'' # v @ [CHR ''%'']) s \<longleftrightarrow> sublist v s"
  by (auto simp: like_percent like_plain_append sublist_def)

lemma like_startswith: "plain v \<Longrightarrow> like_match (v @ [CHR ''%'']) s \<longleftrightarrow> prefix v s"
  by (auto simp: like_plain_append like_any prefix_def)

lemma like_endswith: "plain v \<Longrightarrow> like_match (CHR ''%'' # v) s \<longleftrightarrow> suffix v s"
  using like_plain_append [of v "[]"] by (auto simp: like_percent suffix_def)

section \<open>Properties\<close>

definition demo_py_env :: py_env where
  "demo_py_env = \<lparr>pe_str = (\<lambda>v. case v of F_scalar (V_str s) \<Rightarrow> s | _ \<Rightarrow> []), pe_strptime = (\<lambda>_. None),
     pe_attrs = (\<lambda>f. f \<in> {''age'', ''name''})\<rparr>"

definition demo_sem :: sql_sem where
  "demo_sem = \<lparr>ss_less = (\<lambda>_ _. False), ss_date = id, ss_fold = id\<rparr>"

text \<open>A misspelt filter beside a good one.\<close>

definition demo_filters :: filters where
  "demo_filters = [(''agee__gte'', F_scalar (V_int 18)), (''age__isnull'', F_scalar (V_bool True))]"

lemma demo_filters_values:
  "build_filters demo_py_env None demo_filters = Inr (add_where (C_and [C_is_null ''age'']) select_all)"
  "map (filter_condition demo_py_env) demo_filters = [None, Some (C_is_null ''age'')]"
  by code_simp+



definition same_query :: "py_exn + select_stm \<Rightarrow> py_exn + select_stm \<Rightarrow> bool" where
  "same_query a b \<longleftrightarrow> (case (a, b) of
     (Inl e, Inl e') \<Rightarrow> e = e'
   | (Inr q, Inr q') \<Rightarrow> (\<forall>sem row. selects sem q row \<longleftrightarrow> selects sem q' row)
   | _ \<Rightarrow> False)"

text \<open>The general builder contains the simple ones. With only \<open>and_filters\<close>, and with one
  group for each filter, \<open>build_filters_advanced\<close> fails when \<open>build_filters\<close> does and selects the same
  rows; with only \<open>or_filters\<close> it agrees with \<open>build_or_filters\<close> in the same sense.\<close>

theorem qb_advanced_generalises:
  "same_query (build_filters_advanced env stm kwargs [] []) (build_filters env stm kwargs) \<and>
   same_query (build_filters_advanced env stm [] [] (map (\<lambda>f. [f]) kwargs)) (build_filters env stm kwargs) \<and>
   same_query (build_filters_advanced env stm [] kwargs []) (build_or_filters env stm kwargs)"
  by (auto simp: same_query_def build_filters_advanced_def build_filters_def build_or_filters_def
      or_groups_singletons Let_def split: sum.splits)

text \<open>Text search. For a value without the characters percent, underscore and backslash, the
  filter \<open>contains\<close> selects the texts that contain it, \<open>startswith\<close> those that begin with it and
  \<open>endswith\<close> those that end with it. The
  value is not escaped: the value consisting of one percent sign selects every text.\<close>

theorem qb_text_search:
  assumes "pe_attrs env f" and "pe_str env (F_scalar (V_str v)) = v"
    and "row f = V_str t"
  shows "(plain v \<longrightarrow>
     (\<exists>c. build_single_condition env f ''contains'' (F_scalar (V_str v)) = Inr (Some c) \<and>
        (sql_eval sem row c = Some True \<longleftrightarrow> sublist v t)) \<and>
     (\<exists>c. build_single_condition env f ''startswith'' (F_scalar (V_str v)) = Inr (Some c) \<and>
        (sql_eval sem row c = Some True \<longleftrightarrow> prefix v t)) \<and>
     (\<exists>c. build_single_condition env f ''endswith'' (F_scalar (V_str v)) = Inr (Some c) \<and>
        (sql_eval sem row c = Some True \<longleftrightarrow> suffix v t))) \<and>
   (v = ''%'' \<longrightarrow> (\<exists>c. build_single_condition env f ''contains'' (F_scalar (V_str v)) = Inr (Some c) \<and>
        sql_eval sem row c = Some True))"
proof -
  have c: "build_single_condition env f ''contains'' (F_scalar (V_str v)) = Inr (Some (C_like f (''%'' @ v @ ''%'')))"
    and b: "build_single_condition env f ''startswith'' (F_scalar (V_str v)) = Inr (Some (C_like f (v @ ''%'')))"
    and e: "build_single_condition env f ''endswith'' (F_scalar (V_str v)) = Inr (Some (C_like f (''%'' @ v)))"
    using assms(1,2) by (simp_all add: build_single_condition_def Let_def)
  have l: "sql_eval sem row (C_like f p) = Some True \<longleftrightarrow> like_match p t" for p
    using assms(3) by simp
  have "like_match (''%'' @ ''%'' @ ''%'') t" by (simp add: like_percent) (metis append_Nil)
  then show ?thesis
    unfolding c b e by (simp add: l like_contains like_startswith like_endswith del: sql_eval.simps)
qed

lemma qb_text_search_witness:
  "\<exists>c. build_single_condition demo_py_env ''name'' ''contains'' (F_scalar (V_str ''oh'')) = Inr (Some c) \<and>
    sql_eval demo_sem (\<lambda>_. V_str ''John'') c = Some True"
proof -
  have "pe_attrs demo_py_env ''name''" "pe_str demo_py_env (F_scalar (V_str ''oh'')) = ''oh''"
    by (simp_all add: demo_py_env_def)
  moreover have "plain ''oh''" by (simp add: plain_def)
  moreover have "sublist ''oh'' (''J'' @ ''oh'' @ ''n'')" by (rule sublist_appendI)
  then have "sublist ''oh'' ''John''" by simp
  ultimately show ?thesis
    using qb_text_search [where env = demo_py_env and f = "''name''" and v = "''oh''"
        and row = "\<lambda>_. V_str ''John''" and t = "''John''" and sem = demo_sem] by blast
qed

end
