(* ===== verification/Kaspa_Fee.thy ===== *)
theory Kaspa_Fee
  imports Taas_Prelude
begin

text \<open>
  \<open>libs/block-kaspa/src/block_kaspa/transaction/simple_fee_estimator.py\<close>: the mass of a Kaspa
  transaction, its fee, and the selection of the outputs it spends. Amounts are Python integers
  (sompi); the fee rate is a \<open>float\<close>, here a rational; \<open>//\<close> is the floor division of \<open>int\<close>, which
  raises \<open>ZeroDivisionError\<close> on a zero divisor.
\<close>

section \<open>Masses\<close>

definition MASS_PER_TX_BYTE :: int where "MASS_PER_TX_BYTE = 1"
definition MASS_PER_SCRIPT_PUB_KEY_BYTE :: int where "MASS_PER_SCRIPT_PUB_KEY_BYTE = 10"
definition MASS_PER_SIG_OP :: int where "MASS_PER_SIG_OP = 1000"
definition STORAGE_MASS_PARAMETER :: int where "STORAGE_MASS_PARAMETER = 10 ^ 12"
definition MINIMUM_FEERATE :: rat where "MINIMUM_FEERATE = 100"
definition SUBNETWORK_ID_SIZE :: int where "SUBNETWORK_ID_SIZE = 20"
definition HASH_SIZE :: int where "HASH_SIZE = 32"
definition SIGNATURE_SCRIPT_SIZE :: int where "SIGNATURE_SCRIPT_SIZE = 66"
definition SIG_OPS_PER_INPUT :: int where "SIG_OPS_PER_INPUT = 1"

definition TX_FIXED_OVERHEAD :: int where
  "TX_FIXED_OVERHEAD = 2 + 8 + 8 + 8 + SUBNETWORK_ID_SIZE + 8 + HASH_SIZE + 8"

definition input_serialized_size :: int where
  "input_serialized_size = 32 + 4 + 8 + SIGNATURE_SCRIPT_SIZE + 8"

definition output_serialized_size :: "int \<Rightarrow> int" where
  "output_serialized_size script_len_bytes = 8 + 2 + 8 + script_len_bytes"

definition transaction_serialized_size :: "int \<Rightarrow> int list \<Rightarrow> int \<Rightarrow> int" where
  "transaction_serialized_size n_inputs output_script_lens payload_len =
     TX_FIXED_OVERHEAD + payload_len + n_inputs * input_serialized_size +
     sum_list (map output_serialized_size output_script_lens)"

definition compute_mass :: "int \<Rightarrow> int list \<Rightarrow> int \<Rightarrow> int" where
  "compute_mass n_inputs output_script_lens payload_len =
     (let size_mass = transaction_serialized_size n_inputs output_script_lens payload_len * MASS_PER_TX_BYTE;
          spk_mass = sum_list (map (\<lambda>s. 2 + s) output_script_lens) * MASS_PER_SCRIPT_PUB_KEY_BYTE;
          sigops_mass = n_inputs * SIG_OPS_PER_INPUT * MASS_PER_SIG_OP
      in size_mass + spk_mass + sigops_mass)"

lemmas mass_constants =
  MASS_PER_TX_BYTE_def MASS_PER_SCRIPT_PUB_KEY_BYTE_def MASS_PER_SIG_OP_def SUBNETWORK_ID_SIZE_def
  HASH_SIZE_def SIGNATURE_SCRIPT_SIZE_def SIG_OPS_PER_INPUT_def TX_FIXED_OVERHEAD_def
  input_serialized_size_def

definition floor_div :: "int \<Rightarrow> int \<Rightarrow> py_exn + int" where
  "floor_div a b = (if b = 0 then Inl ZeroDivisionError else Inr (a div b))"

text \<open>\<open>sum(c // o for o in amounts)\<close>\<close>

fun harmonic :: "int \<Rightarrow> int list \<Rightarrow> py_exn + int" where
  "harmonic c [] = Inr 0"
| "harmonic c (a # as) = (case floor_div c a of
     Inl e \<Rightarrow> Inl e
   | Inr q \<Rightarrow> (case harmonic c as of Inl e \<Rightarrow> Inl e | Inr r \<Rightarrow> Inr (q + r)))"

definition storage_mass :: "int list \<Rightarrow> int list \<Rightarrow> py_exn + int" where
  "storage_mass input_amounts output_amounts =
     (let c = STORAGE_MASS_PARAMETER; n_in = length input_amounts; n_out = length output_amounts in
      case harmonic c output_amounts of
        Inl e \<Rightarrow> Inl e
      | Inr harmonic_outs \<Rightarrow>
          if n_out \<le> n_in \<and> n_in \<le> 2 \<or> n_out = 1
          then (case harmonic c input_amounts of
                  Inl e \<Rightarrow> Inl e
                | Inr harmonic_ins \<Rightarrow> Inr (max 0 (harmonic_outs - harmonic_ins)))
          else (case floor_div (c * int n_in ^ 2) (sum_list input_amounts) of
                  Inl e \<Rightarrow> Inl e
                | Inr arithmetic_ins \<Rightarrow> Inr (max 0 (harmonic_outs - arithmetic_ins))))"

section \<open>Fees\<close>

record fee_estimate =
  fe_compute_mass :: int
  fe_storage_mass :: int
  fe_network_mass :: int
  fe_minimum_fee :: int
  fe_fee :: int
  fe_change :: int
  fe_n_inputs :: nat
  fe_n_outputs :: nat

text \<open>The arguments that do not vary during the selection.\<close>

record fee_args =
  fa_send_amount :: int
  fa_feerate :: rat
  fa_priority_fee :: int
  fa_output_script_len :: int
  fa_payload_len :: int

definition fee_args_default :: "int \<Rightarrow> fee_args" where
  "fee_args_default send_amount = \<lparr>fa_send_amount = send_amount, fa_feerate = MINIMUM_FEERATE,
     fa_priority_fee = 0, fa_output_script_len = 34, fa_payload_len = 0\<rparr>"

text \<open>The fee when the transaction has the given output scripts.\<close>

definition mass_for :: "fee_args \<Rightarrow> nat \<Rightarrow> nat \<Rightarrow> int" where
  "mass_for a n_in n_out =
     compute_mass (int n_in) (replicate n_out (fa_output_script_len a)) (fa_payload_len a)"

definition minimum_fee_for :: "fee_args \<Rightarrow> nat \<Rightarrow> nat \<Rightarrow> int" where
  "minimum_fee_for a n_in n_out = \<lceil>of_int (mass_for a n_in n_out) * fa_feerate a\<rceil>"

definition estimate_for :: "fee_args \<Rightarrow> int list \<Rightarrow> py_exn + fee_estimate" where
  "estimate_for a inputs =
     (let total_in = sum_list inputs; n_in = length inputs;
          fee2 = minimum_fee_for a n_in 2 + fa_priority_fee a;
          change2 = total_in - fa_send_amount a - fee2;
          n_outputs = (if change2 \<le> 0 then 1 else 2);
          cm = mass_for a n_in n_outputs;
          minimum_fee = minimum_fee_for a n_in n_outputs;
          fee = minimum_fee + fa_priority_fee a;
          change = total_in - fa_send_amount a - fee;
          outputs = (if n_outputs = 2 then [fa_send_amount a, change] else [fa_send_amount a])
      in case storage_mass inputs outputs of
           Inl e \<Rightarrow> Inl e
         | Inr sm \<Rightarrow> Inr \<lparr>fe_compute_mass = cm, fe_storage_mass = sm, fe_network_mass = max cm sm,
             fe_minimum_fee = minimum_fee, fe_fee = fee, fe_change = change,
             fe_n_inputs = n_in, fe_n_outputs = n_outputs\<rparr>)"

text \<open>The test of the loop: the selection covers amount and fee, and storage does not dominate.\<close>

definition selection_good :: "fee_args \<Rightarrow> int list \<Rightarrow> fee_estimate \<Rightarrow> bool" where
  "selection_good a selected r \<longleftrightarrow>
     sum_list selected \<ge> fa_send_amount a + fe_fee r \<and> fe_storage_mass r \<le> fe_compute_mass r"

fun select_loop ::
  "fee_args \<Rightarrow> bool \<Rightarrow> int list \<Rightarrow> int list \<Rightarrow> fee_estimate \<Rightarrow> py_exn + fee_estimate" where
  "select_loop a select_utxos selected [] r = Inr r"
| "select_loop a select_utxos selected (amt # amts) r =
     (case estimate_for a (selected @ [amt]) of
        Inl e \<Rightarrow> Inl e
      | Inr r' \<Rightarrow>
          if \<not> select_utxos then select_loop a select_utxos (selected @ [amt]) amts r'
          else if selection_good a (selected @ [amt]) r' then Inr r'
          else select_loop a select_utxos (selected @ [amt]) amts r')"

definition estimate_fee :: "fee_args \<Rightarrow> bool \<Rightarrow> int list \<Rightarrow> py_exn + fee_estimate" where
  "estimate_fee a select_utxos utxo_amounts =
     (if utxo_amounts = [] then Inl (ValueError ''no utxos provided'')
      else let amounts = (if select_utxos then sort utxo_amounts else utxo_amounts) in
        case estimate_for a amounts of
          Inl e \<Rightarrow> Inl e
        | Inr r \<Rightarrow> select_loop a select_utxos [] amounts r)"

section \<open>Lemmas\<close>

lemma compute_mass_outputs:
  "compute_mass n (replicate k s) p =
     94 + p + 1118 * n + int k * (18 + s) + int k * (2 + s) * 10"
  by (simp add: compute_mass_def transaction_serialized_size_def mass_constants
      output_serialized_size_def Let_def map_replicate_const sum_list_replicate algebra_simps)

lemma mass_for_alt:
  "mass_for a n k = 94 + fa_payload_len a + 1118 * int n + int k * (38 + 11 * fa_output_script_len a)"
  by (simp add: mass_for_def compute_mass_outputs algebra_simps)

lemma harmonic_total:
  assumes "\<forall>x \<in> set as. x \<noteq> 0"
  shows "harmonic c as = Inr (\<Sum>x\<leftarrow>as. c div x)"
  using assms by (induction as) (simp_all add: floor_div_def)

lemma sort_Nil_iff [simp]: "sort xs = [] \<longleftrightarrow> xs = []"
  by (metis length_0_conv length_sort)

lemma sum_list_positive: "\<forall>x \<in> set xs. (x::int) > 0 \<Longrightarrow> xs \<noteq> [] \<Longrightarrow> sum_list xs > 0"
  by (induction xs) (auto simp: add_pos_nonneg sum_list_nonneg less_imp_le)

lemma storage_mass_total:
  assumes "\<forall>x \<in> set is. x > 0" and "is \<noteq> []" and "\<forall>x \<in> set os. x \<noteq> 0"
  shows "\<exists>m \<ge> 0. storage_mass is os = Inr m"
proof -
  have "sum_list is \<noteq> 0"
    using sum_list_positive [OF assms(1,2)] by simp
  moreover have "\<forall>x \<in> set is. x \<noteq> 0" using assms(1) by auto
  ultimately show ?thesis
    by (simp add: storage_mass_def harmonic_total assms(3) floor_div_def Let_def)
qed

text \<open>The result of \<open>estimate_for\<close> without its storage mass.\<close>

lemma estimate_for_fields:
  assumes "estimate_for a ins = Inr r"
  shows "fe_n_inputs r = length ins"
    and "fe_n_outputs r =
      (if sum_list ins - fa_send_amount a \<le> minimum_fee_for a (length ins) 2 + fa_priority_fee a then 1 else 2)"
    and "fe_compute_mass r = mass_for a (length ins) (fe_n_outputs r)"
    and "fe_minimum_fee r = minimum_fee_for a (length ins) (fe_n_outputs r)"
    and "fe_fee r = fe_minimum_fee r + fa_priority_fee a"
    and "fe_change r = sum_list ins - fa_send_amount a - fe_fee r"
    and "fe_network_mass r = max (fe_compute_mass r) (fe_storage_mass r)"
  using assms by (auto simp: estimate_for_def Let_def split: sum.splits if_splits)

lemma estimate_for_total:
  assumes "\<forall>x \<in> set ins. x > 0" and "ins \<noteq> []" and "fa_send_amount a > 0"
  shows "\<exists>r. estimate_for a ins = Inr r"
proof -
  let ?c = "sum_list ins - fa_send_amount a - (minimum_fee_for a (length ins) 2 + fa_priority_fee a)"
  let ?o = "if ?c \<le> 0 then [fa_send_amount a] else [fa_send_amount a, ?c]"
  have "\<forall>x \<in> set ?o. x \<noteq> 0" using assms(3) by (cases "?c \<le> 0") auto
  from storage_mass_total [OF assms(1,2) this] obtain m where "storage_mass ins ?o = Inr m" by blast
  then show ?thesis by (auto simp: estimate_for_def Let_def split: if_splits)
qed

lemma select_loop_result:
  assumes "select_loop a sel selected amts r = Inr q" and "amts \<noteq> []"
  shows "\<exists>k. 1 \<le> k \<and> k \<le> length amts \<and> estimate_for a (selected @ take k amts) = Inr q \<and>
    (sel \<or> k = length amts)"
  using assms
proof (induction amts arbitrary: selected r)
  case Nil
  then show ?case by simp
next
  case (Cons x xs)
  then obtain r' where r': "estimate_for a (selected @ [x]) = Inr r'" by (auto split: sum.splits)
  show ?case
  proof (cases "sel \<and> selection_good a (selected @ [x]) r' \<or> xs = []")
    case True
    with Cons.prems r' have "q = r'" by (auto split: if_splits)
    with True r' show ?thesis by (intro exI [of _ 1]) auto
  next
    case False
    with Cons.prems r' have "select_loop a sel (selected @ [x]) xs r' = Inr q" by (auto split: if_splits)
    from Cons.IH [OF this] False obtain k where "1 \<le> k" "k \<le> length xs"
      "estimate_for a (selected @ x # take k xs) = Inr q" "sel \<or> k = length xs" by auto
    then show ?thesis by (intro exI [of _ "Suc k"]) auto
  qed
qed

text \<open>A reference: the first non-empty prefix that passes the test, else the whole list.\<close>

definition prefix_good :: "fee_args \<Rightarrow> int list \<Rightarrow> nat \<Rightarrow> bool" where
  "prefix_good a amts k \<longleftrightarrow> (case estimate_for a (take k amts) of
     Inl _ \<Rightarrow> False | Inr r \<Rightarrow> selection_good a (take k amts) r)"

definition prefix_choice :: "fee_args \<Rightarrow> int list \<Rightarrow> nat" where
  "prefix_choice a amts = (case List.find (prefix_good a amts) [1..<length amts] of
     Some k \<Rightarrow> k | None \<Rightarrow> length amts)"

lemma select_loop_reference:
  assumes "\<forall>x \<in> set amts. x > 0" and "fa_send_amount a > 0" and "j < length amts"
  shows "select_loop a True (take j amts) (drop j amts) r =
    estimate_for a (take (case List.find (prefix_good a amts) [Suc j..<length amts] of
      Some k \<Rightarrow> k | None \<Rightarrow> length amts) amts)"
  using assms(3)
proof (induction "length amts - j" arbitrary: j r)
  case 0
  then show ?case by simp
next
  case (Suc n)
  have d: "drop j amts = amts ! j # drop (Suc j) amts" using Suc.prems by (simp add: Cons_nth_drop_Suc)
  have t: "take j amts @ [amts ! j] = take (Suc j) amts" using Suc.prems by (simp add: take_Suc_conv_app_nth)
  have "\<forall>x \<in> set (take (Suc j) amts). x > 0" using assms(1) by (auto dest: in_set_takeD)
  moreover have "take (Suc j) amts \<noteq> []" using Suc.prems by (cases amts) auto
  ultimately obtain r' where r': "estimate_for a (take (Suc j) amts) = Inr r'"
    using estimate_for_total assms(2) by blast
  have step: "select_loop a True (take j amts) (drop j amts) r =
      (if prefix_good a amts (Suc j) then Inr r' else select_loop a True (take (Suc j) amts) (drop (Suc j) amts) r')"
    by (simp add: d t r' prefix_good_def)
  show ?case
  proof (cases "Suc j < length amts")
    case True
    have "n = length amts - Suc j" using Suc.hyps(2) by simp
    from Suc.hyps(1) [OF this True] show ?thesis
      using r' by (simp add: step upt_conv_Cons [OF True])
  next
    case False
    then have "take (Suc j) amts = amts" "drop (Suc j) amts = []" by simp_all
    moreover have "[Suc j..<length amts] = []" using False by simp
    ultimately show ?thesis using r' by (simp add: step)
  qed
qed

lemma prefix_choice_range: "amts \<noteq> [] \<Longrightarrow> 1 \<le> prefix_choice a amts \<and> prefix_choice a amts \<le> length amts"
  by (auto simp: prefix_choice_def find_Some_iff Suc_le_eq split: option.splits)

lemma prefix_choice_least:
  assumes "1 \<le> j" and "j < prefix_choice a amts"
  shows "\<not> prefix_good a amts j"
proof (cases "List.find (prefix_good a amts) [1..<length amts]")
  case None
  then have "prefix_choice a amts = length amts" by (simp add: prefix_choice_def)
  with None assms show ?thesis by (auto simp: find_None_iff)
next
  case (Some k)
  then have k: "k = prefix_choice a amts" by (simp add: prefix_choice_def)
  obtain i where i: "i < length [1..<length amts]" "k = [1..<length amts] ! i"
    "\<forall>m<i. \<not> prefix_good a amts ([1..<length amts] ! m)"
    using Some by (auto simp: find_Some_iff)
  with assms k have "j - 1 < i" by (simp del: upt_Suc)
  with i(3) have "\<not> prefix_good a amts ([1..<length amts] ! (j - 1))" by blast
  moreover have "[1..<length amts] ! (j - 1) = j" using \<open>j - 1 < i\<close> i(1) assms(1) by (simp del: upt_Suc)
  ultimately show ?thesis by simp
qed

section \<open>Properties\<close>

text \<open>A wallet of two outputs: the smaller one alone covers the amount, but its change would be
  small, so the storage mass makes the selection take both.\<close>

definition demo_estimate :: fee_estimate where
  "demo_estimate = \<lparr>fe_compute_mass = 3154, fe_storage_mass = 243, fe_network_mass = 3154,
     fe_minimum_fee = 315400, fe_fee = 315400, fe_change = 1099684600, fe_n_inputs = 2, fe_n_outputs = 2\<rparr>"

lemma demo_estimate_value:
  "estimate_fee (fee_args_default 500000000) True [1000000000, 600000000] = Inr demo_estimate"
  by code_simp

text \<open>C13: Coin selection against a reference definition. For positive outputs and a positive
  amount the estimator never fails: it returns the estimate for a prefix of the outputs sorted by
  value, the prefix is non-empty, no shorter non-empty one both covers amount and fee and keeps
  the storage mass below the compute mass, and unless this one does, it is the whole list (so an
  amount the wallet cannot pay is answered with an estimate, not an error).\<close>

theorem kaspa_selection_reference:
  assumes "utxos \<noteq> []" and "\<forall>x \<in> set utxos. x > 0" and "fa_send_amount a > 0"
  shows "let amts = sort utxos; k = prefix_choice a amts in
    estimate_fee a True utxos = estimate_for a (take k amts) \<and>
    (\<exists>r. estimate_fee a True utxos = Inr r) \<and> 1 \<le> k \<and> k \<le> length amts \<and>
    (\<forall>j \<in> {1..<k}. \<not> prefix_good a amts j) \<and>
    (prefix_good a amts k \<or> k = length amts)"
proof -
  let ?s = "sort utxos" and ?k = "prefix_choice a (sort utxos)"
  have pos: "\<forall>x \<in> set ?s. x > 0" and ne: "?s \<noteq> []" using assms(1,2) by auto
  obtain r0 where "estimate_for a ?s = Inr r0" using estimate_for_total [OF pos ne assms(3)] by blast
  then have "estimate_fee a True utxos = select_loop a True (take 0 ?s) (drop 0 ?s) r0"
    by (simp add: estimate_fee_def assms(1))
  also have "\<dots> = estimate_for a (take ?k ?s)"
    using select_loop_reference [OF pos assms(3), where j = 0 and r = r0] assms(1)
    by (simp add: prefix_choice_def cong: option.case_cong)
  finally have eq: "estimate_fee a True utxos = estimate_for a (take ?k ?s)" .
  have rg: "1 \<le> ?k" "?k \<le> length ?s" using prefix_choice_range [OF ne] by auto
  have "\<forall>x \<in> set (take ?k ?s). x > 0" "take ?k ?s \<noteq> []"
    using pos ne rg by (auto dest: in_set_takeD)
  then have "\<exists>r. estimate_fee a True utxos = Inr r" using eq estimate_for_total assms(3) by simp
  moreover have "prefix_good a ?s ?k \<or> ?k = length ?s"
    by (auto simp: prefix_choice_def find_Some_iff split: option.splits)
  ultimately show ?thesis using eq rg prefix_choice_least by (auto simp: Let_def)
qed

lemma kaspa_selection_reference_witness:
  "prefix_choice (fee_args_default 500000000) [600000000, 1000000000] \<le> 2 \<and>
   estimate_fee (fee_args_default 500000000) True [1000000000, 600000000] = Inr demo_estimate"
  using kaspa_selection_reference [where utxos = "[1000000000, 600000000]" and a = "fee_args_default 500000000"]
    demo_estimate_value by (simp add: fee_args_default_def Let_def)

text \<open>The sums of an estimate. Whatever it returns, inputs equal amount plus fee plus change;
  the mass is that of exactly the inputs and outputs it counts; two outputs are reported with a
  positive change only. With one output a reported change that is positive is not an output and goes
  to the miner on top of \<open>fee\<close>; it is at most what the second output would have cost.\<close>

theorem kaspa_estimate_balance:
  assumes "estimate_fee a sel utxos = Inr r" and "fa_feerate a \<ge> 0"
  shows "\<exists>ins. mset ins \<subseteq># mset utxos \<and> length ins = fe_n_inputs r \<and>
    (\<not> sel \<longrightarrow> ins = utxos) \<and>
    sum_list ins = fa_send_amount a + fe_fee r + fe_change r \<and>
    fe_compute_mass r = 94 + fa_payload_len a + 1118 * int (length ins) +
      int (fe_n_outputs r) * (38 + 11 * fa_output_script_len a) \<and>
    fe_fee r = \<lceil>of_int (fe_compute_mass r) * fa_feerate a\<rceil> + fa_priority_fee a \<and>
    (fe_n_outputs r = 2 \<and> fe_change r > 0 \<or>
     fe_n_outputs r = 1 \<and> fe_change r \<le> \<lceil>of_int (38 + 11 * fa_output_script_len a) * fa_feerate a\<rceil>)"
proof -
  let ?l = "if sel then sort utxos else utxos"
  obtain r0 where ne: "?l \<noteq> []" and l: "select_loop a sel [] ?l r0 = Inr r"
    using assms(1) by (auto simp: estimate_fee_def Let_def split: if_splits sum.splits)
  obtain k where k: "estimate_for a (take k ?l) = Inr r" "sel \<or> k = length ?l"
    using select_loop_result [OF l ne] by auto
  let ?ins = "take k ?l"
  note f = estimate_for_fields [OF k(1)]
  have "mset ?ins \<subseteq># mset ?l" by (metis append_take_drop_id mset_append mset_subset_eq_add_left)
  then have sub: "mset ?ins \<subseteq># mset utxos" by (simp split: if_splits)
  let ?m = "\<lambda>n. of_int (mass_for a (length ?ins) n) * fa_feerate a"
    and ?out = "of_int (38 + 11 * fa_output_script_len a) * fa_feerate a"
  have "?m 2 = ?m 1 + ?out" by (simp add: mass_for_alt algebra_simps)
  then have "minimum_fee_for a (length ?ins) 2 \<le> minimum_fee_for a (length ?ins) 1 + \<lceil>?out\<rceil>"
    by (simp only: minimum_fee_for_def ceiling_add_le)
  then have "fe_n_outputs r = 2 \<and> fe_change r > 0 \<or> fe_n_outputs r = 1 \<and> fe_change r \<le> \<lceil>?out\<rceil>"
    using f(2,4,5,6) by (auto split: if_splits)
  moreover have "\<not> sel \<longrightarrow> ?ins = utxos" using k(2) by auto
  moreover have "fe_fee r = \<lceil>of_int (fe_compute_mass r) * fa_feerate a\<rceil> + fa_priority_fee a"
    using f(3,4,5) by (simp add: minimum_fee_for_def)
  moreover have "fe_compute_mass r = 94 + fa_payload_len a + 1118 * int (length ?ins) +
      int (fe_n_outputs r) * (38 + 11 * fa_output_script_len a)"
    using f(3) by (simp add: mass_for_alt)
  moreover have "sum_list ?ins = fa_send_amount a + fe_fee r + fe_change r" using f(6) by simp
  ultimately show ?thesis using sub f(1) by (intro exI [of _ ?ins]) simp
qed

lemma kaspa_estimate_balance_witness:
  "\<exists>ins :: int list. mset ins \<subseteq># {#1000000000, 600000000#} \<and> sum_list ins = 500000000 + 315400 + 1099684600"
  using kaspa_estimate_balance [OF demo_estimate_value]
  by (auto simp: fee_args_default_def MINIMUM_FEERATE_def demo_estimate_def add_mset_commute)

end
