(* ===== verification/Handler_Context.thy ===== *)
theory Handler_Context
  imports Taas_Prelude
begin

text \<open>
  \<open>libs/foundation/src/foundation/messaging/events/handler_context.py\<close>: the cache that handlers
  processing one event in parallel share, with a lock per key and double-checked locking. The
  operations are split at the awaits (waiting for the lock of a key, the fetch itself), and tasks
  interleave in any order. The global lock of the class protects a section without an await, so
  under asyncio it is never found taken; it has no state here. Instants and durations are counts
  of microseconds; \<open>'v\<close> is the type of the cached values.
\<close>

section \<open>Cache and metrics\<close>

record 'v cached_value =
  cv_value :: 'v
  cv_cached_at :: int
  cv_ttl :: "int option"

definition cv_is_expired :: "int \<Rightarrow> 'v cached_value \<Rightarrow> bool" where
  "cv_is_expired now c = (case cv_ttl c of None \<Rightarrow> False | Some d \<Rightarrow> now - cv_cached_at c > d)"

record ctx_metrics =
  cm_cache_hits :: nat
  cm_cache_misses :: nat
  cm_db_queries_saved :: nat
  cm_concurrent_fetches_prevented :: nat

definition ctx_hit_rate :: "ctx_metrics \<Rightarrow> rat" where
  "ctx_hit_rate m = (let total = cm_cache_hits m + cm_cache_misses m in
     if total > 0 then rat_of_nat (cm_cache_hits m) / rat_of_nat total * 100 else 0)"

text \<open>An \<open>asyncio.Lock\<close>: who holds it, and the queue of those who wait.\<close>

record key_lock =
  kl_holder :: "nat option"
  kl_waiters :: "nat list"

record 'v hctx =
  hc_cache :: "string \<rightharpoonup> 'v cached_value"
  hc_locks :: "string \<rightharpoonup> key_lock"
  hc_default_ttl :: "int option"
  hc_metrics :: ctx_metrics

definition hctx_new :: "int option \<Rightarrow> 'v hctx" where
  "hctx_new default_ttl = \<lparr>hc_cache = Map.empty, hc_locks = Map.empty, hc_default_ttl = default_ttl,
     hc_metrics = \<lparr>cm_cache_hits = 0, cm_cache_misses = 0, cm_db_queries_saved = 0,
       cm_concurrent_fetches_prevented = 0\<rparr>\<rparr>"

definition ctx_get :: "int \<Rightarrow> string \<Rightarrow> 'v hctx \<Rightarrow> 'v option" where
  "ctx_get now key h = (case hc_cache h key of
     None \<Rightarrow> None | Some c \<Rightarrow> if cv_is_expired now c then None else Some (cv_value c))"

definition ctx_set :: "int \<Rightarrow> string \<Rightarrow> 'v \<Rightarrow> int option \<Rightarrow> 'v hctx \<Rightarrow> 'v hctx" where
  "ctx_set now key v ttl h = h\<lparr>hc_cache := (hc_cache h)(key \<mapsto>
     \<lparr>cv_value = v, cv_cached_at = now,
      cv_ttl = (case ttl of None \<Rightarrow> hc_default_ttl h | Some d \<Rightarrow> Some d)\<rparr>)\<rparr>"

definition ctx_invalidate :: "string \<Rightarrow> 'v hctx \<Rightarrow> 'v hctx" where
  "ctx_invalidate key h = h\<lparr>hc_cache := (hc_cache h)(key := None)\<rparr>"

definition ctx_clear :: "'v hctx \<Rightarrow> 'v hctx" where
  "ctx_clear h = h\<lparr>hc_cache := Map.empty\<rparr>"

definition count_hit :: "ctx_metrics \<Rightarrow> ctx_metrics" where
  "count_hit m = m\<lparr>cm_cache_hits := cm_cache_hits m + 1, cm_db_queries_saved := cm_db_queries_saved m + 1\<rparr>"

definition count_prevented :: "ctx_metrics \<Rightarrow> ctx_metrics" where
  "count_prevented m = m\<lparr>cm_concurrent_fetches_prevented := cm_concurrent_fetches_prevented m + 1\<rparr>"

definition count_miss :: "ctx_metrics \<Rightarrow> ctx_metrics" where
  "count_miss m = m\<lparr>cm_cache_misses := cm_cache_misses m + 1\<rparr>"

section \<open>The segments of \<open>get_or_fetch\<close>\<close>

text \<open>A task that has called \<open>get_or_fetch\<close> waits for the lock of its key, runs its fetch inside the
  lock, or has its outcome.\<close>

datatype 'v ctx_task = Waiting string "int option" | Fetching string "int option"
  | Finished string "py_exn + 'v"

type_synonym 'v ctx_sys = "'v hctx \<times> (nat \<rightharpoonup> 'v ctx_task)"

definition lock_of :: "string \<Rightarrow> 'v hctx \<Rightarrow> key_lock" where
  "lock_of key h = (case hc_locks h key of None \<Rightarrow> \<lparr>kl_holder = None, kl_waiters = []\<rparr> | Some l \<Rightarrow> l)"

definition put_lock :: "string \<Rightarrow> key_lock \<Rightarrow> 'v hctx \<Rightarrow> 'v hctx" where
  "put_lock key l h = h\<lparr>hc_locks := (hc_locks h)(key \<mapsto> l)\<rparr>"

text \<open>Inside the lock, up to the fetch: the second look at the cache; a hit leaves the lock.\<close>

definition ctx_section :: "int \<Rightarrow> nat \<Rightarrow> string \<Rightarrow> int option \<Rightarrow> 'v ctx_sys \<Rightarrow> 'v ctx_sys" where
  "ctx_section now t key ttl s = (case s of (h, T) \<Rightarrow> (case ctx_get now key h of
       Some v \<Rightarrow> (put_lock key (lock_of key h\<lparr>kl_holder := None\<rparr>)
            (h\<lparr>hc_metrics := count_prevented (count_hit (hc_metrics h))\<rparr>),
          T(t \<mapsto> Finished key (Inr v)))
     | None \<Rightarrow> (put_lock key (lock_of key h\<lparr>kl_holder := Some t\<rparr>)
            (h\<lparr>hc_metrics := count_miss (hc_metrics h)\<rparr>),
          T(t \<mapsto> Fetching key ttl))))"

text \<open>From the call to the first await: a hit returns at once; otherwise the lock of the key is
  created on demand and taken if it is free and nobody queues for it.\<close>

definition ctx_call :: "int \<Rightarrow> nat \<Rightarrow> string \<Rightarrow> int option \<Rightarrow> 'v ctx_sys \<Rightarrow> 'v ctx_sys" where
  "ctx_call now t key ttl s = (case s of (h, T) \<Rightarrow> (case ctx_get now key h of
       Some v \<Rightarrow> (h\<lparr>hc_metrics := count_hit (hc_metrics h)\<rparr>, T(t \<mapsto> Finished key (Inr v)))
     | None \<Rightarrow> (let l = lock_of key h in
         if kl_holder l = None \<and> kl_waiters l = [] then ctx_section now t key ttl (h, T)
         else (put_lock key (l\<lparr>kl_waiters := kl_waiters l @ [t]\<rparr>) h, T(t \<mapsto> Waiting key ttl)))))"

text \<open>The first in the queue wakes up.\<close>

definition ctx_resume :: "int \<Rightarrow> nat \<Rightarrow> string \<Rightarrow> int option \<Rightarrow> 'v ctx_sys \<Rightarrow> 'v ctx_sys" where
  "ctx_resume now t key ttl s = (case s of (h, T) \<Rightarrow>
     ctx_section now t key ttl
       (put_lock key (lock_of key h\<lparr>kl_waiters := tl (kl_waiters (lock_of key h))\<rparr>) h, T))"

text \<open>The fetch returns: the value is cached and the lock released.\<close>

definition ctx_fetched :: "int \<Rightarrow> nat \<Rightarrow> string \<Rightarrow> int option \<Rightarrow> 'v \<Rightarrow> 'v ctx_sys \<Rightarrow> 'v ctx_sys" where
  "ctx_fetched now t key ttl v s = (case s of (h, T) \<Rightarrow>
     (put_lock key (lock_of key h\<lparr>kl_holder := None\<rparr>) (ctx_set now key v ttl h),
      T(t \<mapsto> Finished key (Inr v))))"

text \<open>The fetch raises, or the task is cancelled in it: only the lock is released.\<close>

definition ctx_failed :: "nat \<Rightarrow> string \<Rightarrow> py_exn \<Rightarrow> 'v ctx_sys \<Rightarrow> 'v ctx_sys" where
  "ctx_failed t key e s = (case s of (h, T) \<Rightarrow>
     (put_lock key (lock_of key h\<lparr>kl_holder := None\<rparr>) h, T(t \<mapsto> Finished key (Inl e))))"

text \<open>A task cancelled while it queues leaves the queue.\<close>

definition ctx_cancelled :: "nat \<Rightarrow> string \<Rightarrow> 'v ctx_sys \<Rightarrow> 'v ctx_sys" where
  "ctx_cancelled t key s = (case s of (h, T) \<Rightarrow>
     (put_lock key (lock_of key h\<lparr>kl_waiters := remove1 t (kl_waiters (lock_of key h))\<rparr>) h,
      T(t \<mapsto> Finished key (Inl CancelledError))))"

section \<open>Interleavings\<close>

datatype 'v ctx_label =
    L_call int nat string "int option"
  | L_resume int nat
  | L_fetched int nat 'v
  | L_failed nat py_exn
  | L_cancel nat
  | L_set int string 'v "int option"
  | L_invalidate string
  | L_clear

inductive ctx_step :: "'v ctx_sys \<Rightarrow> 'v ctx_label \<Rightarrow> 'v ctx_sys \<Rightarrow> bool" where
  step_call: "T t = None \<Longrightarrow> ctx_step (h, T) (L_call now t key ttl) (ctx_call now t key ttl (h, T))"
| step_resume: "T t = Some (Waiting key ttl) \<Longrightarrow> kl_holder (lock_of key h) = None \<Longrightarrow>
    kl_waiters (lock_of key h) = t # ts \<Longrightarrow>
    ctx_step (h, T) (L_resume now t) (ctx_resume now t key ttl (h, T))"
| step_fetched: "T t = Some (Fetching key ttl) \<Longrightarrow>
    ctx_step (h, T) (L_fetched now t v) (ctx_fetched now t key ttl v (h, T))"
| step_failed: "T t = Some (Fetching key ttl) \<Longrightarrow>
    ctx_step (h, T) (L_failed t e) (ctx_failed t key e (h, T))"
| step_cancel: "T t = Some (Waiting key ttl) \<Longrightarrow>
    ctx_step (h, T) (L_cancel t) (ctx_cancelled t key (h, T))"
| step_set: "ctx_step (h, T) (L_set now key v ttl) (ctx_set now key v ttl h, T)"
| step_invalidate: "ctx_step (h, T) (L_invalidate key) (ctx_invalidate key h, T)"
| step_clear: "ctx_step (h, T) L_clear (ctx_clear h, T)"

inductive ctx_run :: "'v ctx_sys \<Rightarrow> 'v ctx_label list \<Rightarrow> 'v ctx_sys \<Rightarrow> bool" where
  run_nil: "ctx_run s [] s"
| run_snoc: "ctx_run s ls s' \<Longrightarrow> ctx_step s' l s'' \<Longrightarrow> ctx_run s (ls @ [l]) s''"

section \<open>One fetch at a time\<close>

lemma lock_of_put [simp]: "lock_of k' (put_lock k l h) = (if k' = k then l else lock_of k' h)"
  by (simp add: lock_of_def put_lock_def)

lemma lock_of_other [simp]:
  "lock_of k (h\<lparr>hc_metrics := m\<rparr>) = lock_of k h" "lock_of k (ctx_set now k' v ttl h) = lock_of k h"
  "lock_of k (ctx_invalidate k' h) = lock_of k h" "lock_of k (ctx_clear h) = lock_of k h"
  by (simp_all add: lock_of_def ctx_set_def ctx_invalidate_def ctx_clear_def)

lemma lock_of_new [simp]: "lock_of k (hctx_new d) = \<lparr>kl_holder = None, kl_waiters = []\<rparr>"
  by (simp add: lock_of_def hctx_new_def)

text \<open>A lock is held exactly by the task that fetches under it, and queued for exactly by the tasks
  that wait for it, once each.\<close>

definition ctx_inv :: "'v ctx_sys \<Rightarrow> bool" where
  "ctx_inv s \<longleftrightarrow> (case s of (h, T) \<Rightarrow>
     (\<forall>k t. kl_holder (lock_of k h) = Some t \<longleftrightarrow> (\<exists>ttl. T t = Some (Fetching k ttl))) \<and>
     (\<forall>k t. t \<in> set (kl_waiters (lock_of k h)) \<longleftrightarrow> (\<exists>ttl. T t = Some (Waiting k ttl))) \<and>
     (\<forall>k. distinct (kl_waiters (lock_of k h))))"

lemma ctx_invD:
  assumes "ctx_inv (h, T)"
  shows "kl_holder (lock_of k h) = Some t \<longleftrightarrow> (\<exists>ttl. T t = Some (Fetching k ttl))"
    and "t \<in> set (kl_waiters (lock_of k h)) \<longleftrightarrow> (\<exists>ttl. T t = Some (Waiting k ttl))"
    and "distinct (kl_waiters (lock_of k h))"
  using assms by (auto simp: ctx_inv_def)

lemma ctx_inv_locks: "ctx_inv (h, T) \<Longrightarrow> (\<And>k. lock_of k h' = lock_of k h) \<Longrightarrow> ctx_inv (h', T)"
  by (simp add: ctx_inv_def)

text \<open>Forgetting a task: what holds of the others and of the locks without it.\<close>

lemma ctx_inv_forget:
  assumes "ctx_inv (h, T)" and "T t = Some (Fetching key ttl)"
  shows "ctx_inv (put_lock key (lock_of key h\<lparr>kl_holder := None\<rparr>) h, T(t := None))"
  using ctx_invD [OF assms(1)] assms(2) unfolding ctx_inv_def
  by (auto split: if_splits) (metis option.inject)+

lemma ctx_inv_finish:
  assumes "ctx_inv (h, T(t := None))"
  shows "ctx_inv (h, T(t \<mapsto> Finished key r))"
  using assms unfolding ctx_inv_def by (auto split: if_splits)

lemma ctx_section_inv:
  assumes "ctx_inv (h, T(t := None))" and "kl_holder (lock_of key h) = None"
  shows "ctx_inv (ctx_section now t key ttl (h, T))"
proof -
  note inv = ctx_invD [OF assms(1)]
  have nf: "u \<noteq> t \<Longrightarrow> T u \<noteq> Some (Fetching key d)" for u d
    using inv(1) [of key u] assms(2) by auto
  show ?thesis
    using inv assms(2) nf unfolding ctx_inv_def ctx_section_def
    by (auto split: if_splits option.splits)
qed

lemma ctx_call_inv:
  assumes "ctx_inv (h, T)" and "T t = None"
  shows "ctx_inv (ctx_call now t key ttl (h, T))"
proof (cases "ctx_get now key h")
  case (Some v)
  then show ?thesis using ctx_invD [OF assms(1)] assms(2) by (auto simp: ctx_call_def ctx_inv_def)
next
  case None
  have "T(t := None) = T" using assms(2) by auto
  then have s: "kl_holder (lock_of key h) = None \<Longrightarrow> ctx_inv (ctx_section now t key ttl (h, T))"
    using ctx_section_inv assms(1) by metis
  show ?thesis
    using None s ctx_invD [OF assms(1)] assms(2) by (auto simp: ctx_call_def ctx_inv_def Let_def)
qed

lemma ctx_unqueue_inv:
  assumes "ctx_inv (h, T)" and "T t = Some (Waiting key ttl)"
  shows "ctx_inv (put_lock key (lock_of key h\<lparr>kl_waiters := remove1 t (kl_waiters (lock_of key h))\<rparr>) h, T(t := None))"
  using ctx_invD [OF assms(1)] assms(2) unfolding ctx_inv_def by (auto split: if_splits)

lemma ctx_step_inv:
  assumes "ctx_step s l s'" and "ctx_inv s"
  shows "ctx_inv s'"
  using assms
proof (induction rule: ctx_step.induct)
  case (step_call T t h now key ttl)
  then show ?case by (simp add: ctx_call_inv)
next
  case (step_resume T t key ttl h ts now)
  then have "remove1 t (kl_waiters (lock_of key h)) = ts" by simp
  with step_resume ctx_unqueue_inv [OF step_resume(4,1)] show ?case
    by (simp add: ctx_resume_def ctx_section_inv)
next
  case (step_fetched T t key ttl h now v)
  have "ctx_inv (put_lock key (lock_of key h\<lparr>kl_holder := None\<rparr>) (ctx_set now key v ttl h), T(t := None))"
    by (rule ctx_inv_locks [OF ctx_inv_forget [OF step_fetched(2,1)]]) simp
  then show ?case by (simp add: ctx_fetched_def ctx_inv_finish)
next
  case (step_failed T t key ttl h e)
  then show ?case by (simp add: ctx_failed_def ctx_inv_finish ctx_inv_forget)
next
  case (step_cancel T t key ttl h)
  then show ?case by (simp add: ctx_cancelled_def ctx_inv_finish ctx_unqueue_inv)
qed (simp_all add: ctx_inv_def)

lemma ctx_run_inv:
  assumes "ctx_run s ls s'" and "ctx_inv s"
  shows "ctx_inv s'"
  using assms by (induction rule: ctx_run.induct) (auto intro: ctx_step_inv)

lemma ctx_new_inv [simp]: "ctx_inv (hctx_new d, Map.empty)"
  by (simp add: ctx_inv_def)

section \<open>One fetch in all\<close>

text \<open>Runs in which nothing expires, fails, is cancelled or is written by hand.\<close>

fun quiet :: "'v ctx_label \<Rightarrow> bool" where
  "quiet (L_call now t key ttl) \<longleftrightarrow> ttl = None"
| "quiet (L_resume now t) = True"
| "quiet (L_fetched now t v) = True"
| "quiet _ = False"

definition cached_keys :: "'v hctx \<Rightarrow> string set" where
  "cached_keys h = dom (hc_cache h)"

definition busy_keys :: "'v hctx \<Rightarrow> string set" where
  "busy_keys h = {k. kl_holder (lock_of k h) \<noteq> None}"

fun untimed_task :: "'v ctx_task \<Rightarrow> bool" where
  "untimed_task (Waiting k d) \<longleftrightarrow> d = None"
| "untimed_task (Fetching k d) \<longleftrightarrow> d = None"
| "untimed_task (Finished k r) = True"

definition quiet_inv :: "'v ctx_sys \<Rightarrow> bool" where
  "quiet_inv s \<longleftrightarrow> (case s of (h, T) \<Rightarrow>
     hc_default_ttl h = None \<and>
     (\<forall>c \<in> ran (hc_cache h). cv_ttl c = None) \<and> (\<forall>x \<in> ran T. untimed_task x) \<and>
     finite (cached_keys h \<union> busy_keys h) \<and> cached_keys h \<inter> busy_keys h = {} \<and>
     cm_cache_misses (hc_metrics h) = card (cached_keys h \<union> busy_keys h) \<and>
     (\<forall>t k r. T t = Some (Finished k r) \<longrightarrow> (\<exists>c. hc_cache h k = Some c \<and> r = Inr (cv_value c))))"

lemma quiet_finished:
  "quiet_inv (h, T) \<Longrightarrow> T t = Some (Finished k r) \<Longrightarrow> \<exists>c. hc_cache h k = Some c \<and> r = Inr (cv_value c)"
  unfolding quiet_inv_def by simp

lemma ctx_get_untimed:
  assumes "\<forall>c \<in> ran (hc_cache h). cv_ttl c = None"
  shows "ctx_get now k h = map_option cv_value (hc_cache h k)"
  using assms by (auto simp: ctx_get_def cv_is_expired_def ranI split: option.splits)


lemma busy_keys_simps [simp]:
  "busy_keys (put_lock k l h) = (if kl_holder l = None then busy_keys h - {k} else insert k (busy_keys h))"
  "busy_keys (h\<lparr>hc_metrics := m\<rparr>) = busy_keys h" "busy_keys (ctx_set now k' v ttl h) = busy_keys h"
  by (auto simp: busy_keys_def)

lemma cached_keys_simps [simp]:
  "cached_keys (put_lock k l h) = cached_keys h" "cached_keys (h\<lparr>hc_metrics := m\<rparr>) = cached_keys h"
  "cached_keys (ctx_set now k' v ttl h) = insert k' (cached_keys h)"
  by (auto simp: cached_keys_def put_lock_def ctx_set_def)

lemma put_lock_fields [simp]:
  "hc_cache (put_lock k l h) = hc_cache h" "hc_metrics (put_lock k l h) = hc_metrics h"
  "hc_default_ttl (put_lock k l h) = hc_default_ttl h" "ctx_get now k' (put_lock k l h) = ctx_get now k' h"
  by (simp_all add: put_lock_def ctx_get_def)

lemma count_fields [simp]:
  "cm_cache_misses (count_hit m) = cm_cache_misses m" "cm_cache_misses (count_prevented m) = cm_cache_misses m"
  "cm_cache_misses (count_miss m) = Suc (cm_cache_misses m)"
  by (simp_all add: count_hit_def count_prevented_def count_miss_def)

lemma quiet_section:
  assumes "quiet_inv (h, T)" and "ctx_inv (h, T(t := None))" and "kl_holder (lock_of key h) = None"
    and "\<forall>k r. T t \<noteq> Some (Finished k r)"
  shows "quiet_inv (ctx_section now t key None (h, T))"
proof -
  have free: "key \<notin> busy_keys h" using assms(3) by (simp add: busy_keys_def)
  have g: "ctx_get now key h = map_option cv_value (hc_cache h key)"
    using assms(1) by (simp add: quiet_inv_def ctx_get_untimed)
  have un: "\<forall>x \<in> ran (T(t \<mapsto> y)). untimed_task x" if "untimed_task y" for y
    using assms(1) that by (auto simp: quiet_inv_def ran_def)
  show ?thesis
  proof (cases "hc_cache h key")
    case None
    then have nc: "key \<notin> cached_keys h" by (auto simp: cached_keys_def)
    from None g have "ctx_get now key h = None" by simp
    then show ?thesis
      using assms(1) free nc un [of "Fetching key None"] unfolding quiet_inv_def ctx_section_def by auto
  next
    case (Some c)
    with g have "ctx_get now key h = Some (cv_value c)" by simp
    then show ?thesis
      using assms(1) free Some un [of "Finished key (Inr (cv_value c))"]
      unfolding quiet_inv_def ctx_section_def by auto
  qed
qed


lemma quiet_step:
  assumes "ctx_step s l s'" and "quiet l" and "ctx_inv s" and "quiet_inv s"
  shows "quiet_inv s'"
  using assms
proof (induction rule: ctx_step.induct)
  case (step_call T t h now key ttl)
  have T: "T(t := None) = T" using step_call(1) by auto
  have g: "ctx_get now key h = map_option cv_value (hc_cache h key)"
    using step_call(4) by (simp add: quiet_inv_def ctx_get_untimed)
  have un: "\<forall>x \<in> ran (T(t \<mapsto> y)). untimed_task x" if "untimed_task y" for y
    using step_call(4) that by (auto simp: quiet_inv_def ran_def)
  show ?case
  proof (cases "hc_cache h key")
    case (Some c)
    then show ?thesis using step_call g un [of "Finished key (Inr (cv_value c))"]
      by (auto simp: ctx_call_def quiet_inv_def)
  next
    case None
    have s: "kl_holder (lock_of key h) = None \<Longrightarrow> quiet_inv (ctx_section now t key None (h, T))"
      using quiet_section [OF step_call(4)] step_call(1,3) T by simp
    have "kl_holder (lock_of key h) = None \<longleftrightarrow> key \<notin> busy_keys h" by (simp add: busy_keys_def)
    with None g s step_call un [of "Waiting key None"] show ?thesis
      by (auto simp: ctx_call_def Let_def quiet_inv_def insert_absorb)
  qed
next
  case (step_resume T t key ttl h ts now)
  let ?h = "put_lock key (lock_of key h\<lparr>kl_waiters := ts\<rparr>) h"
  have ttl: "ttl = None" using step_resume(1,6) by (fastforce simp: quiet_inv_def ran_def)
  have "remove1 t (kl_waiters (lock_of key h)) = ts" using step_resume(3) by simp
  then have i: "ctx_inv (?h, T(t := None))" using ctx_unqueue_inv [OF step_resume(5,1)] by simp
  have "key \<notin> busy_keys h" using step_resume(2) by (simp add: busy_keys_def)
  then have "quiet_inv (?h, T)" using step_resume(2,6) by (simp add: quiet_inv_def)
  from quiet_section [OF this i] step_resume(1,2,3) ttl show ?case by (simp add: ctx_resume_def)
next
  case (step_fetched T t key ttl h now v)
  have ttl: "ttl = None" using step_fetched(1,4) by (fastforce simp: quiet_inv_def ran_def)
  have busy: "key \<in> busy_keys h"
    using ctx_invD(1) [OF step_fetched(3)] step_fetched(1) by (auto simp: busy_keys_def)
  have nc: "hc_cache h key = None" using step_fetched(4) busy by (auto simp: quiet_inv_def cached_keys_def)
  have un: "\<forall>x \<in> ran (T(t \<mapsto> Finished key (Inr v))). untimed_task x"
    using step_fetched(4) by (auto simp: quiet_inv_def ran_def)
  have u: "insert key (cached_keys h \<union> (busy_keys h - {key})) = cached_keys h \<union> busy_keys h"
    using busy by blast
  have nf: "T a \<noteq> Some (Finished key r)" for a r
    using quiet_finished [OF step_fetched(4), of a key r] nc by auto
  have c: "hc_cache (ctx_set now key v None h) = (hc_cache h)(key \<mapsto> \<lparr>cv_value = v, cv_cached_at = now, cv_ttl = None\<rparr>)"
    and f: "hc_default_ttl (ctx_set now key v None h) = None" "hc_metrics (ctx_set now key v None h) = hc_metrics h"
    using step_fetched(4) by (simp_all add: ctx_set_def quiet_inv_def)
  show ?case
    using step_fetched(4) ttl nc un nf unfolding ctx_fetched_def quiet_inv_def
    by (simp add: u c f) (auto simp: ran_def u)
qed simp_all

lemma quiet_new: "quiet_inv (hctx_new None, Map.empty)"
  by (simp add: quiet_inv_def hctx_new_def cached_keys_def busy_keys_def lock_of_def)

lemma quiet_run:
  assumes "ctx_run s ls s'" and "\<forall>l \<in> set ls. quiet l" and "ctx_inv s" and "quiet_inv s"
  shows "quiet_inv s'"
  using assms
  by (induction rule: ctx_run.induct) (auto intro: quiet_step ctx_run_inv)

section \<open>Properties\<close>

text \<open>C8: Single flight. However the tasks that share a context interleave, and whatever fails, is
  cancelled, expires or is invalidated, two tasks never run the fetch of one key at the same time;
  and no wakeup is lost: when a task waits for a key, either the fetch of that key is running or the
  head of the queue can go on.\<close>

theorem ctx_single_flight:
  assumes "ctx_run (hctx_new d, Map.empty) ls (h, T)"
  shows "(T t = Some (Fetching k x) \<and> T u = Some (Fetching k y) \<longrightarrow> t = u) \<and>
    (T t = Some (Waiting k x) \<longrightarrow> (\<exists>u y. T u = Some (Fetching k y)) \<or>
      (\<exists>u s'. u \<in> set (kl_waiters (lock_of k h)) \<and> ctx_step (h, T) (L_resume now u) s'))"
proof -
  note inv = ctx_invD [OF ctx_run_inv [OF assms ctx_new_inv]]
  have "T t = Some (Fetching k x) \<Longrightarrow> T u = Some (Fetching k y) \<Longrightarrow> t = u"
    using inv(1) [of k t] inv(1) [of k u] by simp
  moreover have "\<exists>u s'. u \<in> set (kl_waiters (lock_of k h)) \<and> ctx_step (h, T) (L_resume now u) s'"
    if w: "T t = Some (Waiting k x)" and n: "\<nexists>u y. T u = Some (Fetching k y)"
  proof -
    have h: "kl_holder (lock_of k h) = None" using inv(1) [of k] n by (metis not_None_eq)
    have "t \<in> set (kl_waiters (lock_of k h))" using inv(2) w by blast
    then obtain u us where q: "kl_waiters (lock_of k h) = u # us" by (cases "kl_waiters (lock_of k h)") auto
    then obtain y where "T u = Some (Waiting k y)" using inv(2) [of u k] by auto
    from step_resume [where T = T and h = h and t = u and now = now, OF this h q] have
      "ctx_step (h, T) (L_resume now u) (ctx_resume now u k y (h, T))" .
    moreover have "u \<in> set (kl_waiters (lock_of k h))" using q by simp
    ultimately show ?thesis by blast
  qed
  ultimately show ?thesis by blast
qed

text \<open>Two tasks ask for the same key; the first fetches, the second waits and finds the value.\<close>

definition demo_ctx_0 :: "int ctx_sys" where "demo_ctx_0 = ctx_call 0 0 ''k'' None (hctx_new None, Map.empty)"
definition demo_ctx_1 :: "int ctx_sys" where "demo_ctx_1 = ctx_call 0 1 ''k'' None demo_ctx_0"
definition demo_ctx_2 :: "int ctx_sys" where "demo_ctx_2 = ctx_fetched 1 0 ''k'' None 7 demo_ctx_1"
definition demo_ctx_3 :: "int ctx_sys" where "demo_ctx_3 = ctx_resume 2 1 ''k'' None demo_ctx_2"

definition demo_ctx_labels :: "int ctx_label list" where
  "demo_ctx_labels = [L_call 0 0 ''k'' None, L_call 0 1 ''k'' None]"

lemmas demo_ctx_defs = demo_ctx_0_def demo_ctx_1_def demo_ctx_2_def demo_ctx_3_def ctx_call_def
  ctx_section_def ctx_fetched_def ctx_resume_def hctx_new_def lock_of_def put_lock_def ctx_get_def
  ctx_set_def cv_is_expired_def count_hit_def count_miss_def count_prevented_def Let_def

lemma demo_ctx_values:
  "snd demo_ctx_0 = [0 \<mapsto> Fetching ''k'' None]"
  "snd demo_ctx_1 = [0 \<mapsto> Fetching ''k'' None, 1 \<mapsto> Waiting ''k'' None]"
  "snd demo_ctx_2 = [0 \<mapsto> Finished ''k'' (Inr 7), 1 \<mapsto> Waiting ''k'' None]"
  "lock_of ''k'' (fst demo_ctx_2) = \<lparr>kl_holder = None, kl_waiters = [1]\<rparr>"
  "snd demo_ctx_3 = [0 \<mapsto> Finished ''k'' (Inr 7), 1 \<mapsto> Finished ''k'' (Inr 7)]"
  "cm_cache_misses (hc_metrics (fst demo_ctx_3)) = 1"
  by (simp_all add: demo_ctx_defs fun_upd_twist)

lemma demo_ctx_tasks:
  "snd demo_ctx_0 (Suc 0) = None" "snd demo_ctx_1 0 = Some (Fetching ''k'' None)"
  "snd demo_ctx_2 (Suc 0) = Some (Waiting ''k'' None)"
  by (simp_all add: demo_ctx_values)

lemma demo_ctx_run_1: "ctx_run (hctx_new None, Map.empty) demo_ctx_labels demo_ctx_1"
proof -
  have "ctx_step (hctx_new None, Map.empty) (L_call 0 0 ''k'' None) demo_ctx_0"
    unfolding demo_ctx_0_def by (rule step_call) simp
  moreover have "ctx_step demo_ctx_0 (L_call 0 1 ''k'' None) demo_ctx_1"
    using step_call [where T = "snd demo_ctx_0" and t = 1 and h = "fst demo_ctx_0" and now = 0
        and key = "''k''" and ttl = None] demo_ctx_tasks(1)
    by (simp add: demo_ctx_1_def)
  ultimately show ?thesis
    using run_snoc [OF run_snoc [OF run_nil]] unfolding demo_ctx_labels_def by fastforce
qed

lemma demo_ctx_run_3:
  "ctx_run (hctx_new None, Map.empty) ((demo_ctx_labels @ [L_fetched 1 0 7]) @ [L_resume 2 1]) demo_ctx_3"
proof -
  have s1: "ctx_step demo_ctx_1 (L_fetched 1 0 7) demo_ctx_2"
    using step_fetched [where T = "snd demo_ctx_1" and t = 0 and h = "fst demo_ctx_1" and now = 1
        and key = "''k''" and ttl = None and v = 7] demo_ctx_tasks(2)
    by (simp add: demo_ctx_2_def)
  have s2: "ctx_step demo_ctx_2 (L_resume 2 1) demo_ctx_3"
    using step_resume [where T = "snd demo_ctx_2" and t = 1 and h = "fst demo_ctx_2" and now = 2
        and key = "''k''" and ttl = None and ts = "[]"] demo_ctx_tasks(3) demo_ctx_values(4)
    by (simp add: demo_ctx_3_def)
  show ?thesis by (rule run_snoc [OF run_snoc [OF demo_ctx_run_1 s1] s2])
qed

lemma ctx_single_flight_witness:
  "\<exists>u y. snd demo_ctx_1 u = Some (Fetching ''k'' y) \<or>
     (\<exists>s'. ctx_step demo_ctx_1 (L_resume 0 u) s')"
  using ctx_single_flight [where h = "fst demo_ctx_1" and T = "snd demo_ctx_1" and d = None
      and ls = demo_ctx_labels and k = "''k''" and t = 1 and x = None and now = 0]
    demo_ctx_run_1 by (auto simp: demo_ctx_values)

text \<open>The promise of the class. When no entry has a lifetime and no fetch fails, all tasks that
  ask for a key, in whatever order, get the same value, and a key is fetched once: the misses counted
  are the keys cached or being fetched.\<close>

theorem ctx_one_fetch_per_key:
  assumes "ctx_run (hctx_new None, Map.empty) ls (h, T)" and "\<forall>l \<in> set ls. quiet l"
  shows "cm_cache_misses (hc_metrics h) = card (cached_keys h \<union> busy_keys h) \<and>
    cached_keys h \<inter> busy_keys h = {} \<and>
    (T t = Some (Finished k r) \<and> T u = Some (Finished k r') \<longrightarrow>
      r = r' \<and> (\<exists>c. hc_cache h k = Some c \<and> r = Inr (cv_value c)))"
proof -
  have q: "quiet_inv (h, T)" by (rule quiet_run [OF assms ctx_new_inv quiet_new])
  note fin = quiet_finished [OF q]
  from q have rest: "cm_cache_misses (hc_metrics h) = card (cached_keys h \<union> busy_keys h)"
      "cached_keys h \<inter> busy_keys h = {}"
    unfolding quiet_inv_def by simp_all
  have "r = r' \<and> (\<exists>c. hc_cache h k = Some c \<and> r = Inr (cv_value c))"
    if a: "T t = Some (Finished k r)" "T u = Some (Finished k r')"
  proof -
    obtain c where "hc_cache h k = Some c" "r = Inr (cv_value c)" using fin [OF a(1)] by blast
    moreover have "r' = Inr (cv_value c)" using fin [OF a(2)] calculation(1) by auto
    ultimately show ?thesis by simp
  qed
  with rest show ?thesis by blast
qed


lemma ctx_one_fetch_per_key_witness:
  "card (cached_keys (fst demo_ctx_3) \<union> busy_keys (fst demo_ctx_3)) = 1 \<and>
   (\<exists>c. hc_cache (fst demo_ctx_3) ''k'' = Some c \<and> cv_value c = 7)"
proof -
  have "ctx_run (hctx_new None, Map.empty) ((demo_ctx_labels @ [L_fetched 1 0 7]) @ [L_resume 2 1])
      (fst demo_ctx_3, snd demo_ctx_3)" using demo_ctx_run_3 by simp
  from ctx_one_fetch_per_key [OF this, where k = "''k''" and t = 0 and u = 1 and r = "Inr 7" and r' = "Inr 7"]
  show ?thesis using demo_ctx_values(5,6) by (auto simp: demo_ctx_labels_def)
qed

end
