(* ===== verification/Log_Throttle.thy ===== *)
theory Log_Throttle
  imports Taas_Prelude
begin

text \<open>
  \<open>libs/foundation/src/foundation/observability/log_throttle.py\<close>: the filter that drops repeated
  records of noisy loggers and reports how many it dropped, and its installation on the loggers of
  the Kafka client. Times of the monotonic clock and the interval are seconds, here rationals; the
  lock of the filter makes a call atomic. The rendering of the interval in the note
  (\<open>f'{interval:.0f}'\<close>) is the parameter \<open>fmt\<close> and that of the count the parameter \<open>dec\<close>.
\<close>

section \<open>The filter\<close>

record log_record =
  lr_name :: string
  lr_levelno :: int
  lr_msg :: string

type_synonym group_key = "string \<times> int \<times> string"

record group_state =
  gs_window_start :: rat
  gs_emitted :: nat
  gs_suppressed :: nat

definition group_state_new :: "rat \<Rightarrow> nat \<Rightarrow> group_state" where
  "group_state_new window_start emitted =
     \<lparr>gs_window_start = window_start, gs_emitted = emitted, gs_suppressed = 0\<rparr>"

record throttle =
  th_burst :: nat
  th_interval_seconds :: rat
  th_state :: "group_key \<rightharpoonup> group_state"

definition DEFAULT_BURST :: int where "DEFAULT_BURST = 1"
definition DEFAULT_INTERVAL_SECONDS :: rat where "DEFAULT_INTERVAL_SECONDS = 60"

definition throttle_new :: "int \<Rightarrow> rat \<Rightarrow> throttle" where
  "throttle_new burst interval_seconds =
     \<lparr>th_burst = nat (max 1 burst), th_interval_seconds = max 0 interval_seconds, th_state = Map.empty\<rparr>"

definition record_key :: "log_record \<Rightarrow> group_key" where
  "record_key r = (lr_name r, lr_levelno r, lr_msg r)"

text \<open>What happens to a record: dropped, or emitted, with the count of dropped ones to report.\<close>

datatype verdict = Drop | Emit nat

text \<open>The decision on a record of a group at a time.\<close>

definition group_verdict :: "nat \<Rightarrow> rat \<Rightarrow> rat \<Rightarrow> group_state option \<Rightarrow> verdict \<times> group_state" where
  "group_verdict burst interval now st = (case st of
       None \<Rightarrow> (Emit 0, group_state_new now 1)
     | Some g \<Rightarrow>
         if now - gs_window_start g \<ge> interval then (Emit (gs_suppressed g), group_state_new now 1)
         else if gs_emitted g < burst then (Emit 0, g\<lparr>gs_emitted := gs_emitted g + 1\<rparr>)
         else (Drop, g\<lparr>gs_suppressed := gs_suppressed g + 1\<rparr>))"

definition annotate_suppressed ::
  "(nat \<Rightarrow> string) \<Rightarrow> (rat \<Rightarrow> string) \<Rightarrow> log_record \<Rightarrow> nat \<Rightarrow> rat \<Rightarrow> log_record" where
  "annotate_suppressed dec fmt r suppressed interval_seconds =
     r\<lparr>lr_msg := lr_msg r @ '' [+'' @ dec suppressed @ '' identical suppressed in the last '' @
       fmt interval_seconds @ ''s]''\<rparr>"

text \<open>\<open>filter\<close>: the record as emitted, or none.\<close>

definition throttle_filter ::
  "(nat \<Rightarrow> string) \<Rightarrow> (rat \<Rightarrow> string) \<Rightarrow> rat \<Rightarrow> log_record \<Rightarrow> throttle \<Rightarrow> log_record option \<times> throttle" where
  "throttle_filter dec fmt now r th =
     (let key = record_key r;
          (v, g) = group_verdict (th_burst th) (th_interval_seconds th) now (th_state th key);
          th' = th\<lparr>th_state := (th_state th)(key \<mapsto> g)\<rparr>
      in case v of
           Drop \<Rightarrow> (None, th')
         | Emit n \<Rightarrow> (Some (if n = 0 then r
             else annotate_suppressed dec fmt r n (th_interval_seconds th)), th'))"

definition throttle_reset :: "throttle \<Rightarrow> throttle" where
  "throttle_reset th = th\<lparr>th_state := Map.empty\<rparr>"

text \<open>A run of the filter over records with their times.\<close>

fun throttle_run ::
  "(nat \<Rightarrow> string) \<Rightarrow> (rat \<Rightarrow> string) \<Rightarrow> (rat \<times> log_record) list \<Rightarrow> throttle \<Rightarrow>
   log_record option list \<times> throttle" where
  "throttle_run dec fmt [] th = ([], th)"
| "throttle_run dec fmt ((now, r) # rs) th =
     (let (o1, th1) = throttle_filter dec fmt now r th; (os, th2) = throttle_run dec fmt rs th1
      in (o1 # os, th2))"

section \<open>Installation\<close>

text \<open>The filters of a logger by identity; \<open>Throttled\<close> is an instance of the class above.\<close>

datatype log_filter = Throttled nat | Other_Filter nat

fun is_throttled :: "log_filter \<Rightarrow> bool" where
  "is_throttled (Throttled i) = True"
| "is_throttled (Other_Filter i) = False"

type_synonym loggers = "string \<Rightarrow> log_filter list"

definition add_filter :: "log_filter \<Rightarrow> log_filter list \<Rightarrow> log_filter list" where
  "add_filter f fs = (if f \<in> set fs then fs else fs @ [f])"

definition remove_filter :: "log_filter \<Rightarrow> log_filter list \<Rightarrow> log_filter list" where
  "remove_filter f fs = (if f \<in> set fs then remove1 f fs else fs)"

fun install_log_throttle :: "nat \<Rightarrow> string list \<Rightarrow> loggers \<Rightarrow> loggers" where
  "install_log_throttle i [] lg = lg"
| "install_log_throttle i (name # names) lg =
     (let existing = filter is_throttled (lg name);
          cleaned = fold remove_filter existing (lg name)
      in install_log_throttle i names (lg(name := add_filter (Throttled i) cleaned)))"

definition AIOKAFKA_LOGGERS :: "string list" where
  "AIOKAFKA_LOGGERS = [''aiokafka'', ''aiokafka.client'', ''aiokafka.cluster'', ''aiokafka.conn'',
     ''aiokafka.consumer.consumer'', ''aiokafka.consumer.fetcher'', ''aiokafka.consumer.group_coordinator'',
     ''aiokafka.consumer.subscription_state'', ''aiokafka.producer.producer'',
     ''aiokafka.producer.sender'', ''aiokafka.admin.client'']"

definition install_aiokafka_log_throttle :: "nat \<Rightarrow> loggers \<Rightarrow> loggers" where
  "install_aiokafka_log_throttle i = install_log_throttle i AIOKAFKA_LOGGERS"

section \<open>One group\<close>

text \<open>The verdicts on the records of one group, given by their times.\<close>

fun group_run :: "nat \<Rightarrow> rat \<Rightarrow> rat list \<Rightarrow> group_state option \<Rightarrow> verdict list \<times> group_state option" where
  "group_run b iv [] st = ([], st)"
| "group_run b iv (now # ts) st =
     (let (v, g) = group_verdict b iv now st; (vs, st') = group_run b iv ts (Some g) in (v # vs, st'))"

definition emitted :: "verdict list \<Rightarrow> nat" where
  "emitted vs = length (filter (\<lambda>v. v \<noteq> Drop) vs)"

fun reported :: "verdict list \<Rightarrow> nat" where
  "reported [] = 0"
| "reported (Drop # vs) = reported vs"
| "reported (Emit n # vs) = n + reported vs"

definition pending :: "group_state option \<Rightarrow> nat" where
  "pending st = (case st of None \<Rightarrow> 0 | Some g \<Rightarrow> gs_suppressed g)"

lemma emitted_simps [simp]: "emitted [] = 0" "emitted (Drop # vs) = emitted vs" "emitted (Emit n # vs) = Suc (emitted vs)"
  by (simp_all add: emitted_def)

text \<open>Every record is emitted, reported as dropped, or still counted.\<close>

lemma group_accounting:
  "group_run b iv ts st = (vs, st') \<Longrightarrow>
   length ts + pending st = emitted vs + reported vs + pending st'"
proof (induction ts arbitrary: st vs)
  case Nil
  then show ?case by simp
next
  case (Cons t ts)
  obtain v g where v: "group_verdict b iv t st = (v, g)" by (rule prod.exhaust)
  obtain vs' where r: "group_run b iv ts (Some g) = (vs', st')" and vs: "vs = v # vs'"
    using Cons.prems by (auto simp: v split: prod.splits)
  have "pending st + 1 = emitted [v] + reported [v] + pending (Some g)"
    using v by (auto simp: group_verdict_def pending_def group_state_new_def split: option.splits if_splits)
  then show ?case using Cons.IH [OF r] vs by (cases v) auto
qed

text \<open>The windows of a group lie an interval apart, and each lets at most a burst through.\<close>

lemma group_bound_from:
  assumes "group_run b iv ts (Some g) = (vs, st')" and "iv > 0" and "1 \<le> b" and "gs_emitted g \<le> b"
    and "sorted (gs_window_start g # ts)" and "\<forall>t \<in> set ts. t \<le> last_t"
    and "gs_window_start g \<le> last_t"
  shows "rat_of_nat (emitted vs) \<le>
    rat_of_nat b * ((last_t - gs_window_start g) / iv) + rat_of_nat (b - gs_emitted g)"
  using assms(1,4-7)
proof (induction ts arbitrary: g vs)
  case Nil
  have "0 \<le> rat_of_nat b * ((last_t - gs_window_start g) / iv)"
    using Nil.prems(5) assms(2) by simp
  with Nil.prems(1) show ?case by simp
next
  case (Cons t ts)
  obtain v g' where v: "group_verdict b iv t (Some g) = (v, g')" by (rule prod.exhaust)
  obtain vs' where r: "group_run b iv ts (Some g') = (vs', st')" and vs: "vs = v # vs'"
    using Cons.prems(1) by (auto simp: v split: prod.splits)
  have srt: "sorted (t # ts)" "gs_window_start g \<le> t" "\<forall>x \<in> set ts. gs_window_start g \<le> x" "t \<le> last_t"
    using Cons.prems(3,4) by auto
  show ?case
  proof (cases "t - gs_window_start g \<ge> iv")
    case True
    then have g': "g' = group_state_new t 1" "v = Emit (gs_suppressed g)"
      using v by (auto simp: group_verdict_def)
    have "rat_of_nat (emitted vs') \<le> rat_of_nat b * ((last_t - t) / iv) + rat_of_nat (b - 1)"
      using Cons.IH [OF r] srt Cons.prems(4) assms(3) by (simp add: g' group_state_new_def)
    moreover have "rat_of_nat b * ((last_t - t) / iv) + rat_of_nat b \<le>
        rat_of_nat b * ((last_t - gs_window_start g) / iv)"
    proof -
      have "(last_t - t) / iv + 1 \<le> (last_t - gs_window_start g) / iv"
        using True assms(2) divide_right_mono [of "last_t - t + iv" "last_t - gs_window_start g" iv]
        by (simp add: add_divide_distrib)
      then have "rat_of_nat b * ((last_t - t) / iv + 1) \<le> rat_of_nat b * ((last_t - gs_window_start g) / iv)"
        by (intro mult_left_mono) simp_all
      then show ?thesis by (simp add: algebra_simps)
    qed
    ultimately show ?thesis using vs g'(2) assms(3) by (simp add: of_nat_diff)
  next
    case False
    then have w: "gs_window_start g' = gs_window_start g" and
      e: "(v = Emit 0 \<and> gs_emitted g' = gs_emitted g + 1 \<and> gs_emitted g < b) \<or> (v = Drop \<and> gs_emitted g' = gs_emitted g)"
      using v by (auto simp: group_verdict_def split: if_splits)
    have "rat_of_nat (emitted vs') \<le>
        rat_of_nat b * ((last_t - gs_window_start g) / iv) + rat_of_nat (b - gs_emitted g')"
      using Cons.IH [OF r] e Cons.prems srt by (auto simp: w)
    with e vs show ?thesis by (auto simp: of_nat_diff)
  qed
qed

lemma group_bound:
  assumes "group_run b iv (t # ts) None = (vs, st')" and "iv > 0" and "1 \<le> b"
    and "sorted (t # ts)" and "\<forall>x \<in> set (t # ts). x \<le> last_t"
  shows "rat_of_nat (emitted vs) \<le> rat_of_nat b * ((last_t - t) / iv + 1)"
proof -
  obtain vs' where r: "group_run b iv ts (Some (group_state_new t 1)) = (vs', st')" and vs: "vs = Emit 0 # vs'"
    using assms(1) by (auto simp: group_verdict_def split: prod.splits)
  have "rat_of_nat (emitted vs') \<le> rat_of_nat b * ((last_t - t) / iv) + rat_of_nat (b - 1)"
    using group_bound_from [OF r assms(2,3), of last_t] assms(3-5) by (simp add: group_state_new_def)
  then show ?thesis using vs assms(3) by (simp add: of_nat_diff algebra_simps)
qed

section \<open>The groups are independent\<close>

definition of_key :: "group_key \<Rightarrow> (rat \<times> log_record) list \<Rightarrow> (rat \<times> log_record) list" where
  "of_key k rs = filter (\<lambda>x. record_key (snd x) = k) rs"

definition outputs_of_key ::
  "group_key \<Rightarrow> (rat \<times> log_record) list \<Rightarrow> log_record option list \<Rightarrow> log_record option list" where
  "outputs_of_key k rs os = map snd (filter (\<lambda>x. record_key (snd (fst x)) = k) (zip rs os))"

definition render ::
  "(nat \<Rightarrow> string) \<Rightarrow> (rat \<Rightarrow> string) \<Rightarrow> rat \<Rightarrow> log_record \<Rightarrow> verdict \<Rightarrow> log_record option" where
  "render dec fmt iv r v = (case v of Drop \<Rightarrow> None
     | Emit n \<Rightarrow> Some (if n = 0 then r else annotate_suppressed dec fmt r n iv))"

lemma throttle_filter_alt:
  "throttle_filter dec fmt now r th =
    (let (v, g) = group_verdict (th_burst th) (th_interval_seconds th) now (th_state th (record_key r))
     in (render dec fmt (th_interval_seconds th) r v, th\<lparr>th_state := (th_state th)(record_key r \<mapsto> g)\<rparr>))"
  by (simp add: throttle_filter_def render_def Let_def split: prod.splits verdict.splits)

lemma throttle_run_group:
  assumes "throttle_run dec fmt rs th = (os, th')"
    and "group_run (th_burst th) (th_interval_seconds th) (map fst (of_key k rs)) (th_state th k) = (vs, st')"
  shows "outputs_of_key k rs os =
      map2 (render dec fmt (th_interval_seconds th)) (map snd (of_key k rs)) vs \<and> th_state th' k = st'"
  using assms
proof (induction rs arbitrary: th os vs)
  case Nil
  then show ?case by (simp add: outputs_of_key_def of_key_def)
next
  case (Cons x rs)
  obtain now r where x: "x = (now, r)" by (rule prod.exhaust)
  obtain v g where v: "group_verdict (th_burst th) (th_interval_seconds th) now (th_state th (record_key r)) = (v, g)"
    by (rule prod.exhaust)
  let ?th = "th\<lparr>th_state := (th_state th)(record_key r \<mapsto> g)\<rparr>"
  obtain os' where os: "throttle_run dec fmt rs ?th = (os', th')"
    "os = render dec fmt (th_interval_seconds th) r v # os'"
    using Cons.prems(1) by (auto simp: x throttle_filter_alt v split: prod.splits)
  show ?case
  proof (cases "record_key r = k")
    case True
    then obtain vs' where g: "vs = v # vs'"
      "group_run (th_burst th) (th_interval_seconds th) (map fst (of_key k rs)) (Some g) = (vs', st')"
      using Cons.prems(2) v by (auto simp: x of_key_def split: prod.splits)
    with Cons.IH [OF os(1), of vs'] True os(2) show ?thesis
      by (simp add: x outputs_of_key_def of_key_def)
  next
    case False
    with Cons.IH [OF os(1), of vs] Cons.prems(2) os(2) show ?thesis
      by (simp add: x outputs_of_key_def of_key_def)
  qed
qed

lemma length_group_run: "group_run b iv ts st = (vs, st') \<Longrightarrow> length vs = length ts"
  by (induction ts arbitrary: st vs) (auto split: prod.splits)

lemma emitted_render:
  "length rs = length vs \<Longrightarrow>
   length (filter (\<lambda>x. x \<noteq> None) (map2 (render dec fmt iv) rs vs)) = emitted vs"
  by (induction rs vs rule: list_induct2) (auto simp: render_def emitted_def split: verdict.splits)

lemma fst_throttle_run:
  "fst (throttle_run dec fmt ((now, r) # rs) th) =
    fst (throttle_filter dec fmt now r th) # fst (throttle_run dec fmt rs (snd (throttle_filter dec fmt now r th)))"
  by (simp add: split_beta)

section \<open>Filters do not stack\<close>

lemma fold_remove_filter:
  assumes "\<forall>y \<in> set ys. \<not> P y"
  shows "fold remove_filter (filter P xs) (ys @ xs) = ys @ filter (\<lambda>x. \<not> P x) xs"
  using assms
proof (induction xs arbitrary: ys)
  case Nil
  then show ?case by simp
next
  case (Cons x xs)
  show ?case
  proof (cases "P x")
    case True
    then have "x \<notin> set ys" using Cons.prems by auto
    then have "remove_filter x (ys @ x # xs) = ys @ xs" by (simp add: remove_filter_def remove1_append)
    then show ?thesis using Cons.IH [OF Cons.prems] True by simp
  next
    case False
    then show ?thesis using Cons.IH [of "ys @ [x]"] Cons.prems by simp
  qed
qed

lemma install_log_throttle_filters:
  "install_log_throttle i names lg n =
    (if n \<in> set names then filter (\<lambda>f. \<not> is_throttled f) (lg n) @ [Throttled i] else lg n)"
proof (induction names arbitrary: lg)
  case Nil
  then show ?case by simp
next
  case (Cons m names)
  have "fold remove_filter (filter is_throttled (lg m)) (lg m) = filter (\<lambda>f. \<not> is_throttled f) (lg m)"
    using fold_remove_filter [where ys = "[]" and P = is_throttled and xs = "lg m"] by simp
  then show ?case using Cons.IH by (auto simp: add_filter_def Let_def)
qed

section \<open>Properties\<close>

text \<open>The volume of a group. Let records pass a fresh filter with a positive interval, at
  increasing times. Of the records of one group (logger, level and template) at most \<open>burst\<close> per
  elapsed interval and \<open>burst\<close> more are emitted, so a persistent fault makes \<open>burst\<close> lines per
  interval; and no record is forgotten: those not emitted have been reported in a note or are counted
  for the next.\<close>

theorem throttle_volume_bound:
  assumes "throttle_run dec fmt rs (throttle_new burst iv) = (os, th')" and "iv > 0"
    and "of_key k rs = (t_first, r) # rest" and "sorted (map fst rs)" and "\<forall>x \<in> set rs. fst x \<le> t_last"
  shows "rat_of_nat (length (filter (\<lambda>x. x \<noteq> None) (outputs_of_key k rs os))) \<le>
      rat_of_int (max 1 burst) * ((t_last - t_first) / iv + 1) \<and>
    (\<exists>vs. outputs_of_key k rs os = map2 (render dec fmt iv) (map snd (of_key k rs)) vs \<and>
      length (of_key k rs) = emitted vs + reported vs + pending (th_state th' k))"
proof -
  let ?b = "nat (max 1 burst)"
  have f: "th_burst (throttle_new burst iv) = ?b" "th_interval_seconds (throttle_new burst iv) = iv"
    "th_state (throttle_new burst iv) k = None"
    using assms(2) by (simp_all add: throttle_new_def)
  obtain vs st' where g: "group_run ?b iv (map fst (of_key k rs)) None = (vs, st')" by (rule prod.exhaust)
  have out: "outputs_of_key k rs os = map2 (render dec fmt iv) (map snd (of_key k rs)) vs" "th_state th' k = st'"
    using throttle_run_group [OF assms(1), where k = k and vs = vs and st' = st'] g by (simp_all add: f)
  have len: "length (map snd (of_key k rs)) = length vs" using length_group_run [OF g] by simp
  have srt: "sorted (map fst (of_key k rs))" using assms(4) by (simp add: of_key_def sorted_filter)
  have le: "\<forall>x \<in> set (map fst (of_key k rs)). x \<le> t_last" using assms(5) by (auto simp: of_key_def)
  have "rat_of_nat (emitted vs) \<le> rat_of_nat ?b * ((t_last - t_first) / iv + 1)"
    using group_bound [of ?b iv t_first "map fst rest" vs st' t_last] g srt le assms(2,3) by simp
  moreover have "rat_of_nat ?b = rat_of_int (max 1 burst)" by simp
  moreover have "length (of_key k rs) = emitted vs + reported vs + pending st'"
    using group_accounting [OF g] by (simp add: pending_def)
  ultimately show ?thesis using out len by (metis emitted_render)
qed

lemma throttle_volume_bound_witness:
  "rat_of_nat (length (filter (\<lambda>x. x \<noteq> None) (outputs_of_key (''a'', 40, ''m'')
      [(0, \<lparr>lr_name = ''a'', lr_levelno = 40, lr_msg = ''m''\<rparr>), (30, \<lparr>lr_name = ''a'', lr_levelno = 40, lr_msg = ''m''\<rparr>)]
      (fst (throttle_run (\<lambda>_. []) (\<lambda>_. [])
        [(0, \<lparr>lr_name = ''a'', lr_levelno = 40, lr_msg = ''m''\<rparr>), (30, \<lparr>lr_name = ''a'', lr_levelno = 40, lr_msg = ''m''\<rparr>)]
        (throttle_new 1 60)))))) \<le> 3 / 2"
proof -
  let ?r = "\<lparr>lr_name = ''a'', lr_levelno = 40, lr_msg = ''m''\<rparr>"
  let ?rs = "[(0, ?r), (30, ?r)] :: (rat \<times> log_record) list"
  have k: "of_key (''a'', 40, ''m'') ?rs = (0, ?r) # [(30, ?r)]" by (simp add: of_key_def record_key_def)
  from throttle_volume_bound [where dec = "\<lambda>_. []" and fmt = "\<lambda>_. []" and rs = ?rs and burst = 1 and iv = 60
      and t_last = 30, OF prod.collapse [symmetric] _ k]
  show ?thesis by simp
qed

text \<open>The allowance is per logger. Although \<open>install_log_throttle\<close> shares one filter among the
  loggers so that the budget would be per message, the logger's name is part of the group: the same
  message sent to any number of different loggers is emitted by each of them.\<close>

theorem throttle_budget_per_logger:
  assumes "distinct names"
  shows "fst (throttle_run dec fmt (map (\<lambda>(n, t). (t, \<lparr>lr_name = n, lr_levelno = lvl, lr_msg = msg\<rparr>)) (zip names ts))
      (throttle_new burst iv)) =
    map (\<lambda>(n, t). Some \<lparr>lr_name = n, lr_levelno = lvl, lr_msg = msg\<rparr>) (zip names ts)"
proof -
  have "fst (throttle_run dec fmt (map (\<lambda>(n, t). (t, \<lparr>lr_name = n, lr_levelno = lvl, lr_msg = msg\<rparr>)) (zip names ts)) th) =
      map (\<lambda>(n, t). Some \<lparr>lr_name = n, lr_levelno = lvl, lr_msg = msg\<rparr>) (zip names ts)"
    if "\<forall>n \<in> set names. th_state th (n, lvl, msg) = None" for th
    using assms that
  proof (induction names arbitrary: ts th)
    case Nil
    then show ?case by simp
  next
    case (Cons n names)
    show ?case
    proof (cases ts)
      case Nil
      then show ?thesis by simp
    next
      case (Cons t ts')
      let ?th = "th\<lparr>th_state := (th_state th)((n, lvl, msg) \<mapsto> group_state_new t 1)\<rparr>"
      have "\<forall>m \<in> set names. th_state ?th (m, lvl, msg) = None" using Cons.prems by auto
      then have "fst (throttle_run dec fmt (map (\<lambda>(n, t). (t, \<lparr>lr_name = n, lr_levelno = lvl, lr_msg = msg\<rparr>))
          (zip names ts')) ?th) = map (\<lambda>(n, t). Some \<lparr>lr_name = n, lr_levelno = lvl, lr_msg = msg\<rparr>) (zip names ts')"
        using Cons.IH Cons.prems(1) by simp
      with Cons.prems Cons show ?thesis
        by (auto simp: throttle_filter_def record_key_def group_verdict_def Let_def fst_throttle_run simp del: throttle_run.simps)
    qed
  qed
  then show ?thesis by (simp add: throttle_new_def)
qed


lemma throttle_budget_per_logger_witness:
  "length (fst (throttle_run (\<lambda>_. []) (\<lambda>_. [])
      (map (\<lambda>(n, t). (t, \<lparr>lr_name = n, lr_levelno = 40, lr_msg = ''down''\<rparr>)) (zip AIOKAFKA_LOGGERS (replicate 11 0)))
      (throttle_new 1 60))) = 11"
proof -
  have "distinct AIOKAFKA_LOGGERS" by (simp add: AIOKAFKA_LOGGERS_def)
  from throttle_budget_per_logger [where dec = "\<lambda>_. []" and fmt = "\<lambda>_. []" and lvl = 40 and msg = "''down''"
      and ts = "replicate 11 0" and burst = 1 and iv = 60, OF this]
  show ?thesis by (simp add: AIOKAFKA_LOGGERS_def)
qed

end
