(* ===== verification/Retry_Policy.thy ===== *)
theory Retry_Policy
  imports Taas_Prelude
begin

text \<open>
  The retry policies of \<open>foundation/resiliant/retry\<close>: \<open>ExponentialBackoffRetry\<close> and
  \<open>LinearBackoffRetry\<close> (\<open>_exp_backoff_retry.py\<close>) and the hand-written asynchronous loop of
  \<open>TenacityRetry\<close> (\<open>_retry_tenacity.py\<close>). The function under retry is any computation on a
  world; the state of a run adds the number of its calls and the delays slept. The draw of
  \<open>random.uniform(0, 0.5)\<close> after attempt \<open>n\<close> is the parameter \<open>jit n\<close>, an exception that
  ends the sleep after attempt \<open>n\<close> (a cancelled task) the parameter \<open>intr n\<close>, the answer of
  \<open>current_task.cancelled()\<close> before attempt \<open>n\<close> the parameter \<open>canc n\<close>. The OS signal
  handlers the asynchronous loops install and restore are not modelled.
\<close>

section \<open>The state of a run\<close>

record 'w retry_run =
  world :: 'w
  calls :: nat
  slept :: "rat list"

definition call_func :: "('w, 'a) eff \<Rightarrow> ('w retry_run, 'a) eff" where
  "call_func f s = (case f (world s) of (r, w) \<Rightarrow> (r, s\<lparr>world := w, calls := Suc (calls s)\<rparr>))"

definition do_sleep :: "py_exn option \<Rightarrow> rat \<Rightarrow> ('w retry_run, unit) eff" where
  "do_sleep i d s = (case i of None \<Rightarrow> (Inr (), s\<lparr>slept := slept s @ [d]\<rparr>)
                     | Some e \<Rightarrow> (Inl e, s))"

text \<open>\<open>b ** n\<close> on floats raises \<open>OverflowError\<close> when the result rounds beyond the largest double.\<close>

definition float_pow_limit :: rat where
  "float_pow_limit = 2 ^ 1024 - 2 ^ 970"

definition py_float_pow :: "rat \<Rightarrow> nat \<Rightarrow> py_exn + rat" where
  "py_float_pow b n = (if b ^ n \<ge> float_pow_limit then Inl OverflowError else Inr (b ^ n))"

section \<open>The loop\<close>

text \<open>
  \<open>for attempt in range(max_attempts)\<close> with its \<open>try\<close>: \<open>k\<close> iterations are left and \<open>n\<close> is the
  attempt number. Past the last iteration the code re-raises the last exception, or a
  \<open>RuntimeError\<close>. \<open>nd\<close> is \<open>get_next_delay\<close>, \<open>sr\<close> the \<open>should_retry\<close> predicate.
\<close>

fun retry_loop ::
  "(nat \<Rightarrow> py_exn + rat) \<Rightarrow> (nat \<Rightarrow> bool) \<Rightarrow> (nat \<Rightarrow> py_exn option) \<Rightarrow> int \<Rightarrow>
   (py_exn \<Rightarrow> bool) option \<Rightarrow> ('w, 'a) eff \<Rightarrow> nat \<Rightarrow> nat \<Rightarrow> py_exn option \<Rightarrow> ('w retry_run, 'a) eff" where
  "retry_loop nd canc intr maxa sr f n 0 prev s =
     (case prev of Some e \<Rightarrow> (Inl e, s) | None \<Rightarrow> (Inl (RuntimeError ''Retry logic error''), s))"
| "retry_loop nd canc intr maxa sr f n (Suc k) prev s =
     (if canc n then (Inl CancelledError, s) else case call_func f s of
       (Inr x, s') \<Rightarrow> (Inr x, s')
     | (Inl e, s') \<Rightarrow>
         if \<not> is_exception e then (Inl e, s')
         else if (case sr of None \<Rightarrow> False | Some p \<Rightarrow> \<not> p e) then (Inl e, s')
         else if int n + 1 \<ge> maxa then (Inl e, s')
         else (case nd n of
             Inl e' \<Rightarrow> (Inl e', s')
           | Inr d \<Rightarrow> (case do_sleep (intr n) d s' of
                 (Inl e', s'') \<Rightarrow> (Inl e', s'')
               | (Inr _, s'') \<Rightarrow> retry_loop nd canc intr maxa sr f (Suc n) k (Some e) s'')))"

section \<open>The policies\<close>

subsection \<open>ExponentialBackoffRetry\<close>

record exp_retry =
  er_max_attempts :: int
  er_initial_delay :: rat
  er_max_delay :: rat
  er_exponential_base :: rat
  er_jitter :: bool

definition exp_retry_init :: "int \<Rightarrow> rat \<Rightarrow> rat \<Rightarrow> rat \<Rightarrow> bool \<Rightarrow> py_exn + exp_retry" where
  "exp_retry_init max_attempts initial_delay max_delay exponential_base jitter =
     (if max_attempts < 1 then Inl (ValueError ''max_attempts'')
      else if initial_delay \<le> 0 then Inl (ValueError ''initial_delay'')
      else if max_delay < initial_delay then Inl (ValueError ''max_delay'')
      else if exponential_base < 1 then Inl (ValueError ''exponential_base'')
      else Inr \<lparr>er_max_attempts = max_attempts, er_initial_delay = initial_delay,
                er_max_delay = max_delay, er_exponential_base = exponential_base,
                er_jitter = jitter\<rparr>)"

definition exp_get_next_delay :: "exp_retry \<Rightarrow> rat \<Rightarrow> nat \<Rightarrow> py_exn + rat" where
  "exp_get_next_delay r u attempt = (case py_float_pow (er_exponential_base r) attempt of
       Inl e \<Rightarrow> Inl e
     | Inr p \<Rightarrow> let delay = min (er_initial_delay r * p) (er_max_delay r)
                in Inr (if er_jitter r then delay + delay * u else delay))"

definition exp_execute ::
  "exp_retry \<Rightarrow> (nat \<Rightarrow> rat) \<Rightarrow> (nat \<Rightarrow> py_exn option) \<Rightarrow> (py_exn \<Rightarrow> bool) option \<Rightarrow>
   ('w, 'a) eff \<Rightarrow> ('w retry_run, 'a) eff" where
  "exp_execute r jit intr sr f =
     retry_loop (\<lambda>n. exp_get_next_delay r (jit n) n) (\<lambda>_. False) intr (er_max_attempts r) sr f
       0 (nat (er_max_attempts r)) None"

text \<open>
  The asynchronous variant also tests \<open>current_task.cancelled()\<close> before every attempt, here
  \<open>canc n\<close>, and re-raises \<open>CancelledError\<close>, which \<open>is_exception\<close> leaves out as well.
\<close>

definition exp_execute_async ::
  "exp_retry \<Rightarrow> (nat \<Rightarrow> rat) \<Rightarrow> (nat \<Rightarrow> bool) \<Rightarrow> (nat \<Rightarrow> py_exn option) \<Rightarrow> (py_exn \<Rightarrow> bool) option \<Rightarrow>
   ('w, 'a) eff \<Rightarrow> ('w retry_run, 'a) eff" where
  "exp_execute_async r jit canc intr sr f =
     retry_loop (\<lambda>n. exp_get_next_delay r (jit n) n) canc intr (er_max_attempts r) sr f
       0 (nat (er_max_attempts r)) None"

subsection \<open>LinearBackoffRetry\<close>

record lin_retry =
  lr_max_attempts :: int
  lr_delay :: rat

definition lin_retry_init :: "int \<Rightarrow> rat \<Rightarrow> py_exn + lin_retry" where
  "lin_retry_init max_attempts delay =
     (if max_attempts < 1 then Inl (ValueError ''max_attempts'')
      else if delay < 0 then Inl (ValueError ''delay'')
      else Inr \<lparr>lr_max_attempts = max_attempts, lr_delay = delay\<rparr>)"

definition lin_get_next_delay :: "lin_retry \<Rightarrow> rat \<Rightarrow> nat \<Rightarrow> py_exn + rat" where
  "lin_get_next_delay r u attempt = Inr (lr_delay r)"

definition lin_execute ::
  "lin_retry \<Rightarrow> (nat \<Rightarrow> py_exn option) \<Rightarrow> (py_exn \<Rightarrow> bool) option \<Rightarrow>
   ('w, 'a) eff \<Rightarrow> ('w retry_run, 'a) eff" where
  "lin_execute r intr sr f =
     retry_loop (\<lambda>n. Inr (lr_delay r)) (\<lambda>_. False) intr (lr_max_attempts r) sr f
       0 (nat (lr_max_attempts r)) None"

definition lin_execute_async ::
  "lin_retry \<Rightarrow> (nat \<Rightarrow> bool) \<Rightarrow> (nat \<Rightarrow> py_exn option) \<Rightarrow> (py_exn \<Rightarrow> bool) option \<Rightarrow>
   ('w, 'a) eff \<Rightarrow> ('w retry_run, 'a) eff" where
  "lin_execute_async r canc intr sr f =
     retry_loop (\<lambda>n. Inr (lr_delay r)) canc intr (lr_max_attempts r) sr f
       0 (nat (lr_max_attempts r)) None"

subsection \<open>TenacityRetry\<close>

record ten_retry =
  tr_max_attempts :: int
  tr_initial_delay :: rat
  tr_max_delay :: rat
  tr_exponential_base :: rat
  tr_wait_strategy :: string
  tr_exponential_multiplier :: rat

definition ten_retry_init :: "int \<Rightarrow> rat \<Rightarrow> rat \<Rightarrow> rat \<Rightarrow> string \<Rightarrow> rat \<Rightarrow> py_exn + ten_retry" where
  "ten_retry_init max_attempts initial_delay max_delay exponential_base wait_strategy multiplier =
     (if max_attempts < 1 then Inl (ValueError ''max_attempts'')
      else if initial_delay \<le> 0 then Inl (ValueError ''initial_delay'')
      else if max_delay < initial_delay then Inl (ValueError ''max_delay'')
      else if exponential_base < 1 then Inl (ValueError ''exponential_base'')
      else if wait_strategy \<notin> {''exponential'', ''fixed''} then Inl (ValueError ''wait_strategy'')
      else Inr \<lparr>tr_max_attempts = max_attempts, tr_initial_delay = initial_delay,
                tr_max_delay = max_delay, tr_exponential_base = exponential_base,
                tr_wait_strategy = wait_strategy, tr_exponential_multiplier = multiplier\<rparr>)"

definition ten_get_next_delay :: "ten_retry \<Rightarrow> rat \<Rightarrow> nat \<Rightarrow> py_exn + rat" where
  "ten_get_next_delay r u attempt =
     (if tr_wait_strategy r = ''exponential'' then
        (case py_float_pow (tr_exponential_base r) attempt of
           Inl e \<Rightarrow> Inl e
         | Inr p \<Rightarrow> Inr (min (tr_initial_delay r * tr_exponential_multiplier r * p) (tr_max_delay r)))
      else Inr (tr_initial_delay r))"

definition ten_execute_async ::
  "ten_retry \<Rightarrow> (nat \<Rightarrow> bool) \<Rightarrow> (nat \<Rightarrow> py_exn option) \<Rightarrow> (py_exn \<Rightarrow> bool) option \<Rightarrow>
   ('w, 'a) eff \<Rightarrow> ('w retry_run, 'a) eff" where
  "ten_execute_async r canc intr sr f =
     retry_loop (\<lambda>n. ten_get_next_delay r 0 n) canc intr (tr_max_attempts r) sr f
       0 (nat (tr_max_attempts r)) None"

section \<open>The loop on its own\<close>

lemma call_func_simps:
  "calls (snd (call_func f s)) = Suc (calls s)" "slept (snd (call_func f s)) = slept s"
  by (auto simp: call_func_def split: prod.splits)

text \<open>
  One iteration either ends the run, or sleeps for the delay of its attempt and goes on.
\<close>

lemma retry_loop_body:
  obtains (stop) s' r where "retry_loop nd canc intr maxa sr f n (Suc k) prev s = (r, s')"
      and "calls s' \<le> Suc (calls s)" and "slept s' = slept s"
  | (again) s' e d where "retry_loop nd canc intr maxa sr f n (Suc k) prev s =
        retry_loop nd canc intr maxa sr f (Suc n) k (Some e) (s'\<lparr>slept := slept s @ [d]\<rparr>)"
      and "calls s' = Suc (calls s)" and "nd n = Inr d"
proof -
  obtain r s' where c: "call_func f s = (r, s')" by fastforce
  then have *: "calls s' = Suc (calls s)" "slept s' = slept s"
    using call_func_simps [of f s] by simp_all
  show thesis
  proof (cases "canc n")
    case True
    then show thesis using stop [of _ s] by simp
  next
    case False
    note nc = this
    show thesis
  proof (cases "\<exists>e d. r = Inl e \<and> retry_loop nd canc intr maxa sr f n (Suc k) prev s =
        retry_loop nd canc intr maxa sr f (Suc n) k (Some e) (s'\<lparr>slept := slept s @ [d]\<rparr>) \<and> nd n = Inr d")
    case True
    then show thesis using again * by blast
  next
    case False
    have "\<exists>r'. retry_loop nd canc intr maxa sr f n (Suc k) prev s = (r', s')"
    proof (rule ccontr)
      assume no: "\<nexists>r'. retry_loop nd canc intr maxa sr f n (Suc k) prev s = (r', s')"
      then obtain e where e: "r = Inl e" using c nc by (cases r) auto
      from no c e nc obtain d where "nd n = Inr d" "intr n = None"
        by (auto simp: do_sleep_def split: sum.splits option.splits if_splits)
      with no c e nc * have "retry_loop nd canc intr maxa sr f n (Suc k) prev s =
          retry_loop nd canc intr maxa sr f (Suc n) k (Some e) (s'\<lparr>slept := slept s @ [d]\<rparr>)"
        by (auto simp: do_sleep_def split: if_splits)
      with False e \<open>nd n = Inr d\<close> show False by blast
    qed
    then show thesis using stop [of _ s'] * by auto
  qed
  qed
qed

lemma retry_loop_calls:
  "calls (snd (retry_loop nd canc intr maxa sr f n k prev s)) \<le> calls s + k"
proof (induction k arbitrary: n prev s)
  case 0
  then show ?case by (simp split: option.splits)
next
  case (Suc k)
  show ?case
  proof (cases rule: retry_loop_body [of nd canc intr maxa sr f n k prev s])
    case (again s' e d)
    then show ?thesis using Suc.IH [of "Suc n" "Some e" "s'\<lparr>slept := slept s @ [d]\<rparr>"] by simp
  qed simp
qed

text \<open>Every delay slept is one that \<open>get_next_delay\<close> returned.\<close>

lemma retry_loop_slept:
  "\<exists>ds. slept (snd (retry_loop nd canc intr maxa sr f n k prev s)) = slept s @ ds \<and>
        length ds \<le> k \<and> (\<forall>d \<in> set ds. \<exists>i. nd i = Inr d)"
proof (induction k arbitrary: n prev s)
  case 0
  then show ?case by (simp split: option.splits)
next
  case (Suc k)
  show ?case
  proof (cases rule: retry_loop_body [of nd canc intr maxa sr f n k prev s])
    case (again s' e d)
    then obtain ds where "slept (snd (retry_loop nd canc intr maxa sr f (Suc n) k (Some e)
        (s'\<lparr>slept := slept s @ [d]\<rparr>))) = slept s @ d # ds"
      and "length ds \<le> k" "\<forall>d \<in> set ds. \<exists>i. nd i = Inr d"
      using Suc.IH [of "Suc n" "Some e" "s'\<lparr>slept := slept s @ [d]\<rparr>"] by auto
    with again show ?thesis by (intro exI [of _ "d # ds"]) auto
  qed simp
qed

subsection \<open>Runs of a scripted function\<close>

text \<open>
  A function whose outcomes are given by a list: the reference the loop is compared with.
\<close>

fun scripted :: "((py_exn + 'a) list, 'a) eff" where
  "scripted [] = (Inl (RuntimeError ''script ended''), [])"
| "scripted (r # rs) = (r, rs)"

definition retryable :: "(py_exn \<Rightarrow> bool) option \<Rightarrow> py_exn \<Rightarrow> bool" where
  "retryable sr e \<longleftrightarrow> is_exception e \<and> (case sr of None \<Rightarrow> True | Some p \<Rightarrow> p e)"

abbreviation scripted_loop where
  "scripted_loop nd maxa sr \<equiv> retry_loop nd (\<lambda>_. False) (\<lambda>_. None) maxa sr scripted"

lemma scripted_fail_step:
  assumes "retryable sr e" and "int n + 1 < maxa" and "nd n = Inr (dl n)"
  shows "scripted_loop nd maxa sr n (Suc k) prev \<lparr>world = Inl e # w, calls = c, slept = ds\<rparr> =
    scripted_loop nd maxa sr (Suc n) k (Some e) \<lparr>world = w, calls = Suc c, slept = ds @ [dl n]\<rparr>"
  using assms by (auto simp: call_func_def do_sleep_def retryable_def split: option.splits)

lemma scripted_fails:
  assumes "\<forall>e \<in> set es. retryable sr e" and "int n + int (length es) < maxa"
    and "\<forall>i. int i + 1 < maxa \<longrightarrow> nd i = Inr (dl i)"
  shows "scripted_loop nd maxa sr n (length es + k) prev
      \<lparr>world = map Inl es @ w, calls = c, slept = ds\<rparr> =
    scripted_loop nd maxa sr (n + length es) k (if es = [] then prev else Some (last es))
      \<lparr>world = w, calls = c + length es, slept = ds @ map dl [n..<n + length es]\<rparr>"
  using assms(1,2)
proof (induction es arbitrary: n prev c ds)
  case Nil
  then show ?case by simp
next
  case (Cons e es)
  have "scripted_loop nd maxa sr n (length (e # es) + k) prev
      \<lparr>world = map Inl (e # es) @ w, calls = c, slept = ds\<rparr> =
    scripted_loop nd maxa sr (Suc n) (length es + k) (Some e)
      \<lparr>world = map Inl es @ w, calls = Suc c, slept = ds @ [dl n]\<rparr>"
    using scripted_fail_step [of sr e n maxa nd dl "length es + k" prev "map Inl es @ w" c ds]
      Cons.prems assms(3) by simp
  also have "\<dots> = scripted_loop nd maxa sr (Suc n + length es) k
        (if es = [] then Some e else Some (last es))
      \<lparr>world = w, calls = Suc c + length es, slept = ds @ [dl n] @ map dl [Suc n..<Suc n + length es]\<rparr>"
    using Cons.IH [of "Suc n" "Some e" "Suc c" "ds @ [dl n]"] Cons.prems by simp
  also have "ds @ [dl n] @ map dl [Suc n..<Suc n + length es] = ds @ map dl [n..<n + length (e # es)]"
    by (simp add: upt_conv_Cons del: upt_Suc)
  finally show ?case by (simp del: retry_loop.simps upt_Suc add: if_distrib cong: if_cong)
qed

text \<open>Success after fewer failures than attempts.\<close>

lemma scripted_succeeds:
  assumes "\<forall>e \<in> set es. retryable sr e" and "int (length es) < maxa"
    and "\<forall>i. int i + 1 < maxa \<longrightarrow> nd i = Inr (dl i)"
  shows "scripted_loop nd maxa sr 0 (nat maxa) None
      \<lparr>world = map Inl es @ Inr x # w, calls = 0, slept = []\<rparr> =
    (Inr x, \<lparr>world = w, calls = Suc (length es), slept = map dl [0..<length es]\<rparr>)"
proof -
  obtain k where k: "nat maxa = length es + Suc k"
    using assms(2) by (metis add_Suc_right less_imp_Suc_add zless_nat_eq_int_zless)
  show ?thesis
    unfolding k scripted_fails [OF assms(1) _ assms(3), of 0, simplified, OF assms(2)]
    by (simp add: call_func_def)
qed

text \<open>
  A failure that is the last attempt's, or that must not be retried, ends the run with
  that exception.
\<close>

lemma scripted_raises:
  assumes "\<forall>e \<in> set es. retryable sr e" and "int (length es) < maxa"
    and "\<forall>i. int i + 1 < maxa \<longrightarrow> nd i = Inr (dl i)"
    and "\<not> retryable sr e \<or> int (length es) + 1 = maxa"
  shows "scripted_loop nd maxa sr 0 (nat maxa) None
      \<lparr>world = map Inl es @ Inl e # w, calls = 0, slept = []\<rparr> =
    (Inl e, \<lparr>world = w, calls = Suc (length es), slept = map dl [0..<length es]\<rparr>)"
proof -
  obtain k where k: "nat maxa = length es + Suc k"
    using assms(2) by (metis add_Suc_right less_imp_Suc_add zless_nat_eq_int_zless)
  show ?thesis
    unfolding k scripted_fails [OF assms(1) _ assms(3), of 0, simplified, OF assms(2)]
    using assms(4) by (auto simp: call_func_def retryable_def split: option.splits)
qed

text \<open>The \<open>RuntimeError\<close> after the loop is unreachable.\<close>

lemma retry_loop_never_falls_out:
  assumes "int n + int k = maxa" and "0 < k" and "e0 \<noteq> CancelledError"
    and "\<And>w. fst (f w) \<noteq> Inl e0" and "\<And>i. nd i \<noteq> Inl e0" and "\<And>i. intr i \<noteq> Some e0"
  shows "fst (retry_loop nd canc intr maxa sr f n k prev s) \<noteq> Inl e0"
  using assms(1,2)
proof (induction k arbitrary: n prev s)
  case 0
  then show ?case by simp
next
  case (Suc k)
  obtain r s' where c: "call_func f s = (r, s')" by fastforce
  then have r: "r \<noteq> Inl e0" using assms(4) by (auto simp: call_func_def split: prod.splits) (metis fst_conv)
  show ?case
  proof (cases k)
    case 0
    with c r Suc.prems assms(3) show ?thesis by (auto split: sum.splits option.splits)
  next
    case (Suc k')
    then have "fst (retry_loop nd canc intr maxa sr f (Suc n) k l t) \<noteq> Inl e0" for l t
      using Suc.IH Suc.prems(1) by simp
    with c r assms(3) assms(5) [of n] assms(6) [of n] show ?thesis
      by (auto simp: do_sleep_def split: sum.splits option.splits)
  qed
qed

lemma sum_list_le:
  "(\<And>d. d \<in> set ds \<Longrightarrow> d \<le> c) \<Longrightarrow> sum_list ds \<le> of_nat (length ds) * (c :: rat)"
proof (induction ds)
  case (Cons d ds)
  then have "d \<le> c" "sum_list ds \<le> of_nat (length ds) * c" by simp_all
  then show ?case by (simp add: algebra_simps)
qed simp

section \<open>The retry policy interface\<close>

text \<open>
  \<open>IRetryPolicy\<close>: what the loop relies on in a policy \<open>p\<close> is a positive number of attempts
  and delays that are non-negative and bounded. The bound includes jitter.
\<close>

locale retry_policy =
  fixes ok :: "'p \<Rightarrow> bool"
    and attempts :: "'p \<Rightarrow> int"
    and delay :: "'p \<Rightarrow> rat \<Rightarrow> nat \<Rightarrow> py_exn + rat"
    and cap :: "'p \<Rightarrow> rat"
  assumes attempts_pos: "ok p \<Longrightarrow> 1 \<le> attempts p"
    and delay_bounds: "ok p \<Longrightarrow> 0 \<le> u \<Longrightarrow> u \<le> 1/2 \<Longrightarrow> delay p u n = Inr d \<Longrightarrow> 0 \<le> d \<and> d \<le> cap p"
    and cap_nonneg: "ok p \<Longrightarrow> 0 \<le> cap p"
begin

lemma run_calls:
  assumes "ok p"
  shows "calls (snd (retry_loop (\<lambda>n. delay p (jit n) n) canc intr (attempts p) sr f 0 (nat (attempts p)) None
      \<lparr>world = w, calls = 0, slept = []\<rparr>)) \<le> nat (attempts p)"
  using retry_loop_calls [where s = "\<lparr>world = w, calls = 0, slept = []\<rparr>" and k = "nat (attempts p)"]
  by simp

lemma run_slept:
  assumes ok: "ok p" and jit: "\<forall>n. 0 \<le> jit n \<and> jit n \<le> 1/2"
  shows "\<forall>d \<in> set (slept (snd (retry_loop (\<lambda>n. delay p (jit n) n) canc intr (attempts p) sr f 0
      (nat (attempts p)) None \<lparr>world = w, calls = 0, slept = []\<rparr>))). 0 \<le> d \<and> d \<le> cap p"
  using retry_loop_slept [of "\<lambda>n. delay p (jit n) n" canc intr "attempts p" sr f 0 "nat (attempts p)" None
      "\<lparr>world = w, calls = 0, slept = []\<rparr>"] delay_bounds [OF ok] jit
  by fastforce

lemma run_total_sleep:
  assumes ok: "ok p" and jit: "\<forall>n. 0 \<le> jit n \<and> jit n \<le> 1/2"
  shows "sum_list (slept (snd (retry_loop (\<lambda>n. delay p (jit n) n) canc intr (attempts p) sr f 0
      (nat (attempts p)) None \<lparr>world = w, calls = 0, slept = []\<rparr>))) \<le> of_int (attempts p) * cap p"
    (is "sum_list ?ds \<le> _")
proof -
  have len: "length ?ds \<le> nat (attempts p)"
    using retry_loop_slept [of "\<lambda>n. delay p (jit n) n" canc intr "attempts p" sr f 0 "nat (attempts p)" None
      "\<lparr>world = w, calls = 0, slept = []\<rparr>"] by auto
  have "sum_list ?ds \<le> of_nat (length ?ds) * cap p"
    using run_slept [OF ok jit, of canc intr sr f w] by (intro sum_list_le) blast
  also have "\<dots> \<le> of_nat (nat (attempts p)) * cap p"
    using len cap_nonneg [OF ok] by (intro mult_right_mono) simp_all
  also have "\<dots> = of_int (attempts p) * cap p"
    using attempts_pos [OF ok] by (simp add: of_nat_nat)
  finally show ?thesis .
qed

end

definition exp_ok :: "exp_retry \<Rightarrow> bool" where
  "exp_ok r \<longleftrightarrow> exp_retry_init (er_max_attempts r) (er_initial_delay r) (er_max_delay r)
     (er_exponential_base r) (er_jitter r) = Inr r"

definition lin_ok :: "lin_retry \<Rightarrow> bool" where
  "lin_ok r \<longleftrightarrow> lin_retry_init (lr_max_attempts r) (lr_delay r) = Inr r"

definition ten_ok :: "ten_retry \<Rightarrow> bool" where
  "ten_ok r \<longleftrightarrow> 0 \<le> tr_exponential_multiplier r \<and>
     ten_retry_init (tr_max_attempts r) (tr_initial_delay r) (tr_max_delay r) (tr_exponential_base r)
       (tr_wait_strategy r) (tr_exponential_multiplier r) = Inr r"

lemma exp_ok_iff:
  "exp_ok r \<longleftrightarrow> 1 \<le> er_max_attempts r \<and> 0 < er_initial_delay r \<and>
     er_initial_delay r \<le> er_max_delay r \<and> 1 \<le> er_exponential_base r"
  by (auto simp: exp_ok_def exp_retry_init_def)

lemma lin_ok_iff: "lin_ok r \<longleftrightarrow> 1 \<le> lr_max_attempts r \<and> 0 \<le> lr_delay r"
  by (auto simp: lin_ok_def lin_retry_init_def)

lemma ten_ok_iff:
  "ten_ok r \<longleftrightarrow> 0 \<le> tr_exponential_multiplier r \<and> 1 \<le> tr_max_attempts r \<and> 0 < tr_initial_delay r \<and>
     tr_initial_delay r \<le> tr_max_delay r \<and> 1 \<le> tr_exponential_base r \<and>
     tr_wait_strategy r \<in> {''exponential'', ''fixed''}"
  by (auto simp: ten_ok_def ten_retry_init_def)

lemma exp_base_delay_bounds:
  assumes "exp_ok r"
  shows "0 < min (er_initial_delay r * er_exponential_base r ^ n) (er_max_delay r)"
    and "min (er_initial_delay r * er_exponential_base r ^ n) (er_max_delay r) \<le> er_max_delay r"
  using assms by (auto simp: exp_ok_iff)

interpretation expo: retry_policy exp_ok er_max_attempts exp_get_next_delay "\<lambda>r. 3/2 * er_max_delay r"
proof
  fix r :: exp_retry and u :: rat and n :: nat and d :: rat
  assume ok: "exp_ok r" and u: "0 \<le> u" "u \<le> 1/2" and d: "exp_get_next_delay r u n = Inr d"
  let ?b = "min (er_initial_delay r * er_exponential_base r ^ n) (er_max_delay r)"
  have b: "0 < ?b" "?b \<le> er_max_delay r" using exp_base_delay_bounds [OF ok] by blast+
  have "?b * u \<le> er_max_delay r * (1/2)" using b u by (intro mult_mono) auto
  moreover have "0 \<le> ?b * u" using b u by simp
  moreover have "d = (if er_jitter r then ?b + ?b * u else ?b)"
    using d by (auto simp: exp_get_next_delay_def py_float_pow_def Let_def split: if_splits)
  ultimately show "0 \<le> d \<and> d \<le> 3/2 * er_max_delay r" using b by auto
qed (auto simp: exp_ok_iff)

interpretation line: retry_policy lin_ok lr_max_attempts lin_get_next_delay lr_delay
  by unfold_locales (auto simp: lin_ok_iff lin_get_next_delay_def)

interpretation tena: retry_policy ten_ok tr_max_attempts ten_get_next_delay tr_max_delay
proof
  fix r :: ten_retry and u :: rat and n :: nat and d :: rat
  assume ok: "ten_ok r" and d: "ten_get_next_delay r u n = Inr d"
  then have "0 \<le> tr_initial_delay r * tr_exponential_multiplier r * tr_exponential_base r ^ n"
    by (auto simp: ten_ok_iff)
  with ok d show "0 \<le> d \<and> d \<le> tr_max_delay r"
    by (auto simp: ten_get_next_delay_def py_float_pow_def ten_ok_iff split: if_splits)
qed (auto simp: ten_ok_iff)

section \<open>Delays\<close>

text \<open>The delay the documentation gives: exponential, capped, then up to half as much again.\<close>

definition exp_delay :: "exp_retry \<Rightarrow> rat \<Rightarrow> nat \<Rightarrow> rat" where
  "exp_delay r u n = min (er_initial_delay r * er_exponential_base r ^ n) (er_max_delay r) *
     (if er_jitter r then 1 + u else 1)"

lemma exp_get_next_delay_Inr:
  "er_exponential_base r ^ n < float_pow_limit \<Longrightarrow> exp_get_next_delay r u n = Inr (exp_delay r u n)"
  by (simp add: exp_get_next_delay_def py_float_pow_def exp_delay_def Let_def distrib_left)

lemma exp_delays_defined:
  assumes ok: "exp_ok r" and small: "er_exponential_base r ^ nat (er_max_attempts r - 1) < float_pow_limit"
  shows "\<forall>i. int i + 1 < er_max_attempts r \<longrightarrow>
     exp_get_next_delay r (jit i) i = Inr (exp_delay r (jit i) i)"
proof (intro allI impI)
  fix i
  assume "int i + 1 < er_max_attempts r"
  then have "er_exponential_base r ^ i \<le> er_exponential_base r ^ nat (er_max_attempts r - 1)"
    using ok by (intro power_increasing) (auto simp: exp_ok_iff)
  then show "exp_get_next_delay r (jit i) i = Inr (exp_delay r (jit i) i)"
    using small by (intro exp_get_next_delay_Inr) simp
qed

lemma float_pow_limit_le: "float_pow_limit \<le> 2 ^ 1024"
  by (simp add: float_pow_limit_def)

lemma pow_1023_below_limit: "2 ^ 1023 < float_pow_limit"
  by (simp add: float_pow_limit_def)

section \<open>Properties\<close>

text \<open>\<open>ExponentialBackoffRetry.execute\<close> returns the first successful result: after
  \<open>length es\<close> retryable failures, fewer than \<open>max_attempts\<close>, and a success, it has called the
  function once more than it failed and slept the documented delay after each failure, in order.\<close>

theorem exp_execute_first_success:
  assumes "exp_ok r" and "er_exponential_base r ^ nat (er_max_attempts r - 1) < float_pow_limit"
    and "\<forall>e \<in> set es. retryable sr e" and "int (length es) < er_max_attempts r"
  shows "exp_execute r jit (\<lambda>_. None) sr scripted
      \<lparr>world = map Inl es @ Inr x # w, calls = 0, slept = []\<rparr> =
    (Inr x, \<lparr>world = w, calls = Suc (length es), slept = map (\<lambda>i. exp_delay r (jit i) i) [0..<length es]\<rparr>)"
  unfolding exp_execute_def
  by (rule scripted_succeeds [OF assms(3,4) exp_delays_defined [OF assms(1,2)]])

definition demo_retry :: exp_retry where
  "demo_retry = \<lparr>er_max_attempts = 3, er_initial_delay = 1, er_max_delay = 3/2,
     er_exponential_base = 2, er_jitter = True\<rparr>"

lemma demo_retry_facts:
  "exp_ok demo_retry" "er_max_attempts demo_retry = 3" "er_exponential_base demo_retry = 2"
  "er_max_delay demo_retry = 3/2" "er_jitter demo_retry"
  "exp_delay demo_retry (1/4) 0 = 5/4" "exp_delay demo_retry (1/4) (Suc 0) = 15/8"
  by (simp_all add: demo_retry_def exp_ok_iff exp_delay_def)

theorem exp_execute_first_success_witness:
  "exp_execute demo_retry (\<lambda>_. 1/4) (\<lambda>_. None) None scripted
     \<lparr>world = [Inl TimeoutError, Inl (UserError ''broker''), Inr (7::int)], calls = 0, slept = []\<rparr> =
   (Inr 7, \<lparr>world = [], calls = 3, slept = [5/4, 15/8]\<rparr>)"
  using exp_execute_first_success [of demo_retry "[TimeoutError, UserError ''broker'']" None "\<lambda>_. 1/4" "7::int" "[]"]
  by (simp add: demo_retry_facts retryable_def float_pow_limit_def upt_rec)

text \<open>\<open>ExponentialBackoffRetry.execute_async\<close> gives up with the exception itself: an
  exception that \<open>should_retry\<close> rejects or that is no \<open>Exception\<close> (a cancellation) is raised at
  once, and a retryable one is raised when it comes from the last attempt.\<close>

theorem exp_execute_async_gives_up:
  assumes "exp_ok r" and "er_exponential_base r ^ nat (er_max_attempts r - 1) < float_pow_limit"
    and "\<forall>e \<in> set es. retryable sr e" and "int (length es) < er_max_attempts r"
    and "\<not> retryable sr e \<or> int (length es) + 1 = er_max_attempts r"
  shows "exp_execute_async r jit (\<lambda>_. False) (\<lambda>_. None) sr scripted
      \<lparr>world = map Inl es @ Inl e # w, calls = 0, slept = []\<rparr> =
    (Inl e, \<lparr>world = w, calls = Suc (length es), slept = map (\<lambda>i. exp_delay r (jit i) i) [0..<length es]\<rparr>)"
  unfolding exp_execute_async_def
  by (rule scripted_raises [OF assms(3,4) exp_delays_defined [OF assms(1,2)] assms(5)])

theorem exp_execute_async_gives_up_witness:
  "exp_execute_async demo_retry (\<lambda>_. 1/4) (\<lambda>_. False) (\<lambda>_. None) None scripted
     \<lparr>world = [Inl TimeoutError, Inl CancelledError, Inr (7::int)], calls = 0, slept = []\<rparr> =
   (Inl CancelledError, \<lparr>world = [Inr 7], calls = 2, slept = [5/4]\<rparr>)"
  using exp_execute_async_gives_up [of demo_retry "[TimeoutError]" None CancelledError "\<lambda>_. 1/4" "[Inr (7::int)]"]
  by (simp add: demo_retry_facts retryable_def float_pow_limit_def upt_rec)

text \<open>whatever the function, the predicate, cancellations and the random draws, a run of
  \<open>ExponentialBackoffRetry.execute_async\<close> calls the function at most \<open>max_attempts\<close> times,
  every delay lies between 0 and one and a half times \<open>max_delay\<close> (the jitter is added after
  the cap), and the time slept in total is bounded accordingly.\<close>

theorem exp_execute_async_bounded:
  assumes "exp_ok r" and "\<forall>n. 0 \<le> jit n \<and> jit n \<le> 1/2"
  shows "let s = snd (exp_execute_async r jit canc intr sr f \<lparr>world = w, calls = 0, slept = []\<rparr>) in
     calls s \<le> nat (er_max_attempts r) \<and>
     (\<forall>d \<in> set (slept s). 0 \<le> d \<and> d \<le> 3/2 * er_max_delay r) \<and>
     sum_list (slept s) \<le> of_int (er_max_attempts r) * (3/2 * er_max_delay r)"
  unfolding exp_execute_async_def Let_def
  by (intro conjI expo.run_calls [OF assms(1)] expo.run_slept [OF assms] expo.run_total_sleep [OF assms])

theorem exp_execute_async_bounded_witness:
  "let s = snd (exp_execute_async demo_retry (\<lambda>_. 1/2) (\<lambda>_. False) (\<lambda>_. None) None
       (eff_raise TimeoutError :: (unit, int) eff) \<lparr>world = (), calls = 0, slept = []\<rparr>) in
     calls s \<le> 3 \<and> (\<forall>d \<in> set (slept s). d \<le> 9/4)"
  using exp_execute_async_bounded [of demo_retry "\<lambda>_. 1/2" "\<lambda>_. False" "\<lambda>_. None" None
      "eff_raise TimeoutError :: (unit, int) eff" "()"]
  by (simp add: demo_retry_facts Let_def)

text \<open>\<open>TenacityRetry.execute_async\<close> has no jitter: every delay it sleeps is at most
  \<open>max_delay\<close>, for both wait strategies, and it makes at most \<open>max_attempts\<close> calls.\<close>

theorem ten_execute_async_bounded:
  assumes "ten_ok r"
  shows "let s = snd (ten_execute_async r canc intr sr f \<lparr>world = w, calls = 0, slept = []\<rparr>) in
     calls s \<le> nat (tr_max_attempts r) \<and> (\<forall>d \<in> set (slept s). 0 \<le> d \<and> d \<le> tr_max_delay r)"
  unfolding ten_execute_async_def Let_def
  by (intro conjI tena.run_calls [OF assms, where jit = "\<lambda>_. 0"]
        tena.run_slept [OF assms, where jit = "\<lambda>_. 0"]) simp

theorem ten_execute_async_bounded_witness:
  "let s = snd (ten_execute_async \<lparr>tr_max_attempts = 4, tr_initial_delay = 1, tr_max_delay = 2,
       tr_exponential_base = 3, tr_wait_strategy = ''exponential'', tr_exponential_multiplier = 1\<rparr>
       (\<lambda>_. False) (\<lambda>_. None) None (eff_raise TimeoutError :: (unit, int) eff)
       \<lparr>world = (), calls = 0, slept = []\<rparr>) in
     calls s \<le> 4 \<and> (\<forall>d \<in> set (slept s). d \<le> 2)"
  using ten_execute_async_bounded [of "\<lparr>tr_max_attempts = 4, tr_initial_delay = 1, tr_max_delay = 2,
       tr_exponential_base = 3, tr_wait_strategy = ''exponential'', tr_exponential_multiplier = 1\<rparr>"
       "\<lambda>_. False" "\<lambda>_. None" None "eff_raise TimeoutError :: (unit, int) eff" "()"]
  by (simp add: ten_ok_iff Let_def)

text \<open>with the default base 2, \<open>get_next_delay\<close> gives the capped delay up to attempt 1023
  and raises \<open>OverflowError\<close> from attempt 1024 on, where the documentation promises
  \<open>max_delay\<close>: the power is taken before the cap.\<close>

theorem exp_get_next_delay_base_2:
  assumes "er_exponential_base r = 2"
  shows "exp_get_next_delay r u n =
     (if n < 1024 then Inr (exp_delay r u n) else Inl OverflowError)"
proof (cases "n < 1024")
  case True
  then have "(2::rat) ^ n \<le> 2 ^ 1023" by (intro power_increasing) simp_all
  then show ?thesis
    using True assms pow_1023_below_limit by (simp add: exp_get_next_delay_Inr)
next
  case False
  then have "(2::rat) ^ 1024 \<le> 2 ^ n" by (intro power_increasing) simp_all
  then have "float_pow_limit \<le> 2 ^ n" using float_pow_limit_le by (rule order_trans [rotated])
  with False assms show ?thesis by (simp add: exp_get_next_delay_def py_float_pow_def)
qed

theorem exp_get_next_delay_base_2_witness:
  "exp_get_next_delay demo_retry (1/4) 1 = Inr (15/8) \<and>
   exp_get_next_delay demo_retry 0 1024 = Inl OverflowError"
  using exp_get_next_delay_base_2 [of demo_retry "1/4" 1] exp_get_next_delay_base_2 [of demo_retry 0 1024]
  by (simp add: demo_retry_facts)

end
