(* ===== verification/Circuit_Breaker.thy ===== *)
theory Circuit_Breaker
  imports Taas_Prelude
begin

text \<open>
  \<open>CircuitBreakerService\<close> (\<open>foundation/resiliant/circuit_breaker.py\<close>) and its Redis repository
  (\<open>store_redis/circuit_breaker_repository.py\<close>). The service's attributes are \<open>cb_state\<close>; the
  optional repository is a pair of computations on its own state, which may raise. Each of
  \<open>_before_call\<close>, \<open>_on_success\<close> and \<open>_on_failure\<close> runs under the service's lock, so it is one
  atomic step; the calls of several tasks are sequences of such steps (\<open>cb_event\<close>). The value
  of \<open>self._clock()\<close> is a parameter of the steps that read it.
\<close>

named_theorems cb_simps \<open>unfolding the steps of the circuit breaker\<close>

section \<open>Data\<close>

datatype circuit_state = CLOSED | OPEN | HALF_OPEN

record cb_snapshot =
  sn_name :: string
  sn_state :: circuit_state
  sn_failure_count :: int
  sn_success_count :: int
  sn_opened_at :: "rat option"

definition cb_snapshot_new :: "string \<Rightarrow> circuit_state \<Rightarrow> rat option \<Rightarrow> cb_snapshot" where
  "cb_snapshot_new n st t = \<lparr>sn_name = n, sn_state = st, sn_failure_count = 0, sn_success_count = 0,
     sn_opened_at = t\<rparr>"

record cb_config =
  failure_threshold :: int
  recovery_timeout_seconds :: rat
  half_open_max_calls :: int
  success_threshold :: int

definition cb_config_default :: cb_config where
  "cb_config_default = \<lparr>failure_threshold = 5, recovery_timeout_seconds = 30,
     half_open_max_calls = 1, success_threshold = 1\<rparr>"

record 'r cb_repository =
  cbr_get :: "string \<Rightarrow> ('r, cb_snapshot option) eff"
  cbr_save :: "cb_snapshot \<Rightarrow> ('r, unit) eff"

record 'r cb_service =
  cb_name :: string
  cb_conf :: cb_config
  cb_repo :: "'r cb_repository option"

record 'r cb_state =
  cb_snap :: cb_snapshot
  cb_in_flight :: int
  cb_store :: 'r

definition cb_service_init :: "string \<Rightarrow> cb_config option \<Rightarrow> 'r cb_repository option \<Rightarrow> 'r cb_service" where
  "cb_service_init n c r = \<lparr>cb_name = n, cb_conf = if_none c cb_config_default, cb_repo = r\<rparr>"

definition cb_state_init :: "string \<Rightarrow> 'r \<Rightarrow> 'r cb_state" where
  "cb_state_init n r = \<lparr>cb_snap = cb_snapshot_new n CLOSED None, cb_in_flight = 0, cb_store = r\<rparr>"

section \<open>Operations\<close>

definition cb_refresh :: "'r cb_service \<Rightarrow> ('r cb_state, unit) eff" where
  "cb_refresh sv s = (case cb_repo sv of
       None \<Rightarrow> (Inr (), s)
     | Some R \<Rightarrow> (case cbr_get R (cb_name sv) (cb_store s) of
           (Inl e, r) \<Rightarrow> (Inl e, s\<lparr>cb_store := r\<rparr>)
         | (Inr None, r) \<Rightarrow> (Inr (), s\<lparr>cb_store := r\<rparr>)
         | (Inr (Some sn), r) \<Rightarrow> (Inr (), s\<lparr>cb_snap := sn, cb_store := r\<rparr>)))"

definition cb_persist :: "'r cb_service \<Rightarrow> ('r cb_state, unit) eff" where
  "cb_persist sv s = (case cb_repo sv of
       None \<Rightarrow> (Inr (), s)
     | Some R \<Rightarrow> (case cbr_save R (cb_snap s) (cb_store s) of (x, r) \<Rightarrow> (x, s\<lparr>cb_store := r\<rparr>)))"

definition cb_take_probe :: "'r cb_service \<Rightarrow> ('r cb_state, unit) eff" where
  "cb_take_probe sv s =
     (if sn_state (cb_snap s) = HALF_OPEN then
        (if cb_in_flight s \<ge> half_open_max_calls (cb_conf sv) then (Inl (CircuitOpenError (cb_name sv)), s)
         else (Inr (), s\<lparr>cb_in_flight := cb_in_flight s + 1\<rparr>))
      else (Inr (), s))"

definition cb_check_open :: "'r cb_service \<Rightarrow> rat \<Rightarrow> ('r cb_state, unit) eff" where
  "cb_check_open sv now s =
     (if sn_state (cb_snap s) = OPEN then
        (case sn_opened_at (cb_snap s) of
           None \<Rightarrow> (Inl AssertionError, s)
         | Some t \<Rightarrow>
             if now - t < recovery_timeout_seconds (cb_conf sv) then (Inl (CircuitOpenError (cb_name sv)), s)
             else cb_persist sv (s\<lparr>cb_snap := cb_snapshot_new (cb_name sv) HALF_OPEN (Some t),
                                  cb_in_flight := 0\<rparr>))
      else (Inr (), s))"

definition cb_before_call :: "'r cb_service \<Rightarrow> rat \<Rightarrow> ('r cb_state, unit) eff" where
  "cb_before_call sv now =
     eff_bind (cb_refresh sv) (\<lambda>_. eff_bind (cb_check_open sv now) (\<lambda>_. cb_take_probe sv))"

definition cb_success_update :: "'r cb_service \<Rightarrow> 'r cb_state \<Rightarrow> 'r cb_state" where
  "cb_success_update sv s = (let snap = cb_snap s in
     if sn_state snap = HALF_OPEN then
       (let s1 = s\<lparr>cb_in_flight := max (cb_in_flight s - 1) 0\<rparr>; successes = sn_success_count snap + 1 in
        if successes \<ge> success_threshold (cb_conf sv)
        then s1\<lparr>cb_snap := cb_snapshot_new (cb_name sv) CLOSED None\<rparr>
        else s1\<lparr>cb_snap := snap\<lparr>sn_success_count := successes\<rparr>\<rparr>)
     else if sn_state snap = CLOSED \<and> sn_failure_count snap \<noteq> 0
     then s\<lparr>cb_snap := snap\<lparr>sn_failure_count := 0\<rparr>\<rparr>
     else s)"

definition cb_on_success :: "'r cb_service \<Rightarrow> ('r cb_state, unit) eff" where
  "cb_on_success sv s = cb_persist sv (cb_success_update sv s)"

definition cb_open :: "'r cb_service \<Rightarrow> rat \<Rightarrow> 'r cb_state \<Rightarrow> 'r cb_state" where
  "cb_open sv now s = s\<lparr>cb_snap := cb_snapshot_new (cb_name sv) OPEN (Some now), cb_in_flight := 0\<rparr>"

definition cb_failure_update :: "'r cb_service \<Rightarrow> rat \<Rightarrow> 'r cb_state \<Rightarrow> 'r cb_state" where
  "cb_failure_update sv now s = (let snap = cb_snap s in
     if sn_state snap = HALF_OPEN
     then cb_open sv now (s\<lparr>cb_in_flight := max (cb_in_flight s - 1) 0\<rparr>)
     else (let failures = sn_failure_count snap + 1 in
       if failures \<ge> failure_threshold (cb_conf sv) then cb_open sv now s
       else s\<lparr>cb_snap := snap\<lparr>sn_failure_count := failures\<rparr>\<rparr>))"

definition cb_on_failure :: "'r cb_service \<Rightarrow> rat \<Rightarrow> ('r cb_state, unit) eff" where
  "cb_on_failure sv now s = cb_persist sv (cb_failure_update sv now s)"

text \<open>
  \<open>call\<close>: the breaker's state is the first component. The handler is any computation on the
  whole state, so that it may also stand for what other tasks do to the breaker meanwhile.
  \<open>now\<close> is the clock before the call, \<open>now'\<close> when it fails.
\<close>

definition cb_call ::
  "'r cb_service \<Rightarrow> rat \<Rightarrow> rat \<Rightarrow> ('r cb_state \<times> 'w, 'a) eff \<Rightarrow> ('r cb_state \<times> 'w, 'a) eff" where
  "cb_call sv now now' handler = eff_bind (eff_fst (cb_before_call sv now)) (\<lambda>_ s.
     case handler s of
       (Inl e, s') \<Rightarrow> eff_bind (eff_fst (cb_on_failure sv now')) (\<lambda>_. eff_raise e) s'
     | (Inr x, s') \<Rightarrow> eff_bind (eff_fst (cb_on_success sv)) (\<lambda>_. eff_return x) s')"

definition cb_snapshot_of :: "'r cb_service \<Rightarrow> ('r cb_state, cb_snapshot) eff" where
  "cb_snapshot_of sv = eff_bind (cb_refresh sv) (\<lambda>_. eff_get cb_snap)"

lemmas cb_defs [cb_simps] =
  cb_refresh_def cb_persist_def cb_take_probe_def cb_check_open_def cb_before_call_def
  cb_success_update_def cb_on_success_def cb_open_def cb_failure_update_def cb_on_failure_def
  cb_snapshot_new_def

section \<open>The Redis repository\<close>

text \<open>
  \<open>RedisCircuitBreakerRepository\<close> on the keys of its namespace: \<open>enc\<close> and \<open>dec\<close> are
  \<open>msgspec.json\<close>'s, \<open>dec\<close> giving \<open>None\<close> on a \<open>DecodeError\<close>. A key's lifetime is kept beside its
  value; expiry of keys is not modelled.
\<close>

type_synonym 'b cb_redis = "string \<Rightarrow> ('b \<times> int) option"

definition cb_redis_key :: "string \<Rightarrow> string" where
  "cb_redis_key n = ''snapshot:'' @ n"

definition cb_redis_get :: "('b \<Rightarrow> cb_snapshot option) \<Rightarrow> string \<Rightarrow> ('b cb_redis, cb_snapshot option) eff" where
  "cb_redis_get dec n st = (case st (cb_redis_key n) of
       None \<Rightarrow> (Inr None, st)
     | Some (raw, _) \<Rightarrow> (Inr (dec raw), st))"

definition cb_redis_save :: "(cb_snapshot \<Rightarrow> 'b) \<Rightarrow> int \<Rightarrow> cb_snapshot \<Rightarrow> ('b cb_redis, unit) eff" where
  "cb_redis_save enc ttl sn st = (Inr (), st(cb_redis_key (sn_name sn) \<mapsto> (enc sn, ttl)))"

definition cb_redis :: "(cb_snapshot \<Rightarrow> 'b) \<Rightarrow> ('b \<Rightarrow> cb_snapshot option) \<Rightarrow> int \<Rightarrow> 'b cb_redis cb_repository" where
  "cb_redis enc dec ttl = \<lparr>cbr_get = cb_redis_get dec, cbr_save = cb_redis_save enc ttl\<rparr>"

section \<open>Interleaved calls\<close>

text \<open>
  A call is an \<open>Enter\<close>, which may be refused, and, when it was admitted, a \<open>Succeed\<close> or a
  \<open>Fail\<close>. Any interleaving of calls is a list of such events.
\<close>

datatype cb_event = Enter rat | Succeed | Fail rat

fun cb_handle :: "'r cb_service \<Rightarrow> cb_event \<Rightarrow> ('r cb_state, unit) eff" where
  "cb_handle sv (Enter now) = cb_before_call sv now"
| "cb_handle sv Succeed = cb_on_success sv"
| "cb_handle sv (Fail now) = cb_on_failure sv now"

fun cb_trace :: "'r cb_service \<Rightarrow> cb_event list \<Rightarrow> 'r cb_state \<Rightarrow> (py_exn + unit) list \<times> 'r cb_state" where
  "cb_trace sv [] s = ([], s)"
| "cb_trace sv (e # es) s = (case cb_handle sv e s of (r, s') \<Rightarrow>
     (case cb_trace sv es s' of (rs, s'') \<Rightarrow> (r # rs, s'')))"

lemma cb_trace_append:
  "cb_trace sv (es @ fs) s = (case cb_trace sv es s of (rs, s') \<Rightarrow>
     (case cb_trace sv fs s' of (rs', s'') \<Rightarrow> (rs @ rs', s'')))"
  by (induction es arbitrary: s) (auto split: prod.splits)

section \<open>The invariant\<close>

definition cb_inv :: "'r cb_service \<Rightarrow> 'r cb_state \<Rightarrow> bool" where
  "cb_inv sv s \<longleftrightarrow> 0 \<le> cb_in_flight s \<and> cb_in_flight s \<le> max 0 (half_open_max_calls (cb_conf sv)) \<and>
     (sn_state (cb_snap s) = OPEN \<longrightarrow> sn_opened_at (cb_snap s) \<noteq> None \<and> cb_in_flight s = 0) \<and>
     (sn_state (cb_snap s) \<noteq> HALF_OPEN \<longrightarrow> 0 \<le> sn_failure_count (cb_snap s) \<and>
        sn_failure_count (cb_snap s) < max 1 (failure_threshold (cb_conf sv))) \<and>
     (sn_state (cb_snap s) = HALF_OPEN \<longrightarrow> 0 \<le> sn_success_count (cb_snap s) \<and>
        sn_success_count (cb_snap s) < max 1 (success_threshold (cb_conf sv)))"

lemma cb_inv_init: "cb_inv sv (cb_state_init n r)"
  by (simp add: cb_inv_def cb_state_init_def cb_simps)

lemma cb_inv_success: "cb_inv sv s \<Longrightarrow> cb_inv sv (cb_success_update sv s)"
  by (auto simp: cb_inv_def cb_success_update_def cb_snapshot_new_def Let_def)

lemma cb_inv_open: "cb_inv sv (cb_open sv now s)"
  by (simp add: cb_inv_def cb_open_def cb_snapshot_new_def)

lemma cb_inv_failure: "cb_inv sv s \<Longrightarrow> cb_inv sv (cb_failure_update sv now s)"
  by (cases "sn_state (cb_snap s)")
    (auto simp: cb_inv_open cb_failure_update_def Let_def, auto simp: cb_inv_def)

lemma cb_inv_before:
  assumes "cb_repo sv = None" and "cb_inv sv s"
  shows "cb_inv sv (snd (cb_before_call sv now s))"
  using assms
  by (cases "sn_state (cb_snap s)")
    (auto simp: cb_inv_def cb_simps eff_simps split: option.splits)

lemma cb_inv_handle:
  assumes "cb_repo sv = None" and "cb_inv sv s"
  shows "cb_inv sv (snd (cb_handle sv e s))"
  using assms cb_inv_before [OF assms] cb_inv_success [OF assms(2)] cb_inv_failure [OF assms(2)]
  by (cases e) (simp_all add: cb_on_success_def cb_on_failure_def cb_persist_def)

lemma cb_inv_trace:
  "cb_repo sv = None \<Longrightarrow> cb_inv sv s \<Longrightarrow> cb_inv sv (snd (cb_trace sv es s))"
proof (induction es arbitrary: s)
  case (Cons e es)
  then show ?case using cb_inv_handle [of sv s e] by (auto split: prod.splits) (metis snd_conv)
qed simp

lemma cb_before_no_assertion:
  "cb_repo sv = None \<Longrightarrow> cb_inv sv s \<Longrightarrow> fst (cb_before_call sv now s) \<noteq> Inl AssertionError"
  by (auto simp: cb_inv_def cb_simps eff_simps split: option.splits)

section \<open>The abstract breaker\<close>

text \<open>
  What the breaker promises: a machine of three states that carry only what matters in them.
  An answer \<open>False\<close> refuses the call.
\<close>

datatype cb_abs = A_closed int | A_open rat int | A_half int int

definition cb_abs_of :: "'r cb_state \<Rightarrow> cb_abs" where
  "cb_abs_of s = (case sn_state (cb_snap s) of
       CLOSED \<Rightarrow> A_closed (sn_failure_count (cb_snap s))
     | OPEN \<Rightarrow> A_open (the (sn_opened_at (cb_snap s))) (sn_failure_count (cb_snap s))
     | HALF_OPEN \<Rightarrow> A_half (sn_success_count (cb_snap s)) (cb_in_flight s))"

fun cb_abs_step :: "cb_config \<Rightarrow> cb_event \<Rightarrow> cb_abs \<Rightarrow> bool \<times> cb_abs" where
  "cb_abs_step c (Enter now) (A_closed f) = (True, A_closed f)"
| "cb_abs_step c (Enter now) (A_open t f) =
     (if now - t < recovery_timeout_seconds c then (False, A_open t f)
      else if half_open_max_calls c \<le> 0 then (False, A_half 0 0) else (True, A_half 0 1))"
| "cb_abs_step c (Enter now) (A_half k p) =
     (if p \<ge> half_open_max_calls c then (False, A_half k p) else (True, A_half k (p + 1)))"
| "cb_abs_step c Succeed (A_closed f) = (True, A_closed 0)"
| "cb_abs_step c Succeed (A_open t f) = (True, A_open t f)"
| "cb_abs_step c Succeed (A_half k p) =
     (True, if k + 1 \<ge> success_threshold c then A_closed 0 else A_half (k + 1) (max (p - 1) 0))"
| "cb_abs_step c (Fail now) (A_closed f) =
     (True, if f + 1 \<ge> failure_threshold c then A_open now 0 else A_closed (f + 1))"
| "cb_abs_step c (Fail now) (A_open t f) =
     (True, if f + 1 \<ge> failure_threshold c then A_open now 0 else A_open t (f + 1))"
| "cb_abs_step c (Fail now) (A_half k p) = (True, A_open now 0)"

definition is_Inr :: "'e + 'a \<Rightarrow> bool" where
  "is_Inr r = (case r of Inl _ \<Rightarrow> False | Inr _ \<Rightarrow> True)"

fun cb_abs_trace :: "cb_config \<Rightarrow> cb_event list \<Rightarrow> cb_abs \<Rightarrow> bool list \<times> cb_abs" where
  "cb_abs_trace c [] a = ([], a)"
| "cb_abs_trace c (e # es) a = (case cb_abs_step c e a of (b, a') \<Rightarrow>
     (case cb_abs_trace c es a' of (bs, a'') \<Rightarrow> (b # bs, a'')))"

lemma cb_handle_refines:
  assumes "cb_repo sv = None" and "cb_inv sv s"
  shows "cb_abs_step (cb_conf sv) e (cb_abs_of s) =
     (is_Inr (fst (cb_handle sv e s)), cb_abs_of (snd (cb_handle sv e s)))"
  using assms
  by (cases e; cases "sn_state (cb_snap s)")
    (auto simp: cb_abs_of_def cb_inv_def cb_simps eff_simps is_Inr_def Let_def split: option.splits)

section \<open>Properties\<close>

text \<open>C22: under any interleaving of calls, a breaker without a repository refines the abstract
  three-state machine: it admits and refuses the same calls and ends in the corresponding
  state, whatever the other fields of the snapshot hold.\<close>

theorem cb_trace_refines:
  assumes "cb_repo sv = None" and "cb_inv sv s"
  shows "cb_abs_trace (cb_conf sv) es (cb_abs_of s) =
     (map is_Inr (fst (cb_trace sv es s)), cb_abs_of (snd (cb_trace sv es s)))"
  using assms
proof (induction es arbitrary: s)
  case (Cons e es)
  have "cb_inv sv (snd (cb_handle sv e s))" using cb_inv_handle Cons.prems by blast
  then show ?case
    using Cons.IH [of "snd (cb_handle sv e s)"] cb_handle_refines [OF Cons.prems, of e] Cons.prems(1)
    by (simp split: prod.splits)
qed simp

theorem cb_trace_refines_witness:
  "cb_abs_trace cb_config_default [Fail 0, Succeed, Fail 1, Enter 2] (A_closed 0) =
     (let sv = cb_service_init ''rpc'' None (None :: unit cb_repository option);
          (rs, s) = cb_trace sv [Fail 0, Succeed, Fail 1, Enter 2] (cb_state_init ''rpc'' ())
      in (map is_Inr rs, cb_abs_of s)) \<and>
   snd (cb_abs_trace cb_config_default [Fail 0, Succeed, Fail 1, Enter 2] (A_closed 0)) = A_closed 1"
  using cb_trace_refines [OF _ cb_inv_init, of "cb_service_init ''rpc'' None None"
      "[Fail 0, Succeed, Fail 1, Enter 2]" "''rpc''" "()"]
  by (simp add: cb_service_init_def cb_state_init_def cb_abs_of_def cb_simps is_Inr_def eff_simps
      cb_config_default_def Let_def)

text \<open>In every state that calls reach in any interleaving, the in-flight counter lies
  between 0 and \<open>half_open_max_calls\<close>, an OPEN snapshot has its \<open>opened_at\<close>, and both counters stay
  below their thresholds; so the \<open>assert\<close> in \<open>_before_call\<close> never fails.\<close>

theorem cb_reachable_sound:
  assumes "cb_repo sv = None"
  shows "let s = snd (cb_trace sv es (cb_state_init (cb_name sv) r)) in
     cb_inv sv s \<and> fst (cb_before_call sv now s) \<noteq> Inl AssertionError"
proof -
  have "cb_inv sv (snd (cb_trace sv es (cb_state_init (cb_name sv) r)))"
    by (rule cb_inv_trace [OF assms cb_inv_init])
  then show ?thesis unfolding Let_def using cb_before_no_assertion [OF assms] by blast
qed

theorem cb_reachable_sound_witness:
  "cb_inv (cb_service_init ''rpc'' None (None :: unit cb_repository option))
     (snd (cb_trace (cb_service_init ''rpc'' None None) [Enter 0, Fail 0, Succeed, Succeed]
       (cb_state_init ''rpc'' ())))"
  using cb_reachable_sound [of "cb_service_init ''rpc'' None None" "[Enter 0, Fail 0, Succeed, Succeed]" "()" 9]
  by (simp add: cb_service_init_def Let_def del: cb_trace.simps)

text \<open>while the breaker is OPEN and the recovery timeout has not passed, a call raises
  \<open>CircuitOpenError\<close>, does not run the handler and changes nothing.\<close>

theorem cb_call_fails_fast:
  assumes "cb_repo sv = None" and "sn_state (cb_snap s) = OPEN" and "sn_opened_at (cb_snap s) = Some t"
    and "now - t < recovery_timeout_seconds (cb_conf sv)"
  shows "cb_call sv now now' handler (s, w) = (Inl (CircuitOpenError (cb_name sv)), (s, w))"
  using assms by (simp add: cb_call_def cb_simps eff_simps)

theorem cb_call_fails_fast_witness:
  "let sv = cb_service_init ''rpc'' None (None :: unit cb_repository option);
       s = cb_open sv 100 (cb_state_init ''rpc'' ()) in
   cb_call sv 129 129 (eff_raise TimeoutError :: (unit cb_state \<times> nat, int) eff) (s, 4) =
     (Inl (CircuitOpenError ''rpc''), (s, 4))"
  using cb_call_fails_fast [of "cb_service_init ''rpc'' None None"
      "cb_open (cb_service_init ''rpc'' None None) 100 (cb_state_init ''rpc'' ())" 100 129]
  by (simp add: cb_service_init_def cb_open_def cb_snapshot_new_def cb_config_default_def Let_def)

definition cb_failing :: "rat list \<Rightarrow> cb_event list" where
  "cb_failing ts = concat (map (\<lambda>t. [Enter t, Fail t]) ts)"

lemma replicate_two_more: "replicate n x @ [x, x] = x # x # replicate n x"
  by (induction n) auto

lemma cb_counts_failures:
  assumes "cb_repo sv = None" and "int (length ts) < failure_threshold (cb_conf sv)"
  shows "cb_trace sv (cb_failing ts) (cb_state_init (cb_name sv) r) =
     (replicate (2 * length ts) (Inr ()),
      (cb_state_init (cb_name sv) r)\<lparr>cb_snap := (cb_snapshot_new (cb_name sv) CLOSED None)
         \<lparr>sn_failure_count := int (length ts)\<rparr>\<rparr>)"
  using assms(2)
proof (induction ts rule: rev_induct)
  case Nil
  then show ?case by (simp add: cb_failing_def cb_state_init_def cb_snapshot_new_def)
next
  case (snoc t ts)
  then have IH: "cb_trace sv (cb_failing ts) (cb_state_init (cb_name sv) r) =
     (replicate (2 * length ts) (Inr ()),
      (cb_state_init (cb_name sv) r)\<lparr>cb_snap := (cb_snapshot_new (cb_name sv) CLOSED None)
         \<lparr>sn_failure_count := int (length ts)\<rparr>\<rparr>)" by simp
  have "cb_failing (ts @ [t]) = cb_failing ts @ [Enter t, Fail t]" by (simp add: cb_failing_def)
  with IH assms(1) snoc.prems show ?case
    by (simp add: cb_trace_append cb_simps eff_simps cb_state_init_def Let_def replicate_two_more)
qed

text \<open>starting from a fresh breaker, failing calls are let through and counted until
  \<open>failure_threshold\<close> of them have failed in a row; that one opens the breaker with its time.\<close>

theorem cb_opens_at_threshold:
  assumes "cb_repo sv = None" and "int (length ts) + 1 = failure_threshold (cb_conf sv)"
  shows "cb_trace sv (cb_failing (ts @ [t])) (cb_state_init (cb_name sv) r) =
     (replicate (2 * length ts + 2) (Inr ()), cb_open sv t (cb_state_init (cb_name sv) r))"
proof -
  have "cb_failing (ts @ [t]) = cb_failing ts @ [Enter t, Fail t]" by (simp add: cb_failing_def)
  then show ?thesis
    using cb_counts_failures [OF assms(1), of ts r] assms
    by (simp add: cb_trace_append cb_simps eff_simps cb_state_init_def Let_def replicate_two_more)
qed

theorem cb_opens_at_threshold_witness:
  "let sv = cb_service_init ''rpc'' None (None :: unit cb_repository option) in
   snd (cb_trace sv (cb_failing [1, 2, 3, 4, 5]) (cb_state_init ''rpc'' ())) =
     cb_open sv 5 (cb_state_init ''rpc'' ())"
  using cb_opens_at_threshold [of "cb_service_init ''rpc'' None None" "[1, 2, 3, 4]" 5 "()"]
  by (simp add: cb_service_init_def cb_config_default_def Let_def)

text \<open>once the recovery timeout has passed, an OPEN breaker lets a probe through; if it
  succeeds and one success is enough, the breaker is as new, and if it fails the breaker opens
  again from the time of the failure. The handler's result or exception is passed on.\<close>

theorem cb_call_probe:
  assumes "cb_repo sv = None" and "sn_state (cb_snap s) = OPEN" and "sn_opened_at (cb_snap s) = Some t"
    and "recovery_timeout_seconds (cb_conf sv) \<le> now - t"
    and "1 \<le> half_open_max_calls (cb_conf sv)" and "success_threshold (cb_conf sv) \<le> 1"
  shows "cb_call sv now now' (\<lambda>(c, w). (r, (c, f w))) (s, w) =
    (r, (case r of Inr _ \<Rightarrow> cb_state_init (cb_name sv) (cb_store s)
         | Inl _ \<Rightarrow> cb_open sv now' (cb_state_init (cb_name sv) (cb_store s)), f w))"
  using assms
  by (cases r) (simp_all add: cb_call_def cb_simps eff_simps Let_def cb_state_init_def)

theorem cb_call_probe_witness:
  "let sv = cb_service_init ''rpc'' None (None :: unit cb_repository option) in
   cb_call sv 130 131 (\<lambda>(c, w). (Inr (7::int), (c, w + 1)))
     (cb_open sv 100 (cb_state_init ''rpc'' ()), 0::nat) = (Inr 7, (cb_state_init ''rpc'' (), 1))"
  using cb_call_probe [of "cb_service_init ''rpc'' None None"
      "cb_open (cb_service_init ''rpc'' None None) 100 (cb_state_init ''rpc'' ())" 100 130 131 "Inr (7::int)"
      "\<lambda>w. w + (1::nat)" 0]
  by (simp add: cb_service_init_def cb_open_def cb_snapshot_new_def cb_config_default_def
      cb_state_init_def Let_def)

text \<open>the half-open limit does not bound the probes that run at once. Calls A and B are
  admitted while CLOSED; A fails and opens the breaker; after the recovery timeout probe C is
  admitted; B's late success is counted as a probe's and frees a slot, so D is admitted while C
  still runs, although \<open>half_open_max_calls\<close> is 1; one more late success closes the breaker
  although no probe has returned.\<close>

theorem cb_late_success_counts_as_probe:
  "let sv = cb_service_init ''rpc'' (Some (cb_config_default\<lparr>failure_threshold := 1, success_threshold := 2\<rparr>))
         (None :: unit cb_repository option);
       s0 = cb_state_init ''rpc'' ();
       admit_A_B_B' = [Enter 0, Enter 0, Enter 0];
       s1 = snd (cb_trace sv (admit_A_B_B' @ [Fail 1, Enter 31]) s0) in
   fst (cb_trace sv [Enter 31] s1) = [Inl (CircuitOpenError ''rpc'')] \<and>
   fst (cb_trace sv [Succeed, Enter 31] s1) = [Inr (), Inr ()] \<and>
   sn_state (cb_snap (snd (cb_trace sv [Succeed, Enter 31, Succeed] s1))) = CLOSED"
  by (simp add: cb_service_init_def cb_state_init_def cb_config_default_def cb_simps eff_simps Let_def)

text \<open>The Redis repository gives back the snapshot that was saved last under a name, and
  saving under one name leaves every other name alone, for any codec that decodes what it
  encodes.\<close>

theorem cb_redis_round_trip:
  assumes "\<forall>sn. dec (enc sn) = Some sn"
  shows "fst (cb_redis_get dec n (snd (cb_redis_save enc ttl sn st))) =
     (if n = sn_name sn then Inr (Some sn) else fst (cb_redis_get dec n st))"
  using assms
  by (simp add: cb_redis_get_def cb_redis_save_def cb_redis_key_def split: option.splits prod.splits)

theorem cb_redis_round_trip_witness:
  "fst (cb_redis_get Some ''rpc'' (snd (cb_redis_save id 3600 (cb_snapshot_new ''rpc'' OPEN (Some 5))
     Map.empty))) = Inr (Some (cb_snapshot_new ''rpc'' OPEN (Some 5)))"
  using cb_redis_round_trip [of Some id "''rpc''" 3600 "cb_snapshot_new ''rpc'' OPEN (Some 5)" Map.empty]
  by (simp add: cb_snapshot_new_def)

text \<open>with a shared repository, a success overwrites what another instance stored:
  \<open>_on_success\<close> and \<open>_on_failure\<close> save the local snapshot without refreshing it first. Instance
  1 has opened the breaker; a call that instance 2 had admitted before then succeeds; instance 2
  saves its CLOSED snapshot, and instance 1 admits the next call within the recovery timeout.\<close>

theorem cb_stale_success_closes_fleet:
  "let R = cb_redis id Some 3600;
       sv = cb_service_init ''rpc'' (Some (cb_config_default\<lparr>failure_threshold := 1\<rparr>)) (Some R);
       fresh = cb_state_init ''rpc'' Map.empty;
       two = snd (cb_handle sv (Enter 0) fresh);
       one = snd (cb_trace sv [Enter 0, Fail 1] fresh);
       two' = snd (cb_handle sv Succeed (two\<lparr>cb_store := cb_store one\<rparr>)) in
   fst (cb_handle sv (Enter 2) one) = Inl (CircuitOpenError ''rpc'') \<and>
   fst (cb_handle sv (Enter 2) (one\<lparr>cb_store := cb_store two'\<rparr>)) = Inr ()"
  by (simp add: cb_service_init_def cb_state_init_def cb_config_default_def cb_simps eff_simps Let_def
      cb_redis_def cb_redis_get_def cb_redis_save_def cb_redis_key_def)

end
