(* ===== verification/Bulkhead.thy ===== *)
theory Bulkhead
  imports Taas_Prelude
begin

text \<open>
  \<open>BulkheadService\<close> (\<open>foundation/resiliant/bulkhead.py\<close>) over \<open>asyncio.Semaphore\<close>. The
  critical sections of \<open>_waiters_lock\<close> contain no \<open>await\<close>, so a task runs from one suspension
  to the next without interleaving: arriving, being woken, timing out and finishing are the
  atomic steps. The semaphore is the standard library's (Python 3.12 and later): a queue of
  futures, woken in order, and a value.
\<close>

section \<open>asyncio.Semaphore\<close>

text \<open>
  \<open>GrantedCancelled\<close>: the future has its result, and the waiting task has been cancelled
  before it could run.
\<close>

datatype sem_future = Waiting | Granted | Cancelled | GrantedCancelled

type_synonym sem_queue = "(nat \<times> sem_future) list"

definition is_granted :: "nat \<times> sem_future \<Rightarrow> bool" where
  "is_granted x \<longleftrightarrow> snd x = Granted \<or> snd x = GrantedCancelled"

definition is_waiting :: "nat \<times> sem_future \<Rightarrow> bool" where
  "is_waiting x \<longleftrightarrow> snd x = Waiting"

definition granted :: "sem_queue \<Rightarrow> nat" where
  "granted q = length (filter is_granted q)"

fun sem_wake_next :: "int \<Rightarrow> sem_queue \<Rightarrow> int \<times> sem_queue" where
  "sem_wake_next v [] = (v, [])"
| "sem_wake_next v (x # q) = (if is_waiting x then (v - 1, (fst x, Granted) # q)
     else (case sem_wake_next v q of (v', q') \<Rightarrow> (v', x # q')))"

text \<open>\<open>while self._value > 0 and self._wake_up_next()\<close>; each round wakes one of the queue.\<close>

fun sem_wake_loop :: "nat \<Rightarrow> int \<Rightarrow> sem_queue \<Rightarrow> int \<times> sem_queue" where
  "sem_wake_loop 0 v q = (v, q)"
| "sem_wake_loop (Suc n) v q = (if 0 < v \<and> list_ex is_waiting q
     then (case sem_wake_next v q of (v', q') \<Rightarrow> sem_wake_loop n v' q') else (v, q))"

section \<open>The service\<close>

record bulkhead_config =
  bc_max_concurrent :: int
  bc_max_waiters :: "int option"
  bc_acquire_timeout_seconds :: "rat option"

definition bulkhead_config_default :: bulkhead_config where
  "bulkhead_config_default = \<lparr>bc_max_concurrent = 10, bc_max_waiters = None,
     bc_acquire_timeout_seconds = None\<rparr>"

record bulkhead_state =
  bh_value :: int
  bh_queue :: sem_queue
  bh_waiters :: int
  bh_running :: "nat list"

definition bulkhead_init :: "bulkhead_config \<Rightarrow> py_exn + bulkhead_state" where
  "bulkhead_init c = (if bc_max_concurrent c < 0 then Inl (ValueError ''Semaphore initial value must be >= 0'')
     else Inr \<lparr>bh_value = bc_max_concurrent c, bh_queue = [], bh_waiters = 0, bh_running = []\<rparr>)"

definition bulkhead_in_flight :: "bulkhead_config \<Rightarrow> bulkhead_state \<Rightarrow> int" where
  "bulkhead_in_flight c s = bc_max_concurrent c - bh_value s"

definition sem_locked :: "bulkhead_state \<Rightarrow> bool" where
  "sem_locked s \<longleftrightarrow> bh_value s = 0 \<or> list_ex (\<lambda>x. snd x \<noteq> Cancelled) (bh_queue s)"

text \<open>
  \<open>_acquire\<close> up to its first suspension: refused, running, or queued. With a non-positive
  timeout \<open>asyncio.wait_for\<close> cancels the acquisition before it starts.
\<close>

definition bulkhead_arrive :: "bulkhead_config \<Rightarrow> string \<Rightarrow> nat \<Rightarrow> (bulkhead_state, unit) eff" where
  "bulkhead_arrive c n t s =
     (if (case bc_max_waiters c of None \<Rightarrow> False | Some m \<Rightarrow> bh_waiters s \<ge> m \<and> sem_locked s)
      then (Inl (BulkheadFullError n), s)
      else if (case bc_acquire_timeout_seconds c of None \<Rightarrow> False | Some d \<Rightarrow> d \<le> 0)
      then (Inl (BulkheadFullError n), s)
      else if sem_locked s
      then (Inr (), s\<lparr>bh_queue := bh_queue s @ [(t, Waiting)], bh_waiters := bh_waiters s + 1\<rparr>)
      else (Inr (), s\<lparr>bh_value := bh_value s - 1, bh_running := bh_running s @ [t]\<rparr>))"

text \<open>The acquire timeout fires, or the waiting task is cancelled.\<close>

definition bulkhead_expire :: "nat \<Rightarrow> bulkhead_state \<Rightarrow> bulkhead_state" where
  "bulkhead_expire t s = s\<lparr>bh_queue := map (\<lambda>x. if fst x = t then
       (t, if is_waiting x then Cancelled else if snd x = Granted then GrantedCancelled else snd x)
     else x) (bh_queue s)\<rparr>"

text \<open>
  A woken task runs: out of the queue, \<open>_waiters -= 1\<close>, and on to the handler or out, with
  \<open>BulkheadFullError\<close> when it was the timeout (\<open>tmo\<close>) that cancelled it.
\<close>

definition bulkhead_resume :: "string \<Rightarrow> bool \<Rightarrow> nat \<Rightarrow> sem_future \<Rightarrow> (bulkhead_state, unit) eff" where
  "bulkhead_resume n tmo t f s =
     (let q = filter (\<lambda>x. fst x \<noteq> t) (bh_queue s);
          v = (if f = GrantedCancelled then bh_value s + 1 else bh_value s)
      in case sem_wake_loop (length q) v q of (v', q') \<Rightarrow>
        (if f = Granted then Inr () else Inl (if tmo then BulkheadFullError n else CancelledError),
         s\<lparr>bh_value := v', bh_queue := q', bh_waiters := bh_waiters s - 1,
           bh_running := (if f = Granted then bh_running s @ [t] else bh_running s)\<rparr>))"

text \<open>The handler has returned or raised: \<open>_release\<close>.\<close>

definition bulkhead_release :: "nat \<Rightarrow> bulkhead_state \<Rightarrow> bulkhead_state" where
  "bulkhead_release t s = (case sem_wake_next (bh_value s + 1) (bh_queue s) of (v, q) \<Rightarrow>
     s\<lparr>bh_value := v, bh_queue := q, bh_running := filter (\<lambda>u. u \<noteq> t) (bh_running s)\<rparr>)"

text \<open>With a shared quota repository: \<open>acq\<close> and \<open>rel\<close> are its operations.\<close>

definition bulkhead_acquire_shared ::
  "(string \<Rightarrow> rat option \<Rightarrow> ('r, bool) eff) \<Rightarrow> bulkhead_config \<Rightarrow> string \<Rightarrow> ('r, unit) eff" where
  "bulkhead_acquire_shared acq c n = eff_bind (acq n (bc_acquire_timeout_seconds c)) (\<lambda>ok.
     if ok then eff_return () else eff_raise (BulkheadFullError n))"

text \<open>\<open>execute\<close>, over the acquisition and release of either kind.\<close>

definition bulkhead_execute :: "('s, unit) eff \<Rightarrow> ('s, unit) eff \<Rightarrow> ('s, 'a) eff \<Rightarrow> ('s, 'a) eff" where
  "bulkhead_execute acq rel handler = eff_bind acq (\<lambda>_. eff_finally handler rel)"

section \<open>Interleaved calls\<close>

inductive bh_step :: "bulkhead_config \<Rightarrow> string \<Rightarrow> bulkhead_state \<Rightarrow> bulkhead_state \<Rightarrow> bool" for c n where
  bh_arrive: "t \<notin> set (bh_running s) \<Longrightarrow> t \<notin> fst ` set (bh_queue s) \<Longrightarrow>
     bh_step c n s (snd (bulkhead_arrive c n t s))"
| bh_expire: "bh_step c n s (bulkhead_expire t s)"
| bh_resume: "(t, f) \<in> set (bh_queue s) \<Longrightarrow> f \<noteq> Waiting \<Longrightarrow>
     bh_step c n s (snd (bulkhead_resume n tmo t f s))"
| bh_release: "t \<in> set (bh_running s) \<Longrightarrow> bh_step c n s (bulkhead_release t s)"

inductive bh_reach :: "bulkhead_config \<Rightarrow> string \<Rightarrow> bulkhead_state \<Rightarrow> bool" for c n where
  bh_start: "bulkhead_init c = Inr s \<Longrightarrow> bh_reach c n s"
| bh_next: "bh_reach c n s \<Longrightarrow> bh_step c n s s' \<Longrightarrow> bh_reach c n s'"

inductive_cases bh_stepE: "bh_step c n s s'"

section \<open>The semaphore's wake-ups\<close>

lemma sem_wake_next_facts:
  assumes "sem_wake_next v q = (v', q')"
  shows "map fst q' = map fst q"
    and "v' + int (granted q') = v + int (granted q)"
    and "list_ex is_waiting q \<Longrightarrow> v' = v - 1 \<and> list_ex is_granted q' \<and>
           length (filter is_waiting q) = Suc (length (filter is_waiting q'))"
    and "\<not> list_ex is_waiting q \<Longrightarrow> v' = v \<and> q' = q"
  using assms
  by (induction v q arbitrary: q' rule: sem_wake_next.induct)
    (auto simp: granted_def is_granted_def is_waiting_def split: if_splits prod.splits)

lemma sem_wake_loop_facts:
  assumes "sem_wake_loop n v q = (v', q')"
  shows "map fst q' = map fst q"
    and "v' + int (granted q') = v + int (granted q)"
    and "0 \<le> v \<Longrightarrow> 0 \<le> v'"
    and "length (filter is_waiting q) \<le> n \<Longrightarrow> 0 < v' \<Longrightarrow> \<not> list_ex is_waiting q'"
  using assms
proof (induction n v q arbitrary: v' q' rule: sem_wake_loop.induct)
  case (1 v q)
  { case 1 then show ?case by simp }
  { case 2 then show ?case by simp }
  { case 3 then show ?case by simp }
  { case 4 then show ?case by (auto simp: list_ex_iff filter_empty_conv) }
next
  case (2 n v q)
  obtain v1 q1 where w: "sem_wake_next v q = (v1, q1)" by fastforce
  note f = sem_wake_next_facts [OF w]
  { case 1 then show ?case using "2.IH"(1) [OF _ w [symmetric]] f(1) w by (auto split: if_splits) }
  { case 2 then show ?case using "2.IH"(2) [OF _ w [symmetric]] f(2) w by (auto split: if_splits) }
  { case 3 then show ?case using "2.IH"(3) [OF _ w [symmetric]] f(3) w by (auto split: if_splits) }
  { case 4 then show ?case using "2.IH"(4) [OF _ w [symmetric]] f(3) w
      by (cases "0 < v \<and> list_ex is_waiting q") auto }
qed

lemma granted_simps [simp]:
  "granted [] = 0" "granted (q @ r) = granted q + granted r"
  "granted (x # q) = (if is_granted x then Suc (granted q) else granted q)"
  by (simp_all add: granted_def)

lemma granted_remove:
  assumes "distinct (map fst q)" and "(t, f) \<in> set q"
  shows "granted q = granted (filter (\<lambda>x. fst x \<noteq> t) q) + (if is_granted (t, f) then 1 else 0)"
    and "length q = Suc (length (filter (\<lambda>x. fst x \<noteq> t) q))"
proof -
  obtain a b where q: "q = a @ (t, f) # b" using assms(2) by (meson split_list)
  with assms(1) have "filter (\<lambda>x. fst x \<noteq> t) a = a" "filter (\<lambda>x. fst x \<noteq> t) b = b"
    by (force intro!: filter_True)+
  with q show "granted q = granted (filter (\<lambda>x. fst x \<noteq> t) q) + (if is_granted (t, f) then 1 else 0)"
    and "length q = Suc (length (filter (\<lambda>x. fst x \<noteq> t) q))"
    by simp_all
qed

section \<open>The invariant\<close>

definition bh_inv :: "bulkhead_config \<Rightarrow> bulkhead_state \<Rightarrow> bool" where
  "bh_inv c s \<longleftrightarrow> 0 \<le> bh_value s \<and>
     bh_value s + int (length (bh_running s)) + int (granted (bh_queue s)) = bc_max_concurrent c \<and>
     bh_waiters s = int (length (bh_queue s)) \<and>
     distinct (bh_running s @ map fst (bh_queue s)) \<and>
     (0 < bh_value s \<and> list_ex is_waiting (bh_queue s) \<longrightarrow> list_ex is_granted (bh_queue s)) \<and>
     (\<forall>m. bc_max_waiters c = Some m \<longrightarrow> int (length (bh_queue s)) \<le> max 0 m)"

lemma bh_invI:
  assumes "0 \<le> bh_value s"
    and "bh_value s + int (length (bh_running s)) + int (granted (bh_queue s)) = bc_max_concurrent c"
    and "bh_waiters s = int (length (bh_queue s))"
    and "distinct (bh_running s @ map fst (bh_queue s))"
    and "0 < bh_value s \<Longrightarrow> list_ex is_waiting (bh_queue s) \<Longrightarrow> list_ex is_granted (bh_queue s)"
    and "\<And>m. bc_max_waiters c = Some m \<Longrightarrow> int (length (bh_queue s)) \<le> max 0 m"
  shows "bh_inv c s"
  using assms by (simp add: bh_inv_def)

lemma bh_inv_init: "bulkhead_init c = Inr s \<Longrightarrow> bh_inv c s"
  by (auto simp: bulkhead_init_def bh_inv_def split: if_splits)

lemma not_locked_facts:
  assumes "\<not> sem_locked s"
  shows "bh_value s \<noteq> 0" and "granted (bh_queue s) = 0" and "\<not> list_ex is_waiting (bh_queue s)"
  using assms by (auto simp: sem_locked_def list_ex_iff granted_def is_granted_def is_waiting_def
      filter_empty_conv)

lemma bh_inv_arrive:
  assumes inv: "bh_inv c s" and t: "t \<notin> set (bh_running s)" "t \<notin> fst ` set (bh_queue s)"
  shows "bh_inv c (snd (bulkhead_arrive c n t s))"
proof (cases "fst (bulkhead_arrive c n t s)")
  case (Inl e)
  then have "snd (bulkhead_arrive c n t s) = s"
    by (auto simp: bulkhead_arrive_def split: if_splits)
  with inv show ?thesis by simp
next
  case (Inr u)
  show ?thesis
  proof (cases "sem_locked s")
    case False
    with Inr have s': "snd (bulkhead_arrive c n t s) =
        s\<lparr>bh_value := bh_value s - 1, bh_running := bh_running s @ [t]\<rparr>"
      by (auto simp: bulkhead_arrive_def split: if_splits)
    show ?thesis unfolding s'
      using inv t not_locked_facts [OF False] by (auto simp: bh_inv_def)
  next
    case True
    with Inr have s': "snd (bulkhead_arrive c n t s) =
        s\<lparr>bh_queue := bh_queue s @ [(t, Waiting)], bh_waiters := bh_waiters s + 1\<rparr>"
      and room: "\<And>m. bc_max_waiters c = Some m \<Longrightarrow> bh_waiters s < m"
      by (auto simp: bulkhead_arrive_def split: if_splits option.splits)
    have "list_ex is_granted (bh_queue s)" if "0 < bh_value s"
      using True inv that
      by (auto simp: sem_locked_def bh_inv_def list_ex_iff is_granted_def is_waiting_def)
        (metis (full_types) sem_future.exhaust snd_conv)+
    then show ?thesis unfolding s'
      using inv t room by (force simp: bh_inv_def is_granted_def)
  qed
qed

lemma bh_inv_expire: "bh_inv c s \<Longrightarrow> bh_inv c (bulkhead_expire t s)"
proof -
  assume inv: "bh_inv c s"
  let ?f = "\<lambda>x. if fst x = t then
       (t, if is_waiting x then Cancelled else if snd x = Granted then GrantedCancelled else snd x) else x"
  have "is_granted (?f x) = is_granted x" for x
    by (cases "snd x") (auto simp: is_granted_def is_waiting_def)
  then have g: "granted (map ?f q) = granted q" "list_ex is_granted (map ?f q) = list_ex is_granted q" for q
    by (induction q) simp_all
  have w: "list_ex is_waiting q" if "list_ex is_waiting (map ?f q)" for q
    using that by (induction q) (auto simp: is_waiting_def split: if_splits)
  have k: "map fst (map ?f q) = map fst q" for q by simp
  have s': "bh_queue (bulkhead_expire t s) = map ?f (bh_queue s)"
    "bh_value (bulkhead_expire t s) = bh_value s" "bh_waiters (bulkhead_expire t s) = bh_waiters s"
    "bh_running (bulkhead_expire t s) = bh_running s"
    by (simp_all add: bulkhead_expire_def)
  show ?thesis
    using inv w [of "bh_queue s"] unfolding bh_inv_def s' g k length_map by blast
qed

lemma bh_inv_resume:
  assumes inv: "bh_inv c s" and t: "(t, f) \<in> set (bh_queue s)" and f: "f \<noteq> Waiting"
  shows "bh_inv c (snd (bulkhead_resume n tmo t f s))"
proof -
  let ?q = "filter (\<lambda>x. fst x \<noteq> t) (bh_queue s)"
  let ?v = "if f = GrantedCancelled then bh_value s + 1 else bh_value s"
  obtain v' q' where w: "sem_wake_loop (length ?q) ?v ?q = (v', q')" by fastforce
  note l = sem_wake_loop_facts [OF w]
  have d: "distinct (map fst (bh_queue s))" and tr: "t \<notin> set (bh_running s)"
    using inv t by (auto simp: bh_inv_def rev_image_eqI)
  note g = granted_remove [OF d t]
  have len: "length q' = length ?q" using l(1) by (metis length_map)
  have "distinct (bh_running s @ map fst ?q)" and "t \<notin> set (map fst ?q)"
    using inv by (auto simp: bh_inv_def distinct_map_filter)
  then have dis: "distinct (bh_running s @ map fst q')" "t \<notin> set (map fst q')" using l(1) by simp_all
  have v: "0 \<le> v'" using l(3) inv by (auto simp: bh_inv_def)
  have now: "0 < v' \<Longrightarrow> \<not> list_ex is_waiting q'" by (rule l(4) [OF length_filter_le])
  have bal: "v' + int (length (bh_running s) + (if f = Granted then 1 else 0)) + int (granted q') =
      bc_max_concurrent c"
    using l(2) g(1) inv f by (cases f) (auto simp: bh_inv_def is_granted_def)
  have s': "snd (bulkhead_resume n tmo t f s) = s\<lparr>bh_value := v', bh_queue := q',
      bh_waiters := bh_waiters s - 1,
      bh_running := (if f = Granted then bh_running s @ [t] else bh_running s)\<rparr>"
    by (simp add: bulkhead_resume_def Let_def w)
  show ?thesis unfolding s'
  proof (rule bh_invI)
    show "bh_waiters (s\<lparr>bh_value := v', bh_queue := q', bh_waiters := bh_waiters s - 1,
        bh_running := if f = Granted then bh_running s @ [t] else bh_running s\<rparr>) = int (length (bh_queue
       (s\<lparr>bh_value := v', bh_queue := q', bh_waiters := bh_waiters s - 1,
        bh_running := if f = Granted then bh_running s @ [t] else bh_running s\<rparr>)))"
      using inv g(2) len by (simp add: bh_inv_def)
  next
    fix m assume "bc_max_waiters c = Some m"
    then have "int (length (bh_queue s)) \<le> max 0 m" using inv by (simp add: bh_inv_def)
    then show "int (length (bh_queue (s\<lparr>bh_value := v', bh_queue := q', bh_waiters := bh_waiters s - 1,
        bh_running := if f = Granted then bh_running s @ [t] else bh_running s\<rparr>))) \<le> max 0 m"
      using g(2) len by simp
  qed (use v dis now bal tr in auto)
qed

lemma bh_inv_release:
  assumes inv: "bh_inv c s" and t: "t \<in> set (bh_running s)"
  shows "bh_inv c (bulkhead_release t s)"
proof -
  obtain v' q' where w: "sem_wake_next (bh_value s + 1) (bh_queue s) = (v', q')" by fastforce
  note l = sem_wake_next_facts [OF w]
  have d: "distinct (bh_running s)" using inv by (simp add: bh_inv_def)
  have r: "length (bh_running s) = Suc (length (filter (\<lambda>u. u \<noteq> t) (bh_running s)))"
    using length_filter_neq [OF d t] .
  have len: "length q' = length (bh_queue s)" using l(1) by (metis length_map)
  show ?thesis
  proof (rule bh_invI)
    show "0 \<le> bh_value (bulkhead_release t s)"
      using inv l(3,4) by (cases "list_ex is_waiting (bh_queue s)")
        (auto simp: bulkhead_release_def w bh_inv_def)
    show "distinct (bh_running (bulkhead_release t s) @ map fst (bh_queue (bulkhead_release t s)))"
      using inv l(1) by (auto simp: bulkhead_release_def w bh_inv_def)
    show "list_ex is_granted (bh_queue (bulkhead_release t s))"
      if "0 < bh_value (bulkhead_release t s)" "list_ex is_waiting (bh_queue (bulkhead_release t s))"
      using that l(3,4) by (cases "list_ex is_waiting (bh_queue s)")
        (auto simp: bulkhead_release_def w)
  qed (use inv l(2) r len in \<open>auto simp: bulkhead_release_def w bh_inv_def\<close>)
qed

lemma bh_inv_step: "bh_step c n s s' \<Longrightarrow> bh_inv c s \<Longrightarrow> bh_inv c s'"
  by (erule bh_stepE) (simp_all add: bh_inv_arrive bh_inv_expire bh_inv_resume bh_inv_release)

lemma bh_inv_reach: "bh_reach c n s \<Longrightarrow> bh_inv c s"
  by (induction rule: bh_reach.induct) (auto intro: bh_inv_init bh_inv_step)

section \<open>Properties\<close>

text \<open>C37: in every reachable state at most \<open>max_concurrent\<close> handlers run, \<open>in_flight\<close> counts the
  running ones and those that have been granted a slot and not resumed, and no slot is lost to
  timeouts, cancellations and failures: with an empty queue the free slots are exactly the rest.
  The queue never grows beyond \<open>max_waiters\<close>.\<close>

theorem bh_concurrency_bound:
  assumes "bh_reach c n s"
  shows "int (length (bh_running s)) \<le> bc_max_concurrent c \<and> distinct (bh_running s) \<and>
     bulkhead_in_flight c s = int (length (bh_running s)) + int (granted (bh_queue s)) \<and>
     bh_waiters s = int (length (bh_queue s)) \<and>
     (case bc_max_waiters c of None \<Rightarrow> True | Some m \<Rightarrow> bh_waiters s \<le> max 0 m)"
  using bh_inv_reach [OF assms]
  by (auto simp: bh_inv_def bulkhead_in_flight_def split: option.splits)

lemma bh_reach_arrive:
  assumes "bh_reach c n s" and "t \<notin> set (bh_running s)" and "t \<notin> fst ` set (bh_queue s)"
    and "snd (bulkhead_arrive c n t s) = s'"
  shows "bh_reach c n s'"
  using bh_next [OF assms(1) bh_arrive [OF assms(2,3)]] assms(4) by simp

definition demo_bulkhead :: bulkhead_config where
  "demo_bulkhead = \<lparr>bc_max_concurrent = 1, bc_max_waiters = Some 1, bc_acquire_timeout_seconds = Some 5\<rparr>"

definition demo_bulkhead_busy :: bulkhead_state where
  "demo_bulkhead_busy = \<lparr>bh_value = 0, bh_queue = [(2, Waiting)], bh_waiters = 1, bh_running = [1]\<rparr>"

lemma demo_bulkhead_reach: "bh_reach demo_bulkhead n demo_bulkhead_busy"
proof -
  have "bh_reach demo_bulkhead n \<lparr>bh_value = 1, bh_queue = [], bh_waiters = 0, bh_running = []\<rparr>"
    by (rule bh_start) (simp add: bulkhead_init_def demo_bulkhead_def)
  then have "bh_reach demo_bulkhead n \<lparr>bh_value = 0, bh_queue = [], bh_waiters = 0, bh_running = [1]\<rparr>"
    by (rule bh_reach_arrive [where t = 1]) (simp_all add: bulkhead_arrive_def demo_bulkhead_def sem_locked_def)
  then show ?thesis
    by (rule bh_reach_arrive [where t = 2])
      (simp_all add: bulkhead_arrive_def demo_bulkhead_def demo_bulkhead_busy_def sem_locked_def)
qed

theorem bh_concurrency_bound_witness:
  "bh_reach demo_bulkhead ''rpc'' demo_bulkhead_busy \<and> bh_waiters demo_bulkhead_busy = 1 \<and>
   bulkhead_in_flight demo_bulkhead demo_bulkhead_busy = 1"
  using bh_concurrency_bound [OF demo_bulkhead_reach] demo_bulkhead_reach
  by (simp add: demo_bulkhead_busy_def is_granted_def)

text \<open>C38: no wake-up is lost: when a task waits for a slot, some handler is still running and
  will release one, or some task of the queue has been woken and can go on.\<close>

theorem bh_no_lost_wakeup:
  assumes "bh_reach c n s" and "1 \<le> bc_max_concurrent c" and "(t, Waiting) \<in> set (bh_queue s)"
  shows "bh_running s \<noteq> [] \<or> list_ex is_granted (bh_queue s)"
proof (cases "granted (bh_queue s) = 0")
  case True
  then have "\<not> list_ex is_granted (bh_queue s)"
    by (auto simp: granted_def filter_empty_conv list_ex_iff)
  moreover have "list_ex is_waiting (bh_queue s)"
    using assms(3) by (force simp: list_ex_iff is_waiting_def)
  ultimately have "bh_value s = 0" using bh_inv_reach [OF assms(1)] by (auto simp: bh_inv_def)
  then show ?thesis using True assms(2) bh_inv_reach [OF assms(1)] by (auto simp: bh_inv_def)
next
  case False
  then show ?thesis by (auto simp: granted_def filter_empty_conv list_ex_iff)
qed

theorem bh_no_lost_wakeup_witness:
  "(2, Waiting) \<in> set (bh_queue demo_bulkhead_busy) \<and>
   (0 < length (bh_running demo_bulkhead_busy) \<or>
    list_ex is_granted (bh_queue demo_bulkhead_busy))"
  using bh_no_lost_wakeup [OF demo_bulkhead_reach, of 2]
  by (simp add: demo_bulkhead_busy_def demo_bulkhead_def)

text \<open>A call is refused on arrival exactly when the queue is full and the semaphore taken,
  or when the acquire timeout is not positive: with a timeout of 0 every call is refused, even
  when the bulkhead is idle.\<close>

theorem bulkhead_arrive_refused_iff:
  "fst (bulkhead_arrive c n t s) = Inl (BulkheadFullError n) \<longleftrightarrow>
     (\<exists>m. bc_max_waiters c = Some m \<and> m \<le> bh_waiters s \<and> sem_locked s) \<or>
     (\<exists>d. bc_acquire_timeout_seconds c = Some d \<and> d \<le> 0)"
  by (auto simp: bulkhead_arrive_def split: option.splits)

end
