(* ===== verification/Resilient_Call.thy ===== *)
theory Resilient_Call
  imports Circuit_Breaker Bulkhead
begin

text \<open>
  \<open>TimeoutService\<close>, \<open>FallbackService\<close> and \<open>ResilientExecutor\<close> (\<open>foundation/resiliant/timeout.py\<close>,
  \<open>fallback.py\<close>, \<open>resilient_call.py\<close>), which stacks the guards as
  \<open>fallback(breaker(bulkhead(timeout(fn))))\<close>. A handler is a computation for each value of a
  flag: \<open>h False\<close> is an undisturbed run, \<open>h True\<close> one that is cancelled from outside while it is
  suspended. The interface of a guard is the locale \<open>call_guard\<close>: it never runs its handler
  twice, and a result it returns is one the handler returned.
\<close>

type_synonym ('s, 'a) handler = "bool \<Rightarrow> ('s, 'a) eff"

section \<open>Timeout\<close>

text \<open>
  \<open>asyncio.wait_for\<close> (Python 3.12 and later): a deadline that is not positive cancels the
  handler before it starts; otherwise, when the deadline passes first (\<open>late\<close>), the handler is
  cancelled, and a \<open>CancelledError\<close> that comes out of it becomes a \<open>TimeoutError\<close>.
\<close>

definition wait_for :: "rat \<Rightarrow> ('s \<Rightarrow> bool) \<Rightarrow> ('s, 'a) handler \<Rightarrow> ('s, 'a) handler" where
  "wait_for deadline late h c s =
     (if deadline \<le> 0 then (Inl TimeoutError, s)
      else if \<not> c \<and> late s then (case h True s of
          (Inl e, s') \<Rightarrow> (Inl (if e = CancelledError then TimeoutError else e), s')
        | (Inr x, s') \<Rightarrow> (Inr x, s'))
      else h c s)"

definition timeout_config_default :: rat where
  "timeout_config_default = 5"

definition timeout_execute ::
  "rat \<Rightarrow> rat option \<Rightarrow> ('s \<Rightarrow> bool) \<Rightarrow> ('s, 'a) handler \<Rightarrow> ('s, 'a) handler" where
  "timeout_execute conf seconds late h c =
     (let deadline = if_none seconds conf in
      eff_catch (wait_for deadline late h c) (\<lambda>e. e = TimeoutError)
        (\<lambda>_. eff_raise (OperationTimeoutError deadline)))"

section \<open>Fallback\<close>

definition fallback_execute ::
  "(py_exn \<Rightarrow> bool) \<Rightarrow> ('s, 'a) eff \<Rightarrow> (py_exn \<Rightarrow> ('s, 'a) eff) \<Rightarrow> ('s, 'a) eff" where
  "fallback_execute fallback_on primary fallback =
     eff_catch primary fallback_on (\<lambda>primary_exc.
       eff_catch (fallback primary_exc) (\<lambda>_. True) (\<lambda>fallback_exc.
         eff_raise (FallbackError primary_exc fallback_exc)))"

section \<open>ResilientExecutor\<close>

record 'r executor =
  rx_name :: string
  rx_timeout_seconds :: "rat option"
  rx_breaker :: "'r cb_service option"
  rx_bulkhead :: "bulkhead_config option"
  rx_fallback_on :: "py_exn \<Rightarrow> bool"

definition executor_init ::
  "string \<Rightarrow> rat option \<Rightarrow> cb_config option \<Rightarrow> bulkhead_config option \<Rightarrow> (py_exn \<Rightarrow> bool) \<Rightarrow>
   'r cb_repository option \<Rightarrow> 'r executor" where
  "executor_init name timeout_seconds circuit_breaker bulkhead fallback_on cb_repository =
     \<lparr>rx_name = name, rx_timeout_seconds = timeout_seconds,
      rx_breaker = map_option (\<lambda>c. cb_service_init name (Some c) cb_repository) circuit_breaker,
      rx_bulkhead = bulkhead, rx_fallback_on = fallback_on\<rparr>"

text \<open>
  What a call meets: whether the deadline passes first, the clock before and after, and how
  the bulkhead's acquisition and release end for this task.
\<close>

record ('b, 's) call_env =
  env_late :: "'s \<Rightarrow> bool"
  env_before :: rat
  env_after :: rat
  env_acquire :: "('b, unit) eff"
  env_release :: "('b, unit) eff"

type_synonym ('r, 'b, 'w) rx_state = "'r cb_state \<times> 'b \<times> 'w"

definition rx_with_timeout ::
  "'r executor \<Rightarrow> ('b, ('r, 'b, 'w) rx_state) call_env \<Rightarrow>
   (('r, 'b, 'w) rx_state, 'a) handler \<Rightarrow> (('r, 'b, 'w) rx_state, 'a) handler" where
  "rx_with_timeout x env inner = (case rx_timeout_seconds x of
       None \<Rightarrow> inner
     | Some d \<Rightarrow> timeout_execute timeout_config_default (Some d) (env_late env) inner)"

definition rx_with_bulkhead ::
  "'r executor \<Rightarrow> ('b, ('r, 'b, 'w) rx_state) call_env \<Rightarrow>
   (('r, 'b, 'w) rx_state, 'a) handler \<Rightarrow> (('r, 'b, 'w) rx_state, 'a) handler" where
  "rx_with_bulkhead x env inner = (case rx_bulkhead x of
       None \<Rightarrow> inner
     | Some _ \<Rightarrow> (\<lambda>c. bulkhead_execute (eff_snd (eff_fst (env_acquire env)))
                        (eff_snd (eff_fst (env_release env))) (inner c)))"

definition rx_with_breaker ::
  "'r executor \<Rightarrow> ('b, ('r, 'b, 'w) rx_state) call_env \<Rightarrow>
   (('r, 'b, 'w) rx_state, 'a) handler \<Rightarrow> (('r, 'b, 'w) rx_state, 'a) handler" where
  "rx_with_breaker x env inner = (case rx_breaker x of
       None \<Rightarrow> inner
     | Some sv \<Rightarrow> (\<lambda>c. cb_call sv (env_before env) (env_after env) (inner c)))"

definition rx_compose ::
  "'r executor \<Rightarrow> ('b, ('r, 'b, 'w) rx_state) call_env \<Rightarrow>
   (('r, 'b, 'w) rx_state, 'a) handler \<Rightarrow> (('r, 'b, 'w) rx_state, 'a) handler" where
  "rx_compose x env h = rx_with_breaker x env (rx_with_bulkhead x env (rx_with_timeout x env h))"

definition rx_call ::
  "'r executor \<Rightarrow> ('b, ('r, 'b, 'w) rx_state) call_env \<Rightarrow> (('r, 'b, 'w) rx_state, 'a) handler \<Rightarrow>
   (py_exn \<Rightarrow> (('r, 'b, 'w) rx_state, 'a) eff) option \<Rightarrow> (('r, 'b, 'w) rx_state, 'a) eff" where
  "rx_call x env h fallback = (case fallback of
       None \<Rightarrow> rx_compose x env h False
     | Some f \<Rightarrow> fallback_execute (rx_fallback_on x) (rx_compose x env h False) f)"

section \<open>The interface of a guard\<close>

definition runs_once :: "('s \<Rightarrow> nat) \<Rightarrow> ('s, 'a) eff \<Rightarrow> bool" where
  "runs_once cnt m \<longleftrightarrow> (\<forall>s. case m s of
       (Inl _, s') \<Rightarrow> cnt s' = cnt s \<or> cnt s' = Suc (cnt s)
     | (Inr _, s') \<Rightarrow> cnt s' = Suc (cnt s))"

definition returns_of :: "('s, 'a) eff \<Rightarrow> 'a set" where
  "returns_of m = {x. \<exists>s s'. m s = (Inr x, s')}"

definition silent :: "('s \<Rightarrow> nat) \<Rightarrow> ('s, 'a) eff \<Rightarrow> bool" where
  "silent cnt m \<longleftrightarrow> (\<forall>s. cnt (snd (m s)) = cnt s)"

lemma runs_onceD:
  assumes "runs_once cnt m"
  shows "m s = (Inl e, s') \<Longrightarrow> cnt s' = cnt s \<or> cnt s' = Suc (cnt s)"
    and "m s = (Inr x, s') \<Longrightarrow> cnt s' = Suc (cnt s)"
  using assms by (auto simp: runs_once_def dest!: spec [of _ s])

lemma runs_once_any:
  "runs_once cnt m \<Longrightarrow> m s = (r, s') \<Longrightarrow> cnt s' = cnt s \<or> cnt s' = Suc (cnt s)"
  by (cases r) (auto dest: runs_onceD)

lemma runs_onceI:
  assumes "\<And>s e s'. m s = (Inl e, s') \<Longrightarrow> cnt s' = cnt s \<or> cnt s' = Suc (cnt s)"
    and "\<And>s x s'. m s = (Inr x, s') \<Longrightarrow> cnt s' = Suc (cnt s)"
  shows "runs_once cnt m"
  using assms by (fastforce simp: runs_once_def split: prod.splits sum.splits)

locale call_guard =
  fixes guard :: "('s, 'a) handler \<Rightarrow> ('s, 'a) handler"
    and cnt :: "'s \<Rightarrow> nat"
  assumes at_most_once: "(\<And>c. runs_once cnt (h c)) \<Longrightarrow> runs_once cnt (guard h c)"
    and genuine: "returns_of (guard h c) \<subseteq> (\<Union>c. returns_of (h c))"
begin

lemma call_counts:
  assumes "\<And>c. runs_once cnt (h c)" and "guard h c s = (r, s')"
  shows "cnt s \<le> cnt s'" and "cnt s' \<le> Suc (cnt s)" and "\<And>x. r = Inr x \<Longrightarrow> cnt s' = Suc (cnt s)"
proof -
  have "runs_once cnt (guard h c)" by (rule at_most_once [OF assms(1)])
  note D = runs_onceD [OF this]
  show "cnt s \<le> cnt s'" "cnt s' \<le> Suc (cnt s)"
    using assms(2) by (cases r; auto dest: D)+
  show "r = Inr x \<Longrightarrow> cnt s' = Suc (cnt s)" for x
    using assms(2) D(2) by simp
qed

lemma result_from_handler: "guard h c s = (Inr x, s') \<Longrightarrow> \<exists>c s1 s2. h c s1 = (Inr x, s2)"
  using genuine [of h c] by (auto simp: returns_of_def) blast

end

lemma call_guard_id: "call_guard (\<lambda>h. h) cnt"
  by unfold_locales auto

lemma call_guard_compose:
  fixes f g :: "('s, 'a) handler \<Rightarrow> ('s, 'a) handler"
  assumes f: "call_guard f cnt" and g: "call_guard g cnt"
  shows "call_guard (\<lambda>h. f (g h)) cnt"
proof
  fix h :: "('s, 'a) handler" and c
  assume "\<And>c. runs_once cnt (h c)"
  then show "runs_once cnt (f (g h) c)"
    by (intro call_guard.at_most_once [OF f] call_guard.at_most_once [OF g])
next
  fix h :: "('s, 'a) handler" and c
  show "returns_of (f (g h) c) \<subseteq> (\<Union>c. returns_of (h c))"
    using call_guard.genuine [OF f, of "g h" c] call_guard.genuine [OF g, of h] by blast
qed

subsection \<open>Every guard implements it\<close>

lemma silentD: "silent cnt m \<Longrightarrow> m s = (r, s') \<Longrightarrow> cnt s' = cnt s"
  by (metis silent_def snd_conv)

lemma runs_once_catch_raise:
  "runs_once cnt m \<Longrightarrow> runs_once cnt (eff_catch m P (\<lambda>e. eff_raise (g e)))"
  by (rule runs_onceI) (auto simp: eff_simps dest: runs_onceD split: prod.splits sum.splits if_splits)

lemma runs_once_bind_silent:
  "silent cnt p \<Longrightarrow> runs_once cnt m \<Longrightarrow> runs_once cnt (eff_bind p (\<lambda>_. m))"
  by (rule runs_onceI)
    (auto simp: eff_simps dest!: silentD dest: runs_onceD split: prod.splits sum.splits)

lemma runs_once_finally:
  assumes "runs_once cnt m" and "silent cnt f"
  shows "runs_once cnt (eff_finally m f)"
  by (intro runs_onceI) (auto simp: eff_simps split: prod.split_asm sum.split_asm
      dest!: silentD [OF assms(2)] dest: runs_onceD [OF assms(1)] runs_once_any [OF assms(1)])

interpretation timeout_guard: call_guard "timeout_execute conf seconds late" cnt
  for conf seconds and late :: "'s \<Rightarrow> bool" and cnt :: "'s \<Rightarrow> nat"
proof
  fix h :: "('s, 'a) handler" and c
  assume h: "\<And>c. runs_once cnt (h c)"
  have "runs_once cnt (wait_for d late h c)" for d
    using runs_onceD [OF h]
    by (intro runs_onceI) (auto simp: wait_for_def split: if_split_asm prod.split_asm sum.split_asm)
  then show "runs_once cnt (timeout_execute conf seconds late h c)"
    unfolding timeout_execute_def Let_def by (rule runs_once_catch_raise)
next
  fix h :: "('s, 'a) handler" and c
  show "returns_of (timeout_execute conf seconds late h c) \<subseteq> (\<Union>c. returns_of (h c))"
    by (auto simp: returns_of_def timeout_execute_def wait_for_def Let_def eff_simps
        split: if_split_asm prod.split_asm sum.split_asm; blast)
qed

interpretation bulkhead_guard:
  call_guard "\<lambda>(h :: ('c \<times> 'b \<times> 'w, 'a) handler) c. bulkhead_execute (eff_snd (eff_fst acq)) (eff_snd (eff_fst rel)) (h c)"
    "\<lambda>s. cnt (snd (snd s))"
  for acq rel :: "('b, unit) eff" and cnt :: "'w \<Rightarrow> nat"
proof
  fix h :: "('c \<times> 'b \<times> 'w, 'a) handler" and c
  assume h: "\<And>c. runs_once (\<lambda>s. cnt (snd (snd s))) (h c)"
  have sil: "silent (\<lambda>s. cnt (snd (snd s))) (eff_snd (eff_fst m) :: ('c \<times> 'b \<times> 'w, unit) eff)"
    for m :: "('b, unit) eff"
    by (simp add: silent_def eff_simps split: prod.splits)
  show "runs_once (\<lambda>s. cnt (snd (snd s)))
      (bulkhead_execute (eff_snd (eff_fst acq)) (eff_snd (eff_fst rel)) (h c))"
    unfolding bulkhead_execute_def by (intro runs_once_bind_silent runs_once_finally sil h)
next
  fix h :: "('c \<times> 'b \<times> 'w, 'a) handler" and c
  show "returns_of (bulkhead_execute (eff_snd (eff_fst acq)) (eff_snd (eff_fst rel)) (h c))
      \<subseteq> (\<Union>c. returns_of (h c))"
    by (auto simp: returns_of_def bulkhead_execute_def eff_simps split: prod.split_asm sum.split_asm; blast)
qed

interpretation breaker_guard: call_guard "\<lambda>(h :: ('r cb_state \<times> 'w, 'a) handler) c. cb_call sv now now' (h c)" "\<lambda>s. cnt (snd s)"
  for sv :: "'r cb_service" and now now' and cnt :: "'w \<Rightarrow> nat"
proof
  fix h :: "('r cb_state \<times> 'w, 'a) handler" and c
  assume h: "\<And>c. runs_once (\<lambda>s. cnt (snd s)) (h c)"
  show "runs_once (\<lambda>s. cnt (snd s)) (cb_call sv now now' (h c))"
    using runs_onceD [OF h [of c]]
    by (intro runs_onceI)
      (auto simp: cb_call_def eff_simps split: prod.split_asm sum.split_asm; force)+
next
  fix h :: "('r cb_state \<times> 'w, 'a) handler" and c
  show "returns_of (cb_call sv now now' (h c)) \<subseteq> (\<Union>c. returns_of (h c))"
    by (auto simp: returns_of_def cb_call_def eff_simps split: prod.split_asm sum.split_asm; blast)
qed

lemma rx_compose_guard:
  fixes cnt :: "'w \<Rightarrow> nat"
  shows "call_guard (rx_compose x env :: (('r, 'b, 'w) rx_state, 'a) handler \<Rightarrow> _)
    (\<lambda>s. cnt (snd (snd s)))"
proof -
  have t: "call_guard (rx_with_timeout x env :: (('r, 'b, 'w) rx_state, 'a) handler \<Rightarrow> _) (\<lambda>s. cnt (snd (snd s)))"
    using timeout_guard.call_guard_axioms call_guard_id
    by (cases "rx_timeout_seconds x") (simp_all add: rx_with_timeout_def [abs_def])
  have b: "call_guard (rx_with_bulkhead x env :: (('r, 'b, 'w) rx_state, 'a) handler \<Rightarrow> _) (\<lambda>s. cnt (snd (snd s)))"
    using bulkhead_guard.call_guard_axioms call_guard_id
    by (cases "rx_bulkhead x") (simp_all add: rx_with_bulkhead_def [abs_def])
  have k: "call_guard (rx_with_breaker x env :: (('r, 'b, 'w) rx_state, 'a) handler \<Rightarrow> _) (\<lambda>s. cnt (snd (snd s)))"
    using breaker_guard.call_guard_axioms [where cnt = "\<lambda>p. cnt (snd p)"] call_guard_id
    by (cases "rx_breaker x") (simp_all add: rx_with_breaker_def [abs_def])
  show ?thesis
    using call_guard_compose [OF k call_guard_compose [OF b t]] by (simp add: rx_compose_def [abs_def])
qed

section \<open>Handlers whose runs are counted\<close>

definition counted :: "('w, 'a) handler \<Rightarrow> (('r, 'b, nat \<times> 'w) rx_state, 'a) handler" where
  "counted g c s = (case s of (k, b, n, w) \<Rightarrow> (case g c w of (r, w') \<Rightarrow> (r, (k, b, Suc n, w'))))"

definition uncounted :: "('w, 'a) eff \<Rightarrow> (('r, 'b, nat \<times> 'w) rx_state, 'a) eff" where
  "uncounted f = eff_snd (eff_snd (eff_snd f))"

definition runs_of :: "('r, 'b, nat \<times> 'w) rx_state \<Rightarrow> nat" where
  "runs_of s = fst (snd (snd s))"

lemma runs_once_counted: "runs_once runs_of (counted g c)"
  by (auto simp: runs_once_def runs_of_def counted_def split: prod.splits sum.splits)

lemma silent_uncounted: "silent runs_of (uncounted f)"
  by (simp add: silent_def runs_of_def uncounted_def eff_simps split: prod.splits)

lemma returns_of_counted: "returns_of (counted g c) \<subseteq> returns_of (g c)"
  by (auto simp: returns_of_def counted_def split: prod.split_asm; blast)

lemma returns_ofI: "m s = (Inr v, s') \<Longrightarrow> v \<in> returns_of m"
  unfolding returns_of_def by blast

lemma fallback_silent:
  assumes "\<And>e. silent cnt (f e)"
  shows "cnt (snd (fallback_execute on m f s)) = cnt (snd (m s))"
proof -
  obtain r s1 where m: "m s = (r, s1)" by fastforce
  have "cnt (snd (f e s1)) = cnt s1" for e using assms by (simp add: silent_def)
  then have "f e s1 = (r2, s2) \<Longrightarrow> cnt s2 = cnt s1" for e r2 s2 by (metis snd_conv)
  with m show ?thesis
    by (cases r) (auto simp: fallback_execute_def eff_simps split: prod.split sum.split)
qed

lemma rx_compose_counted:
  fixes x :: "'r executor" and env :: "('b, ('r, 'b, nat \<times> 'w) rx_state) call_env"
  assumes "rx_compose x env (counted g) c s = (r, s')"
  shows "runs_of s' = runs_of s \<or> runs_of s' = Suc (runs_of s)"
    and "r = Inr v \<Longrightarrow> runs_of s' = Suc (runs_of s) \<and> v \<in> (\<Union>c. returns_of (g c))"
proof -
  have guard: "call_guard (rx_compose x env) (runs_of :: ('r, 'b, nat \<times> 'w) rx_state \<Rightarrow> nat)"
    using rx_compose_guard [of x env fst] by (simp add: runs_of_def [abs_def])
  have once: "runs_once runs_of (rx_compose x env (counted g) c)"
    by (rule call_guard.at_most_once [OF guard runs_once_counted])
  show "runs_of s' = runs_of s \<or> runs_of s' = Suc (runs_of s)"
    using runs_once_any [OF once assms] .
  assume r: "r = Inr v"
  then obtain c1 where "v \<in> returns_of (counted g c1 :: (('r, 'b, nat \<times> 'w) rx_state, _) eff)"
    using call_guard.genuine [OF guard, of "counted g" c] returns_ofI [where m = "rx_compose x env (counted g) c"] assms
    by blast
  then show "runs_of s' = Suc (runs_of s) \<and> v \<in> (\<Union>c. returns_of (g c))"
    using runs_onceD(2) [OF once] assms r returns_of_counted by fastforce
qed

section \<open>Properties\<close>

text \<open>C39: whatever guards an executor is configured with, and whatever the breaker's repository,
  the bulkhead, the clock and the fallback do, \<open>ResilientExecutor.call\<close> runs the handler at most
  once; and a result it returns without a fallback comes from that one run.\<close>

theorem rx_call_at_most_once:
  "case rx_call x env (counted g) (map_option (\<lambda>f e. uncounted (f e)) fallback) s of (r, s') \<Rightarrow>
     runs_of s' \<in> {runs_of s, Suc (runs_of s)} \<and>
     (case (fallback, r) of
        (None, Inr v) \<Rightarrow> runs_of s' = Suc (runs_of s) \<and> v \<in> (\<Union>c. returns_of (g c))
      | _ \<Rightarrow> True)"
proof -
  obtain r1 s1 where c: "rx_compose x env (counted g) False s = (r1, s1)" by (rule prod.exhaust)
  note once = rx_compose_counted [OF c]
  show ?thesis
  proof (cases fallback)
    case None
    then show ?thesis using c once by (auto simp: rx_call_def split: sum.splits)
  next
    case (Some f)
    then have "runs_of (snd (rx_call x env (counted g) (map_option (\<lambda>f e. uncounted (f e)) fallback) s)) = runs_of s1"
      using fallback_silent [OF silent_uncounted, of "rx_fallback_on x" "rx_compose x env (counted g) False" f s] c
      by (simp add: rx_call_def)
    with once(1) Some show ?thesis by (auto split: prod.splits)
  qed
qed

text \<open>an executor whose breaker is OPEN takes no bulkhead slot and does not run the handler:
  the call raises \<open>CircuitOpenError\<close> and changes nothing, or goes to the fallback at once.\<close>

theorem rx_call_open_breaker:
  assumes "rx_breaker x = Some sv" and "cb_repo sv = None"
    and "sn_state (cb_snap k) = OPEN" and "sn_opened_at (cb_snap k) = Some t"
    and "env_before env - t < recovery_timeout_seconds (cb_conf sv)"
    and "rx_fallback_on x (CircuitOpenError (cb_name sv))"
  shows "rx_call x env h None (k, b, w) = (Inl (CircuitOpenError (cb_name sv)), (k, b, w)) \<and>
    rx_call x env h (Some (\<lambda>e. eff_return v)) (k, b, w) = (Inr v, (k, b, w))"
  using assms
  by (simp add: rx_call_def rx_compose_def rx_with_breaker_def fallback_execute_def cb_call_def
      cb_simps eff_simps)

definition demo_executor :: "unit executor" where
  "demo_executor = executor_init ''rpc'' (Some 5) (Some (cb_config_default)) (Some bulkhead_config_default)
     is_exception None"

definition demo_env :: "(int, 's) call_env" where
  "demo_env = \<lparr>env_late = (\<lambda>_. True), env_before = 10, env_after = 15,
     env_acquire = eff_modify (\<lambda>v. v - 1), env_release = eff_modify (\<lambda>v. v + 1)\<rparr>"

theorem rx_call_open_breaker_witness:
  "rx_call demo_executor demo_env (\<lambda>_. eff_return (1::int)) (Some (\<lambda>e. eff_return 0))
     (cb_open (cb_service_init ''rpc'' None None) 2 (cb_state_init ''rpc'' ()), 10, 0::nat) =
   (Inr 0, (cb_open (cb_service_init ''rpc'' None None) 2 (cb_state_init ''rpc'' ()), 10, 0))"
  using rx_call_open_breaker [of demo_executor "cb_service_init ''rpc'' None None"
      "cb_open (cb_service_init ''rpc'' None None) 2 (cb_state_init ''rpc'' ())" 2 demo_env
      "\<lambda>_. eff_return (1::int)" 10 "0::nat" 0]
  by (simp add: demo_executor_def demo_env_def executor_init_def cb_service_init_def cb_open_def
      cb_snapshot_new_def cb_config_default_def)

text \<open>a timeout propagates outwards through the guards: when the deadline passes and the
  handler gives in to its cancellation, the bulkhead slot is released, the breaker counts one
  failure, and the caller gets \<open>OperationTimeoutError\<close> with the configured deadline.\<close>

theorem rx_call_timeout_counts:
  assumes "rx_timeout_seconds x = Some d" and "0 < d" and "rx_bulkhead x = Some bc"
    and "rx_breaker x = Some sv" and "cb_repo sv = None"
    and "sn_state (cb_snap k) = CLOSED" and "sn_failure_count (cb_snap k) + 1 < failure_threshold (cb_conf sv)"
    and "env_acquire env b = (Inr (), b1)" and "env_release env b1 = (Inr (), b2)"
    and "env_late env (k, b1, w)" and "h True (k, b1, w) = (Inl CancelledError, (k, b1, w'))"
  shows "rx_call x env h None (k, b, w) = (Inl (OperationTimeoutError d),
    (k\<lparr>cb_snap := (cb_snap k)\<lparr>sn_failure_count := sn_failure_count (cb_snap k) + 1\<rparr>\<rparr>, b2, w'))"
  using assms
  by (simp add: rx_call_def rx_compose_def rx_with_breaker_def rx_with_bulkhead_def rx_with_timeout_def
      cb_call_def cb_simps bulkhead_execute_def timeout_execute_def wait_for_def eff_simps Let_def)

theorem rx_call_timeout_counts_witness:
  "sn_failure_count (cb_snap (fst (snd (rx_call demo_executor demo_env
      (\<lambda>c (k, b, w). (if c then Inl CancelledError else Inr (1::int), (k, b, w + 1))) None
      (cb_state_init ''rpc'' (), 10, 0::nat))))) = 1"
  using rx_call_timeout_counts [of demo_executor 5 bulkhead_config_default "cb_service_init ''rpc'' None None"
      "cb_state_init ''rpc'' ()" demo_env 10 9 10 "0::nat"
      "\<lambda>c (k, b, w). (if c then Inl CancelledError else Inr (1::int), (k, b, w + 1))" 1]
  by (simp add: demo_executor_def demo_env_def executor_init_def cb_service_init_def cb_state_init_def
      cb_snapshot_new_def cb_config_default_def eff_simps)

text \<open>A \<open>TimeoutError\<close> of the handler's own is reported as if the deadline had passed.\<close>

lemma timeout_execute_relabels:
  assumes "0 < if_none seconds conf" and "h c s = (Inl TimeoutError, s')" and "\<not> late s"
  shows "timeout_execute conf seconds late h c s = (Inl (OperationTimeoutError (if_none seconds conf)), s')"
  using assms by (simp add: timeout_execute_def wait_for_def eff_simps Let_def)

end
