(* ===== verification/Saga.thy ===== *)
theory Saga
  imports Sql_Table
begin

text \<open>
  Sagas: the executor \<open>SagaService\<close> (\<open>foundation/resiliant/saga.py\<close>) and its durable store
  \<open>SagaRepository\<close> (\<open>resiliant/saga/saga_repository.py\<close>, table \<open>saga_state\<close>). An action works on
  the saga's context and on the world outside; it may change both and still raise. The clock
  \<open>time.time()\<close> is a function of the number of times it was read, \<open>repr\<close> of an exception a
  parameter. What the executor needs of its repository is the locale \<open>saga_store\<close>.
\<close>

section \<open>Data\<close>

datatype saga_status = SAGA_RUNNING | SAGA_COMPLETED | SAGA_COMPENSATING | SAGA_ABORTED | SAGA_FAILED

datatype saga_step_status = STEP_PENDING | STEP_COMPLETED | STEP_COMPENSATED | STEP_FAILED

type_synonym 'w saga_action = "(jdict \<times> 'w, unit) eff"

record 'w saga_step =
  step_name :: string
  step_action :: "'w saga_action"
  step_compensation :: "'w saga_action option"

record 'w saga_definition =
  sd_name :: string
  sd_steps :: "'w saga_step list"

definition saga_definition_init :: "string \<Rightarrow> 'w saga_step list \<Rightarrow> py_exn + 'w saga_definition" where
  "saga_definition_init n steps =
     (if steps = [] then Inl (ValueError ''SagaDefinition must contain at least one step'')
      else Inr \<lparr>sd_name = n, sd_steps = steps\<rparr>)"

record saga_step_record =
  rec_name :: string
  rec_status :: saga_step_status
  rec_error :: "string option"

record saga_instance =
  si_id :: string
  si_name :: string
  si_status :: saga_status
  si_context :: jdict
  si_steps :: "saga_step_record list"
  si_created_at :: rat
  si_updated_at :: rat

record ('r, 'w) saga_state =
  sg_inst :: saga_instance
  sg_repo :: 'r
  sg_world :: 'w
  sg_tick :: nat

section \<open>The executor\<close>

definition saga_touch :: "(nat \<Rightarrow> rat) \<Rightarrow> ('r, 'w) saga_state \<Rightarrow> ('r, 'w) saga_state" where
  "saga_touch clock s = s\<lparr>sg_inst := (sg_inst s)\<lparr>si_updated_at := clock (sg_tick s)\<rparr>,
     sg_tick := Suc (sg_tick s)\<rparr>"

definition saga_set_status :: "saga_status \<Rightarrow> ('r, 'w) saga_state \<Rightarrow> ('r, 'w) saga_state" where
  "saga_set_status st s = s\<lparr>sg_inst := (sg_inst s)\<lparr>si_status := st\<rparr>\<rparr>"

definition saga_set_step ::
  "nat \<Rightarrow> (saga_step_record \<Rightarrow> saga_step_record) \<Rightarrow> ('r, 'w) saga_state \<Rightarrow> ('r, 'w) saga_state" where
  "saga_set_step i f s = s\<lparr>sg_inst := (sg_inst s)\<lparr>si_steps :=
     (si_steps (sg_inst s))[i := f (si_steps (sg_inst s) ! i)]\<rparr>\<rparr>"

definition saga_checkpoint :: "(saga_instance \<Rightarrow> ('r, unit) eff) \<Rightarrow> (('r, 'w) saga_state, unit) eff" where
  "saga_checkpoint save s = (case save (sg_inst s) (sg_repo s) of (x, r) \<Rightarrow> (x, s\<lparr>sg_repo := r\<rparr>))"

definition saga_perform :: "'w saga_action \<Rightarrow> (('r, 'w) saga_state, unit) eff" where
  "saga_perform act s = (case act (si_context (sg_inst s), sg_world s) of
     (x, (c, w)) \<Rightarrow> (x, s\<lparr>sg_inst := (sg_inst s)\<lparr>si_context := c\<rparr>, sg_world := w\<rparr>))"

text \<open>\<open>_compensate\<close>: \<open>k\<close> steps, those before the failed one, are left to look at.\<close>

fun saga_compensate ::
  "(saga_instance \<Rightarrow> ('r, unit) eff) \<Rightarrow> (nat \<Rightarrow> rat) \<Rightarrow> (py_exn \<Rightarrow> string) \<Rightarrow> 'w saga_step list \<Rightarrow>
   nat \<Rightarrow> (('r, 'w) saga_state, unit) eff" where
  "saga_compensate save clock repr steps 0 s =
     saga_checkpoint save (saga_touch clock (saga_set_status SAGA_ABORTED s))"
| "saga_compensate save clock repr steps (Suc i) s =
     (case step_compensation (steps ! i) of
        None \<Rightarrow> saga_compensate save clock repr steps i s
      | Some undo \<Rightarrow>
          if rec_status (si_steps (sg_inst s) ! i) \<noteq> STEP_COMPLETED
          then saga_compensate save clock repr steps i s
          else (case saga_perform undo s of
              (Inl e, s1) \<Rightarrow>
                eff_bind (saga_checkpoint save) (\<lambda>_. eff_raise (SagaCompensationError (step_name (steps ! i))))
                  (saga_touch clock (saga_set_status SAGA_FAILED
                    (saga_set_step i (\<lambda>r. r\<lparr>rec_error := Some (''compensation failed: '' @ repr e)\<rparr>) s1)))
            | (Inr _, s1) \<Rightarrow>
                saga_compensate save clock repr steps i
                  (saga_set_step i (\<lambda>r. r\<lparr>rec_status := STEP_COMPENSATED\<rparr>) s1)))"

text \<open>The loop of \<open>run\<close> from step \<open>i\<close> on; \<open>todo\<close> are the steps left.\<close>

fun saga_loop ::
  "(saga_instance \<Rightarrow> ('r, unit) eff) \<Rightarrow> bool \<Rightarrow> (nat \<Rightarrow> rat) \<Rightarrow> (py_exn \<Rightarrow> string) \<Rightarrow> 'w saga_step list \<Rightarrow>
   nat \<Rightarrow> 'w saga_step list \<Rightarrow> (('r, 'w) saga_state, saga_instance) eff" where
  "saga_loop save raise_on_abort clock repr steps i [] s =
     eff_bind (saga_checkpoint save) (\<lambda>_. eff_get sg_inst)
       (saga_touch clock (saga_set_status SAGA_COMPLETED s))"
| "saga_loop save raise_on_abort clock repr steps i (st # todo) s =
     (case saga_perform (step_action st) s of
        (Inl e, s1) \<Rightarrow>
          eff_bind (saga_checkpoint save) (\<lambda>_.
            eff_bind (saga_compensate save clock repr steps i) (\<lambda>_ s2.
              if raise_on_abort \<and> si_status (sg_inst s2) = SAGA_ABORTED
              then (Inl (SagaAbortedError (si_id (sg_inst s2)) (step_name st) e), s2)
              else (Inr (sg_inst s2), s2)))
            (saga_touch clock (saga_set_status SAGA_COMPENSATING
              (saga_set_step i (\<lambda>r. r\<lparr>rec_status := STEP_FAILED, rec_error := Some (repr e)\<rparr>) s1)))
      | (Inr _, s1) \<Rightarrow>
          eff_bind (saga_checkpoint save)
            (\<lambda>_. saga_loop save raise_on_abort clock repr steps (Suc i) todo)
            (saga_touch clock (saga_set_step i (\<lambda>r. r\<lparr>rec_status := STEP_COMPLETED\<rparr>) s1)))"

definition saga_new_instance ::
  "'w saga_definition \<Rightarrow> jdict option \<Rightarrow> string option \<Rightarrow> string \<Rightarrow> rat \<Rightarrow> saga_instance" where
  "saga_new_instance d ctx saga_id uuid now =
     \<lparr>si_id = or_str saga_id uuid, si_name = sd_name d, si_status = SAGA_RUNNING,
      si_context = jdict_or_empty ctx,
      si_steps = map (\<lambda>st. \<lparr>rec_name = step_name st, rec_status = STEP_PENDING, rec_error = None\<rparr>) (sd_steps d),
      si_created_at = now, si_updated_at = now\<rparr>"

definition saga_run ::
  "(saga_instance \<Rightarrow> ('r, unit) eff) \<Rightarrow> bool \<Rightarrow> (nat \<Rightarrow> rat) \<Rightarrow> (py_exn \<Rightarrow> string) \<Rightarrow> string \<Rightarrow>
   'w saga_definition \<Rightarrow> jdict option \<Rightarrow> string option \<Rightarrow> 'r \<Rightarrow> 'w \<Rightarrow>
   (py_exn + saga_instance) \<times> ('r, 'w) saga_state" where
  "saga_run save raise_on_abort clock repr uuid d ctx saga_id r w =
     eff_bind (saga_checkpoint save)
       (\<lambda>_. saga_loop save raise_on_abort clock repr (sd_steps d) 0 (sd_steps d))
       \<lparr>sg_inst = saga_new_instance d ctx saga_id uuid (clock 0), sg_repo = r, sg_world = w, sg_tick = 1\<rparr>"

section \<open>The reference: forwards, and on failure backwards\<close>

text \<open>
  What a saga is meant to do to the context and the world: run the actions in order; at the
  first failure undo the steps before it, latest first, and stop at a compensation that fails.
\<close>

fun saga_forward :: "'w saga_step list \<Rightarrow> jdict \<times> 'w \<Rightarrow> nat \<times> py_exn option \<times> (jdict \<times> 'w)" where
  "saga_forward [] cw = (0, None, cw)"
| "saga_forward (st # sts) cw = (case step_action st cw of
       (Inl e, cw1) \<Rightarrow> (0, Some e, cw1)
     | (Inr _, cw1) \<Rightarrow> (case saga_forward sts cw1 of (k, e, cw2) \<Rightarrow> (Suc k, e, cw2)))"

fun saga_backward :: "'w saga_step list \<Rightarrow> jdict \<times> 'w \<Rightarrow> (string \<times> py_exn) option \<times> (jdict \<times> 'w)" where
  "saga_backward [] cw = (None, cw)"
| "saga_backward (st # sts) cw = (case step_compensation st of
       None \<Rightarrow> saga_backward sts cw
     | Some undo \<Rightarrow> (case undo cw of
           (Inl e, cw1) \<Rightarrow> (Some (step_name st, e), cw1)
         | (Inr _, cw1) \<Rightarrow> saga_backward sts cw1))"

section \<open>The executor does what the reference says\<close>

definition saves :: "(saga_instance \<Rightarrow> ('r, unit) eff) \<Rightarrow> bool" where
  "saves save \<longleftrightarrow> (\<forall>i r. fst (save i r) = Inr ())"

definition cw_of :: "('r, 'w) saga_state \<Rightarrow> jdict \<times> 'w" where
  "cw_of s = (si_context (sg_inst s), sg_world s)"

definition statuses :: "('r, 'w) saga_state \<Rightarrow> saga_step_status list" where
  "statuses s = map rec_status (si_steps (sg_inst s))"

lemma checkpoint_ok:
  assumes "saves save"
  shows "\<exists>r. saga_checkpoint save s = (Inr (), s\<lparr>sg_repo := r\<rparr>)"
proof -
  obtain x r where "save (sg_inst s) (sg_repo s) = (x, r)" by fastforce
  moreover from this have "x = Inr ()" using assms unfolding saves_def by (metis fst_conv)
  ultimately show ?thesis by (intro exI [of _ r]) (simp add: saga_checkpoint_def)
qed

lemma cw_of_updates [simp]:
  "cw_of (saga_touch clock s) = cw_of s" "cw_of (saga_set_status st s) = cw_of s"
  "cw_of (saga_set_step i f s) = cw_of s" "cw_of (s\<lparr>sg_repo := r\<rparr>) = cw_of s"
  by (simp_all add: cw_of_def saga_touch_def saga_set_status_def saga_set_step_def)

lemma statuses_updates [simp]:
  "statuses (saga_touch clock s) = statuses s" "statuses (saga_set_status st s) = statuses s"
  "statuses (s\<lparr>sg_repo := r\<rparr>) = statuses s"
  by (simp_all add: statuses_def saga_touch_def saga_set_status_def)

lemma si_status_updates [simp]:
  "si_status (sg_inst (saga_touch clock s)) = si_status (sg_inst s)"
  "si_status (sg_inst (saga_set_status st s)) = st"
  "si_status (sg_inst (saga_set_step i f s)) = si_status (sg_inst s)"
  by (simp_all add: saga_touch_def saga_set_status_def saga_set_step_def)

lemma si_id_updates [simp]:
  "si_id (sg_inst (saga_touch clock s)) = si_id (sg_inst s)"
  "si_id (sg_inst (saga_set_status st s)) = si_id (sg_inst s)"
  "si_id (sg_inst (saga_set_step i f s)) = si_id (sg_inst s)"
  by (simp_all add: saga_touch_def saga_set_status_def saga_set_step_def)

lemma statuses_set_step:
  "i < length (statuses s) \<Longrightarrow>
   statuses (saga_set_step i f s) = (statuses s)[i := rec_status (f (si_steps (sg_inst s) ! i))]"
  by (simp add: statuses_def saga_set_step_def map_update)

lemma perform_cases:
  assumes "act (cw_of s) = (x, cw)"
  obtains s1 where "saga_perform act s = (x, s1)" "cw_of s1 = cw" "statuses s1 = statuses s"
    "si_id (sg_inst s1) = si_id (sg_inst s)" "si_status (sg_inst s1) = si_status (sg_inst s)"
  using assms by (cases cw) (simp add: saga_perform_def cw_of_def statuses_def)

text \<open>The statuses after compensation of the first \<open>k\<close> steps.\<close>

fun undone :: "'w saga_step list \<Rightarrow> saga_step_status list" where
  "undone [] = []"
| "undone (st # sts) = (if step_compensation st = None then STEP_COMPLETED else STEP_COMPENSATED) # undone sts"

lemma length_undone [simp]: "length (undone sts) = length sts"
  by (induction sts) simp_all

lemma undone_append: "undone (sts @ sts') = undone sts @ undone sts'"
  by (induction sts) simp_all

lemma saga_compensate_reference:
  assumes ok: "saves save" and k: "k \<le> length steps"
    and st: "take k (statuses s) = replicate k STEP_COMPLETED" "length (statuses s) = length steps"
  shows "case saga_backward (rev (take k steps)) (cw_of s) of
      (None, cw) \<Rightarrow> \<exists>s'. saga_compensate save clock repr steps k s = (Inr (), s') \<and> cw_of s' = cw \<and>
         si_status (sg_inst s') = SAGA_ABORTED \<and> si_id (sg_inst s') = si_id (sg_inst s) \<and>
         statuses s' = undone (take k steps) @ drop k (statuses s)
    | (Some (n, e), cw) \<Rightarrow> \<exists>s'. saga_compensate save clock repr steps k s = (Inl (SagaCompensationError n), s') \<and>
         cw_of s' = cw \<and> si_status (sg_inst s') = SAGA_FAILED"
  using k st
proof (induction k arbitrary: s)
  case 0
  then show ?case
    using checkpoint_ok [OF ok, of "saga_touch clock (saga_set_status SAGA_ABORTED s)"] by auto
next
  case (Suc i)
  have i: "i < length steps" using Suc.prems by simp
  have tk: "take (Suc i) steps = take i steps @ [steps ! i]" using i by (rule take_Suc_conv_app_nth)
  have done_i: "statuses s ! i = STEP_COMPLETED"
    using Suc.prems i by (metis lessI nth_replicate nth_take)
  have pre: "take i (statuses s) = replicate i STEP_COMPLETED"
    using arg_cong [OF Suc.prems(2), of "take i"] by (simp add: min_def del: replicate_Suc)
  have dr: "drop i (statuses s) = STEP_COMPLETED # drop (Suc i) (statuses s)"
    using done_i i Suc.prems(3) by (metis Cons_nth_drop_Suc)
  show ?case
  proof (cases "step_compensation (steps ! i)")
    case None
    then show ?thesis
      using Suc.IH [of s] i pre Suc.prems(3) dr by (auto simp: tk undone_append split: prod.splits option.splits)
  next
    case (Some undo)
    have rs: "rec_status (si_steps (sg_inst s) ! i) = STEP_COMPLETED"
      using done_i i Suc.prems(3) by (simp add: statuses_def)
    obtain x cw1 where c: "undo (cw_of s) = (x, cw1)" by (rule prod.exhaust)
    obtain s1 where s1: "saga_perform undo s = (x, s1)" "cw_of s1 = cw1" "statuses s1 = statuses s"
        "si_id (sg_inst s1) = si_id (sg_inst s)"
      using perform_cases [of undo s, OF c] by metis
    show ?thesis
    proof (cases x)
      case (Inl e)
      then show ?thesis
        using Some rs s1 c checkpoint_ok [OF ok, of "saga_touch clock (saga_set_status SAGA_FAILED
            (saga_set_step i (\<lambda>r. r\<lparr>rec_error := Some (''compensation failed: '' @ repr e)\<rparr>) s1))"]
        by (auto simp: tk eff_simps)
    next
      case (Inr u)
      let ?s2 = "saga_set_step i (\<lambda>r. r\<lparr>rec_status := STEP_COMPENSATED\<rparr>) s1"
      have "statuses ?s2 = (statuses s)[i := STEP_COMPENSATED]"
        using i s1(3) Suc.prems(3) by (simp add: statuses_set_step)
      moreover from this have "take i (statuses ?s2) = replicate i STEP_COMPLETED"
        "length (statuses ?s2) = length steps" using pre Suc.prems(3) by simp_all
      moreover have "drop i ((statuses s)[i := STEP_COMPENSATED]) = STEP_COMPENSATED # drop (Suc i) (statuses s)"
        using i Suc.prems(3) by (simp add: Cons_nth_drop_Suc [symmetric])
      ultimately show ?thesis
        using Suc.IH [of ?s2] Some rs s1 c Inr i
        by (auto simp: tk undone_append split: prod.splits option.splits)
    qed
  qed
qed

definition saga_ends ::
  "bool \<Rightarrow> 'w saga_step list \<Rightarrow> nat \<times> py_exn option \<times> (jdict \<times> 'w) \<Rightarrow>
   (py_exn + saga_instance) \<Rightarrow> ('r, 'w) saga_state \<Rightarrow> bool" where
  "saga_ends raise_on_abort steps fwd r s' \<longleftrightarrow> (case fwd of
       (k, None, cw) \<Rightarrow> r = Inr (sg_inst s') \<and> si_status (sg_inst s') = SAGA_COMPLETED \<and>
         cw_of s' = cw \<and> statuses s' = replicate (length steps) STEP_COMPLETED
     | (k, Some e, cw) \<Rightarrow> (case saga_backward (rev (take k steps)) cw of
         (None, cw') \<Rightarrow> si_status (sg_inst s') = SAGA_ABORTED \<and> cw_of s' = cw' \<and>
           statuses s' = undone (take k steps) @ STEP_FAILED # replicate (length steps - Suc k) STEP_PENDING \<and>
           r = (if raise_on_abort
                then Inl (SagaAbortedError (si_id (sg_inst s')) (step_name (steps ! k)) e)
                else Inr (sg_inst s'))
       | (Some (n, _), cw') \<Rightarrow> si_status (sg_inst s') = SAGA_FAILED \<and> cw_of s' = cw' \<and>
           r = Inl (SagaCompensationError n)))"

lemma saga_loop_fails:
  assumes ok: "saves save" and i: "i < length steps" and p: "saga_perform (step_action (steps ! i)) s = (Inl e, s1)"
    and st: "statuses s1 = replicate i STEP_COMPLETED @ replicate (length steps - i) STEP_PENDING"
    and run: "saga_loop save rz clock repr steps i (steps ! i # todo) s = (r, s')"
  shows "saga_ends rz steps (i, Some e, cw_of s1) r s'"
proof -
  let ?s2 = "saga_touch clock (saga_set_status SAGA_COMPENSATING
      (saga_set_step i (\<lambda>r. r\<lparr>rec_status := STEP_FAILED, rec_error := Some (repr e)\<rparr>) s1))"
  obtain q where c: "saga_checkpoint save ?s2 = (Inr (), ?s2\<lparr>sg_repo := q\<rparr>)"
    using checkpoint_ok [OF ok] by blast
  let ?s3 = "?s2\<lparr>sg_repo := q\<rparr>"
  have i': "i < length (statuses s1)" using i st by simp
  have s3: "statuses ?s3 = replicate i STEP_COMPLETED @ STEP_FAILED # replicate (length steps - Suc i) STEP_PENDING"
    "cw_of ?s3 = cw_of s1"
    using statuses_set_step [OF i'] i by (simp_all add: st list_update_append Suc_diff_Suc [symmetric])
  have "take i (statuses ?s3) = replicate i STEP_COMPLETED" "length (statuses ?s3) = length steps"
    unfolding s3(1) using i by simp_all
  note comp = saga_compensate_reference [OF ok _ this, of clock repr]
  have dr: "drop i (statuses ?s3) = STEP_FAILED # replicate (length steps - Suc i) STEP_PENDING"
    unfolding s3(1) by simp
  show ?thesis
    using comp run p c i unfolding s3(2) dr
    by (auto simp: saga_ends_def eff_simps split: prod.splits option.splits)
qed

lemma saga_loop_reference:
  assumes ok: "saves save"
    and "i \<le> length steps" and "todo = drop i steps"
    and "statuses s = replicate i STEP_COMPLETED @ replicate (length steps - i) STEP_PENDING"
    and "saga_forward todo (cw_of s) = (k, err, cw)"
    and "saga_loop save rz clock repr steps i todo s = (r, s')"
  shows "saga_ends rz steps (i + k, err, cw) r s'"
  using assms(2-)
proof (induction todo arbitrary: i s k)
  case Nil
  then show ?case
    using checkpoint_ok [OF ok, of "saga_touch clock (saga_set_status SAGA_COMPLETED s)"]
    by (auto simp: saga_ends_def eff_simps)
next
  case (Cons st todo)
  have i: "i < length steps"
    using Cons.prems(2) by (metis drop_eq_Nil leI list.distinct(1))
  then have st: "st = steps ! i" and todo: "todo = drop (Suc i) steps"
    using Cons.prems(2) Cons_nth_drop_Suc [OF i] by (metis list.inject)+
  obtain x cw1 where c: "step_action st (cw_of s) = (x, cw1)" by (rule prod.exhaust)
  obtain s1 where s1: "saga_perform (step_action st) s = (x, s1)" "cw_of s1 = cw1" "statuses s1 = statuses s"
    using perform_cases [of "step_action st" s, OF c] by metis
  show ?case
  proof (cases x)
    case (Inl e)
    then have "k = 0" "err = Some e" "cw = cw_of s1" using Cons.prems(4) c s1(2) by simp_all
    then show ?thesis
      using saga_loop_fails [OF ok i, of s e s1 rz clock repr todo r s'] s1 Inl Cons.prems(3,5) st by simp
  next
    case (Inr u)
    let ?s2 = "saga_touch clock (saga_set_step i (\<lambda>r. r\<lparr>rec_status := STEP_COMPLETED\<rparr>) s1)"
    obtain q where q: "saga_checkpoint save ?s2 = (Inr (), ?s2\<lparr>sg_repo := q\<rparr>)"
      using checkpoint_ok [OF ok] by blast
    obtain k' where k: "k = Suc k'" "saga_forward todo (cw_of (?s2\<lparr>sg_repo := q\<rparr>)) = (k', err, cw)"
      using Cons.prems(4) c s1(2) Inr by (auto split: prod.splits)
    have i': "i < length (statuses s1)" using i s1(3) Cons.prems(3) by simp
    have "statuses (?s2\<lparr>sg_repo := q\<rparr>) =
        replicate (Suc i) STEP_COMPLETED @ replicate (length steps - Suc i) STEP_PENDING"
      using statuses_set_step [OF i'] i s1(3) Cons.prems(3)
      by (simp add: list_update_append Suc_diff_Suc [symmetric] replicate_app_Cons_same)
    moreover have "saga_loop save rz clock repr steps (Suc i) todo (?s2\<lparr>sg_repo := q\<rparr>) = (r, s')"
      using Cons.prems(5) s1(1) Inr q by (simp add: eff_simps)
    ultimately show ?thesis
      using Cons.IH [of "Suc i" "?s2\<lparr>sg_repo := q\<rparr>" k'] i todo k by simp
  qed
qed

section \<open>The repository the executor relies on\<close>

text \<open>
  \<open>ISagaRepository\<close>: a saved instance is what \<open>get\<close> returns afterwards, provided it \<open>fits\<close> what
  the store already holds under its id; the executor keeps the identity of an instance (its id,
  name and creation time). Errors of the store are told apart from the saga's own.
\<close>

definition same_saga :: "saga_instance \<Rightarrow> saga_instance \<Rightarrow> bool" where
  "same_saga i j \<longleftrightarrow> si_id i = si_id j \<and> si_name i = si_name j \<and> si_created_at i = si_created_at j"

fun is_saga_error :: "py_exn \<Rightarrow> bool" where
  "is_saga_error (SagaAbortedError _ _ _) = True"
| "is_saga_error (SagaCompensationError _) = True"
| "is_saga_error _ = False"

definition saga_answer :: "(py_exn + 'a) \<Rightarrow> bool" where
  "saga_answer r \<longleftrightarrow> (case r of Inl e \<Rightarrow> is_saga_error e | Inr _ \<Rightarrow> True)"

locale saga_store =
  fixes save :: "saga_instance \<Rightarrow> ('r, unit) eff"
    and load :: "string \<Rightarrow> 'r \<Rightarrow> py_exn + saga_instance option"
    and fits :: "saga_instance \<Rightarrow> 'r \<Rightarrow> bool"
  assumes load_saved: "fits i r \<Longrightarrow> save i r = (Inr (), r') \<Longrightarrow> load (si_id i) r' = Inr (Some i)"
    and fits_saved: "fits i r \<Longrightarrow> save i r = (Inr (), r') \<Longrightarrow> fits i r'"
    and fits_same: "fits i r \<Longrightarrow> same_saga i j \<Longrightarrow> fits j r"
    and save_errors: "save i r = (Inl e, r') \<Longrightarrow> \<not> is_saga_error e"
begin

text \<open>A computation of the executor that ends with a saga answer leaves its instance stored.\<close>

definition leaves_stored :: "(('r, 'w) saga_state, 'a) eff \<Rightarrow> ('r, 'w) saga_state \<Rightarrow> bool" where
  "leaves_stored m s \<longleftrightarrow> (\<forall>x s'. m s = (x, s') \<and> saga_answer x \<longrightarrow>
     load (si_id (sg_inst s')) (sg_repo s') = Inr (Some (sg_inst s')) \<and>
     fits (sg_inst s') (sg_repo s'))"

lemma checkpoint_stores:
  assumes "fits (sg_inst s) (sg_repo s)"
  shows "leaves_stored (saga_checkpoint save) s"
  using load_saved [OF assms] fits_saved [OF assms] save_errors [of "sg_inst s" "sg_repo s"]
  by (auto simp: leaves_stored_def saga_checkpoint_def saga_answer_def split: prod.splits sum.splits)

lemma checkpoint_then:
  assumes "fits (sg_inst s) (sg_repo s)"
    and "\<And>s'. fits (sg_inst s') (sg_repo s') \<Longrightarrow>
       load (si_id (sg_inst s')) (sg_repo s') = Inr (Some (sg_inst s')) \<Longrightarrow> leaves_stored (k ()) s'"
  shows "leaves_stored (eff_bind (saga_checkpoint save) k) s"
proof -
  obtain x s1 where c: "saga_checkpoint save s = (x, s1)" by fastforce
  show ?thesis
  proof (cases x)
    case (Inl e)
    then have "\<not> is_saga_error e"
      using c save_errors [of "sg_inst s" "sg_repo s"] by (auto simp: saga_checkpoint_def split: prod.splits)
    with c Inl show ?thesis by (simp add: leaves_stored_def eff_simps saga_answer_def)
  next
    case (Inr u)
    then have "leaves_stored (k ()) s1"
      using c checkpoint_stores [OF assms(1)] by (intro assms(2)) (auto simp: leaves_stored_def saga_answer_def)
    with c Inr show ?thesis by (simp add: leaves_stored_def eff_simps)
  qed
qed

lemma fits_updates:
  "fits (sg_inst s) (sg_repo s) \<Longrightarrow> fits (sg_inst (saga_touch clock s)) (sg_repo (saga_touch clock s))"
  "fits (sg_inst s) (sg_repo s) \<Longrightarrow> fits (sg_inst (saga_set_status st s)) (sg_repo (saga_set_status st s))"
  "fits (sg_inst s) (sg_repo s) \<Longrightarrow> fits (sg_inst (saga_set_step i f s)) (sg_repo (saga_set_step i f s))"
  by (auto simp: saga_touch_def saga_set_status_def saga_set_step_def same_saga_def elim!: fits_same)

lemma fits_perform:
  "fits (sg_inst s) (sg_repo s) \<Longrightarrow> saga_perform act s = (x, s1) \<Longrightarrow> fits (sg_inst s1) (sg_repo s1)"
  by (auto simp: saga_perform_def same_saga_def elim!: fits_same split: prod.splits)

lemma compensate_stores:
  "fits (sg_inst s) (sg_repo s) \<Longrightarrow> leaves_stored (saga_compensate save clock repr steps k) s"
proof (induction k arbitrary: s)
  case 0
  then show ?case
    using checkpoint_stores [OF fits_updates(1) [OF fits_updates(2)]] by (simp add: leaves_stored_def)
next
  case (Suc i)
  show ?case
  proof (cases "step_compensation (steps ! i) = None \<or> rec_status (si_steps (sg_inst s) ! i) \<noteq> STEP_COMPLETED")
    case True
    then have "saga_compensate save clock repr steps (Suc i) s = saga_compensate save clock repr steps i s"
      by (auto split: option.splits)
    with Suc show ?thesis by (simp add: leaves_stored_def)
  next
    case False
    then obtain undo where u: "step_compensation (steps ! i) = Some undo"
      "rec_status (si_steps (sg_inst s) ! i) = STEP_COMPLETED" by auto
    obtain x s1 where p: "saga_perform undo s = (x, s1)" by fastforce
    have f1: "fits (sg_inst s1) (sg_repo s1)" using fits_perform [OF Suc.prems p] .
    show ?thesis
    proof (cases x)
      case (Inl e)
      let ?s2 = "saga_touch clock (saga_set_status SAGA_FAILED
         (saga_set_step i (\<lambda>r. r\<lparr>rec_error := Some (''compensation failed: '' @ repr e)\<rparr>) s1))"
      have "leaves_stored (eff_bind (saga_checkpoint save)
          (\<lambda>_. eff_raise (SagaCompensationError (step_name (steps ! i))) :: (('r, 'a) saga_state, unit) eff)) ?s2"
        by (intro checkpoint_then fits_updates f1) (simp add: leaves_stored_def eff_simps)
      with u p Inl show ?thesis by (simp add: leaves_stored_def)
    next
      case (Inr v)
      with u p Suc.IH [OF fits_updates(3) [OF f1]] show ?thesis by (simp add: leaves_stored_def)
    qed
  qed
qed

lemma loop_stores:
  "fits (sg_inst s) (sg_repo s) \<Longrightarrow> leaves_stored (saga_loop save rz clock repr steps i todo) s"
proof (induction todo arbitrary: i s)
  case Nil
  then have "leaves_stored (eff_bind (saga_checkpoint save) (\<lambda>_. eff_get sg_inst))
      (saga_touch clock (saga_set_status SAGA_COMPLETED s))"
    by (intro checkpoint_then fits_updates) (simp_all add: leaves_stored_def eff_simps)
  then show ?case by (simp add: leaves_stored_def)
next
  case (Cons st todo)
  obtain x s1 where p: "saga_perform (step_action st) s = (x, s1)" by fastforce
  have f1: "fits (sg_inst s1) (sg_repo s1)" using fits_perform [OF Cons.prems p] .
  show ?case
  proof (cases x)
    case (Inl e)
    let ?fin = "\<lambda>s2. if rz \<and> si_status (sg_inst s2) = SAGA_ABORTED
        then (Inl (SagaAbortedError (si_id (sg_inst s2)) (step_name st) e), s2) else (Inr (sg_inst s2), s2)"
    have e: "leaves_stored (eff_bind (saga_compensate save clock repr steps i) (\<lambda>_. ?fin)) s2"
      if "fits (sg_inst s2) (sg_repo s2)" for s2 :: "('r, 'a) saga_state"
      using compensate_stores [OF that, of clock repr steps i]
      by (auto simp: leaves_stored_def eff_simps saga_answer_def split: prod.splits sum.splits)
    have "leaves_stored (eff_bind (saga_checkpoint save)
        (\<lambda>_. eff_bind (saga_compensate save clock repr steps i) (\<lambda>_. ?fin)))
        (saga_touch clock (saga_set_status SAGA_COMPENSATING
          (saga_set_step i (\<lambda>r. r\<lparr>rec_status := STEP_FAILED, rec_error := Some (repr e)\<rparr>) s1)))"
      by (intro checkpoint_then fits_updates f1 e)
    with p Inl show ?thesis by (simp add: leaves_stored_def)
  next
    case (Inr v)
    have "leaves_stored (eff_bind (saga_checkpoint save)
        (\<lambda>_. saga_loop save rz clock repr steps (Suc i) todo))
        (saga_touch clock (saga_set_step i (\<lambda>r. r\<lparr>rec_status := STEP_COMPLETED\<rparr>) s1))"
      using Cons.IH by (intro checkpoint_then fits_updates f1)
    with p Inr show ?thesis by (simp add: leaves_stored_def)
  qed
qed

lemma run_stores:
  assumes "fits (saga_new_instance d ctx saga_id uuid (clock 0)) r"
    and "saga_run save rz clock repr uuid d ctx saga_id r w = (x, s')" and "saga_answer x"
  shows "load (si_id (sg_inst s')) (sg_repo s') = Inr (Some (sg_inst s'))"
proof -
  have "leaves_stored (eff_bind (saga_checkpoint save)
       (\<lambda>_. saga_loop save rz clock repr (sd_steps d) 0 (sd_steps d)))
       \<lparr>sg_inst = saga_new_instance d ctx saga_id uuid (clock 0), sg_repo = r, sg_world = w, sg_tick = 1\<rparr>"
    using assms(1) by (intro checkpoint_then loop_stores) simp_all
  with assms(2,3) show ?thesis by (simp add: leaves_stored_def saga_run_def)
qed

end

end
