(* ===== verification/Saga_Store.thy ===== *)
theory Saga_Store
  imports Saga
begin

text \<open>
  \<open>SagaRepository\<close> (\<open>resiliant/saga/saga_repository.py\<close>) over the table \<open>saga_state\<close>
  (\<open>db/models/resiliant/_saga_models.py\<close>): the mapping between an instance and its row, the
  upsert, the lookups and the per-status counts; the interpretation of \<open>saga_store\<close>; and the
  properties of the executor running on it. The steps column is JSON, so its decoding may fail.
  Column lengths are not modelled.
\<close>

section \<open>Rows\<close>

record saga_row =
  sr_saga_id :: string
  sr_name :: string
  sr_saga_key :: "string option"
  sr_status :: saga_status
  sr_current_step :: "string option"
  sr_context :: jdict
  sr_steps :: "jval list"
  sr_last_error :: "string option"
  sr_created_at :: rat
  sr_updated_at :: rat

definition saga_current_step :: "saga_instance \<Rightarrow> string option" where
  "saga_current_step i = map_option rec_name (find (\<lambda>r. rec_status r \<noteq> STEP_COMPLETED) (si_steps i))"

definition saga_last_error :: "saga_instance \<Rightarrow> string option" where
  "saga_last_error i = (case find (\<lambda>r. str_truthy (rec_error r)) (rev (si_steps i)) of
     None \<Rightarrow> None | Some r \<Rightarrow> map_option trunc1000 (rec_error r))"

fun step_status_value :: "saga_step_status \<Rightarrow> string" where
  "step_status_value STEP_PENDING = ''pending''"
| "step_status_value STEP_COMPLETED = ''completed''"
| "step_status_value STEP_COMPENSATED = ''compensated''"
| "step_status_value STEP_FAILED = ''failed''"

definition step_status_parse :: "string \<Rightarrow> py_exn + saga_step_status" where
  "step_status_parse v = (if v = ''pending'' then Inr STEP_PENDING
     else if v = ''completed'' then Inr STEP_COMPLETED
     else if v = ''compensated'' then Inr STEP_COMPENSATED
     else if v = ''failed'' then Inr STEP_FAILED
     else Inl (ValueError v))"

definition step_record_json :: "saga_step_record \<Rightarrow> jval" where
  "step_record_json r = JObj [(''name'', JStr (rec_name r)),
     (''status'', JStr (step_status_value (rec_status r))),
     (''error'', case rec_error r of None \<Rightarrow> JNull | Some e \<Rightarrow> JStr e)]"

text \<open>\<open>s['name']\<close>, \<open>SagaStepStatus(s['status'])\<close> and \<open>s.get('error')\<close>\<close>

definition step_record_parse :: "jval \<Rightarrow> py_exn + saga_step_record" where
  "step_record_parse j = (case j of
       JObj kvs \<Rightarrow> (case (map_of kvs ''name'', map_of kvs ''status'') of
           (Some (JStr n), Some (JStr v)) \<Rightarrow> (case step_status_parse v of
               Inl e \<Rightarrow> Inl e
             | Inr st \<Rightarrow> Inr \<lparr>rec_name = n, rec_status = st,
                 rec_error = (case map_of kvs ''error'' of Some (JStr e) \<Rightarrow> Some e | _ \<Rightarrow> None)\<rparr>)
         | _ \<Rightarrow> Inl (ValueError ''step''))
     | _ \<Rightarrow> Inl (ValueError ''step''))"

fun parse_steps :: "jval list \<Rightarrow> py_exn + saga_step_record list" where
  "parse_steps [] = Inr []"
| "parse_steps (j # js) = (case step_record_parse j of
       Inl e \<Rightarrow> Inl e
     | Inr r \<Rightarrow> (case parse_steps js of Inl e \<Rightarrow> Inl e | Inr rs \<Rightarrow> Inr (r # rs)))"

text \<open>The \<open>saga_key\<close> column is text: the driver rejects any other JSON value.\<close>

definition saga_key_of :: "jdict \<Rightarrow> py_exn + string option" where
  "saga_key_of c = (case jdict_get c ''saga_key'' of
       JNull \<Rightarrow> Inr None
     | JStr k \<Rightarrow> Inr (Some k)
     | _ \<Rightarrow> Inl (DatabaseError ''saga_key''))"

definition instance_to_values :: "saga_instance \<Rightarrow> py_exn + saga_row" where
  "instance_to_values i = (case saga_key_of (si_context i) of
       Inl e \<Rightarrow> Inl e
     | Inr k \<Rightarrow> Inr \<lparr>sr_saga_id = si_id i, sr_name = si_name i, sr_saga_key = k,
         sr_status = si_status i, sr_current_step = saga_current_step i, sr_context = si_context i,
         sr_steps = map step_record_json (si_steps i), sr_last_error = saga_last_error i,
         sr_created_at = si_created_at i, sr_updated_at = si_updated_at i\<rparr>)"

definition row_to_instance :: "saga_row \<Rightarrow> py_exn + saga_instance" where
  "row_to_instance r = (case parse_steps (sr_steps r) of
       Inl e \<Rightarrow> Inl e
     | Inr sts \<Rightarrow> Inr \<lparr>si_id = sr_saga_id r, si_name = sr_name r, si_status = sr_status r,
         si_context = sr_context r, si_steps = sts, si_created_at = sr_created_at r,
         si_updated_at = sr_updated_at r\<rparr>)"

section \<open>The repository\<close>

text \<open>
  \<open>save\<close>: an insert that on a conflict of \<open>saga_id\<close> updates six columns. The table's second
  unique constraint is \<open>(name, saga_key)\<close>; a \<open>NULL\<close> key conflicts with nothing.
\<close>

definition saga_save :: "saga_instance \<Rightarrow> (saga_row list, unit) eff" where
  "saga_save i t = (case instance_to_values i of
       Inl e \<Rightarrow> (Inl e, t)
     | Inr v \<Rightarrow>
         if list_ex (\<lambda>r. sr_saga_id r = sr_saga_id v) t then
           (Inr (), sql_update (\<lambda>r. sr_saga_id r = sr_saga_id v)
              (\<lambda>r. r\<lparr>sr_status := sr_status v, sr_current_step := sr_current_step v,
                     sr_context := sr_context v, sr_steps := sr_steps v,
                     sr_last_error := sr_last_error v, sr_updated_at := sr_updated_at v\<rparr>) t)
         else if sr_saga_key v \<noteq> None \<and>
             list_ex (\<lambda>r. sr_name r = sr_name v \<and> sr_saga_key r = sr_saga_key v) t
         then (Inl (IntegrityError ''uq_saga_name_key''), t)
         else (Inr (), t @ [v]))"

definition saga_get :: "string \<Rightarrow> saga_row list \<Rightarrow> py_exn + saga_instance option" where
  "saga_get sid t = (case find (\<lambda>r. sr_saga_id r = sid) t of
       None \<Rightarrow> Inr None
     | Some r \<Rightarrow> (case row_to_instance r of Inl e \<Rightarrow> Inl e | Inr i \<Rightarrow> Inr (Some i)))"

definition saga_get_by_key :: "string \<Rightarrow> string \<Rightarrow> saga_row list \<Rightarrow> py_exn + saga_instance option" where
  "saga_get_by_key n k t = (case find (\<lambda>r. sr_name r = n \<and> sr_saga_key r = Some k) t of
       None \<Rightarrow> Inr None
     | Some r \<Rightarrow> (case row_to_instance r of Inl e \<Rightarrow> Inl e | Inr i \<Rightarrow> Inr (Some i)))"

definition saga_statuses :: "saga_status list" where
  "saga_statuses = [SAGA_RUNNING, SAGA_COMPLETED, SAGA_COMPENSATING, SAGA_ABORTED, SAGA_FAILED]"

definition saga_get_stats :: "saga_row list \<Rightarrow> (saga_status \<times> int) list" where
  "saga_get_stats t = map (\<lambda>st. (st, sql_count (\<lambda>r. sr_status r = st) t)) saga_statuses"

section \<open>Round trips\<close>

lemma step_status_round_trip [simp]: "step_status_parse (step_status_value st) = Inr st"
  by (cases st) (simp_all add: step_status_parse_def)

lemma step_record_round_trip [simp]: "step_record_parse (step_record_json r) = Inr r"
  by (simp add: step_record_parse_def step_record_json_def split: option.splits)

lemma parse_steps_round_trip [simp]: "parse_steps (map step_record_json rs) = Inr rs"
  by (induction rs) simp_all

lemma row_round_trip:
  "instance_to_values i = Inr v \<Longrightarrow> row_to_instance v = Inr i"
  by (auto simp: instance_to_values_def row_to_instance_def split: sum.splits)

lemma values_facts:
  assumes "instance_to_values i = Inr v"
  shows "sr_saga_id v = si_id i" "sr_name v = si_name i" "sr_created_at v = si_created_at i"
    "saga_key_of (si_context i) = Inr (sr_saga_key v)"
  using assms by (auto simp: instance_to_values_def split: sum.splits)

text \<open>What the executor's instances need of the table: ids are unique, and the row under the
  instance's id, if any, is this saga's.\<close>

definition saga_fits :: "saga_instance \<Rightarrow> saga_row list \<Rightarrow> bool" where
  "saga_fits i t \<longleftrightarrow> distinct (map sr_saga_id t) \<and>
     (\<forall>r \<in> set t. sr_saga_id r = si_id i \<longrightarrow> sr_name r = si_name i \<and> sr_created_at r = si_created_at i)"

lemma saga_row_updated:
  assumes v: "instance_to_values i = Inr v"
    and r: "sr_saga_id r = si_id i" "sr_name r = si_name i" "sr_created_at r = si_created_at i"
  shows "row_to_instance (r\<lparr>sr_status := sr_status v, sr_current_step := sr_current_step v,
     sr_context := sr_context v, sr_steps := sr_steps v, sr_last_error := sr_last_error v,
     sr_updated_at := sr_updated_at v\<rparr>) = Inr i"
  using row_round_trip [OF v] values_facts [OF v] r
  by (auto simp: row_to_instance_def split: sum.splits)

lemma saga_save_fits:
  assumes "saga_fits i t" and "saga_save i t = (Inr (), t')"
  shows "saga_fits i t'"
  using assms
  by (auto simp: saga_fits_def saga_save_def sql_update_map_key set_sql_update list_ex_iff values_facts
      split: sum.splits if_splits; blast)

lemma saga_get_saved:
  assumes fits: "saga_fits i t" and save: "saga_save i t = (Inr (), t')"
  shows "saga_get (si_id i) t' = Inr (Some i)"
proof -
  obtain v where v: "instance_to_values i = Inr v"
    using save by (auto simp: saga_save_def split: sum.splits)
  have fits': "distinct (map sr_saga_id t')" using saga_save_fits [OF assms] by (simp add: saga_fits_def)
  obtain r where r: "r \<in> set t'" "sr_saga_id r = si_id i" "row_to_instance r = Inr i"
  proof (cases "list_ex (\<lambda>r. sr_saga_id r = si_id i) t")
    case True
    then obtain r0 where r0: "r0 \<in> set t" "sr_saga_id r0 = si_id i" by (auto simp: list_ex_iff)
    let ?r = "r0\<lparr>sr_status := sr_status v, sr_current_step := sr_current_step v,
       sr_context := sr_context v, sr_steps := sr_steps v, sr_last_error := sr_last_error v,
       sr_updated_at := sr_updated_at v\<rparr>"
    have "row_to_instance ?r = Inr i"
      using fits r0 by (intro saga_row_updated [OF v]) (auto simp: saga_fits_def)
    moreover have "?r \<in> set t'"
      using save v True r0 values_facts [OF v] by (auto simp: saga_save_def set_sql_update)
    ultimately show thesis using that r0(2) by simp
  next
    case False
    then have "t' = t @ [v]"
      using save v values_facts(1) [OF v] by (auto simp: saga_save_def split: if_splits)
    with that [of v] row_round_trip [OF v] values_facts(1) [OF v] show thesis by simp
  qed
  then show ?thesis
    using find_distinct_key [OF fits' r(1,2)] by (simp add: saga_get_def)
qed

interpretation sql_saga: saga_store saga_save saga_get saga_fits
proof
  fix i j t t' e
  show "saga_fits i t \<Longrightarrow> saga_save i t = (Inr (), t') \<Longrightarrow> saga_get (si_id i) t' = Inr (Some i)"
    by (rule saga_get_saved)
  show "saga_fits i t \<Longrightarrow> saga_save i t = (Inr (), t') \<Longrightarrow> saga_fits i t'"
    by (rule saga_save_fits)
  show "saga_fits i t \<Longrightarrow> same_saga i j \<Longrightarrow> saga_fits j t"
    by (simp add: saga_fits_def same_saga_def)
  show "saga_save i t = (Inl e, t') \<Longrightarrow> \<not> is_saga_error e"
    by (auto simp: saga_save_def instance_to_values_def saga_key_of_def
        split: sum.splits if_splits jval.splits)
qed

section \<open>Properties\<close>

text \<open>C23: when the repository accepts every checkpoint, a run of a saga does to the context and
  the world what the reference does: the actions in order up to the first failure, then the
  compensations of the completed steps, latest first, up to the first that fails. The result, the
  saga's status and the status of every step are the corresponding ones.\<close>

theorem saga_run_reference:
  assumes "saves save" and "saga_run save rz clock repr uuid d ctx saga_id r w = (x, s')"
  shows "saga_ends rz (sd_steps d) (saga_forward (sd_steps d) (jdict_or_empty ctx, w)) x s'"
proof -
  let ?s0 = "\<lparr>sg_inst = saga_new_instance d ctx saga_id uuid (clock 0), sg_repo = r, sg_world = w, sg_tick = 1\<rparr>"
  obtain q where q: "saga_checkpoint save ?s0 = (Inr (), ?s0\<lparr>sg_repo := q\<rparr>)"
    using checkpoint_ok [OF assms(1)] by blast
  let ?s1 = "?s0\<lparr>sg_repo := q\<rparr>"
  have st: "statuses ?s1 = replicate 0 STEP_COMPLETED @ replicate (length (sd_steps d) - 0) STEP_PENDING"
    by (simp add: statuses_def saga_new_instance_def comp_def map_replicate_const)
  have cw: "cw_of ?s1 = (jdict_or_empty ctx, w)" by (simp add: cw_of_def saga_new_instance_def)
  obtain k err cw where f: "saga_forward (sd_steps d) (cw_of ?s1) = (k, err, cw)" by (metis prod_cases3)
  have "saga_loop save rz clock repr (sd_steps d) 0 (sd_steps d) ?s1 = (x, s')"
    using assms(2) q by (simp add: saga_run_def eff_simps)
  from saga_loop_reference [OF assms(1) _ _ st f this] show ?thesis using f cw by simp
qed

definition demo_step :: "string \<Rightarrow> bool \<Rightarrow> string list saga_step" where
  "demo_step n fails = \<lparr>step_name = n,
     step_action = (\<lambda>(c, w). (if fails then Inl TimeoutError else Inr (), (c, w @ [''do '' @ n]))),
     step_compensation = Some (\<lambda>(c, w). (Inr (), (c, w @ [''undo '' @ n])))\<rparr>"

definition demo_saga :: "string list saga_definition" where
  "demo_saga = \<lparr>sd_name = ''deposit'', sd_steps = [demo_step ''a'' False, demo_step ''b'' False, demo_step ''c'' True]\<rparr>"

lemma demo_saga_run:
  "saga_forward (sd_steps demo_saga) (Map.empty, []) =
     (2, Some TimeoutError, (Map.empty, [''do a'', ''do b'', ''do c'']))"
  "saga_backward (rev (take 2 (sd_steps demo_saga))) (Map.empty, [''do a'', ''do b'', ''do c'']) =
     (None, (Map.empty, [''do a'', ''do b'', ''do c'', ''undo b'', ''undo a'']))"
  by (simp_all add: demo_saga_def demo_step_def)

theorem saga_run_reference_witness:
  "sg_world (snd (saga_run (\<lambda>i r. (Inr (), r)) True (\<lambda>n. of_nat n) (\<lambda>_. ''err'') ''id1'' demo_saga None None () [])) =
     [''do a'', ''do b'', ''do c'', ''undo b'', ''undo a'']"
  using saga_run_reference [of "\<lambda>i r. (Inr (), r)" "True" "\<lambda>n. of_nat n" "\<lambda>_. ''err''" "''id1''"
      demo_saga None None "()" "[]", OF _ surjective_pairing]
  by (simp add: saves_def saga_ends_def cw_of_def demo_saga_run jdict_or_empty_def)

text \<open>a saga is durable: when a run on the database repository ends with an instance, with
  \<open>SagaAbortedError\<close> or with \<open>SagaCompensationError\<close>, loading its id gives exactly the instance as
  the run left it, whatever actions and compensations did in between.\<close>

theorem saga_run_durable:
  assumes "saga_fits (saga_new_instance d ctx saga_id uuid (clock 0)) t"
    and "saga_run saga_save rz clock repr uuid d ctx saga_id t w = (x, s')" and "saga_answer x"
  shows "saga_get (si_id (sg_inst s')) (sg_repo s') = Inr (Some (sg_inst s'))"
  using assms by (rule sql_saga.run_stores)

theorem saga_run_durable_witness:
  "let s' = snd (saga_run saga_save False (\<lambda>n. of_nat n) (\<lambda>_. ''err'') ''id1'' demo_saga None None [] []) in
   saga_get (si_id (sg_inst s')) (sg_repo s') = Inr (Some (sg_inst s'))"
proof -
  let ?run = "saga_run saga_save False (\<lambda>n. of_nat n) (\<lambda>_. ''err'') ''id1'' demo_saga None None [] []"
  have "saga_answer (fst ?run)"
    by (simp add: saga_run_def saga_new_instance_def demo_saga_def demo_step_def saga_checkpoint_def
        saga_save_def instance_to_values_def saga_key_of_def jdict_get_def jdict_or_empty_def eff_simps
        saga_perform_def saga_touch_def saga_set_step_def saga_set_status_def saga_answer_def
        eval_nat_numeral)
  then show ?thesis
    using saga_run_durable [of demo_saga None None "''id1''" "\<lambda>n. of_nat n" "[]" False "\<lambda>_. ''err''" "[]"
        "fst ?run" "snd ?run"]
    by (simp add: saga_fits_def Let_def)
qed

text \<open>\<open>save\<close> then \<open>get\<close> gives the instance back, steps and errors included, through the JSON
  columns; and \<open>save\<close> leaves every other saga alone.\<close>

theorem saga_save_get:
  assumes "saga_fits i t" and "saga_save i t = (Inr (), t')"
  shows "saga_get j t' = (if j = si_id i then Inr (Some i) else saga_get j t)"
proof (cases "j = si_id i")
  case True
  then show ?thesis using saga_get_saved [OF assms] by simp
next
  case False
  have up: "find (\<lambda>r. sr_saga_id r = j) (sql_update (\<lambda>r. sr_saga_id r = si_id i) f t) =
      find (\<lambda>r. sr_saga_id r = j) t" if "\<And>r. sr_saga_id (f r) = sr_saga_id r" for f
    using False that by (induction t) (auto simp: sql_update_def)
  have "find (\<lambda>r. sr_saga_id r = j) (t @ [v]) = find (\<lambda>r. sr_saga_id r = j) t"
    if "sr_saga_id v = si_id i" for v
    using False that by (induction t) auto
  with False assms(2) show ?thesis
    by (auto simp: saga_get_def saga_save_def values_facts up split: sum.splits if_splits)
qed

theorem saga_save_get_witness:
  "let i = (saga_new_instance demo_saga None None ''id1'' 5)
       \<lparr>si_steps := [\<lparr>rec_name = ''a'', rec_status = STEP_FAILED, rec_error = Some ''boom''\<rparr>]\<rparr> in
   saga_get ''id1'' (snd (saga_save i [])) = Inr (Some i)"
  using saga_save_get [of "(saga_new_instance demo_saga None None ''id1'' 5)
      \<lparr>si_steps := [\<lparr>rec_name = ''a'', rec_status = STEP_FAILED, rec_error = Some ''boom''\<rparr>]\<rparr>" "[]" _ "''id1''",
      OF _ prod_eqI]
  by (simp add: saga_fits_def saga_save_def instance_to_values_def saga_key_of_def saga_new_instance_def
      jdict_get_def jdict_or_empty_def or_str_def Let_def)

text \<open>the business key of a saga is fixed by its first checkpoint: a later \<open>save\<close> stores the
  new context but never changes which \<open>(name, saga_key)\<close> pairs \<open>get_by_key\<close> finds, so a key that an
  action puts into the context is never found.\<close>

theorem saga_key_fixed_by_first_save:
  assumes "r \<in> set t" and "sr_saga_id r = si_id i" and "saga_save i t = (Inr (), t')"
  shows "saga_get_by_key n k t' = Inr None \<longleftrightarrow> saga_get_by_key n k t = Inr None"
proof -
  have none: "saga_get_by_key n k u = Inr None \<longleftrightarrow> (\<forall>r \<in> set u. \<not> (sr_name r = n \<and> sr_saga_key r = Some k))" for u
    by (auto simp: saga_get_by_key_def find_None_iff split: option.splits sum.splits dest!: find_SomeD)
  obtain v where v: "instance_to_values i = Inr v"
    using assms(3) by (auto simp: saga_save_def split: sum.splits)
  have "list_ex (\<lambda>r. sr_saga_id r = sr_saga_id v) t"
    using assms(1,2) values_facts(1) [OF v] by (auto simp: list_ex_iff)
  then have "map (\<lambda>r. (sr_name r, sr_saga_key r)) t' = map (\<lambda>r. (sr_name r, sr_saga_key r)) t"
    using assms(3) v by (auto simp: saga_save_def sql_update_map_key split: if_splits)
  then have "(\<lambda>r. (sr_name r, sr_saga_key r)) ` set t' = (\<lambda>r. (sr_name r, sr_saga_key r)) ` set t"
    by (metis list.set_map)
  then have "(n, Some k) \<in> (\<lambda>r. (sr_name r, sr_saga_key r)) ` set t' \<longleftrightarrow>
      (n, Some k) \<in> (\<lambda>r. (sr_name r, sr_saga_key r)) ` set t" by simp
  then show ?thesis unfolding none by (auto simp: image_iff)
qed

theorem saga_key_fixed_by_first_save_witness:
  "let i = saga_new_instance demo_saga None None ''id1'' 5;
       t = snd (saga_save i []);
       j = i\<lparr>si_context := [''saga_key'' \<mapsto> JStr ''eth:0xabc'']\<rparr> in
   saga_get_by_key ''deposit'' ''eth:0xabc'' (snd (saga_save j t)) = Inr None"
proof -
  let ?i = "saga_new_instance demo_saga None None ''id1'' 5"
  let ?j = "?i\<lparr>si_context := [''saga_key'' \<mapsto> JStr ''eth:0xabc'']\<rparr>"
  have t: "snd (saga_save ?i []) = [\<lparr>sr_saga_id = ''id1'', sr_name = ''deposit'', sr_saga_key = None,
      sr_status = SAGA_RUNNING, sr_current_step = saga_current_step ?i, sr_context = Map.empty,
      sr_steps = map step_record_json (si_steps ?i), sr_last_error = saga_last_error ?i,
      sr_created_at = 5, sr_updated_at = 5\<rparr>]"
    by (simp add: saga_save_def instance_to_values_def saga_key_of_def saga_new_instance_def
        jdict_get_def jdict_or_empty_def or_str_def demo_saga_def)
  have j: "fst (saga_save ?j (snd (saga_save ?i []))) = Inr ()" "si_id ?j = ''id1''"
    unfolding t by (simp_all add: saga_save_def instance_to_values_def saga_key_of_def saga_new_instance_def
        jdict_get_def or_str_def)
  then show ?thesis
    using saga_key_fixed_by_first_save [of _ "snd (saga_save ?i [])" ?j
        "snd (saga_save ?j (snd (saga_save ?i [])))" "''deposit''" "''eth:0xabc''"]
    by (simp add: t Let_def prod_eq_iff saga_get_by_key_def)
qed

text \<open>a business key is used up for good: as long as the row of any saga with the same name
  and key exists, finished sagas included, starting another one raises \<open>IntegrityError\<close> before
  any action runs.\<close>

theorem saga_key_never_reused:
  assumes "r \<in> set t" and "sr_name r = sd_name d" and "sr_saga_key r = Some k"
    and "jdict_or_empty ctx ''saga_key'' = Some (JStr k)"
    and "\<forall>r \<in> set t. sr_saga_id r \<noteq> or_str saga_id uuid"
  shows "fst (saga_run saga_save rz clock repr uuid d ctx saga_id t w) = Inl (IntegrityError ''uq_saga_name_key'') \<and>
     sg_world (snd (saga_run saga_save rz clock repr uuid d ctx saga_id t w)) = w"
proof -
  have "list_ex (\<lambda>r. sr_name r = sd_name d \<and> sr_saga_key r = Some k) t"
    using assms(1-3) by (auto simp: list_ex_iff)
  moreover have "\<not> list_ex (\<lambda>r. sr_saga_id r = or_str saga_id uuid) t"
    using assms(5) by (auto simp: list_ex_iff)
  ultimately show ?thesis
    using assms(4)
    by (simp add: saga_run_def saga_checkpoint_def saga_save_def instance_to_values_def saga_key_of_def
        saga_new_instance_def jdict_get_def eff_simps)
qed

theorem saga_key_never_reused_witness:
  "let r = \<lparr>sr_saga_id = ''old'', sr_name = ''deposit'', sr_saga_key = Some ''k'', sr_status = SAGA_COMPLETED,
      sr_current_step = None, sr_context = Map.empty, sr_steps = [], sr_last_error = None,
      sr_created_at = 1, sr_updated_at = 2\<rparr> in
   fst (saga_run saga_save True (\<lambda>n. of_nat n) (\<lambda>_. ''err'') ''new'' demo_saga
     (Some [''saga_key'' \<mapsto> JStr ''k'']) None [r] []) = Inl (IntegrityError ''uq_saga_name_key'')"
  using saga_key_never_reused [of "\<lparr>sr_saga_id = ''old'', sr_name = ''deposit'', sr_saga_key = Some ''k'',
      sr_status = SAGA_COMPLETED, sr_current_step = None, sr_context = Map.empty, sr_steps = [],
      sr_last_error = None, sr_created_at = 1, sr_updated_at = 2\<rparr>" "[_]" demo_saga "''k''"
      "Some [''saga_key'' \<mapsto> JStr ''k'']" None "''new''" True "\<lambda>n. of_nat n" "\<lambda>_. ''err''" "[]"]
  by (simp add: demo_saga_def jdict_or_empty_def or_str_def Let_def)

end
