(* ===== verification/Outbox_Relay.thy ===== *)
theory Outbox_Relay
  imports Outbox_Store
begin

text \<open>
  The outbox relay: \<open>OutboxPoller\<close> (\<open>resiliant/outbox/outbox_poller.py\<close>) with its runtime state
  and \<open>OutboxMetrics\<close> (\<open>outbox_metrics.py\<close>). The broker is a computation on its own state \<open>'b\<close>.
  Measured durations, the clock, the random draw and whether the statement that marks an event
  as published fails (\<open>dbf\<close>) are parameters. Tasks, signals and the Postgres listener connection
  are not modelled; one turn of a worker loop and one of the maintenance loop are.
\<close>

section \<open>Metrics\<close>

record outbox_metrics =
  om_total_polls :: int
  om_empty_polls :: int
  om_successful_polls :: int
  om_failed_polls :: int
  om_total_events_processed :: int
  om_total_events_published :: int
  om_total_events_failed :: int
  om_total_events_moved_to_dlq :: int
  om_min_poll_duration_ms :: "rat option"
  om_max_poll_duration_ms :: "rat option"
  om_avg_poll_duration_ms :: rat
  om_min_publish_duration_ms :: "rat option"
  om_max_publish_duration_ms :: "rat option"
  om_avg_publish_duration_ms :: rat
  om_min_batch_size :: "int option"
  om_max_batch_size :: "int option"
  om_avg_batch_size :: rat
  om_current_poll_interval_ms :: rat
  om_stale_events_reset :: int

definition outbox_metrics_init :: outbox_metrics where
  "outbox_metrics_init = \<lparr>om_total_polls = 0, om_empty_polls = 0, om_successful_polls = 0,
     om_failed_polls = 0, om_total_events_processed = 0, om_total_events_published = 0,
     om_total_events_failed = 0, om_total_events_moved_to_dlq = 0, om_min_poll_duration_ms = None,
     om_max_poll_duration_ms = None, om_avg_poll_duration_ms = 0, om_min_publish_duration_ms = None,
     om_max_publish_duration_ms = None, om_avg_publish_duration_ms = 0, om_min_batch_size = None,
     om_max_batch_size = None, om_avg_batch_size = 0, om_current_poll_interval_ms = 500,
     om_stale_events_reset = 0\<rparr>"

definition opt_min :: "'a::linorder option \<Rightarrow> 'a \<Rightarrow> 'a" where
  "opt_min m x = (case m of None \<Rightarrow> x | Some y \<Rightarrow> min y x)"

definition opt_max :: "'a::linorder option \<Rightarrow> 'a \<Rightarrow> 'a" where
  "opt_max m x = (case m of None \<Rightarrow> x | Some y \<Rightarrow> max y x)"

definition metrics_record_poll :: "rat \<Rightarrow> int \<Rightarrow> bool \<Rightarrow> outbox_metrics \<Rightarrow> outbox_metrics" where
  "metrics_record_poll duration batch_size success m =
     (let total = om_total_polls m + 1;
          empty = (if batch_size = 0 then om_empty_polls m + 1 else om_empty_polls m);
          m1 = m\<lparr>om_total_polls := total, om_empty_polls := empty,
             om_successful_polls := (if success then om_successful_polls m + 1 else om_successful_polls m),
             om_failed_polls := (if success then om_failed_polls m else om_failed_polls m + 1),
             om_min_poll_duration_ms := Some (opt_min (om_min_poll_duration_ms m) duration),
             om_max_poll_duration_ms := Some (opt_max (om_max_poll_duration_ms m) duration),
             om_avg_poll_duration_ms :=
               (om_avg_poll_duration_ms m * of_int (total - 1) + duration) / of_int total\<rparr>
      in if 0 < batch_size then
           (let batches = total - empty in
            m1\<lparr>om_min_batch_size := Some (opt_min (om_min_batch_size m) batch_size),
               om_max_batch_size := Some (opt_max (om_max_batch_size m) batch_size),
               om_avg_batch_size :=
                 (om_avg_batch_size m * of_int (batches - 1) + of_int batch_size) / of_int batches\<rparr>)
         else m1)"

definition metrics_record_publish :: "rat \<Rightarrow> bool \<Rightarrow> bool \<Rightarrow> outbox_metrics \<Rightarrow> outbox_metrics" where
  "metrics_record_publish duration success moved_to_dlq m =
     (let published = (if success then om_total_events_published m + 1 else om_total_events_published m);
          m1 = m\<lparr>om_total_events_processed := om_total_events_processed m + 1,
             om_total_events_published := published,
             om_total_events_failed := (if success then om_total_events_failed m else om_total_events_failed m + 1),
             om_total_events_moved_to_dlq := (if moved_to_dlq then om_total_events_moved_to_dlq m + 1
               else om_total_events_moved_to_dlq m)\<rparr>
      in if success then
           m1\<lparr>om_min_publish_duration_ms := Some (opt_min (om_min_publish_duration_ms m) duration),
              om_max_publish_duration_ms := Some (opt_max (om_max_publish_duration_ms m) duration),
              om_avg_publish_duration_ms := (if 0 < published then
                (om_avg_publish_duration_ms m * of_int (published - 1) + duration) / of_int published
                else om_avg_publish_duration_ms m)\<rparr>
         else m1)"

definition metrics_empty_poll_rate :: "outbox_metrics \<Rightarrow> rat" where
  "metrics_empty_poll_rate m = (if 0 < om_total_polls m
     then of_int (om_empty_polls m) / of_int (om_total_polls m) * 100 else 0)"

definition metrics_success_rate :: "outbox_metrics \<Rightarrow> rat" where
  "metrics_success_rate m = (if 0 < om_total_events_processed m
     then of_int (om_total_events_published m) / of_int (om_total_events_processed m) * 100 else 0)"

section \<open>The poller\<close>

record poller_state =
  ps_current_interval_ms :: rat
  ps_consecutive_empty_polls :: int
  ps_consecutive_full_polls :: int
  ps_total_polls :: int
  ps_total_events_processed :: int

definition poller_reset_interval :: "outbox_config \<Rightarrow> poller_state \<Rightarrow> poller_state" where
  "poller_reset_interval c st = st\<lparr>ps_current_interval_ms := of_int (oc_initial_poll_interval_ms c),
     ps_consecutive_empty_polls := 0, ps_consecutive_full_polls := 0\<rparr>"

record 'b relay =
  rl_rows :: outbox_table
  rl_broker :: 'b
  rl_state :: poller_state
  rl_metrics :: "outbox_metrics option"

definition relay_init :: "outbox_config \<Rightarrow> outbox_table \<Rightarrow> 'b \<Rightarrow> 'b relay" where
  "relay_init c t b = \<lparr>rl_rows = t, rl_broker = b,
     rl_state = \<lparr>ps_current_interval_ms = of_int (oc_initial_poll_interval_ms c),
       ps_consecutive_empty_polls = 0, ps_consecutive_full_polls = 0, ps_total_polls = 0,
       ps_total_events_processed = 0\<rparr>,
     rl_metrics = (if oc_enable_metrics c then Some outbox_metrics_init else None)\<rparr>"

definition relay_meter :: "(outbox_metrics \<Rightarrow> outbox_metrics) \<Rightarrow> 'b relay \<Rightarrow> 'b relay" where
  "relay_meter f s = s\<lparr>rl_metrics := map_option f (rl_metrics s)\<rparr>"

definition relay_publish_event ::
  "(outbox_row \<Rightarrow> ('b, unit) eff) \<Rightarrow> (string \<Rightarrow> py_exn option) \<Rightarrow> rat \<Rightarrow> int \<Rightarrow> outbox_row \<Rightarrow>
   ('b relay, unit) eff" where
  "relay_publish_event pub dbf duration now ev s =
     (let failed = (\<lambda>e s. if is_exception e
            then (Inr (), relay_meter (metrics_record_publish duration False
                   (ob_retry_count ev + 1 \<ge> ob_max_retries ev)) s)
            else (Inl e, s))
      in case pub ev (rl_broker s) of
           (Inl e, b) \<Rightarrow> failed e (s\<lparr>rl_broker := b\<rparr>)
         | (Inr _, b) \<Rightarrow> (case dbf (ob_id ev) of
               Some e \<Rightarrow> failed e (s\<lparr>rl_broker := b\<rparr>)
             | None \<Rightarrow> (Inr (), relay_meter (metrics_record_publish duration True False)
                 (s\<lparr>rl_broker := b, rl_rows := outbox_mark_published now (ob_id ev) (rl_rows s)\<rparr>))))"

definition relay_count_poll :: "rat \<Rightarrow> int \<Rightarrow> 'b relay \<Rightarrow> 'b relay" where
  "relay_count_poll duration fetched s =
     (let st = rl_state s;
          s1 = relay_meter (\<lambda>m. (metrics_record_poll duration fetched True m)
                 \<lparr>om_current_poll_interval_ms := ps_current_interval_ms st\<rparr>) s
      in s1\<lparr>rl_state := st\<lparr>ps_total_polls := ps_total_polls st + 1,
           ps_total_events_processed := ps_total_events_processed st + fetched,
           ps_consecutive_empty_polls := (if fetched > 0 then 0 else ps_consecutive_empty_polls st + 1),
           ps_consecutive_full_polls := (if fetched > 0 then ps_consecutive_full_polls st + 1 else 0)\<rparr>\<rparr>)"

definition relay_poll_and_publish ::
  "outbox_row sql_order \<Rightarrow> outbox_config \<Rightarrow> (outbox_row \<Rightarrow> ('b, unit) eff) \<Rightarrow> (string \<Rightarrow> py_exn option) \<Rightarrow>
   rat \<Rightarrow> int \<Rightarrow> string set \<Rightarrow> ('b relay, int) eff" where
  "relay_poll_and_publish ob c pub dbf duration now locked s =
     (case outbox_fetch_pending_batch ob c (Some (oc_batch_size c)) now locked (rl_rows s) of
        (Inl e, t) \<Rightarrow> if is_exception e
          then (Inr 0, relay_meter (metrics_record_poll duration 0 False) (s\<lparr>rl_rows := t\<rparr>))
          else (Inl e, s\<lparr>rl_rows := t\<rparr>)
      | (Inr events, t) \<Rightarrow>
          eff_bind (eff_for events (relay_publish_event pub dbf duration now))
            (\<lambda>_. eff_return (int (length events)))
            (relay_count_poll duration (int (length events)) (s\<lparr>rl_rows := t\<rparr>)))"

text \<open>\<open>u\<close> is the draw of \<open>random.random()\<close> behind \<open>random.uniform(lower, upper)\<close>.\<close>

definition relay_compute_next_sleep :: "outbox_config \<Rightarrow> rat \<Rightarrow> int \<Rightarrow> poller_state \<Rightarrow> rat \<times> poller_state" where
  "relay_compute_next_sleep c u fetched st =
     (let interval =
        (if oc_poll_strategy c = ''fixed'' then of_int (oc_fixed_poll_interval_ms c)
         else if fetched > 0 then of_int (oc_min_poll_interval_ms c)
         else (let lower = of_int (oc_min_poll_interval_ms c);
                   upper0 = min (of_int (oc_max_poll_interval_ms c))
                              (ps_current_interval_ms st * oc_backoff_growth_factor c);
                   upper = (if upper0 < lower then lower else upper0)
               in lower + (upper - lower) * u))
      in (interval, st\<lparr>ps_current_interval_ms := interval\<rparr>))"

datatype relay_next = Poll_again | Sleep_or_wake rat | Back_off rat | Stop_worker

text \<open>One turn of \<open>_worker_loop\<close>.\<close>

definition relay_worker_turn ::
  "outbox_row sql_order \<Rightarrow> outbox_config \<Rightarrow> (outbox_row \<Rightarrow> ('b, unit) eff) \<Rightarrow> (string \<Rightarrow> py_exn option) \<Rightarrow>
   rat \<Rightarrow> int \<Rightarrow> string set \<Rightarrow> rat \<Rightarrow> ('b relay, relay_next) eff" where
  "relay_worker_turn ob c pub dbf duration now locked u s =
     (case relay_poll_and_publish ob c pub dbf duration now locked s of
        (Inl e, s1) \<Rightarrow> if e = CancelledError then (Inr Stop_worker, s1)
          else if is_exception e then (Inr (Back_off 1), s1) else (Inl e, s1)
      | (Inr fetched, s1) \<Rightarrow>
          if fetched \<ge> max 1 (py_int (of_int (oc_batch_size c) * oc_drain_threshold_ratio c))
          then (Inr Poll_again, s1)
          else (case relay_compute_next_sleep c u fetched (rl_state s1) of
            (ms, st) \<Rightarrow> (Inr (Sleep_or_wake (ms / 1000)), s1\<lparr>rl_state := st\<rparr>)))"

text \<open>The database part of one turn of \<open>_maintenance_loop\<close>.\<close>

definition relay_maintenance_turn :: "outbox_config \<Rightarrow> int \<Rightarrow> 'b relay \<Rightarrow> outbox_stats \<times> 'b relay" where
  "relay_maintenance_turn c now s =
     (case outbox_reset_stale_processing c None now (rl_rows s) of (n_reset, t) \<Rightarrow>
        (outbox_get_stats now t,
         (if n_reset > 0 then relay_meter (\<lambda>m. m\<lparr>om_stale_events_reset := om_stale_events_reset m + n_reset\<rparr>)
          else id) (s\<lparr>rl_rows := t\<rparr>)))"

section \<open>Metrics are the exact statistics\<close>

definition metrics_polls :: "(rat \<times> int \<times> bool) list \<Rightarrow> outbox_metrics" where
  "metrics_polls ps = fold (\<lambda>(d, b, ok). metrics_record_poll d b ok) ps outbox_metrics_init"

lemma metrics_polls_snoc:
  "metrics_polls (ps @ [(d, b, ok)]) = metrics_record_poll d b ok (metrics_polls ps)"
  by (simp add: metrics_polls_def)

lemma metrics_polls_counts:
  "om_total_polls (metrics_polls ps) = int (length ps)"
  "om_empty_polls (metrics_polls ps) = int (length (filter (\<lambda>(d, b, ok). b = 0) ps))"
  "om_successful_polls (metrics_polls ps) + om_failed_polls (metrics_polls ps) = int (length ps)"
proof (induction ps rule: rev_induct)
  case Nil
  { case 1 show ?case by (simp add: metrics_polls_def outbox_metrics_init_def) }
  { case 2 show ?case by (simp add: metrics_polls_def outbox_metrics_init_def) }
  { case 3 show ?case by (simp add: metrics_polls_def outbox_metrics_init_def) }
next
  case (snoc p ps)
  obtain d b ok where p: "p = (d, b, ok)" by (rule prod_cases3)
  { case 1 then show ?case using snoc.IH by (simp add: p metrics_polls_snoc metrics_record_poll_def Let_def) }
  { case 2 then show ?case using snoc.IH by (simp add: p metrics_polls_snoc metrics_record_poll_def Let_def) }
  { case 3 then show ?case using snoc.IH by (simp add: p metrics_polls_snoc metrics_record_poll_def Let_def) }
qed

lemma metrics_polls_avg:
  "om_avg_poll_duration_ms (metrics_polls ps) * of_nat (length ps) = sum_list (map fst ps)"
proof (induction ps rule: rev_induct)
  case (snoc p ps)
  obtain d b ok where p: "p = (d, b, ok)" by (rule prod_cases3)
  have "om_avg_poll_duration_ms (metrics_polls (ps @ [p])) =
      (om_avg_poll_duration_ms (metrics_polls ps) * of_nat (length ps) + d) / (of_nat (length ps) + 1)"
    by (simp add: p metrics_polls_snoc metrics_record_poll_def Let_def metrics_polls_counts)
  moreover have "of_nat (length ps) + (1::rat) \<noteq> 0"
    using of_nat_0_le_iff [of "length ps", where 'a = rat] by linarith
  ultimately have "om_avg_poll_duration_ms (metrics_polls (ps @ [p])) * (of_nat (length ps) + 1) =
      om_avg_poll_duration_ms (metrics_polls ps) * of_nat (length ps) + d" by simp
  with snoc p show ?case by (simp add: add.commute)
qed (simp add: metrics_polls_def)

section \<open>What one poll does\<close>

text \<open>
  A broker that records what it accepts: \<open>acc\<close> gives the exception an event is refused with.
\<close>

definition logged_broker :: "(outbox_row \<Rightarrow> py_exn option) \<Rightarrow> outbox_row \<Rightarrow> (outbox_row list, unit) eff" where
  "logged_broker acc ev sent = (case acc ev of None \<Rightarrow> (Inr (), sent @ [ev]) | Some e \<Rightarrow> (Inl e, sent))"

definition relay_published :: "(outbox_row \<Rightarrow> py_exn option) \<Rightarrow> (string \<Rightarrow> py_exn option) \<Rightarrow> outbox_row \<Rightarrow> bool" where
  "relay_published acc dbf ev \<longleftrightarrow> acc ev = None \<and> dbf (ob_id ev) = None"

definition published_row :: "int \<Rightarrow> outbox_row \<Rightarrow> outbox_row" where
  "published_row now r = r\<lparr>ob_status := OB_PUBLISHED, ob_processed_at := Some now, ob_updated_at := now\<rparr>"

definition ordinary :: "(outbox_row \<Rightarrow> py_exn option) \<Rightarrow> (string \<Rightarrow> py_exn option) \<Rightarrow> bool" where
  "ordinary acc dbf \<longleftrightarrow> (\<forall>r e. acc r = Some e \<longrightarrow> is_exception e) \<and> (\<forall>i e. dbf i = Some e \<longrightarrow> is_exception e)"

lemma relay_meter_simps [simp]:
  "rl_rows (relay_meter f s) = rl_rows s" "rl_broker (relay_meter f s) = rl_broker s"
  by (simp_all add: relay_meter_def)

lemma relay_count_poll_simps [simp]:
  "rl_rows (relay_count_poll d n s) = rl_rows s" "rl_broker (relay_count_poll d n s) = rl_broker s"
  by (simp_all add: relay_count_poll_def Let_def)

lemma publish_event_effect:
  assumes "ordinary acc dbf"
  shows "\<exists>s'. relay_publish_event (logged_broker acc) dbf d now ev s = (Inr (), s') \<and>
    rl_broker s' = rl_broker s @ (if acc ev = None then [ev] else []) \<and>
    rl_rows s' = sql_update (\<lambda>r. ob_id r = ob_id ev \<and> relay_published acc dbf ev) (published_row now) (rl_rows s)"
  using assms
  by (auto simp: relay_publish_event_def logged_broker_def ordinary_def relay_published_def Let_def
      outbox_mark_published_def published_row_def [abs_def] sql_update_unmatched split: option.splits)

lemma publish_events_effect:
  assumes "ordinary acc dbf"
  shows "\<exists>s'. eff_for evs (relay_publish_event (logged_broker acc) dbf d now) s = (Inr (), s') \<and>
    rl_broker s' = rl_broker s @ filter (\<lambda>ev. acc ev = None) evs \<and>
    rl_rows s' = sql_update (\<lambda>r. ob_id r \<in> ob_id ` set (filter (relay_published acc dbf) evs))
      (published_row now) (rl_rows s)"
proof (induction evs arbitrary: s)
  case Nil
  then show ?case by (simp add: sql_update_unmatched)
next
  case (Cons ev evs)
  obtain s1 where s1: "relay_publish_event (logged_broker acc) dbf d now ev s = (Inr (), s1)"
    "rl_broker s1 = rl_broker s @ (if acc ev = None then [ev] else [])"
    "rl_rows s1 = sql_update (\<lambda>r. ob_id r = ob_id ev \<and> relay_published acc dbf ev) (published_row now) (rl_rows s)"
    using publish_event_effect [OF assms] by metis
  have idem: "published_row now (published_row now r) = published_row now r" for r
    by (simp add: published_row_def)
  have oid: "ob_id (published_row now r) = ob_id r" for r by (simp add: published_row_def)
  show ?case using Cons.IH [of s1] s1
    by (auto simp: sql_update_def idem oid)
qed

section \<open>The relay as a transition system\<close>

text \<open>
  Producers save events under fresh ids, workers poll with whatever the broker and the database
  answer, and the maintenance loop resets stale events.
\<close>

inductive relay_step :: "outbox_config \<Rightarrow> outbox_row list relay \<Rightarrow> outbox_row list relay \<Rightarrow> bool" for c where
  relay_produce: "new_id \<notin> ids_of ob_id (rl_rows s) \<Longrightarrow>
     outbox_save_event c new_id now ev channel okey headers max_retries (rl_rows s) = (r, t) \<Longrightarrow>
     relay_step c s (s\<lparr>rl_rows := t\<rparr>)"
| relay_work: "ordinary acc dbf \<Longrightarrow>
     relay_worker_turn ob c (logged_broker acc) dbf d now locked u s = (x, s') \<Longrightarrow> relay_step c s s'"
| relay_maintain: "relay_maintenance_turn c now s = (stats, s') \<Longrightarrow> relay_step c s s'"

inductive relay_reach :: "outbox_config \<Rightarrow> outbox_row list relay \<Rightarrow> bool" for c where
  relay_start: "relay_reach c (relay_init c [] [])"
| relay_next: "relay_reach c s \<Longrightarrow> relay_step c s s' \<Longrightarrow> relay_reach c s'"

definition relay_row_ok :: "outbox_row list \<Rightarrow> outbox_row \<Rightarrow> bool" where
  "relay_row_ok sent r \<longleftrightarrow> ob_retry_count r = 0 \<and> ob_status r \<in> {OB_PENDING, OB_PROCESSING, OB_PUBLISHED} \<and>
     (ob_status r = OB_PUBLISHED \<longrightarrow> ob_id r \<in> ids_of ob_id sent)"

definition relay_inv :: "outbox_row list relay \<Rightarrow> bool" where
  "relay_inv s \<longleftrightarrow> distinct (map ob_id (rl_rows s)) \<and> (\<forall>r \<in> set (rl_rows s). relay_row_ok (rl_broker s) r)"

lemma relay_inv_maintain:
  assumes "relay_inv s" and "relay_maintenance_turn c now s = (stats, s')"
  shows "relay_inv s'"
proof -
  have r: "rl_rows s' = snd (outbox_reset_stale_processing c None now (rl_rows s))" "rl_broker s' = rl_broker s"
    using assms(2) by (auto simp: relay_maintenance_turn_def split: prod.splits if_splits)
  have ok: "relay_row_ok b x \<Longrightarrow> relay_row_ok b (x\<lparr>ob_status := OB_PENDING, ob_updated_at := now\<rparr>)" for b x
    by (simp add: relay_row_ok_def)
  show ?thesis using assms(1) unfolding relay_inv_def r outbox_reset_stale_processing_def snd_conv
    by (auto simp: sql_update_map_key set_sql_update ok)
qed

lemma relay_fetch_facts:
  assumes "outbox_fetch_pending_batch ob c n now locked t = (x, t')"
  shows "map ob_id t' = map ob_id t"
    and "r \<in> set t' \<Longrightarrow> \<exists>r0 \<in> set t. r = r0 \<or> r = outbox_mark_processing now r0"
  using assms by (auto simp: outbox_fetch_pending_batch_def set_outbox_claim split: sum.splits if_splits)

lemma relay_poll_effect_aux:
  assumes "ordinary acc dbf"
    and "outbox_fetch_pending_batch ob c (Some (oc_batch_size c)) now locked (rl_rows s) = (Inr events, t)"
  shows "\<exists>s'. relay_poll_and_publish ob c (logged_broker acc) dbf d now locked s = (Inr (int (length events)), s') \<and>
    rl_broker s' = rl_broker s @ filter (\<lambda>ev. acc ev = None) events \<and>
    rl_rows s' = sql_update (\<lambda>r. ob_id r \<in> ob_id ` set (filter (relay_published acc dbf) events)) (published_row now) t"
proof -
  obtain s' where "eff_for events (relay_publish_event (logged_broker acc) dbf d now)
      (relay_count_poll d (int (length events)) (s\<lparr>rl_rows := t\<rparr>)) = (Inr (), s')"
    "rl_broker s' = rl_broker s @ filter (\<lambda>ev. acc ev = None) events"
    "rl_rows s' = sql_update (\<lambda>r. ob_id r \<in> ob_id ` set (filter (relay_published acc dbf) events)) (published_row now) t"
    using publish_events_effect [OF assms(1), of events d now "relay_count_poll d (int (length events)) (s\<lparr>rl_rows := t\<rparr>)"]
    by auto
  then show ?thesis using assms(2) by (simp add: relay_poll_and_publish_def eff_simps)
qed

lemma relay_inv_poll:
  assumes inv: "relay_inv s" and ord: "ordinary acc dbf"
    and poll: "relay_poll_and_publish ob c (logged_broker acc) dbf d now locked s = (x, s')"
  shows "relay_inv s'"
proof -
  obtain y t where f: "outbox_fetch_pending_batch ob c (Some (oc_batch_size c)) now locked (rl_rows s) = (y, t)"
    by fastforce
  note F = relay_fetch_facts [OF f]
  have mark: "relay_row_ok b r \<Longrightarrow> relay_row_ok b (outbox_mark_processing now r)" for b r
    by (simp add: relay_row_ok_def outbox_mark_processing_def)
  have t: "distinct (map ob_id t)" "\<And>r. r \<in> set t \<Longrightarrow> relay_row_ok (rl_broker s) r"
    using inv F(1,2) mark by (fastforce simp: relay_inv_def)+
  show ?thesis
  proof (cases y)
    case (Inl e)
    then have "rl_rows s' = t" "rl_broker s' = rl_broker s"
      using poll f by (auto simp: relay_poll_and_publish_def split: if_splits)
    with t show ?thesis by (simp add: relay_inv_def)
  next
    case (Inr events)
    have s': "rl_broker s' = rl_broker s @ filter (\<lambda>ev. acc ev = None) events"
      "rl_rows s' = sql_update (\<lambda>r. ob_id r \<in> ob_id ` set (filter (relay_published acc dbf) events)) (published_row now) t"
      using relay_poll_effect_aux [OF ord, of ob c now locked s events t d] f poll Inr by auto
    have more: "relay_row_ok (rl_broker s') r" if "relay_row_ok (rl_broker s) r" for r
      using that by (auto simp: relay_row_ok_def s'(1) ids_of_def)
    have pub: "relay_row_ok (rl_broker s') (published_row now r)"
      if "relay_row_ok (rl_broker s) r" "ob_id r \<in> ob_id ` set (filter (relay_published acc dbf) events)" for r
      using that by (auto simp: relay_row_ok_def published_row_def s'(1) ids_of_def relay_published_def)
    have oid: "ob_id (published_row now r) = ob_id r" for r by (simp add: published_row_def)
    show ?thesis
      unfolding relay_inv_def s'(2)
      using t more pub by (auto simp: sql_update_map_key oid set_sql_update)
  qed
qed

lemma relay_inv_step: "relay_step c s s' \<Longrightarrow> relay_inv s \<Longrightarrow> relay_inv s'"
proof (induction rule: relay_step.induct)
  case (relay_produce new_id s now ev channel okey headers max_retries r t)
  then show ?case
    by (auto simp: outbox_save_event_def outbox_save_def relay_inv_def relay_row_ok_def Let_def ids_of_def)
next
  case (relay_work acc dbf ob d now locked u s x s')
  obtain y s1 where p: "relay_poll_and_publish ob c (logged_broker acc) dbf d now locked s = (y, s1)"
    by fastforce
  have "relay_inv s1" using relay_inv_poll [OF relay_work.prems relay_work.hyps(1) p] .
  moreover have "rl_rows s' = rl_rows s1 \<and> rl_broker s' = rl_broker s1"
    using relay_work.hyps(2) p
    by (auto simp: relay_worker_turn_def Let_def split: sum.splits if_splits prod.splits)
  ultimately show ?case by (simp add: relay_inv_def)
next
  case (relay_maintain now s stats s')
  then show ?case using relay_inv_maintain by blast
qed

lemma relay_inv_reach: "relay_reach c s \<Longrightarrow> relay_inv s"
proof (induction rule: relay_reach.induct)
  case relay_start
  show ?case by (simp add: relay_inv_def relay_init_def)
qed (blast intro: relay_inv_step)

text \<open>The broker only ever receives events of the table, under the event id of the row.\<close>

definition relay_pair :: "outbox_row \<Rightarrow> string \<times> string" where
  "relay_pair r = (ob_id r, ob_event_id r)"

lemma relay_pair_simps [simp]:
  "relay_pair (published_row now r) = relay_pair r"
  "relay_pair (outbox_mark_processing now r) = relay_pair r"
  "relay_pair (r\<lparr>ob_status := st, ob_updated_at := now\<rparr>) = relay_pair r"
  by (simp_all add: relay_pair_def published_row_def outbox_mark_processing_def)

definition relay_log_inv :: "outbox_row list relay \<Rightarrow> bool" where
  "relay_log_inv s \<longleftrightarrow> relay_pair ` set (rl_broker s) \<subseteq> set (map relay_pair (rl_rows s))"

lemma relay_fetch_pairs:
  assumes "outbox_fetch_pending_batch ob c n now locked t = (x, t')"
  shows "map relay_pair t' = map relay_pair t"
    and "x = Inr events \<Longrightarrow> relay_pair ` set events \<subseteq> set (map relay_pair t)"
proof -
  have claim: "map relay_pair (outbox_claim now js t) = map relay_pair t" for js
    by (simp add: outbox_claim_def sql_update_map_key)
  show "map relay_pair t' = map relay_pair t"
    using assms claim by (cases "outbox_select ob c n now locked t") (auto simp: outbox_fetch_pending_batch_def)
  show "x = Inr events \<Longrightarrow> relay_pair ` set events \<subseteq> set (map relay_pair t)"
    using assms outbox_select_facts(3) [of ob c n now locked t]
    by (cases "outbox_select ob c n now locked t") (fastforce simp: outbox_fetch_pending_batch_def)+
qed

lemma relay_log_inv_poll:
  assumes inv: "relay_log_inv s" and ord: "ordinary acc dbf"
    and poll: "relay_poll_and_publish ob c (logged_broker acc) dbf d now locked s = (x, s')"
  shows "relay_log_inv s'"
proof -
  obtain y t where f: "outbox_fetch_pending_batch ob c (Some (oc_batch_size c)) now locked (rl_rows s) = (y, t)"
    by fastforce
  note F = relay_fetch_pairs [OF f]
  show ?thesis
  proof (cases y)
    case (Inl e)
    then have "rl_rows s' = t" "rl_broker s' = rl_broker s"
      using poll f by (auto simp: relay_poll_and_publish_def split: if_splits)
    with inv F(1) show ?thesis by (simp add: relay_log_inv_def)
  next
    case (Inr events)
    have s': "rl_broker s' = rl_broker s @ filter (\<lambda>ev. acc ev = None) events"
      "map relay_pair (rl_rows s') = map relay_pair (rl_rows s)"
      using relay_poll_effect_aux [OF ord, of ob c now locked s events t d] f poll Inr F(1)
      by (auto simp: sql_update_map_key)
    show ?thesis using inv F(2) [OF Inr] unfolding relay_log_inv_def s' by auto
  qed
qed

lemma relay_log_inv_step: "relay_step c s s' \<Longrightarrow> relay_log_inv s \<Longrightarrow> relay_log_inv s'"
proof (induction rule: relay_step.induct)
  case (relay_produce new_id s now ev channel okey headers max_retries r t)
  then show ?case
    by (auto simp: outbox_save_event_def outbox_save_def relay_log_inv_def Let_def)
next
  case (relay_work acc dbf ob d now locked u s x s')
  obtain y s1 where p: "relay_poll_and_publish ob c (logged_broker acc) dbf d now locked s = (y, s1)"
    by fastforce
  have "relay_log_inv s1" using relay_log_inv_poll [OF relay_work.prems relay_work.hyps(1) p] .
  moreover have "rl_rows s' = rl_rows s1 \<and> rl_broker s' = rl_broker s1"
    using relay_work.hyps(2) p
    by (auto simp: relay_worker_turn_def Let_def split: sum.splits if_splits prod.splits)
  ultimately show ?case by (simp add: relay_log_inv_def)
next
  case (relay_maintain now s stats s')
  then have "rl_rows s' = snd (outbox_reset_stale_processing c None now (rl_rows s))" "rl_broker s' = rl_broker s"
    by (auto simp: relay_maintenance_turn_def split: prod.splits if_splits)
  with relay_maintain show ?case
    unfolding relay_log_inv_def by (simp only: outbox_reset_stale_processing_def snd_conv)
      (simp add: sql_update_map_key del: set_map)
qed

lemma relay_log_inv_reach: "relay_reach c s \<Longrightarrow> relay_log_inv s"
proof (induction rule: relay_reach.induct)
  case relay_start
  show ?case by (simp add: relay_log_inv_def relay_init_def)
qed (blast intro: relay_log_inv_step)

text \<open>A published event has been handed to the broker under its event id.\<close>

lemma published_delivered:
  assumes "relay_reach c s" and "r \<in> set (rl_rows s)" and "ob_status r = OB_PUBLISHED"
  shows "ob_event_id r \<in> ob_event_id ` set (rl_broker s)"
proof -
  have d: "distinct (map ob_id (rl_rows s))" and "relay_row_ok (rl_broker s) r"
    using relay_inv_reach [OF assms(1)] assms(2) by (auto simp: relay_inv_def)
  then obtain x where x: "x \<in> set (rl_broker s)" "ob_id x = ob_id r"
    using assms(3) by (force simp: relay_row_ok_def ids_of_def)
  then obtain r' where "r' \<in> set (rl_rows s)" "ob_id r' = ob_id x" "ob_event_id r' = ob_event_id x"
    using relay_log_inv_reach [OF assms(1)] by (force simp: relay_log_inv_def relay_pair_def)
  moreover from this have "r' = r" using distinct_map_same [OF d] assms(2) x(2) by auto
  ultimately show ?thesis using x(1) by force
qed

section \<open>Properties\<close>

text \<open>C25: one poll publishes every event it claimed to the broker, in order of creation, goes on
  after an event that fails, and marks as PUBLISHED exactly the events that the broker accepted and
  whose marking succeeded; an event that failed stays PROCESSING with its retry count unchanged.\<close>

theorem relay_poll_effect:
  assumes "ordinary acc dbf"
    and "outbox_fetch_pending_batch ob c (Some (oc_batch_size c)) now locked (rl_rows s) = (Inr events, t)"
  shows "case relay_poll_and_publish ob c (logged_broker acc) dbf d now locked s of (x, s') \<Rightarrow>
     x = Inr (int (length events)) \<and>
     rl_broker s' = rl_broker s @ filter (\<lambda>ev. acc ev = None) events \<and>
     rl_rows s' = sql_update (\<lambda>r. \<exists>ev \<in> set events. ob_id ev = ob_id r \<and> acc ev = None \<and> dbf (ob_id ev) = None)
       (published_row now) t"
proof -
  have eq: "(\<lambda>r. ob_id r \<in> ob_id ` set (filter (relay_published acc dbf) events)) =
      (\<lambda>r. \<exists>ev \<in> set events. ob_id ev = ob_id r \<and> acc ev = None \<and> dbf (ob_id ev) = None)"
    by (rule ext) (force simp: relay_published_def image_iff)
  show ?thesis using relay_poll_effect_aux [OF assms, of d, unfolded eq] by auto
qed

theorem relay_poll_effect_witness:
  "let t = [demo_outbox_row ''a'' 1, demo_outbox_row ''b'' 2];
       s' = snd (relay_poll_and_publish stable_order outbox_config_default
         (logged_broker (\<lambda>ev. if ob_id ev = ''a'' then Some TimeoutError else None)) (\<lambda>_. None) 3 10 {}
         (relay_init outbox_config_default t [])) in
   map ob_id (rl_broker s') = [''b''] \<and> map ob_status (rl_rows s') = [OB_PROCESSING, OB_PUBLISHED]"
proof -
  let ?t = "[demo_outbox_row ''a'' 1, demo_outbox_row ''b'' 2]"
  let ?acc = "\<lambda>ev. if ob_id ev = ''a'' then Some TimeoutError else None"
  let ?s = "relay_init outbox_config_default ?t []"
  have f: "outbox_fetch_pending_batch stable_order outbox_config_default (Some (oc_batch_size outbox_config_default))
      10 {} (rl_rows ?s) = (Inr (map (outbox_mark_processing 10) ?t), map (outbox_mark_processing 10) ?t)"
    by (simp add: outbox_fetch_pending_batch_def outbox_select_def sql_limit_def sql_where_def relay_init_def
        outbox_eligible_def demo_outbox_row_def timedelta_days_def usec_def outbox_config_default_def
        outbox_claim_def sql_update_def ids_of_def)
  have "ordinary ?acc (\<lambda>_. None)" by (simp add: ordinary_def)
  from relay_poll_effect [OF this f, of 3] show ?thesis
    by (simp add: Let_def case_prod_beta sql_update_def published_row_def relay_init_def)
      (simp add: demo_outbox_row_def outbox_mark_processing_def)
qed

text \<open>C26: in every state that producers, polls with failing brokers and databases, and stale
  resets can reach, an event marked PUBLISHED has been accepted by the broker (at-least-once
  delivery); and no event ever has a retry counted, fails or is dead-lettered: however often
  publishing fails, the event goes back to PENDING and is tried again, because the relay never
  calls \<open>mark_failed\<close>.\<close>

theorem relay_reachable_rows:
  assumes "relay_reach c s" and "r \<in> set (rl_rows s)"
  shows "(ob_status r = OB_PUBLISHED \<longrightarrow> ob_id r \<in> ob_id ` set (rl_broker s)) \<and>
     ob_retry_count r = 0 \<and> ob_status r \<noteq> OB_FAILED \<and> ob_status r \<noteq> OB_DEAD_LETTER"
  using relay_inv_reach [OF assms(1)] assms(2) by (auto simp: relay_inv_def relay_row_ok_def ids_of_def)

theorem relay_reachable_rows_witness:
  "\<exists>s r. relay_reach outbox_config_default s \<and> r \<in> set (rl_rows s) \<and> ob_retry_count r = 0"
proof -
  let ?s0 = "relay_init outbox_config_default [] [] :: outbox_row list relay"
  obtain r t where rt: "outbox_save_event outbox_config_default ''a'' 1
      \<lparr>ev_event_id = ''e'', ev_event_type = None, ev_class = ''Paid'', ev_payload = Map.empty,
       ev_source = None, ev_correlation_id = None, ev_user_id = None\<rparr> ''orders'' None None None (rl_rows ?s0) = (r, t)"
    by fastforce
  then have r: "r \<in> set t" by (auto simp: outbox_save_event_def outbox_save_def Let_def)
  have "relay_reach outbox_config_default (?s0\<lparr>rl_rows := t\<rparr>)"
    by (rule relay_next [OF relay_start]) (rule relay_produce [OF _ rt], simp add: relay_init_def)
  then show ?thesis using relay_reachable_rows [of outbox_config_default "?s0\<lparr>rl_rows := t\<rparr>" r] r
    by (intro exI [of _ "?s0\<lparr>rl_rows := t\<rparr>"] exI [of _ r]) simp
qed

text \<open>with a validated configuration the relay never sleeps longer than the configured
  bounds: the fixed strategy always sleeps its fixed interval, the others sleep the minimum after
  work and otherwise between the minimum and the maximum, and the interval never grows by more than
  the growth factor.\<close>

theorem relay_compute_next_sleep_bounds:
  assumes "outbox_config_init c = Inr c" and "0 \<le> u" and "u \<le> 1"
  shows "case relay_compute_next_sleep c u fetched st of (ms, st') \<Rightarrow>
     ps_current_interval_ms st' = ms \<and>
     (if oc_poll_strategy c = ''fixed'' then ms = of_int (oc_fixed_poll_interval_ms c)
      else of_int (oc_min_poll_interval_ms c) \<le> ms \<and> ms \<le> of_int (oc_max_poll_interval_ms c) \<and>
        (0 < fetched \<longrightarrow> ms = of_int (oc_min_poll_interval_ms c)) \<and>
        ms \<le> max (of_int (oc_min_poll_interval_ms c)) (ps_current_interval_ms st * oc_backoff_growth_factor c))"
proof -
  have mm: "(of_int (oc_min_poll_interval_ms c) :: rat) \<le> of_int (oc_max_poll_interval_ms c)"
    using assms(1) unfolding outbox_config_init_def of_int_le_iff by (auto split: if_splits)
  have conv: "lo \<le> lo + (up - lo) * u \<and> lo + (up - lo) * u \<le> up" if "lo \<le> up" for lo up :: rat
    using that assms(2,3) mult_left_mono [of u 1 "up - lo"] by simp
  let ?lo = "of_int (oc_min_poll_interval_ms c) :: rat"
  let ?up0 = "min (of_int (oc_max_poll_interval_ms c)) (ps_current_interval_ms st * oc_backoff_growth_factor c)"
  let ?up = "if ?up0 < ?lo then ?lo else ?up0"
  have up: "?lo \<le> ?up" "?up \<le> of_int (oc_max_poll_interval_ms c)"
    "?up \<le> max ?lo (ps_current_interval_ms st * oc_backoff_growth_factor c)"
    using mm by (auto simp: max_def min_def)
  from conv [OF up(1)] up mm show ?thesis
    by (auto simp: relay_compute_next_sleep_def Let_def)
qed

theorem relay_compute_next_sleep_bounds_witness:
  "let c = outbox_config_default\<lparr>oc_poll_strategy := ''adaptive''\<rparr>;
       (ms, st) = relay_compute_next_sleep c (1/2) 0 (rl_state (relay_init c [] ([] :: outbox_row list))) in
   100 \<le> ms \<and> ms \<le> 15000"
  using relay_compute_next_sleep_bounds [of "outbox_config_default\<lparr>oc_poll_strategy := ''adaptive''\<rparr>" "1/2" 0
      "rl_state (relay_init (outbox_config_default\<lparr>oc_poll_strategy := ''adaptive''\<rparr>) [] ([] :: outbox_row list))"]
  by (simp add: outbox_config_init_def outbox_config_default_def relay_init_def Let_def case_prod_beta)

text \<open>The incrementally updated poll metrics are the exact statistics of the polls recorded:
  their number, the number of empty ones, and the mean duration.\<close>

theorem metrics_polls_exact:
  "om_total_polls (metrics_polls ps) = int (length ps) \<and>
   om_empty_polls (metrics_polls ps) = int (length (filter (\<lambda>(d, b, ok). b = 0) ps)) \<and>
   om_successful_polls (metrics_polls ps) + om_failed_polls (metrics_polls ps) = int (length ps) \<and>
   om_avg_poll_duration_ms (metrics_polls ps) * of_nat (length ps) = sum_list (map fst ps)"
  using metrics_polls_counts metrics_polls_avg by blast

end
