(* ===== verification/Dlq_Store.thy ===== *)
theory Dlq_Store
  imports Sql_Table
begin

text \<open>
  The dead letter queue: the database-backed \<open>DLQRepository\<close> and \<open>DLQService\<close>
  (\<open>resiliant/dlq/dlq_repository.py\<close>, \<open>dlq_service.py\<close>, table \<open>dlq_events\<close> in
  \<open>db/models/resiliant/_dlq_models.py\<close>) and the storage-independent
  \<open>DeadLetterQueueService\<close> (\<open>foundation/resiliant/dlq.py\<close>), whose repository and replayer are
  parameters. The table implements the work queue interface \<open>claim_queue\<close>.
\<close>

section \<open>Data\<close>

datatype dlq_status = DLQ_PENDING | DLQ_APPROVED | DLQ_CANCELLED | DLQ_PROCESSING | DLQ_RESOLVED
  | DLQ_FAILED | DLQ_ABANDONED | DLQ_ARCHIVED

definition dlq_statuses :: "dlq_status list" where
  "dlq_statuses = [DLQ_PENDING, DLQ_APPROVED, DLQ_CANCELLED, DLQ_PROCESSING, DLQ_RESOLVED,
     DLQ_FAILED, DLQ_ABANDONED, DLQ_ARCHIVED]"

record dlq_config =
  dc_batch_size :: int
  dc_page_size :: int
  dc_max_retries :: int
  dc_use_skip_locked :: bool

definition dlq_config_default :: dlq_config where
  "dlq_config_default = \<lparr>dc_batch_size = 50, dc_page_size = 100, dc_max_retries = 3,
     dc_use_skip_locked = True\<rparr>"

record dlq_row =
  dl_id :: string
  dl_event_id :: string
  dl_event_type :: string
  dl_handler_name :: string
  dl_source_destination :: "string option"
  dl_payload :: jdict
  dl_headers :: jdict
  dl_status :: dlq_status
  dl_retry_count :: int
  dl_max_retries :: int
  dl_original_error :: string
  dl_last_error :: "string option"
  dl_correlation_id :: "string option"
  dl_user_id :: "string option"
  dl_tenant_id :: "string option"
  dl_failed_at :: int
  dl_processed_at :: "int option"
  dl_created_at :: int
  dl_updated_at :: int

type_synonym dlq_table = "dlq_row list"

section \<open>DLQRepository\<close>

definition dlq_save :: "dlq_row \<Rightarrow> dlq_table \<Rightarrow> dlq_table" where
  "dlq_save r t = t @ [r]"

definition dlq_get :: "string \<Rightarrow> dlq_table \<Rightarrow> dlq_row option" where
  "dlq_get i t = find (\<lambda>r. dl_id r = i) t"

definition dlq_eligible :: "dlq_row \<Rightarrow> bool" where
  "dlq_eligible r \<longleftrightarrow> dl_status r = DLQ_PENDING \<and> dl_retry_count r < dl_max_retries r"

definition dlq_select ::
  "dlq_row sql_order \<Rightarrow> dlq_config \<Rightarrow> int option \<Rightarrow> string set \<Rightarrow> dlq_table \<Rightarrow> py_exn + dlq_row list" where
  "dlq_select ob c batch_size locked t =
     sql_limit (or_int batch_size (dc_batch_size c)) (order_by ob dl_created_at
       (sql_where (\<lambda>r. dlq_eligible r \<and> \<not> (dc_use_skip_locked c \<and> dl_id r \<in> locked)) t))"

definition dlq_mark_processing :: "int \<Rightarrow> dlq_row \<Rightarrow> dlq_row" where
  "dlq_mark_processing now r = r\<lparr>dl_status := DLQ_PROCESSING, dl_updated_at := now\<rparr>"

definition dlq_claim :: "int \<Rightarrow> dlq_row list \<Rightarrow> dlq_table \<Rightarrow> dlq_table" where
  "dlq_claim now events t = (if events = [] then t
     else sql_update (\<lambda>r. dl_id r \<in> ids_of dl_id events) (dlq_mark_processing now) t)"

definition dlq_fetch_pending_batch ::
  "dlq_row sql_order \<Rightarrow> dlq_config \<Rightarrow> int option \<Rightarrow> int \<Rightarrow> string set \<Rightarrow> (dlq_table, dlq_row list) eff" where
  "dlq_fetch_pending_batch ob c batch_size now locked t =
     (case dlq_select ob c batch_size locked t of
        Inl e \<Rightarrow> (Inl e, t)
      | Inr events \<Rightarrow> (Inr (map (dlq_mark_processing now) events), dlq_claim now events t))"

definition dlq_list_messages ::
  "dlq_row sql_order \<Rightarrow> dlq_config \<Rightarrow> dlq_status option \<Rightarrow> string option \<Rightarrow> int option \<Rightarrow> dlq_table \<Rightarrow>
   py_exn + dlq_row list" where
  "dlq_list_messages ob c status handler_name row_limit t =
     sql_limit (or_int row_limit (dc_page_size c)) (order_by ob (\<lambda>r. - dl_created_at r)
       (sql_where (\<lambda>r. (case status of None \<Rightarrow> True | Some st \<Rightarrow> dl_status r = st) \<and>
                       (case handler_name of None \<Rightarrow> True | Some h \<Rightarrow> dl_handler_name r = h)) t))"

definition dlq_mark_resolved :: "int \<Rightarrow> string \<Rightarrow> dlq_table \<Rightarrow> dlq_table" where
  "dlq_mark_resolved now i = sql_update (\<lambda>r. dl_id r = i)
     (\<lambda>r. r\<lparr>dl_status := DLQ_RESOLVED, dl_processed_at := Some now, dl_updated_at := now\<rparr>)"

definition dlq_mark_failed :: "int \<Rightarrow> string \<Rightarrow> string \<Rightarrow> dlq_table \<Rightarrow> dlq_table" where
  "dlq_mark_failed now i err t = (case dlq_get i t of
       None \<Rightarrow> t
     | Some event \<Rightarrow>
         let new_retry_count = dl_retry_count event + 1;
             exhausted = (new_retry_count \<ge> dl_max_retries event);
             new_status = (if exhausted then DLQ_ABANDONED else DLQ_PENDING)
         in sql_update (\<lambda>r. dl_id r = i)
              (\<lambda>r. r\<lparr>dl_status := new_status, dl_retry_count := new_retry_count,
                     dl_last_error := Some (trunc1000 err), dl_updated_at := now\<rparr>) t)"

definition dlq_mark_abandoned :: "int \<Rightarrow> string \<Rightarrow> dlq_table \<Rightarrow> dlq_table" where
  "dlq_mark_abandoned now i = sql_update (\<lambda>r. dl_id r = i)
     (\<lambda>r. r\<lparr>dl_status := DLQ_ABANDONED, dl_updated_at := now\<rparr>)"

definition dlq_get_stats :: "dlq_table \<Rightarrow> (dlq_status \<times> int) list" where
  "dlq_get_stats t = map (\<lambda>st. (st, sql_count (\<lambda>r. dl_status r = st) t)) dlq_statuses"

section \<open>DLQService\<close>

record dlq_failure =
  df_event_id :: string
  df_event_type :: string
  df_handler_name :: string
  df_payload :: jdict
  df_error :: string
  df_source_destination :: "string option"
  df_headers :: "jdict option"
  df_max_retries :: "int option"
  df_correlation_id :: "string option"
  df_user_id :: "string option"
  df_tenant_id :: "string option"

definition dlq_save_event :: "dlq_config \<Rightarrow> string \<Rightarrow> int \<Rightarrow> dlq_failure \<Rightarrow> dlq_table \<Rightarrow> dlq_row \<times> dlq_table" where
  "dlq_save_event c new_id now f t =
     (let r = \<lparr>dl_id = new_id, dl_event_id = df_event_id f, dl_event_type = df_event_type f,
        dl_handler_name = df_handler_name f, dl_source_destination = df_source_destination f,
        dl_payload = df_payload f, dl_headers = jdict_or_empty (df_headers f), dl_status = DLQ_PENDING,
        dl_retry_count = 0, dl_max_retries = or_int (df_max_retries f) (dc_max_retries c),
        dl_original_error = df_error f, dl_last_error = None, dl_correlation_id = df_correlation_id f,
        dl_user_id = df_user_id f, dl_tenant_id = df_tenant_id f, dl_failed_at = now,
        dl_processed_at = None, dl_created_at = now, dl_updated_at = now\<rparr>
      in (r, dlq_save r t))"

definition dlq_list_pending ::
  "dlq_row sql_order \<Rightarrow> dlq_config \<Rightarrow> int option \<Rightarrow> dlq_table \<Rightarrow> py_exn + dlq_row list" where
  "dlq_list_pending ob c row_limit = dlq_list_messages ob c (Some DLQ_PENDING) None row_limit"

section \<open>DeadLetterQueueService\<close>

record dead_letter =
  dm_id :: string
  dm_source :: string
  dm_payload :: "nat list"
  dm_headers :: "string \<rightharpoonup> string"
  dm_error :: string
  dm_attempts :: int
  dm_enqueued_at :: rat
  dm_original_message_id :: "string option"

record 'r dead_letter_repository =
  dr_enqueue :: "dead_letter \<Rightarrow> ('r, unit) eff"
  dr_get :: "string \<Rightarrow> ('r, dead_letter option) eff"
  dr_list_messages :: "string option \<Rightarrow> int \<Rightarrow> ('r, dead_letter list) eff"
  dr_delete :: "string \<Rightarrow> ('r, unit) eff"

definition dlqs_enqueue ::
  "'r dead_letter_repository \<Rightarrow> string \<Rightarrow> rat \<Rightarrow> string \<Rightarrow> nat list \<Rightarrow> string \<Rightarrow> int \<Rightarrow>
   (string \<rightharpoonup> string) option \<Rightarrow> string option \<Rightarrow> ('r, dead_letter) eff" where
  "dlqs_enqueue R uuid now source payload err attempts headers original_message_id =
     (let msg = \<lparr>dm_id = uuid, dm_source = source, dm_payload = payload,
        dm_headers = if_none headers Map.empty, dm_error = err, dm_attempts = attempts,
        dm_enqueued_at = now, dm_original_message_id = original_message_id\<rparr>
      in eff_bind (dr_enqueue R msg) (\<lambda>_. eff_return msg))"

definition dlqs_list ::
  "'r dead_letter_repository \<Rightarrow> dlq_config \<Rightarrow> string option \<Rightarrow> int option \<Rightarrow> ('r, dead_letter list) eff" where
  "dlqs_list R c source row_limit = dr_list_messages R source (or_int row_limit (dc_page_size c))"

text \<open>\<open>replayer\<close> is a computation on the same world as the repository.\<close>

definition dlqs_replay ::
  "'r dead_letter_repository \<Rightarrow> (dead_letter \<Rightarrow> ('r, unit) eff) option \<Rightarrow> bool \<Rightarrow> string \<Rightarrow> ('r, unit) eff" where
  "dlqs_replay R replayer delete_on_success i = (case replayer of
       None \<Rightarrow> eff_raise (DeadLetterError ''No replayer configured for this DLQ service'')
     | Some replay \<Rightarrow> eff_bind (dr_get R i) (\<lambda>found. case found of
           None \<Rightarrow> eff_raise (DeadLetterError i)
         | Some msg \<Rightarrow> eff_bind
             (eff_catch (replay msg) (\<lambda>_. True) (\<lambda>e. eff_raise (DeadLetterReplayError i e)))
             (\<lambda>_. if delete_on_success then dr_delete R i else eff_return ())))"

definition dlqs_purge :: "'r dead_letter_repository \<Rightarrow> string \<Rightarrow> ('r, unit) eff" where
  "dlqs_purge R i = dr_delete R i"

section \<open>The dead letter queue is a work queue\<close>

definition dlq_open :: "dlq_row \<Rightarrow> bool" where
  "dlq_open r \<longleftrightarrow> dl_status r = DLQ_PENDING"

type_synonym dlq_query = "dlq_row sql_order \<times> dlq_config \<times> int option \<times> int"

definition dlq_sel :: "dlq_query \<Rightarrow> string set \<Rightarrow> dlq_table \<Rightarrow> dlq_row list" where
  "dlq_sel q locked t = (case q of (ob, c, n, now) \<Rightarrow>
     (case dlq_select ob (c\<lparr>dc_use_skip_locked := True\<rparr>) n locked t of Inl _ \<Rightarrow> [] | Inr rs \<Rightarrow> rs))"

definition dlq_mk :: "dlq_query \<Rightarrow> dlq_row list \<Rightarrow> dlq_table \<Rightarrow> dlq_table" where
  "dlq_mk q events t = (case q of (ob, c, n, now) \<Rightarrow> dlq_claim now events t)"

lemma dlq_mark_processing_simps [simp]:
  "dl_id (dlq_mark_processing now r) = dl_id r" "dl_status (dlq_mark_processing now r) = DLQ_PROCESSING"
  by (simp_all add: dlq_mark_processing_def)

lemma dlq_claim_ids [simp]: "map dl_id (dlq_claim now events t) = map dl_id t"
  by (simp add: dlq_claim_def sql_update_map_key)

lemma set_dlq_claim:
  "r \<in> set (dlq_claim now events t) \<longleftrightarrow> (\<exists>r0 \<in> set t. r = (if dl_id r0 \<in> ids_of dl_id events
     then dlq_mark_processing now r0 else r0))"
  by (auto simp: dlq_claim_def set_sql_update)

lemma dlq_claim_closes:
  assumes "r \<in> set (dlq_claim now events t)" and "dl_id r \<in> ids_of dl_id events"
  shows "\<not> dlq_open r"
proof -
  obtain r0 where "r = (if dl_id r0 \<in> ids_of dl_id events then dlq_mark_processing now r0 else r0)"
    using assms(1) by (auto simp: set_dlq_claim)
  then have "dl_status r = DLQ_PROCESSING" using assms(2) by (simp split: if_splits)
  then show ?thesis by (simp add: dlq_open_def)
qed

lemma dlq_select_facts:
  assumes "dlq_select ob c n locked t = Inr rs"
  shows "int (length rs) \<le> or_int n (dc_batch_size c)" and "sorted (map dl_created_at rs)"
    and "r \<in> set rs \<Longrightarrow> r \<in> set t \<and> dlq_eligible r \<and> (dc_use_skip_locked c \<longrightarrow> dl_id r \<notin> locked)"
  using assms by (auto simp: dlq_select_def sql_limit_Inr dest!: in_set_takeD)

lemma dlq_sel_facts:
  assumes "r \<in> set (dlq_sel (ob, c, n, now) L t)"
  shows "r \<in> set t \<and> dlq_open r \<and> dl_id r \<notin> L"
  using assms dlq_select_facts(3) [of ob "c\<lparr>dc_use_skip_locked := True\<rparr>" n L t _ r]
  by (cases "dlq_select ob (c\<lparr>dc_use_skip_locked := True\<rparr>) n L t")
    (simp_all add: dlq_sel_def dlq_open_def dlq_eligible_def)

interpretation dlq_queue: claim_queue dl_id dlq_open dlq_sel dlq_mk
proof
  fix r q L t b
  show "r \<in> set (dlq_sel q L t) \<Longrightarrow> r \<in> set t \<and> dlq_open r \<and> dl_id r \<notin> L"
    by (cases q) (simp add: dlq_sel_facts)
  show "map dl_id (dlq_mk q b t) = map dl_id t"
    by (simp add: dlq_mk_def split: prod.splits)
  show "r \<in> set (dlq_mk q b t) \<Longrightarrow> dl_id r \<in> ids_of dl_id b \<Longrightarrow> \<not> dlq_open r"
    by (cases q) (simp add: dlq_mk_def dlq_claim_closes)
  show "r \<in> set (dlq_mk q b t) \<Longrightarrow> dl_id r \<notin> ids_of dl_id b \<Longrightarrow> r \<in> set t"
    by (auto simp: dlq_mk_def set_dlq_claim split: prod.splits if_splits)
qed

text \<open>
  \<open>mark_failed\<close> puts an event back to PENDING; it does not disturb the claims of others as long
  as only the worker that has finished with the event calls it.
\<close>

lemma dlq_mark_failed_no_reopen:
  "i \<notin> own \<Longrightarrow> no_reopen dl_id dlq_open own t (dlq_mark_failed now i err t)"
  by (auto simp: dlq_mark_failed_def Let_def split: option.splits intro!: no_reopen_update)

lemma dlq_mark_resolved_no_reopen: "no_reopen dl_id dlq_open own t (dlq_mark_resolved now i t)"
  unfolding dlq_mark_resolved_def by (rule no_reopen_update) (simp_all add: dlq_open_def)

lemma dlq_mark_abandoned_no_reopen: "no_reopen dl_id dlq_open own t (dlq_mark_abandoned now i t)"
  unfolding dlq_mark_abandoned_def by (rule no_reopen_update) (simp_all add: dlq_open_def)

section \<open>Retries\<close>

definition dlq_failed_row :: "int \<Rightarrow> string \<Rightarrow> dlq_row \<Rightarrow> dlq_row" where
  "dlq_failed_row now err r = r\<lparr>dl_status := if dl_retry_count r + 1 \<ge> dl_max_retries r
     then DLQ_ABANDONED else DLQ_PENDING, dl_retry_count := dl_retry_count r + 1,
     dl_last_error := Some (trunc1000 err), dl_updated_at := now\<rparr>"

lemma dlq_mark_failed_row:
  assumes "distinct (map dl_id t)"
  shows "dlq_mark_failed now i err t = sql_update (\<lambda>r. dl_id r = i) (dlq_failed_row now err) t"
proof (cases "dlq_get i t")
  case None
  then have "\<forall>r \<in> set t. dl_id r \<noteq> i" by (auto simp: dlq_get_def find_None_iff)
  then show ?thesis using None by (simp add: dlq_mark_failed_def sql_update_unmatched)
next
  case (Some ev)
  then have ev: "ev \<in> set t" "dl_id ev = i" by (auto simp: dlq_get_def dest: find_SomeD)
  have "x = ev" if "x \<in> set t" "dl_id x = i" for x
    using distinct_map_same [OF assms that(1) ev(1)] that(2) ev(2) by simp
  then show ?thesis using Some
    by (auto simp: dlq_mark_failed_def sql_update_def dlq_failed_row_def Let_def)
qed

text \<open>A list of failed retry attempts of one event, each with its time and error.\<close>

fun dlq_fail_all :: "string \<Rightarrow> (int \<times> string) list \<Rightarrow> dlq_table \<Rightarrow> dlq_table" where
  "dlq_fail_all i [] t = t"
| "dlq_fail_all i ((now, err) # fs) t = dlq_fail_all i fs (dlq_mark_failed now i err t)"

lemma dlq_failed_row_id [simp]: "dl_id (dlq_failed_row now err r) = dl_id r"
  by (simp add: dlq_failed_row_def)

lemma dlq_fail_all_row:
  assumes "distinct (map dl_id t)" and "r \<in> set t" and "dl_id r = i"
  shows "\<exists>r'. r' \<in> set (dlq_fail_all i fs t) \<and> dl_id r' = i \<and>
     dl_retry_count r' = dl_retry_count r + int (length fs) \<and> dl_max_retries r' = dl_max_retries r \<and>
     (fs \<noteq> [] \<longrightarrow> dl_status r' = (if dl_retry_count r + int (length fs) \<ge> dl_max_retries r
        then DLQ_ABANDONED else DLQ_PENDING))"
  using assms
proof (induction fs arbitrary: t r)
  case Nil
  then show ?case by auto
next
  case (Cons f fs)
  obtain now err where f: "f = (now, err)" by fastforce
  let ?t = "dlq_mark_failed now i err t" and ?r = "dlq_failed_row now err r"
  have t: "?t = sql_update (\<lambda>r. dl_id r = i) (dlq_failed_row now err) t"
    by (rule dlq_mark_failed_row [OF Cons.prems(1)])
  have "distinct (map dl_id ?t)" "?r \<in> set ?t" "dl_id ?r = i"
    using Cons.prems unfolding t by (auto simp: sql_update_map_key set_sql_update)
  from Cons.IH [OF this] obtain r' where r': "r' \<in> set (dlq_fail_all i fs ?t)" "dl_id r' = i"
    "dl_retry_count r' = dl_retry_count ?r + int (length fs)" "dl_max_retries r' = dl_max_retries ?r"
    "fs \<noteq> [] \<longrightarrow> dl_status r' = (if dl_retry_count ?r + int (length fs) \<ge> dl_max_retries ?r
        then DLQ_ABANDONED else DLQ_PENDING)" by blast
  show ?case
  proof (cases "fs = []")
    case True
    with Cons.prems t show ?thesis
      by (intro exI [of _ ?r]) (auto simp: f set_sql_update dlq_failed_row_def)
  next
    case False
    with r' show ?thesis by (intro exI [of _ r']) (auto simp: f dlq_failed_row_def)
  qed
qed

lemma dlq_fail_all_distinct:
  "distinct (map dl_id t) \<Longrightarrow> distinct (map dl_id (dlq_fail_all i fs t))"
  by (induction i fs t rule: dlq_fail_all.induct) (simp_all add: dlq_mark_failed_row sql_update_map_key)

section \<open>Properties\<close>

text \<open>C40: the retry budget of a dead letter: an event saved to the queue and then failed \<open>n\<close> times
  has retry count \<open>n\<close>; it is eligible for the next poll exactly while \<open>n\<close> is below its maximum, and
  the failure that uses up the budget abandons it.\<close>

theorem dlq_retry_lifecycle:
  assumes "distinct (map dl_id t)" and "new_id \<notin> dl_id ` set t"
    and "dlq_save_event c new_id now f t = (r, t1)"
  shows "\<exists>r'. dlq_get new_id (dlq_fail_all new_id fs t1) = Some r' \<and> dl_retry_count r' = int (length fs) \<and>
     (dlq_eligible r' \<longleftrightarrow> int (length fs) < or_int (df_max_retries f) (dc_max_retries c)) \<and>
     (dl_status r' = DLQ_ABANDONED \<longleftrightarrow>
        fs \<noteq> [] \<and> or_int (df_max_retries f) (dc_max_retries c) \<le> int (length fs))"
proof -
  have r: "t1 = t @ [r]" "dl_id r = new_id" "dl_retry_count r = 0" "dl_status r = DLQ_PENDING"
    "dl_max_retries r = or_int (df_max_retries f) (dc_max_retries c)"
    using assms(3) by (auto simp: dlq_save_event_def dlq_save_def Let_def)
  have d: "distinct (map dl_id t1)" using assms(1,2) r by simp
  from dlq_fail_all_row [OF d _ r(2), of fs] r
  obtain r' where r': "r' \<in> set (dlq_fail_all new_id fs t1)" "dl_id r' = new_id"
    "dl_retry_count r' = int (length fs)" "dl_max_retries r' = or_int (df_max_retries f) (dc_max_retries c)"
    "fs \<noteq> [] \<longrightarrow> dl_status r' = (if or_int (df_max_retries f) (dc_max_retries c) \<le> int (length fs)
        then DLQ_ABANDONED else DLQ_PENDING)" by auto
  have pend: "fs = [] \<Longrightarrow> dl_status r' = DLQ_PENDING"
    using r' r distinct_map_same [OF d, of r' r] by simp
  have "dlq_get new_id (dlq_fail_all new_id fs t1) = Some r'"
    unfolding dlq_get_def using find_distinct_key [OF dlq_fail_all_distinct [OF d] r'(1,2)] .
  with r' pend show ?thesis
    by (intro exI [of _ r']) (cases "fs = []"; auto simp: dlq_eligible_def)
qed

definition demo_dlq_failure :: dlq_failure where
  "demo_dlq_failure = \<lparr>df_event_id = ''e'', df_event_type = ''OrderCreated'', df_handler_name = ''OrderHandler'',
     df_payload = Map.empty, df_error = ''timeout'', df_source_destination = None, df_headers = None,
     df_max_retries = Some 2, df_correlation_id = None, df_user_id = None, df_tenant_id = None\<rparr>"

theorem dlq_retry_lifecycle_witness:
  "map_option dl_status (dlq_get ''d'' (dlq_fail_all ''d'' [(2, ''x''), (3, ''y'')]
     (snd (dlq_save_event dlq_config_default ''d'' 1 demo_dlq_failure [])))) = Some DLQ_ABANDONED"
  using dlq_retry_lifecycle [of "[]" "''d''" dlq_config_default 1 demo_dlq_failure _ _ "[(2, ''x''), (3, ''y'')]",
      OF _ _ surjective_pairing]
  by (auto simp: demo_dlq_failure_def)

text \<open>With SKIP LOCKED no two DLQ workers own the same dead letter, and an owned one is not
  pending, in every state reachable by any interleaving of claims, finished work and statements
  that do not put an event somebody owns back to PENDING.\<close>

theorem dlq_claims_exclusive:
  assumes "claim_reach dl_id dlq_open dlq_sel dlq_mk True t0 s"
  shows "(\<forall>w w'. w \<noteq> w' \<longrightarrow> owned s w \<inter> owned s w' = {}) \<and>
     (\<forall>w. \<forall>r \<in> set (rows s). dl_id r \<in> owned s w \<longrightarrow> dl_status r \<noteq> DLQ_PENDING)"
  using dlq_queue.claims_exclusive [OF assms] dlq_queue.claimed_closed [OF assms]
  by (auto simp: dlq_open_def)

theorem dlq_claims_exclusive_witness:
  "let r = fst (dlq_save_event dlq_config_default ''d'' 1 demo_dlq_failure []);
       s = \<lparr>rows = dlq_mk (stable_order, dlq_config_default, None, 2) [r] [r], selecting = (\<lambda>_. []),
            owned = (\<lambda>_. {})(1 := {''d''})\<rparr> in
   claim_reach dl_id dlq_open dlq_sel dlq_mk True [r] s \<and> owned s 1 \<inter> owned s 2 = {}"
proof -
  let ?r = "fst (dlq_save_event dlq_config_default ''d'' 1 demo_dlq_failure [])"
  let ?q = "(stable_order, dlq_config_default, None, 2) :: dlq_query"
  let ?s = "\<lparr>rows = dlq_mk ?q [?r] [?r], selecting = (\<lambda>_. []), owned = (\<lambda>_. {})(1 := {''d''})\<rparr>"
  have sel: "dlq_sel ?q {} [?r] = [?r]"
    by (simp add: dlq_sel_def dlq_select_def sql_limit_def sql_where_def dlq_eligible_def dlq_save_event_def
        dlq_config_default_def demo_dlq_failure_def Let_def)
  have 1: "claim_reach dl_id dlq_open dlq_sel dlq_mk True [?r]
      \<lparr>rows = [?r], selecting = (\<lambda>_. [])(1 := [?r]), owned = \<lambda>_. {}\<rparr>"
    by (rule claim_reach_select [OF claim_start, where w = 1 and q = ?q]) (simp_all add: locked_ids_def sel)
  have 2: "claim_reach dl_id dlq_open dlq_sel dlq_mk True [?r] ?s"
    by (rule claim_reach_mark [OF 1, where w = 1 and q = ?q, OF refl])
      (auto simp: ids_of_def dlq_save_event_def Let_def)
  from conjunct1 [OF dlq_claims_exclusive [OF 2], rule_format, of 1 2] 2 show ?thesis by (simp add: Let_def)
qed

text \<open>A replay deletes the message exactly when the replayer has accepted it; any exception,
  cancellation included, leaves the message and is reported as \<open>DeadLetterReplayError\<close>.\<close>

lemma dlqs_replay_outcome:
  assumes "dr_get R i w = (Inr (Some msg), w1)" and "replay msg w1 = (x, w2)"
  shows "dlqs_replay R (Some replay) True i w = (case x of
     Inl e \<Rightarrow> (Inl (DeadLetterReplayError i e), w2) | Inr _ \<Rightarrow> dr_delete R i w2)"
  using assms by (cases x) (simp_all add: dlqs_replay_def eff_simps)

end
