(* ===== verification/Idempotency.thy ===== *)
theory Idempotency
  imports Sql_Table
begin

text \<open>
  At-most-once processing of events: \<open>IdempotencyConfig\<close>
  (\<open>foundation/resiliant/idempotency.py\<close>), the table \<open>processed_events\<close>
  (\<open>db/models/resiliant/_idempotency_models.py\<close>), \<open>IdempotencyRepository\<close>,
  \<open>IdempotencyMetrics\<close> and \<open>IdempotencyService\<close> (\<open>resiliant/idempotency\<close>). The database
  generates \<open>id\<close> and \<open>created_at\<close>: they are parameters. The columns SQLAlchemy knows for the
  table are a parameter as well (\<open>schema\<close>): an \<open>INSERT\<close> that names another column is refused
  when the statement is compiled. Log lines are not modelled.
\<close>

section \<open>Configuration\<close>

record idem_config =
  ic_key_separator :: string
  ic_ttl_days :: int
  ic_cleanup_batch_size :: int
  ic_enable_metrics :: bool
  ic_log_duplicates :: bool
  ic_strict_mode :: bool
  ic_db_query_timeout_ms :: int

definition idem_config_default :: idem_config where
  "idem_config_default = \<lparr>ic_key_separator = '':'', ic_ttl_days = 30, ic_cleanup_batch_size = 500,
     ic_enable_metrics = True, ic_log_duplicates = True, ic_strict_mode = False,
     ic_db_query_timeout_ms = 3000\<rparr>"

definition idem_post_init :: "idem_config \<Rightarrow> py_exn + idem_config" where
  "idem_post_init c =
     (if ic_ttl_days c < 1 then Inl (ValueError ''ttl_days'')
      else if ic_cleanup_batch_size c < 1 then Inl (ValueError ''cleanup_batch_size'')
      else if ic_key_separator c = [] then Inl (ValueError ''key_separator'')
      else Inr c)"

definition idem_ttl_seconds :: "idem_config \<Rightarrow> int" where
  "idem_ttl_seconds c = ic_ttl_days c * 86400"

text \<open>\<open>getattr(settings, name, default)\<close>: a settings object is a partial map of attributes.\<close>

record idem_settings =
  st_ttl_days :: "int option"
  st_cleanup_batch_size :: "int option"
  st_enable_metrics :: "bool option"
  st_log_duplicates :: "bool option"
  st_strict_mode :: "bool option"
  st_db_query_timeout_ms :: "int option"

definition idem_from_settings :: "idem_settings \<Rightarrow> py_exn + idem_config" where
  "idem_from_settings s = idem_post_init
     \<lparr>ic_key_separator = '':'', ic_ttl_days = if_none (st_ttl_days s) 30,
      ic_cleanup_batch_size = if_none (st_cleanup_batch_size s) 500,
      ic_enable_metrics = if_none (st_enable_metrics s) True,
      ic_log_duplicates = if_none (st_log_duplicates s) True,
      ic_strict_mode = if_none (st_strict_mode s) False,
      ic_db_query_timeout_ms = if_none (st_db_query_timeout_ms s) 3000\<rparr>"

section \<open>The table\<close>

record processed_row =
  pr_id :: string
  pr_idempotency_key :: string
  pr_event_id :: string
  pr_event_type :: string
  pr_handler_name :: string
  pr_saga_id :: "string option"
  pr_correlation_id :: "string option"
  pr_extra_metadata :: "jdict option"
  pr_created_at :: int

type_synonym processed_table = "processed_row list"

text \<open>The columns \<open>ProcessedEventTable\<close> declares, \<open>id\<close> coming from its base class.\<close>

definition processed_event_columns :: "string list" where
  "processed_event_columns = [''id'', ''idempotency_key'', ''event_id'', ''event_type'',
     ''handler_name'', ''saga_id'', ''correlation_id'', ''extra_metadata'', ''created_at'']"

text \<open>The arguments of \<open>mark_processed\<close>.\<close>

record mark_request =
  mr_key :: string
  mr_event_id :: string
  mr_event_type :: string
  mr_handler_name :: string
  mr_saga_id :: "string option"
  mr_correlation_id :: "string option"
  mr_tenant_id :: "string option"
  mr_extra_metadata :: "jdict option"

section \<open>IdempotencyRepository\<close>

definition idem_is_processed :: "string \<Rightarrow> processed_table \<Rightarrow> bool" where
  "idem_is_processed key t \<longleftrightarrow> list_ex (\<lambda>r. pr_idempotency_key r = key) t"

text \<open>The keyword arguments of \<open>.values(...)\<close>.\<close>

definition mark_columns :: "string list" where
  "mark_columns = [''idempotency_key'', ''event_id'', ''event_type'', ''handler_name'',
     ''saga_id'', ''correlation_id'', ''tenant_id'', ''extra_metadata'']"

text \<open>The \<open>String(n)\<close> columns.\<close>

definition mark_fits :: "mark_request \<Rightarrow> bool" where
  "mark_fits q \<longleftrightarrow> length (mr_key q) \<le> 512 \<and> length (mr_event_id q) \<le> 255 \<and>
     length (mr_event_type q) \<le> 255 \<and> length (mr_handler_name q) \<le> 255 \<and>
     (case mr_correlation_id q of None \<Rightarrow> True | Some i \<Rightarrow> length i \<le> 255)"

definition mark_row :: "string \<Rightarrow> int \<Rightarrow> mark_request \<Rightarrow> processed_row" where
  "mark_row new_id now q = \<lparr>pr_id = new_id, pr_idempotency_key = mr_key q,
     pr_event_id = mr_event_id q, pr_event_type = mr_event_type q,
     pr_handler_name = mr_handler_name q, pr_saga_id = mr_saga_id q,
     pr_correlation_id = mr_correlation_id q, pr_extra_metadata = mr_extra_metadata q,
     pr_created_at = now\<rparr>"

definition idem_mark_processed ::
  "string list \<Rightarrow> string \<Rightarrow> int \<Rightarrow> mark_request \<Rightarrow> (processed_table, bool) eff" where
  "idem_mark_processed schema new_id now q t =
     (if \<not> list_all (\<lambda>col. col \<in> set schema) mark_columns
      then (Inl (DatabaseError ''Unconsumed column names''), t)
      else if \<not> mark_fits q then (Inl (DatabaseError ''value too long''), t)
      else if idem_is_processed (mr_key q) t then (Inr False, t)
      else (Inr True, t @ [mark_row new_id now q]))"

definition idem_get_by_key :: "string \<Rightarrow> processed_table \<Rightarrow> processed_row option" where
  "idem_get_by_key key t = find (\<lambda>r. pr_idempotency_key r = key) t"

definition idem_threshold :: "idem_config \<Rightarrow> int option \<Rightarrow> int \<Rightarrow> int" where
  "idem_threshold c ttl_days now = now - timedelta_days (if_none ttl_days (ic_ttl_days c))"

definition idem_expired_ids ::
  "processed_row sql_order \<Rightarrow> idem_config \<Rightarrow> int option \<Rightarrow> int option \<Rightarrow> int \<Rightarrow> processed_table \<Rightarrow>
   py_exn + string set" where
  "idem_expired_ids ob c ttl_days batch_size now t =
     (case sql_limit (if_none batch_size (ic_cleanup_batch_size c))
        (order_by ob pr_created_at
          (sql_where (\<lambda>r. pr_created_at r < idem_threshold c ttl_days now) t)) of
        Inl e \<Rightarrow> Inl e
      | Inr rs \<Rightarrow> Inr (ids_of pr_id rs))"

definition idem_cleanup_expired ::
  "processed_row sql_order \<Rightarrow> idem_config \<Rightarrow> int option \<Rightarrow> int option \<Rightarrow> int \<Rightarrow>
   (processed_table, int) eff" where
  "idem_cleanup_expired ob c ttl_days batch_size now t =
     (case idem_expired_ids ob c ttl_days batch_size now t of
        Inl e \<Rightarrow> (Inl e, t)
      | Inr del \<Rightarrow> (Inr (sql_count (\<lambda>r. pr_id r \<in> del) t), sql_where (\<lambda>r. pr_id r \<notin> del) t))"

section \<open>IdempotencyMetrics\<close>

record idem_metrics =
  im_total_checks :: int
  im_total_processed :: int
  im_total_duplicates :: int
  im_total_errors :: int
  im_total_cleaned_up :: int
  im_last_duplicate_key :: "string option"
  im_last_error_at :: "int option"
  im_started_at :: int

definition idem_metrics_new :: "int \<Rightarrow> idem_metrics" where
  "idem_metrics_new now = \<lparr>im_total_checks = 0, im_total_processed = 0, im_total_duplicates = 0,
     im_total_errors = 0, im_total_cleaned_up = 0, im_last_duplicate_key = None,
     im_last_error_at = None, im_started_at = now\<rparr>"

definition im_record_check :: "idem_metrics \<Rightarrow> idem_metrics" where
  "im_record_check m = m\<lparr>im_total_checks := im_total_checks m + 1\<rparr>"

definition im_record_processed :: "idem_metrics \<Rightarrow> idem_metrics" where
  "im_record_processed m = m\<lparr>im_total_processed := im_total_processed m + 1\<rparr>"

definition im_record_duplicate :: "string option \<Rightarrow> idem_metrics \<Rightarrow> idem_metrics" where
  "im_record_duplicate key m =
     (let m' = m\<lparr>im_total_duplicates := im_total_duplicates m + 1\<rparr>
      in if str_truthy key then m'\<lparr>im_last_duplicate_key := key\<rparr> else m')"

definition im_record_error :: "int \<Rightarrow> idem_metrics \<Rightarrow> idem_metrics" where
  "im_record_error now m = m\<lparr>im_total_errors := im_total_errors m + 1, im_last_error_at := Some now\<rparr>"

definition im_record_cleanup :: "int \<Rightarrow> idem_metrics \<Rightarrow> idem_metrics" where
  "im_record_cleanup n m = m\<lparr>im_total_cleaned_up := im_total_cleaned_up m + n\<rparr>"

definition im_duplicate_rate :: "idem_metrics \<Rightarrow> rat" where
  "im_duplicate_rate m = (if im_total_checks m \<noteq> 0
     then of_int (im_total_duplicates m) / of_int (im_total_checks m) else 0)"

definition im_error_rate :: "idem_metrics \<Rightarrow> rat" where
  "im_error_rate m = (let denominator = im_total_processed m + im_total_errors m
     in if denominator \<noteq> 0 then of_int (im_total_errors m) / of_int denominator else 0)"

section \<open>IdempotencyService\<close>

text \<open>
  The state the guarded code sees: the table, the service's metrics and the rest of the
  world. A guarded body is any computation on it, so it may also stand for other workers
  that touch the table while it runs.
\<close>

record 'w idem_sys =
  sys_table :: processed_table
  sys_metrics :: idem_metrics
  sys_world :: 'w

definition on_table :: "(processed_table, 'a) eff \<Rightarrow> ('w idem_sys, 'a) eff" where
  "on_table m s = (case m (sys_table s) of (r, t) \<Rightarrow> (r, s\<lparr>sys_table := t\<rparr>))"

text \<open>\<open>if self.config.enable_metrics: self.metrics...\<close>\<close>

definition tally :: "idem_config \<Rightarrow> (idem_metrics \<Rightarrow> idem_metrics) \<Rightarrow> ('w idem_sys, unit) eff" where
  "tally c f = (if ic_enable_metrics c
     then eff_modify (\<lambda>s. s\<lparr>sys_metrics := f (sys_metrics s)\<rparr>) else eff_return ())"

definition build_key :: "idem_config \<Rightarrow> string \<Rightarrow> string \<Rightarrow> string" where
  "build_key c event_id handler_name = handler_name @ ic_key_separator c @ event_id"

definition svc_is_processed :: "idem_config \<Rightarrow> string \<Rightarrow> ('w idem_sys, bool) eff" where
  "svc_is_processed c key = eff_bind (tally c im_record_check)
     (\<lambda>_. eff_get (\<lambda>s. idem_is_processed key (sys_table s)))"

definition svc_mark_processed ::
  "idem_config \<Rightarrow> string list \<Rightarrow> string \<Rightarrow> int \<Rightarrow> mark_request \<Rightarrow> ('w idem_sys, bool) eff" where
  "svc_mark_processed c schema new_id now q =
     eff_bind (on_table (idem_mark_processed schema new_id now q)) (\<lambda>inserted.
     eff_bind (tally c (if inserted then im_record_processed else im_record_duplicate (Some (mr_key q))))
       (\<lambda>_. eff_return inserted))"

text \<open>The arguments of \<open>guard\<close>, and the request it hands to the repository on a clean exit.\<close>

record guard_call =
  gc_event_id :: string
  gc_handler_name :: string
  gc_event_type :: string
  gc_correlation_id :: "string option"
  gc_tenant_id :: "string option"
  gc_saga_id :: "string option"
  gc_raise_on_duplicate :: bool

definition guard_request :: "idem_config \<Rightarrow> guard_call \<Rightarrow> mark_request" where
  "guard_request c g = \<lparr>mr_key = build_key c (gc_event_id g) (gc_handler_name g),
     mr_event_id = gc_event_id g, mr_event_type = gc_event_type g,
     mr_handler_name = gc_handler_name g, mr_saga_id = gc_saga_id g,
     mr_correlation_id = gc_correlation_id g, mr_tenant_id = gc_tenant_id g,
     mr_extra_metadata = None\<rparr>"

text \<open>
  \<open>async with svc.guard(...) as fresh: body\<close>. The body receives the yielded flag; an
  exception of the body surfaces at the \<open>yield\<close>.
\<close>

definition idem_guard ::
  "idem_config \<Rightarrow> string list \<Rightarrow> string \<Rightarrow> int \<Rightarrow> guard_call \<Rightarrow> (bool \<Rightarrow> ('w idem_sys, 'a) eff) \<Rightarrow>
   ('w idem_sys, 'a) eff" where
  "idem_guard c schema new_id now g body =
     (let key = build_key c (gc_event_id g) (gc_handler_name g);
          effective_strict = (gc_raise_on_duplicate g \<or> ic_strict_mode c)
      in eff_bind (tally c im_record_check) (\<lambda>_.
         eff_bind (eff_get (\<lambda>s. idem_is_processed key (sys_table s))) (\<lambda>dup.
         if dup then
           eff_bind (tally c (im_record_duplicate (Some key))) (\<lambda>_.
             if effective_strict then eff_raise (DuplicateEventError key) else body False)
         else
           eff_bind (eff_catch (body True) is_exception
             (\<lambda>e. eff_bind (tally c (im_record_error now)) (\<lambda>_. eff_raise e))) (\<lambda>r.
           eff_bind (on_table (idem_mark_processed schema new_id now (guard_request c g))) (\<lambda>inserted.
           eff_bind (tally c (if inserted then im_record_processed else im_record_duplicate (Some key)))
             (\<lambda>_. eff_return r))))))"

definition svc_cleanup_expired ::
  "processed_row sql_order \<Rightarrow> idem_config \<Rightarrow> int option \<Rightarrow> int option \<Rightarrow> int \<Rightarrow> ('w idem_sys, int) eff" where
  "svc_cleanup_expired ob c ttl_days batch_size now =
     eff_bind (on_table (idem_cleanup_expired ob c ttl_days batch_size now)) (\<lambda>deleted.
     eff_bind (if deleted \<noteq> 0 then tally c (im_record_cleanup deleted) else eff_return ())
       (\<lambda>_. eff_return deleted))"

section \<open>Lemmas\<close>

definition tallied :: "idem_config \<Rightarrow> (idem_metrics \<Rightarrow> idem_metrics) \<Rightarrow> 'w idem_sys \<Rightarrow> 'w idem_sys" where
  "tallied c f s = (if ic_enable_metrics c then s\<lparr>sys_metrics := f (sys_metrics s)\<rparr> else s)"

lemma tally_run [eff_simps]: "tally c f s = (Inr (), tallied c f s)"
  by (simp add: tally_def tallied_def eff_defs)

lemma tallied_table [simp]: "sys_table (tallied c f s) = sys_table s"
  and tallied_world [simp]: "sys_world (tallied c f s) = sys_world s"
  by (simp_all add: tallied_def)

lemma is_processed_iff: "idem_is_processed key t \<longleftrightarrow> key \<in> pr_idempotency_key ` set t"
  by (auto simp: idem_is_processed_def list_ex_iff)

text \<open>The schema has every column the \<open>INSERT\<close> names.\<close>

abbreviation schema_ok :: "string list \<Rightarrow> bool" where
  "schema_ok schema \<equiv> list_all (\<lambda>col. col \<in> set schema) mark_columns"

lemma source_schema [simp]: "\<not> schema_ok processed_event_columns"
  by (simp add: mark_columns_def processed_event_columns_def)

lemma mark_cases:
  assumes "idem_mark_processed schema i now q t = (r, t')"
  obtains (failed) e where "r = Inl e" "t' = t"
    | (lost) "r = Inr False" "t' = t" "idem_is_processed (mr_key q) t"
    | (won) "r = Inr True" "t' = t @ [mark_row i now q]" "\<not> idem_is_processed (mr_key q) t"
  using assms by (auto simp: idem_mark_processed_def split: if_splits)

lemma mark_records:
  "idem_mark_processed schema i now q t = (Inr b, t') \<Longrightarrow> idem_is_processed (mr_key q) t'"
  by (erule mark_cases) (auto simp: is_processed_iff mark_row_def)

lemma mark_source_schema:
  "idem_mark_processed processed_event_columns i now q t =
     (Inl (DatabaseError ''Unconsumed column names''), t)"
  by (simp only: idem_mark_processed_def source_schema not_False_eq_True if_True)

lemma guard_key [simp]: "mr_key (guard_request c g) = build_key c (gc_event_id g) (gc_handler_name g)"
  by (simp add: guard_request_def)

text \<open>The two branches of the guard.\<close>

abbreviation guard_key_of :: "idem_config \<Rightarrow> guard_call \<Rightarrow> string" where
  "guard_key_of c g \<equiv> build_key c (gc_event_id g) (gc_handler_name g)"

lemma guard_duplicate:
  assumes "idem_is_processed (guard_key_of c g) (sys_table s)"
  shows "idem_guard c schema i now g body s =
    (let s' = tallied c (im_record_duplicate (Some (guard_key_of c g))) (tallied c im_record_check s)
     in if gc_raise_on_duplicate g \<or> ic_strict_mode c
        then (Inl (DuplicateEventError (guard_key_of c g)), s') else body False s')"
  using assms by (simp add: idem_guard_def Let_def eff_simps)

lemma guard_body_error:
  assumes "\<not> idem_is_processed (guard_key_of c g) (sys_table s)"
    and "body True (tallied c im_record_check s) = (Inl e, s1)"
  shows "idem_guard c schema i now g body s =
    (Inl e, if is_exception e then tallied c (im_record_error now) s1 else s1)"
  using assms by (simp add: idem_guard_def Let_def eff_simps)

lemma guard_body_ok:
  assumes "\<not> idem_is_processed (guard_key_of c g) (sys_table s)"
    and "body True (tallied c im_record_check s) = (Inr x, s1)"
    and "idem_mark_processed schema i now (guard_request c g) (sys_table s1) = (r, t)"
  shows "idem_guard c schema i now g body s =
    (let s2 = s1\<lparr>sys_table := t\<rparr> in
     case r of Inl e \<Rightarrow> (Inl e, s2)
     | Inr inserted \<Rightarrow> (Inr x, tallied c (if inserted then im_record_processed
         else im_record_duplicate (Some (guard_key_of c g))) s2))"
  using assms by (simp add: idem_guard_def Let_def eff_simps on_table_def split: sum.split)

lemma guard_clean_records:
  assumes fresh: "\<not> idem_is_processed (guard_key_of c g) (sys_table s)"
    and run: "idem_guard c schema i now g body s = (Inr x, s')"
  shows "idem_is_processed (guard_key_of c g) (sys_table s')"
proof -
  obtain r s1 where b: "body True (tallied c im_record_check s) = (r, s1)"
    by (rule prod.exhaust)
  obtain m t where mk: "idem_mark_processed schema i now (guard_request c g) (sys_table s1) = (m, t)"
    by (rule prod.exhaust)
  show ?thesis
  proof (cases r)
    case (Inl e)
    with guard_body_error [OF fresh, of body e s1 schema i now] b run show ?thesis by simp
  next
    case (Inr y)
    with b have b': "body True (tallied c im_record_check s) = (Inr y, s1)" by simp
    from guard_body_ok [where body = body and g = g and schema = schema and i = i and now = now,
        OF fresh b' mk] run obtain ins where "m = Inr ins" "sys_table s' = t"
      by (auto simp: Let_def split: sum.splits)
    with mark_records [of schema i now "guard_request c g" "sys_table s1" ins t] mk show ?thesis by simp
  qed
qed

section \<open>The guard\<close>

text \<open>At most once. When a guarded block for a fresh (handler, event) pair completes, its key is
  recorded, and as long as the row is there every later guard for the pair (whatever its other
  arguments) keeps the body from processing again: in strict mode or with
  \<open>raise_on_duplicate\<close> it raises \<open>DuplicateEventError\<close> without entering the body; otherwise the
  body is entered with the flag \<open>False\<close> only.\<close>
theorem idem_guard_at_most_once:
  assumes "\<not> idem_is_processed (build_key c ev h) (sys_table s)"
    and "gc_event_id g = ev" and "gc_handler_name g = h"
    and "idem_guard c schema i now g body s = (Inr x, s1)"
    and "set (sys_table s1) \<subseteq> set (sys_table s2)"
    and "gc_event_id g' = ev" and "gc_handler_name g' = h"
  shows "idem_guard c schema i' now' g' body' s2 = idem_guard c schema i' now' g' (\<lambda>_. body' False) s2 \<and>
    (gc_raise_on_duplicate g' \<or> ic_strict_mode c \<longrightarrow>
      fst (idem_guard c schema i' now' g' body' s2) = Inl (DuplicateEventError (build_key c ev h)))"
proof -
  have "idem_is_processed (guard_key_of c g) (sys_table s1)"
    using assms(1-4) guard_clean_records [of c g s schema i now body x s1] by simp
  then have "idem_is_processed (guard_key_of c g') (sys_table s2)"
    using assms(2,3,5-7) by (auto simp: is_processed_iff)
  then show ?thesis
    using assms(6,7) by (simp add: guard_duplicate Let_def)
qed

text \<open>A guarded block that fails is not recorded: the exception of the body, whatever it is,
  comes out unchanged, the table is the one the body left, and a redelivery finds the key still
  fresh. Errors are counted, a cancellation is not.\<close>
theorem idem_guard_failure_retryable:
  assumes "\<not> idem_is_processed (build_key c (gc_event_id g) (gc_handler_name g)) (sys_table s)"
    and "body True (tallied c im_record_check s) = (Inl e, s1)"
    and "idem_guard c schema i now g body s = (r, s')"
  shows "r = Inl e \<and> sys_table s' = sys_table s1 \<and> sys_world s' = sys_world s1 \<and>
    im_total_errors (sys_metrics s') = im_total_errors (sys_metrics s1) +
      (if ic_enable_metrics c \<and> is_exception e then 1 else 0)"
  using assms guard_body_error [where body = body and g = g, OF assms(1,2), of schema i now]
  by (auto simp: tallied_def im_record_error_def)

text \<open>With the columns \<open>ProcessedEventTable\<close> has, no guarded block for a fresh key ever
  completes: \<open>mark_processed\<close> names a column \<open>tenant_id\<close> the table lacks, so a body that succeeds
  ends in an error, nothing is recorded, and the redelivery runs the body again.\<close>
lemma guard_never_records:
  assumes "\<not> idem_is_processed (build_key c (gc_event_id g) (gc_handler_name g)) (sys_table s)"
    and "body True (tallied c im_record_check s) = (Inr x, s1)"
  shows "idem_guard c processed_event_columns i now g body s =
    (Inl (DatabaseError ''Unconsumed column names''), s1)"
  using guard_body_ok [where r = "Inl (DatabaseError ''Unconsumed column names'')" and
      schema = processed_event_columns and i = i and now = now and body = body and g = g, OF assms mark_source_schema]
  by (simp add: Let_def)

text \<open>A schema with the missing column, a handler call and a body that counts its effects.\<close>

definition wit_schema :: "string list" where
  "wit_schema = ''tenant_id'' # processed_event_columns"

definition wit_call :: "string \<Rightarrow> string \<Rightarrow> guard_call" where
  "wit_call ev h = \<lparr>gc_event_id = ev, gc_handler_name = h, gc_event_type = ''e'',
     gc_correlation_id = None, gc_tenant_id = None, gc_saga_id = None, gc_raise_on_duplicate = False\<rparr>"

definition wit_body :: "bool \<Rightarrow> (nat idem_sys, unit) eff" where
  "wit_body fresh = (if fresh then eff_modify (\<lambda>s. s\<lparr>sys_world := sys_world s + 1\<rparr>) else eff_return ())"

definition wit_sys :: "nat idem_sys" where
  "wit_sys = \<lparr>sys_table = [], sys_metrics = idem_metrics_new 0, sys_world = 0\<rparr>"

lemma wit_schema_ok [simp]: "schema_ok wit_schema"
  by (simp add: wit_schema_def mark_columns_def processed_event_columns_def)

lemma wit_run:
  "fst (idem_guard idem_config_default wit_schema i 7 (wit_call ''1'' ''H'') wit_body wit_sys) = Inr ()"
  "sys_world (snd (idem_guard idem_config_default wit_schema i 7 (wit_call ''1'' ''H'') wit_body wit_sys)) = 1"
  by code_simp+

lemma idem_guard_at_most_once_witness:
  "let g = wit_call ''1'' ''H'';
       (r, s1) = idem_guard idem_config_default wit_schema ''i'' 7 g wit_body wit_sys
   in r = Inr () \<and> sys_world s1 = 1 \<and>
      idem_guard idem_config_default wit_schema ''k'' 9 g wit_body s1 =
        idem_guard idem_config_default wit_schema ''k'' 9 g (\<lambda>_. wit_body False) s1"
proof -
  let ?g = "wit_call ''1'' ''H''" and ?c = idem_config_default
  let ?s1 = "snd (idem_guard ?c wit_schema ''i'' 7 ?g wit_body wit_sys)"
  have 1: "idem_guard ?c wit_schema ''i'' 7 ?g wit_body wit_sys = (Inr (), ?s1)"
    by (rule prod_eqI) (simp_all only: wit_run fst_conv snd_conv)
  have "\<not> idem_is_processed (build_key ?c ''1'' ''H'') (sys_table wit_sys)"
    "gc_event_id ?g = ''1''" "gc_handler_name ?g = ''H''"
    by (simp_all add: idem_is_processed_def wit_sys_def wit_call_def)
  note 2 = idem_guard_at_most_once [OF this 1 subset_refl this(2,3), of "''k''" 9 wit_body]
  show ?thesis
    using 2 [THEN conjunct1] wit_run [of "''i''"] by (simp only: Let_def case_prod_beta simp_thms)
qed

lemma idem_guard_failure_retryable_witness:
  "sys_table (snd (idem_guard idem_config_default wit_schema ''i'' 7 (wit_call ''1'' ''H'')
     (\<lambda>_. eff_raise (UserError ''x'') :: (nat idem_sys, unit) eff) wit_sys)) = []"
proof -
  let ?s1 = "tallied idem_config_default im_record_check wit_sys"
  have 1: "\<not> idem_is_processed (build_key idem_config_default (gc_event_id (wit_call ''1'' ''H''))
      (gc_handler_name (wit_call ''1'' ''H''))) (sys_table wit_sys)"
    by (simp add: idem_is_processed_def wit_sys_def)
  have 2: "(\<lambda>_. eff_raise (UserError ''x'')) True ?s1 = (Inl (UserError ''x'') :: py_exn + unit, ?s1)"
    by (simp add: eff_defs)
  show ?thesis
    using idem_guard_failure_retryable [where body = "\<lambda>_. eff_raise (UserError ''x'')" and
        schema = wit_schema and i = "''i''" and now = 7,
        OF 1 2 prod.collapse [symmetric]]
    by (simp add: wit_sys_def)
qed

lemma guard_never_records_example:
  "let (r, s1) = idem_guard idem_config_default processed_event_columns ''i'' 7
         (wit_call ''1'' ''H'') wit_body wit_sys;
       (r', s2) = idem_guard idem_config_default processed_event_columns ''j'' 9
         (wit_call ''1'' ''H'') wit_body s1
   in sys_world s1 = 1 \<and> sys_world s2 = 2 \<and> sys_table s2 = []"
proof -
  let ?g = "wit_call ''1'' ''H''" and ?c = idem_config_default
  let ?b = "\<lambda>s. snd (wit_body True (tallied ?c im_record_check s))"
  have fresh: "\<not> idem_is_processed (build_key ?c (gc_event_id ?g) (gc_handler_name ?g)) (sys_table s)"
    if "sys_table s = []" for s :: "nat idem_sys"
    using that by (simp add: idem_is_processed_def)
  have run: "wit_body True (tallied ?c im_record_check s) = (Inr (), ?b s)"
    and tab: "sys_table (?b s) = sys_table s" and wld: "sys_world (?b s) = sys_world s + 1" for s
    by (simp_all add: wit_body_def eff_defs)
  have 0: "sys_table wit_sys = []" "sys_world wit_sys = 0" by (simp_all add: wit_sys_def)
  then have 1: "sys_table (?b wit_sys) = []" by (simp only: tab)
  show ?thesis
    using guard_never_records [where body = wit_body, OF fresh [OF 0(1)] run, of "''i''" 7]
      guard_never_records [where body = wit_body, OF fresh [OF 1] run, of "''j''" 9]
    by (simp add: tab wld 0 del: tallied_table tallied_world)
qed

section \<open>Concurrent marks\<close>

text \<open>Each \<open>INSERT\<close> is atomic, so concurrent marks are some sequence of them.\<close>

fun mark_all ::
  "string list \<Rightarrow> (string \<times> int \<times> mark_request) list \<Rightarrow> processed_table \<Rightarrow> (py_exn + bool) list \<times> processed_table" where
  "mark_all schema [] t = ([], t)"
| "mark_all schema ((i, now, q) # qs) t =
     (let (r, t') = idem_mark_processed schema i now q t; (rs, t'') = mark_all schema qs t'
      in (r # rs, t''))"

definition wins :: "string \<Rightarrow> (string \<times> int \<times> mark_request) list \<Rightarrow> (py_exn + bool) list \<Rightarrow> nat" where
  "wins key qs rs = length (filter (\<lambda>((i, now, q), r). mr_key q = key \<and> r = Inr True) (zip qs rs))"

lemma wins_Nil [simp]: "wins key [] rs = 0"
  by (simp add: wins_def)

lemma wins_Cons [simp]: "wins key ((i, now, q) # qs) (r # rs) =
    (if mr_key q = key \<and> r = Inr True then 1 else 0) + wins key qs rs"
  by (simp add: wins_def)

lemma is_processed_append [simp]:
  "idem_is_processed key (t @ [r]) \<longleftrightarrow> idem_is_processed key t \<or> pr_idempotency_key r = key"
  by (auto simp: is_processed_iff)

lemma mark_row_key [simp]: "pr_idempotency_key (mark_row i now q) = mr_key q"
  by (simp add: mark_row_def)

lemma mark_distinct:
  assumes "distinct (map pr_idempotency_key t)" and "idem_mark_processed schema i now q t = (r, t')"
  shows "distinct (map pr_idempotency_key t')"
  using assms(2) by (cases rule: mark_cases) (use assms(1) in \<open>auto simp: is_processed_iff\<close>)

text \<open>Exactly one of any number of racing workers wins a key: over any sequence of marks (of
  this and other keys, on any table), the marks of a key that is already recorded all lose, the
  marks of a fresh key have one winner if there is one, and the keys stay unique.\<close>
theorem idem_mark_one_winner:
  assumes "list_all (\<lambda>col. col \<in> set schema) mark_columns"
    and "\<forall>(i, now, q) \<in> set qs. mark_fits q"
    and "mark_all schema qs t = (rs, t')"
  shows "wins key qs rs =
      (if idem_is_processed key t then 0
       else if \<exists>(i, now, q) \<in> set qs. mr_key q = key then 1 else 0) \<and>
    (distinct (map pr_idempotency_key t) \<longrightarrow> distinct (map pr_idempotency_key t'))"
  using assms(2,3)
proof (induction qs arbitrary: t rs)
  case Nil
  then show ?case by simp
next
  case (Cons p qs)
  obtain i now q where p: "p = (i, now, q)" by (rule prod_cases3)
  obtain r t1 where m: "idem_mark_processed schema i now q t = (r, t1)" by (rule prod.exhaust)
  obtain rs' where rs: "rs = r # rs'" "mark_all schema qs t1 = (rs', t')"
    using Cons.prems(2) by (auto simp: p m split: prod.splits)
  note IH = Cons.IH [OF _ rs(2)]
  have "distinct (map pr_idempotency_key t) \<longrightarrow> distinct (map pr_idempotency_key t')"
    using IH mark_distinct [OF _ m] Cons.prems(1) by auto
  moreover have "mark_fits q" using Cons.prems(1) by (simp add: p)
  with m assms(1) have "r = Inr (\<not> idem_is_processed (mr_key q) t) \<and>
      (\<forall>k. idem_is_processed k t1 \<longleftrightarrow> idem_is_processed k t \<or> mr_key q = k)"
    by (auto simp: idem_mark_processed_def split: if_splits)
  ultimately show ?case
    using IH Cons.prems(1) by (auto simp: p rs(1))
qed

lemma idem_mark_one_winner_witness:
  "let q = guard_request idem_config_default (wit_call ''1'' ''H''); qs = [(''i'', 1, q), (''j'', 2, q)]
   in wins ''H:1'' qs (fst (mark_all wit_schema qs [])) = 1"
proof -
  define q where "q = guard_request idem_config_default (wit_call ''1'' ''H'')"
  have "mark_fits q" "mr_key q = ''H:1''"
    by (simp_all add: q_def guard_request_def wit_call_def mark_fits_def build_key_def idem_config_default_def)
  with idem_mark_one_winner [OF wit_schema_ok, of "[(''i'', 1, q), (''j'', 2, q)]" "[]",
      OF _ prod.collapse [symmetric], of "''H:1''"]
  show ?thesis by (simp add: q_def Let_def idem_is_processed_def)
qed

section \<open>Keys\<close>

lemma append_sep_unique:
  "c \<notin> set a \<Longrightarrow> c \<notin> set b \<Longrightarrow> a @ c # x = b @ c # y \<longleftrightarrow> a = b \<and> x = y"
proof (induction a arbitrary: b)
  case Nil
  then show ?case by (cases b) auto
next
  case (Cons d a)
  then show ?case by (cases b) auto
qed

text \<open>With a one-character separator that no handler name contains (event ids may), the key
  determines the pair: two guards share a key exactly when they are for the same handler and the
  same event. A handler name with the separator in it breaks this: for every separator there are
  two different pairs with one key.\<close>
theorem idem_build_key_injective:
  assumes "ic_key_separator c = [ch]"
  shows "(\<forall>h h' ev ev'. ch \<notin> set h \<and> ch \<notin> set h' \<longrightarrow>
            (build_key c ev h = build_key c ev' h' \<longleftrightarrow> h = h' \<and> ev = ev')) \<and>
    (\<forall>h ev x. build_key c ev (h @ ch # x) = build_key c (x @ ch # ev) h \<and> h @ ch # x \<noteq> h)"
  using assms by (simp add: build_key_def append_sep_unique)

lemma idem_build_key_injective_witness:
  "build_key idem_config_default ''1'' ''A:B'' = build_key idem_config_default ''B:1'' ''A'' \<and>
   build_key idem_config_default ''1'' ''A'' \<noteq> build_key idem_config_default ''1'' ''B''"
proof -
  have "ic_key_separator idem_config_default = [CHR '':'']"
    by (simp add: idem_config_default_def)
  note inj = idem_build_key_injective [OF this]
  have "build_key idem_config_default ''1'' (''A'' @ CHR '':'' # ''B'') =
      build_key idem_config_default (''B'' @ CHR '':'' # ''1'') ''A''"
    by (rule inj [THEN conjunct2, rule_format, THEN conjunct1])
  moreover have "build_key idem_config_default ''1'' ''A'' = build_key idem_config_default ''1'' ''B'' \<longleftrightarrow>
      ''A'' = ''B'' \<and> ''1'' = ''1''"
    by (rule inj [THEN conjunct1, rule_format]) simp
  ultimately show ?thesis by simp
qed

section \<open>Expiry\<close>

lemma ids_filter_same:
  assumes d: "distinct (map k t)" and R: "mset R \<subseteq># mset t"
  shows "mset (filter (\<lambda>r. k r \<in> ids_of k R) t) = mset R"
proof -
  have sub: "set R \<subseteq> set t" using set_mset_mono [OF R] by simp
  have dt: "distinct t" using d by (simp add: distinct_map)
  obtain ys where "mset ys = mset t - mset R" using ex_mset by blast
  with R have "mset (R @ ys) = mset t" by simp
  then have dR: "distinct R" using dt mset_eq_imp_distinct_iff distinct_append by blast
  have "set (filter (\<lambda>r. k r \<in> ids_of k R) t) = set R"
    using sub distinct_map_same [OF d] by (auto simp: ids_of_def)
  then show ?thesis
    using set_eq_iff_mset_eq_distinct [OF distinct_filter [OF dt] dR] by blast
qed

text \<open>The rows a cleanup deletes, and the ones that stay.\<close>

lemma cleanup_deletes:
  assumes d: "distinct (map pr_id t)"
    and run: "idem_cleanup_expired ob c ttl batch now t = (Inr n, t')"
  obtains R where "R = take (nat (if_none batch (ic_cleanup_batch_size c))) (order_by ob pr_created_at
      (filter (\<lambda>r. pr_created_at r < idem_threshold c ttl now) t))"
    and "0 \<le> if_none batch (ic_cleanup_batch_size c)"
    and "n = int (length R)" and "mset t = mset R + mset t'" and "t' = filter (\<lambda>r. r \<notin> set R) t"
proof -
  let ?E = "filter (\<lambda>r. pr_created_at r < idem_threshold c ttl now) t"
  let ?R = "take (nat (if_none batch (ic_cleanup_batch_size c))) (order_by ob pr_created_at ?E)"
  have b: "0 \<le> if_none batch (ic_cleanup_batch_size c)"
    and n: "n = sql_count (\<lambda>r. pr_id r \<in> ids_of pr_id ?R) t"
    and t': "t' = filter (\<lambda>r. pr_id r \<notin> ids_of pr_id ?R) t"
    using run by (auto simp: idem_cleanup_expired_def idem_expired_ids_def sql_limit_def sql_where_def
        split: if_splits)
  have "mset ?R \<subseteq># mset (order_by ob pr_created_at ?E)"
    by (metis append_take_drop_id mset_append mset_subset_eq_add_left)
  then have "mset ?R \<subseteq># mset t"
    by (metis mset_order_by mset_filter multiset_filter_subset subset_mset.order_trans)
  note same = ids_filter_same [OF d this]
  have "n = int (length ?R)"
    unfolding n sql_count_def using mset_eq_length [OF same] by simp
  moreover have "mset t = mset ?R + mset t'"
    unfolding t' same [symmetric] mset_filter by (rule multiset_partition)
  moreover have sub: "set ?R \<subseteq> set t"
    using mset_eq_setD [OF same] by auto
  have "pr_id r \<in> ids_of pr_id ?R \<longleftrightarrow> r \<in> set ?R" if "r \<in> set t" for r
    using distinct_map_same [OF d that] sub unfolding ids_of_def by blast
  then have "t' = filter (\<lambda>r. r \<notin> set ?R) t"
    unfolding t' by (intro filter_cong) simp_all
  ultimately show ?thesis using that b by blast
qed

text \<open>A cleanup deletes the oldest expired rows and nothing else: it returns how many rows it
  deleted, the smaller of the batch size and the number of expired rows; what it deletes has
  expired, an expired row that stays is at least as young as every deleted one, and the rows that
  have not expired stay in place. So with a positive batch size a return value below the batch
  size, in particular 0, means no expired row is left.\<close>
theorem idem_cleanup_oldest_expired:
  assumes "distinct (map pr_id t)"
    and "idem_cleanup_expired ob c ttl batch now t = (Inr n, t')"
    and "cutoff = idem_threshold c ttl now"
    and "bound = if_none batch (ic_cleanup_batch_size c)"
  shows "n = min bound (sql_count (\<lambda>r. pr_created_at r < cutoff) t) \<and>
    sql_count (\<lambda>r. pr_created_at r < cutoff) t' = sql_count (\<lambda>r. pr_created_at r < cutoff) t - n \<and>
    filter (\<lambda>r. \<not> pr_created_at r < cutoff) t' = filter (\<lambda>r. \<not> pr_created_at r < cutoff) t \<and>
    (\<forall>r \<in> set t - set t'. pr_created_at r < cutoff \<and>
       (\<forall>r' \<in> set t'. pr_created_at r \<le> pr_created_at r')) \<and>
    (n < bound \<longrightarrow> (\<forall>r \<in> set t'. cutoff \<le> pr_created_at r))"
proof -
  let ?x = "\<lambda>r. pr_created_at r < cutoff"
  obtain R where R: "R = take (nat bound) (order_by ob pr_created_at (filter ?x t))"
    and b: "0 \<le> bound" and n: "n = int (length R)"
    and mt: "mset t = mset R + mset t'" and t': "t' = filter (\<lambda>r. r \<notin> set R) t"
    using cleanup_deletes [OF assms(1,2)] assms(3,4) by metis
  have RE: "set R \<subseteq> set (filter ?x t)"
    using set_take_subset [of "nat bound" "order_by ob pr_created_at (filter ?x t)"] by (simp add: R)
  then have Rx: "filter ?x R = R" by (intro filter_True) auto
  have 1: "n = min bound (sql_count ?x t)"
    using b by (simp add: n R sql_count_def min_def) linarith
  have "mset (filter ?x t) = mset R + mset (filter ?x t')"
    using arg_cong [OF mt, of "filter_mset ?x"] by (simp add: Rx flip: mset_filter)
  then have E: "mset (filter ?x t) - mset R = mset (filter ?x t')"
    and 2: "sql_count ?x t' = sql_count ?x t - n"
    using mset_eq_length [of "filter ?x t" "R @ filter ?x t'"] by (simp_all add: n sql_count_def)
  have 3: "filter (\<lambda>r. \<not> ?x r) t' = filter (\<lambda>r. \<not> ?x r) t"
    unfolding t' filter_filter using RE by (intro filter_cong) auto
  have 4: "pr_created_at r \<le> pr_created_at r'" if "r \<in> set t - set t'" "r' \<in> set t'" for r r'
  proof (cases "?x r'")
    case True
    then have "r' \<in># mset (filter ?x t) - mset R" using that E by simp
    moreover have "r \<in> set R" using that t' by auto
    ultimately show ?thesis unfolding R by (intro order_limit_smallest)
  next
    case False
    then show ?thesis using that t' RE by auto
  qed
  have 5: "\<forall>r \<in> set t'. cutoff \<le> pr_created_at r" if "n < bound"
  proof -
    have "sql_count ?x t' = 0" using that 1 2 by simp
    then have "filter ?x t' = []" by (simp add: sql_count_def)
    then show ?thesis by (auto simp: filter_empty_conv)
  qed
  show ?thesis using 1 2 3 4 5 t' RE by auto
qed

definition wit_processed :: "string \<Rightarrow> int \<Rightarrow> processed_row" where
  "wit_processed i created = \<lparr>pr_id = i, pr_idempotency_key = i, pr_event_id = i,
     pr_event_type = ''e'', pr_handler_name = ''H'', pr_saga_id = None, pr_correlation_id = None,
     pr_extra_metadata = None, pr_created_at = created\<rparr>"

lemma idem_cleanup_oldest_expired_witness:
  "let t = [wit_processed ''1'' 5, wit_processed ''2'' 3, wit_processed ''3'' (timedelta_days 30)];
       (r, t') = idem_cleanup_expired stable_order idem_config_default None (Some 1) (timedelta_days 30 + 9) t
   in \<exists>n. r = Inr n \<and> n = 1 \<and> sql_count (\<lambda>r. pr_created_at r < 9) t' = 1"
proof -
  let ?t = "[wit_processed ''1'' 5, wit_processed ''2'' 3, wit_processed ''3'' (timedelta_days 30)]"
  let ?run = "idem_cleanup_expired stable_order idem_config_default None (Some 1) (timedelta_days 30 + 9) ?t"
  have d: "distinct (map pr_id ?t)" by (simp add: wit_processed_def)
  have c: "9 = idem_threshold idem_config_default None (timedelta_days 30 + 9)"
    by (simp add: idem_threshold_def idem_config_default_def)
  have "idem_expired_ids stable_order idem_config_default None (Some 1) (timedelta_days 30 + 9) ?t =
      Inr (ids_of pr_id (take 1 (sort_key pr_created_at (filter (\<lambda>r. pr_created_at r < 9) ?t))))"
    by (simp add: idem_expired_ids_def sql_limit_def sql_where_def flip: c)
  then obtain n t' where r: "?run = (Inr n, t')"
    by (simp add: idem_cleanup_expired_def)
  have e: "sql_count (\<lambda>r. pr_created_at r < 9) ?t = 2"
    by (simp add: sql_count_def wit_processed_def timedelta_days_def usec_def)
  show ?thesis
    using idem_cleanup_oldest_expired [OF d r c refl] by (simp add: r e Let_def)
qed

end
