(* ===== verification/Schedule_Store.thy ===== *)
theory Schedule_Store
  imports Sql_Table
begin

text \<open>
  Durable timers: \<open>ScheduleConfig\<close> and the enumerations of \<open>foundation/resiliant/schedule.py\<close>,
  the table \<open>scheduled_jobs\<close> (\<open>db/models/resiliant/_schedule_models.py\<close>), the recurrence maths
  (\<open>resiliant/schedule/_recurrence.py\<close>), \<open>ScheduleRepository\<close> and \<open>ScheduleService\<close>
  (\<open>schedule_repository.py\<close>, \<open>schedule_service.py\<close>). The table implements the work queue
  interface \<open>claim_queue\<close>. The clock, generated ids, the order of rows with equal keys and the
  library \<open>croniter\<close> (\<open>None\<close> when it is not installed) are parameters.
\<close>

section \<open>Configuration and recurrence\<close>

datatype job_kind = ONCE | INTERVAL | CRON

datatype job_status = JS_SCHEDULED | JS_RUNNING | JS_DONE | JS_FAILED | JS_CANCELLED

definition job_statuses :: "job_status list" where
  "job_statuses = [JS_SCHEDULED, JS_RUNNING, JS_DONE, JS_FAILED, JS_CANCELLED]"

definition terminal_schedule_states :: "job_status list" where
  "terminal_schedule_states = [JS_DONE, JS_FAILED, JS_CANCELLED]"

record schedule_config =
  sc_enabled :: bool
  sc_poll_strategy :: string
  sc_fixed_poll_interval_ms :: int
  sc_min_poll_interval_ms :: int
  sc_max_poll_interval_ms :: int
  sc_initial_poll_interval_ms :: int
  sc_backoff_growth_factor :: rat
  sc_drain_threshold_ratio :: rat
  sc_batch_size :: int
  sc_concurrent_workers :: int
  sc_max_retries :: int
  sc_retry_backoff_seconds :: rat
  sc_claim_timeout_seconds :: int
  sc_use_skip_locked :: bool
  sc_enable_metrics :: bool
  sc_metrics_log_interval_seconds :: int

definition schedule_config_default :: schedule_config where
  "schedule_config_default = \<lparr>sc_enabled = True, sc_poll_strategy = ''fixed'',
     sc_fixed_poll_interval_ms = 30000, sc_min_poll_interval_ms = 1000, sc_max_poll_interval_ms = 60000,
     sc_initial_poll_interval_ms = 30000, sc_backoff_growth_factor = 2, sc_drain_threshold_ratio = 1,
     sc_batch_size = 100, sc_concurrent_workers = 1, sc_max_retries = 3, sc_retry_backoff_seconds = 30,
     sc_claim_timeout_seconds = 300, sc_use_skip_locked = True, sc_enable_metrics = True,
     sc_metrics_log_interval_seconds = 60\<rparr>"

definition schedule_post_init :: "schedule_config \<Rightarrow> py_exn + schedule_config" where
  "schedule_post_init c =
     (if sc_batch_size c < 1 then Inl (ValueError ''batch_size'')
      else if sc_concurrent_workers c < 1 then Inl (ValueError ''concurrent_workers'')
      else if sc_poll_strategy c \<notin> {''fixed'', ''adaptive''} then Inl (ValueError ''poll_strategy'')
      else if sc_min_poll_interval_ms c > sc_max_poll_interval_ms c
      then Inl (ValueError ''min_poll_interval_ms'')
      else if sc_backoff_growth_factor c \<le> 1 then Inl (ValueError ''backoff_growth_factor'')
      else Inr c)"

type_synonym croniter = "(string \<Rightarrow> int \<Rightarrow> py_exn + int) option"

definition cron_next :: "croniter \<Rightarrow> string \<Rightarrow> int \<Rightarrow> py_exn + int" where
  "cron_next cron cron_expr after_time = (case cron of
       None \<Rightarrow> Inl CronSupportError
     | Some get_next \<Rightarrow> get_next cron_expr after_time)"

definition compute_next_run ::
  "croniter \<Rightarrow> job_kind \<Rightarrow> int \<Rightarrow> int option \<Rightarrow> string option \<Rightarrow> py_exn + int option" where
  "compute_next_run cron kind from_time interval_seconds cron_expr = (case kind of
       ONCE \<Rightarrow> Inr None
     | INTERVAL \<Rightarrow> (case interval_seconds of
           None \<Rightarrow> Inl (ValueError ''interval_seconds'')
         | Some n \<Rightarrow> if n \<le> 0 then Inl (ValueError ''interval_seconds'')
                     else Inr (Some (from_time + timedelta_seconds n)))
     | CRON \<Rightarrow> if \<not> str_truthy cron_expr then Inl (ValueError ''cron_expr'')
         else (case cron_next cron (if_none cron_expr []) from_time of
             Inl e \<Rightarrow> Inl e | Inr x \<Rightarrow> Inr (Some x)))"

section \<open>The table\<close>

record sched_row =
  sj_id :: string
  sj_job_name :: string
  sj_kind :: job_kind
  sj_cron_expr :: "string option"
  sj_interval_seconds :: "int option"
  sj_channel :: "string option"
  sj_event_type :: "string option"
  sj_ordering_key :: "string option"
  sj_payload :: "jdict option"
  sj_headers :: "jdict option"
  sj_next_run_at :: int
  sj_last_run_at :: "int option"
  sj_claimed_at :: "int option"
  sj_status :: job_status
  sj_run_count :: int
  sj_max_runs :: "int option"
  sj_attempts :: int
  sj_max_retries :: int
  sj_last_error :: "string option"

type_synonym sched_table = "sched_row list"

section \<open>ScheduleRepository\<close>

definition schedule_save :: "sched_row \<Rightarrow> sched_table \<Rightarrow> sched_table" where
  "schedule_save r t = t @ [r]"

definition schedule_get :: "string \<Rightarrow> sched_table \<Rightarrow> sched_row option" where
  "schedule_get i t = find (\<lambda>r. sj_id r = i) t"

definition schedule_active :: "sched_row \<Rightarrow> bool" where
  "schedule_active r \<longleftrightarrow> sj_status r \<in> {JS_SCHEDULED, JS_RUNNING}"

definition schedule_get_active_by_name :: "string \<Rightarrow> sched_table \<Rightarrow> sched_row option" where
  "schedule_get_active_by_name job_name t = find (\<lambda>r. sj_job_name r = job_name \<and> schedule_active r) t"

definition schedule_due :: "int \<Rightarrow> sched_row \<Rightarrow> bool" where
  "schedule_due now r \<longleftrightarrow> sj_status r = JS_SCHEDULED \<and> sj_next_run_at r \<le> now"

definition schedule_select ::
  "sched_row sql_order \<Rightarrow> schedule_config \<Rightarrow> int option \<Rightarrow> int \<Rightarrow> string set \<Rightarrow> sched_table \<Rightarrow>
   py_exn + sched_row list" where
  "schedule_select ob c batch_size now locked t =
     sql_limit (or_int batch_size (sc_batch_size c)) (order_by ob sj_next_run_at
       (sql_where (\<lambda>r. schedule_due now r \<and> \<not> (sc_use_skip_locked c \<and> sj_id r \<in> locked)) t))"

definition schedule_mark_running :: "int \<Rightarrow> sched_row \<Rightarrow> sched_row" where
  "schedule_mark_running now r = r\<lparr>sj_status := JS_RUNNING, sj_claimed_at := Some now\<rparr>"

definition schedule_claim :: "int \<Rightarrow> sched_row list \<Rightarrow> sched_table \<Rightarrow> sched_table" where
  "schedule_claim now jobs t = (if jobs = [] then t
     else sql_update (\<lambda>r. sj_id r \<in> ids_of sj_id jobs) (schedule_mark_running now) t)"

text \<open>The returned objects are refreshed by the \<open>UPDATE\<close>.\<close>

definition schedule_fetch_due_batch ::
  "sched_row sql_order \<Rightarrow> schedule_config \<Rightarrow> int option \<Rightarrow> int \<Rightarrow> string set \<Rightarrow> (sched_table, sched_row list) eff" where
  "schedule_fetch_due_batch ob c batch_size now locked t =
     (case schedule_select ob c batch_size now locked t of
        Inl e \<Rightarrow> (Inl e, t)
      | Inr jobs \<Rightarrow> (Inr (map (schedule_mark_running now) jobs), schedule_claim now jobs t))"

definition schedule_mark_succeeded :: "int \<Rightarrow> string \<Rightarrow> int option \<Rightarrow> sched_table \<Rightarrow> sched_table" where
  "schedule_mark_succeeded now i next_run_at t = (case schedule_get i t of
       None \<Rightarrow> t
     | Some job \<Rightarrow>
         let run_count = sj_run_count job + 1;
             reached_cap = (case sj_max_runs job of None \<Rightarrow> False | Some n \<Rightarrow> run_count \<ge> n);
             (new_status, new_next_run) = (case next_run_at of
                 None \<Rightarrow> (JS_DONE, sj_next_run_at job)
               | Some n \<Rightarrow> if reached_cap then (JS_DONE, sj_next_run_at job) else (JS_SCHEDULED, n))
         in sql_update (\<lambda>r. sj_id r = i)
              (\<lambda>r. r\<lparr>sj_status := new_status, sj_next_run_at := new_next_run, sj_last_run_at := Some now,
                     sj_claimed_at := None, sj_run_count := run_count, sj_attempts := 0,
                     sj_last_error := None\<rparr>) t)"

definition schedule_mark_failed ::
  "schedule_config \<Rightarrow> int \<Rightarrow> string \<Rightarrow> string \<Rightarrow> int option \<Rightarrow> sched_table \<Rightarrow> sched_table" where
  "schedule_mark_failed c now i err next_run_at t = (case schedule_get i t of
       None \<Rightarrow> t
     | Some job \<Rightarrow>
         let attempts = sj_attempts job + 1;
             exhausted = (attempts \<ge> sj_max_retries job);
             (new_status, new_next_run) =
               (if exhausted then (JS_FAILED, sj_next_run_at job)
                else (JS_SCHEDULED, if_none next_run_at (now + timedelta_float (sc_retry_backoff_seconds c))))
         in sql_update (\<lambda>r. sj_id r = i)
              (\<lambda>r. r\<lparr>sj_status := new_status, sj_next_run_at := new_next_run, sj_claimed_at := None,
                     sj_attempts := attempts, sj_last_error := Some (trunc1000 err)\<rparr>) t)"

definition schedule_cancel :: "string \<Rightarrow> sched_table \<Rightarrow> sched_table" where
  "schedule_cancel i = sql_update (\<lambda>r. sj_id r = i \<and> schedule_active r)
     (\<lambda>r. r\<lparr>sj_status := JS_CANCELLED, sj_claimed_at := None\<rparr>)"

definition schedule_stale :: "schedule_config \<Rightarrow> int option \<Rightarrow> int \<Rightarrow> sched_row \<Rightarrow> bool" where
  "schedule_stale c timeout_seconds now r \<longleftrightarrow> sj_status r = JS_RUNNING \<and>
     (case sj_claimed_at r of None \<Rightarrow> False
      | Some claimed \<Rightarrow> claimed < now - timedelta_seconds (or_int timeout_seconds (sc_claim_timeout_seconds c)))"

definition schedule_reset_stale_running ::
  "schedule_config \<Rightarrow> int option \<Rightarrow> int \<Rightarrow> sched_table \<Rightarrow> int \<times> sched_table" where
  "schedule_reset_stale_running c timeout_seconds now t =
     (sql_count (schedule_stale c timeout_seconds now) t,
      sql_update (schedule_stale c timeout_seconds now)
        (\<lambda>r. r\<lparr>sj_status := JS_SCHEDULED, sj_claimed_at := None\<rparr>) t)"

text \<open>The counters, and the age of the oldest overdue job (in microseconds).\<close>

definition schedule_get_stats :: "int \<Rightarrow> sched_table \<Rightarrow> (job_status \<times> int) list \<times> int" where
  "schedule_get_stats now t =
     (let due = map sj_next_run_at (sql_where (\<lambda>r. sj_status r = JS_SCHEDULED) t)
      in (map (\<lambda>st. (st, sql_count (\<lambda>r. sj_status r = st) t)) job_statuses,
          if due \<noteq> [] \<and> Min (set due) < now then now - Min (set due) else 0))"

section \<open>ScheduleService\<close>

text \<open>A \<open>datetime\<close>: its wall clock reading and, when it is aware, its offset from UTC.\<close>

type_synonym py_datetime = "int \<times> int option"

definition as_naive_utc :: "py_datetime \<Rightarrow> int" where
  "as_naive_utc dt = (case dt of (reading, None) \<Rightarrow> reading | (reading, Some offset) \<Rightarrow> reading - offset)"

text \<open>The keyword arguments all \<open>schedule_*\<close> methods share.\<close>

record job_args =
  ja_channel :: "string option"
  ja_event_type :: "string option"
  ja_payload :: "jdict option"
  ja_ordering_key :: "string option"
  ja_headers :: "jdict option"
  ja_max_retries :: "int option"

definition schedule_create ::
  "schedule_config \<Rightarrow> string \<Rightarrow> string \<Rightarrow> job_kind \<Rightarrow> int \<Rightarrow> int option \<Rightarrow> string option \<Rightarrow> int option \<Rightarrow>
   job_args \<Rightarrow> (sched_table, sched_row) eff" where
  "schedule_create c new_id job_name kind next_run_at interval_seconds cron_expr max_runs a t =
     (let job = \<lparr>sj_id = new_id, sj_job_name = job_name, sj_kind = kind, sj_cron_expr = cron_expr,
        sj_interval_seconds = interval_seconds, sj_channel = ja_channel a, sj_event_type = ja_event_type a,
        sj_ordering_key = ja_ordering_key a, sj_payload = Some (jdict_or_empty (ja_payload a)),
        sj_headers = Some (jdict_or_empty (ja_headers a)), sj_next_run_at = next_run_at,
        sj_last_run_at = None, sj_claimed_at = None, sj_status = JS_SCHEDULED, sj_run_count = 0,
        sj_max_runs = max_runs, sj_attempts = 0,
        sj_max_retries = if_none (ja_max_retries a) (sc_max_retries c), sj_last_error = None\<rparr>
      in (Inr job, schedule_save job t))"

definition schedule_once ::
  "schedule_config \<Rightarrow> string \<Rightarrow> string \<Rightarrow> py_datetime \<Rightarrow> job_args \<Rightarrow> (sched_table, sched_row) eff" where
  "schedule_once c new_id job_name run_at a =
     schedule_create c new_id job_name ONCE (as_naive_utc run_at) None None None a"

definition schedule_after ::
  "schedule_config \<Rightarrow> string \<Rightarrow> int \<Rightarrow> string \<Rightarrow> rat \<Rightarrow> job_args \<Rightarrow> (sched_table, sched_row) eff" where
  "schedule_after c new_id now job_name delay_seconds a =
     schedule_once c new_id job_name (now + timedelta_float delay_seconds, None) a"

definition schedule_interval ::
  "schedule_config \<Rightarrow> string \<Rightarrow> int \<Rightarrow> string \<Rightarrow> int \<Rightarrow> py_datetime option \<Rightarrow> int option \<Rightarrow> job_args \<Rightarrow>
   (sched_table, sched_row) eff" where
  "schedule_interval c new_id now job_name interval_seconds start_at max_runs a =
     (if interval_seconds \<le> 0 then eff_raise (ValueError ''interval_seconds'')
      else let first = (case start_at of Some dt \<Rightarrow> as_naive_utc dt
                        | None \<Rightarrow> now + timedelta_seconds interval_seconds)
           in schedule_create c new_id job_name INTERVAL first (Some interval_seconds) None max_runs a)"

definition schedule_cron ::
  "schedule_config \<Rightarrow> croniter \<Rightarrow> string \<Rightarrow> int \<Rightarrow> string \<Rightarrow> string \<Rightarrow> int option \<Rightarrow> job_args \<Rightarrow>
   (sched_table, sched_row) eff" where
  "schedule_cron c cron new_id now job_name cron_expr max_runs a =
     (case cron_next cron cron_expr now of
        Inl e \<Rightarrow> eff_raise e
      | Inr first \<Rightarrow> schedule_create c new_id job_name CRON first None (Some cron_expr) max_runs a)"

definition schedule_exists_active :: "string \<Rightarrow> sched_table \<Rightarrow> bool" where
  "schedule_exists_active job_name t \<longleftrightarrow> schedule_get_active_by_name job_name t \<noteq> None"

section \<open>The jobs are a work queue\<close>

definition schedule_open :: "sched_row \<Rightarrow> bool" where
  "schedule_open r \<longleftrightarrow> sj_status r = JS_SCHEDULED"

type_synonym schedule_query = "sched_row sql_order \<times> schedule_config \<times> int option \<times> int"

definition schedule_sel :: "schedule_query \<Rightarrow> string set \<Rightarrow> sched_table \<Rightarrow> sched_row list" where
  "schedule_sel q locked t = (case q of (ob, c, n, now) \<Rightarrow>
     (case schedule_select ob (c\<lparr>sc_use_skip_locked := True\<rparr>) n now locked t of Inl _ \<Rightarrow> [] | Inr rs \<Rightarrow> rs))"

definition schedule_mk :: "schedule_query \<Rightarrow> sched_row list \<Rightarrow> sched_table \<Rightarrow> sched_table" where
  "schedule_mk q jobs t = (case q of (ob, c, n, now) \<Rightarrow> schedule_claim now jobs t)"

lemma schedule_mark_running_simps [simp]:
  "sj_id (schedule_mark_running now r) = sj_id r" "sj_status (schedule_mark_running now r) = JS_RUNNING"
  by (simp_all add: schedule_mark_running_def)

lemma schedule_claim_ids [simp]: "map sj_id (schedule_claim now jobs t) = map sj_id t"
  by (simp add: schedule_claim_def sql_update_map_key)

lemma schedule_claim_update:
  "schedule_claim now jobs t = sql_update (\<lambda>r. sj_id r \<in> ids_of sj_id jobs) (schedule_mark_running now) t"
  by (simp add: schedule_claim_def sql_update_unmatched)

lemma schedule_claim_closes:
  assumes "r \<in> set (schedule_claim now jobs t)" and "sj_id r \<in> ids_of sj_id jobs"
  shows "\<not> schedule_open r"
proof -
  obtain r0 where "r = (if sj_id r0 \<in> ids_of sj_id jobs then schedule_mark_running now r0 else r0)"
    using assms(1) by (auto simp: schedule_claim_update set_sql_update)
  then have "sj_status r = JS_RUNNING" using assms(2) by (simp split: if_splits)
  then show ?thesis by (simp add: schedule_open_def)
qed

lemma schedule_select_facts:
  assumes "schedule_select ob c n now locked t = Inr rs"
  shows "int (length rs) \<le> or_int n (sc_batch_size c)" and "sorted (map sj_next_run_at rs)"
    and "r \<in> set rs \<Longrightarrow> r \<in> set t \<and> schedule_due now r \<and> (sc_use_skip_locked c \<longrightarrow> sj_id r \<notin> locked)"
    and "distinct (map sj_id t) \<Longrightarrow> distinct (map sj_id rs)"
proof -
  note eq = assms [unfolded schedule_select_def sql_limit_Inr sql_where_def]
  then show "int (length rs) \<le> or_int n (sc_batch_size c)" "sorted (map sj_next_run_at rs)"
    and "r \<in> set rs \<Longrightarrow> r \<in> set t \<and> schedule_due now r \<and> (sc_use_skip_locked c \<longrightarrow> sj_id r \<notin> locked)"
    by (auto dest!: in_set_takeD)
  assume d: "distinct (map sj_id t)"
  let ?f = "filter (\<lambda>r. schedule_due now r \<and> \<not> (sc_use_skip_locked c \<and> sj_id r \<in> locked)) t"
  have "distinct (map sj_id ?f)" using d by (rule distinct_map_filter)
  moreover have "mset (map sj_id (order_by ob sj_next_run_at ?f)) = mset (map sj_id ?f)"
    by (simp only: mset_map mset_order_by)
  ultimately have "distinct (map sj_id (order_by ob sj_next_run_at ?f))"
    using mset_eq_imp_distinct_iff by blast
  then show "distinct (map sj_id rs)"
    using eq by (simp add: distinct_take flip: take_map)
qed

lemma schedule_sel_facts:
  assumes "r \<in> set (schedule_sel (ob, c, n, now) L t)"
  shows "r \<in> set t \<and> schedule_open r \<and> sj_id r \<notin> L"
  using assms schedule_select_facts(3) [of ob "c\<lparr>sc_use_skip_locked := True\<rparr>" n now L t _ r]
  by (cases "schedule_select ob (c\<lparr>sc_use_skip_locked := True\<rparr>) n now L t")
    (simp_all add: schedule_sel_def schedule_open_def schedule_due_def)

interpretation schedule_queue: claim_queue sj_id schedule_open schedule_sel schedule_mk
proof
  fix r q L t b
  show "r \<in> set (schedule_sel q L t) \<Longrightarrow> r \<in> set t \<and> schedule_open r \<and> sj_id r \<notin> L"
    by (cases q) (simp add: schedule_sel_facts)
  show "map sj_id (schedule_mk q b t) = map sj_id t"
    by (simp add: schedule_mk_def split: prod.splits)
  show "r \<in> set (schedule_mk q b t) \<Longrightarrow> sj_id r \<in> ids_of sj_id b \<Longrightarrow> \<not> schedule_open r"
    by (cases q) (simp add: schedule_mk_def schedule_claim_closes)
  show "r \<in> set (schedule_mk q b t) \<Longrightarrow> sj_id r \<notin> ids_of sj_id b \<Longrightarrow> r \<in> set t"
    by (auto simp: schedule_mk_def schedule_claim_update set_sql_update split: prod.splits if_splits)
qed

text \<open>
  A completion puts a recurring job back; it does not disturb the claims of others as long as
  only the worker that has finished with the job records it. Cancelling never does.
\<close>

lemma schedule_mark_failed_no_reopen:
  "i \<notin> own \<Longrightarrow> no_reopen sj_id schedule_open own t (schedule_mark_failed c now i err nr t)"
  by (auto simp: schedule_mark_failed_def Let_def split: option.splits prod.splits intro!: no_reopen_update)

lemma schedule_mark_succeeded_no_reopen:
  "i \<notin> own \<Longrightarrow> no_reopen sj_id schedule_open own t (schedule_mark_succeeded now i nr t)"
  unfolding schedule_mark_succeeded_def Let_def
  by (auto split: option.split prod.split intro!: no_reopen_update)

lemma schedule_cancel_no_reopen: "no_reopen sj_id schedule_open own t (schedule_cancel i t)"
  unfolding schedule_cancel_def by (rule no_reopen_update) (simp_all add: schedule_open_def)

end
