(* ===== verification/Schedule_Poller.thy ===== *)
theory Schedule_Poller
  imports Schedule_Store
begin

text \<open>
  The scheduler relay: \<open>SchedulerPoller\<close> (\<open>resiliant/schedule/schedule_poller.py\<close>). The broker
  and the registered callbacks are computations on the table and a world \<open>'w\<close> of their own; the
  text of an exception, the clock, the random draw and \<open>croniter\<close> are parameters. Tasks, events
  and signals are not modelled; one turn of a worker loop and one of the maintenance loop are.
\<close>

section \<open>Dispatch\<close>

type_synonym 'w sched_world = "sched_table \<times> 'w"

record 'w job_env =
  je_publish :: "string \<Rightarrow> jdict \<Rightarrow> jdict \<Rightarrow> string option \<Rightarrow> ('w sched_world, unit) eff"
  je_dispatchers :: "string \<rightharpoonup> (sched_row \<Rightarrow> ('w sched_world, unit) eff)"
  je_error_text :: "py_exn \<Rightarrow> string"
  je_croniter :: croniter

definition sched_register ::
  "string \<Rightarrow> (sched_row \<Rightarrow> ('w sched_world, unit) eff) \<Rightarrow> 'w job_env \<Rightarrow> 'w job_env" where
  "sched_register job_name callback E =
     E\<lparr>je_dispatchers := (je_dispatchers E)(job_name \<mapsto> callback)\<rparr>"

definition sched_dispatch :: "'w job_env \<Rightarrow> sched_row \<Rightarrow> ('w sched_world, unit) eff" where
  "sched_dispatch E job =
     (if str_truthy (sj_channel job)
      then je_publish E (if_none (sj_channel job) []) (jdict_or_empty (sj_payload job))
             (jdict_or_empty (sj_headers job)) (sj_ordering_key job)
      else (case je_dispatchers E (sj_job_name job) of
          None \<Rightarrow> eff_raise (RuntimeError (sj_job_name job))
        | Some callback \<Rightarrow> callback job))"

definition sched_next_run :: "'w job_env \<Rightarrow> sched_row \<Rightarrow> py_exn + int option" where
  "sched_next_run E job = compute_next_run (je_croniter E) (sj_kind job) (sj_next_run_at job)
     (sj_interval_seconds job) (sj_cron_expr job)"

definition sched_fire ::
  "schedule_config \<Rightarrow> 'w job_env \<Rightarrow> int \<Rightarrow> sched_row \<Rightarrow> ('w sched_world, unit) eff" where
  "sched_fire c E now job s = (case sched_dispatch E job s of
       (Inl e, (t, w)) \<Rightarrow> if is_exception e
         then (Inr (), (schedule_mark_failed c now (sj_id job) (je_error_text E e) None t, w))
         else (Inl e, (t, w))
     | (Inr _, (t, w)) \<Rightarrow> (case sched_next_run E job of
           Inl e \<Rightarrow> (Inl e, (t, w))
         | Inr next_run \<Rightarrow> (Inr (), (schedule_mark_succeeded now (sj_id job) next_run t, w))))"

definition sched_poll_and_fire ::
  "sched_row sql_order \<Rightarrow> schedule_config \<Rightarrow> 'w job_env \<Rightarrow> int \<Rightarrow> string set \<Rightarrow> ('w sched_world, int) eff" where
  "sched_poll_and_fire ob c E now locked =
     eff_bind (eff_fst (schedule_fetch_due_batch ob c (Some (sc_batch_size c)) now locked)) (\<lambda>jobs.
     eff_bind (eff_for jobs (sched_fire c E now)) (\<lambda>_. eff_return (int (length jobs))))"

section \<open>The loops\<close>

text \<open>\<open>u\<close> is the draw of \<open>random.random()\<close> behind \<open>random.uniform\<close>; the state is the interval.\<close>

definition sched_next_sleep :: "schedule_config \<Rightarrow> rat \<Rightarrow> int \<Rightarrow> rat \<Rightarrow> rat" where
  "sched_next_sleep c u fired current_interval_ms =
     (if sc_poll_strategy c = ''fixed'' then of_int (sc_fixed_poll_interval_ms c)
      else if fired > 0 then of_int (sc_min_poll_interval_ms c)
      else (let upper = min (of_int (sc_max_poll_interval_ms c))
                          (current_interval_ms * sc_backoff_growth_factor c);
                lower = of_int (sc_min_poll_interval_ms c)
            in lower + (max lower upper - lower) * u))"

datatype sched_next = Poll_now | Sleep_for rat | Pause_after_error rat | Leave_loop

text \<open>One turn of \<open>_worker_loop\<close>; the poller's interval is threaded beside the world.\<close>

definition sched_worker_turn ::
  "sched_row sql_order \<Rightarrow> schedule_config \<Rightarrow> 'w job_env \<Rightarrow> int \<Rightarrow> string set \<Rightarrow> rat \<Rightarrow>
   ('w sched_world \<times> rat, sched_next) eff" where
  "sched_worker_turn ob c E now locked u s =
     (case sched_poll_and_fire ob c E now locked (fst s) of
        (Inl e, s1) \<Rightarrow> if e = CancelledError then (Inr Leave_loop, (s1, snd s))
          else if is_exception e then (Inr (Pause_after_error 1), (s1, snd s)) else (Inl e, (s1, snd s))
      | (Inr fired, s1) \<Rightarrow>
          if fired \<ge> max 1 (py_int (of_int (sc_batch_size c) * sc_drain_threshold_ratio c))
          then (Inr Poll_now, (s1, snd s))
          else (let ms = sched_next_sleep c u fired (snd s) in (Inr (Sleep_for (ms / 1000)), (s1, ms))))"

text \<open>The database part of one turn of \<open>_maintenance_loop\<close>.\<close>

definition sched_maintenance_turn ::
  "schedule_config \<Rightarrow> int \<Rightarrow> sched_table \<Rightarrow> ((job_status \<times> int) list \<times> int) option \<times> sched_table" where
  "sched_maintenance_turn c now t =
     (case schedule_reset_stale_running c None now t of (_, t') \<Rightarrow>
        (if sc_enable_metrics c then Some (schedule_get_stats now t') else None, t'))"

section \<open>Completions as row updates\<close>

definition succeeded_row :: "int \<Rightarrow> int option \<Rightarrow> sched_row \<Rightarrow> sched_row" where
  "succeeded_row now next_run r =
     (let finished = (next_run = None \<or> (\<exists>n. sj_max_runs r = Some n \<and> sj_run_count r + 1 \<ge> n))
      in r\<lparr>sj_status := if finished then JS_DONE else JS_SCHEDULED,
           sj_next_run_at := if finished then sj_next_run_at r else if_none next_run 0,
           sj_last_run_at := Some now, sj_claimed_at := None, sj_run_count := sj_run_count r + 1,
           sj_attempts := 0, sj_last_error := None\<rparr>)"

definition failed_row :: "schedule_config \<Rightarrow> int \<Rightarrow> string \<Rightarrow> sched_row \<Rightarrow> sched_row" where
  "failed_row c now err r =
     (let exhausted = (sj_attempts r + 1 \<ge> sj_max_retries r)
      in r\<lparr>sj_status := if exhausted then JS_FAILED else JS_SCHEDULED,
           sj_next_run_at := if exhausted then sj_next_run_at r
             else now + timedelta_float (sc_retry_backoff_seconds c),
           sj_claimed_at := None, sj_attempts := sj_attempts r + 1,
           sj_last_error := Some (trunc1000 err)\<rparr>)"

lemma succeeded_row_id [simp]: "sj_id (succeeded_row now nr r) = sj_id r"
  by (simp add: succeeded_row_def Let_def)

lemma failed_row_id [simp]: "sj_id (failed_row c now err r) = sj_id r"
  by (simp add: failed_row_def Let_def)

lemma update_by_id:
  assumes "distinct (map sj_id t)" and "schedule_get i t = Some job" and "f job = g job"
  shows "sql_update (\<lambda>r. sj_id r = i) f t = sql_update (\<lambda>r. sj_id r = i) g t"
proof -
  have job: "job \<in> set t" "sj_id job = i"
    using assms(2) by (auto simp: schedule_get_def dest: find_SomeD)
  have "r = job" if "r \<in> set t" "sj_id r = i" for r
    using distinct_map_same [OF assms(1) that(1) job(1)] that(2) job(2) by simp
  then show ?thesis using assms(3) by (auto simp: sql_update_def)
qed

lemma update_no_id: "schedule_get i t = None \<Longrightarrow> sql_update (\<lambda>r. sj_id r = i) f t = t"
  by (rule sql_update_unmatched) (auto simp: schedule_get_def find_None_iff)

lemma mark_succeeded_row:
  assumes "distinct (map sj_id t)"
  shows "schedule_mark_succeeded now i nr t = sql_update (\<lambda>r. sj_id r = i) (succeeded_row now nr) t"
proof (cases "schedule_get i t")
  case None
  then show ?thesis by (simp add: schedule_mark_succeeded_def update_no_id)
next
  case (Some job)
  show ?thesis
    unfolding schedule_mark_succeeded_def Some option.case Let_def prod.case_distrib
    by (auto split: option.split prod.split simp: succeeded_row_def Let_def
        intro!: update_by_id [OF assms Some])
qed

lemma mark_failed_row:
  assumes "distinct (map sj_id t)"
  shows "schedule_mark_failed c now i err None t = sql_update (\<lambda>r. sj_id r = i) (failed_row c now err) t"
proof (cases "schedule_get i t")
  case None
  then show ?thesis by (simp add: schedule_mark_failed_def update_no_id)
next
  case (Some job)
  show ?thesis
    unfolding schedule_mark_failed_def Some option.case Let_def
    by (auto simp: failed_row_def Let_def intro!: update_by_id [OF assms Some])
qed

section \<open>A poll over jobs whose dispatch succeeds\<close>

text \<open>The log of fired jobs: id and the occurrence that was due.\<close>

type_synonym fire_log = "(string \<times> int) list"

definition fire_entry :: "sched_row \<Rightarrow> string \<times> int" where
  "fire_entry job = (sj_id job, sj_next_run_at job)"

definition logging_callback :: "sched_row \<Rightarrow> (fire_log sched_world, unit) eff" where
  "logging_callback job s = (Inr (), (fst s, snd s @ [fire_entry job]))"

text \<open>The job is dispatched in process to the logging callback.\<close>

definition dispatch_logs :: "fire_log job_env \<Rightarrow> sched_row \<Rightarrow> bool" where
  "dispatch_logs E r \<longleftrightarrow> \<not> str_truthy (sj_channel r) \<and> je_dispatchers E (sj_job_name r) = Some logging_callback"

text \<open>Its recurrence can be computed from any instant.\<close>

definition recurrence_ok :: "'w job_env \<Rightarrow> sched_row \<Rightarrow> bool" where
  "recurrence_ok E r \<longleftrightarrow> (\<forall>from_time e. compute_next_run (je_croniter E) (sj_kind r) from_time
     (sj_interval_seconds r) (sj_cron_expr r) \<noteq> Inl e)"

definition next_of :: "'w job_env \<Rightarrow> sched_row \<Rightarrow> int option" where
  "next_of E r = (case sched_next_run E r of Inl _ \<Rightarrow> None | Inr x \<Rightarrow> x)"

definition fired_row :: "'w job_env \<Rightarrow> int \<Rightarrow> sched_row \<Rightarrow> sched_row" where
  "fired_row E now r = succeeded_row now (next_of E r) r"

lemma fired_row_id [simp]: "sj_id (fired_row E now r) = sj_id r"
  by (simp add: fired_row_def)

lemma fired_row_running [simp]: "fired_row E now (schedule_mark_running now' r) = fired_row E now r"
proof -
  have "next_of E (schedule_mark_running now' r) = next_of E r"
    by (simp add: next_of_def sched_next_run_def schedule_mark_running_def)
  moreover have "succeeded_row now nr (schedule_mark_running now' r) = succeeded_row now nr r" for nr
    unfolding succeeded_row_def Let_def by (cases r) (auto simp: schedule_mark_running_def)
  ultimately show ?thesis by (simp add: fired_row_def)
qed

lemma fired_row_stable [simp]:
  "dispatch_logs E (fired_row E now r) = dispatch_logs E r"
  "recurrence_ok E (fired_row E now r) = recurrence_ok E r"
  by (simp_all add: fired_row_def succeeded_row_def dispatch_logs_def recurrence_ok_def Let_def)

lemma running_stable [simp]:
  "dispatch_logs E (schedule_mark_running now r) = dispatch_logs E r"
  "recurrence_ok E (schedule_mark_running now r) = recurrence_ok E r"
  by (simp_all add: schedule_mark_running_def dispatch_logs_def recurrence_ok_def)

lemma dispatch_logging:
  "dispatch_logs E job \<Longrightarrow> sched_dispatch E job (t, w) = (Inr (), (t, w @ [fire_entry job]))"
  by (simp add: sched_dispatch_def dispatch_logs_def logging_callback_def)

lemma recurrence_next: "recurrence_ok E job \<Longrightarrow> sched_next_run E job = Inr (next_of E job)"
  by (cases "sched_next_run E job") (auto simp: next_of_def recurrence_ok_def sched_next_run_def)

lemma fire_logging:
  assumes "dispatch_logs E job" and "recurrence_ok E job" and "distinct (map sj_id t)" and "job \<in> set t"
  shows "sched_fire c E now job (t, w) =
    (Inr (), (sql_update (\<lambda>r. sj_id r = sj_id job) (fired_row E now) t, w @ [fire_entry job]))"
proof -
  have "schedule_get (sj_id job) t = Some job"
    unfolding schedule_get_def using assms(3,4) by (intro find_distinct_key) simp_all
  then have "schedule_mark_succeeded now (sj_id job) (next_of E job) t =
      sql_update (\<lambda>r. sj_id r = sj_id job) (fired_row E now) t"
    unfolding mark_succeeded_row [OF assms(3)]
    by (rule update_by_id [OF assms(3)]) (simp add: fired_row_def)
  then show ?thesis
    using assms(1,2) by (simp add: sched_fire_def dispatch_logging recurrence_next)
qed

lemma fire_all_logging:
  assumes "distinct (map sj_id t)" and "set jobs \<subseteq> set t" and "distinct (map sj_id jobs)"
    and "\<forall>r \<in> set jobs. dispatch_logs E r \<and> recurrence_ok E r"
  shows "eff_for jobs (sched_fire c E now) (t, w) =
    (Inr (), (sql_update (\<lambda>r. sj_id r \<in> ids_of sj_id jobs) (fired_row E now) t, w @ map fire_entry jobs))"
  using assms
proof (induction jobs arbitrary: t w)
  case Nil
  then show ?case by (simp add: sql_update_unmatched)
next
  case (Cons job jobs)
  let ?t = "sql_update (\<lambda>r. sj_id r = sj_id job) (fired_row E now) t"
  have f: "sched_fire c E now job (t, w) = (Inr (), (?t, w @ [fire_entry job]))"
    using Cons.prems by (intro fire_logging) auto
  have "x \<in> set ?t" if "x \<in> set jobs" for x
  proof -
    have "sj_id job \<notin> sj_id ` set jobs" using Cons.prems(3) by simp
    then have "sj_id x \<noteq> sj_id job" using that by (metis imageI)
    moreover have "x \<in> set t" using that Cons.prems(2) by auto
    ultimately show ?thesis by (auto simp: set_sql_update)
  qed
  then have "set jobs \<subseteq> set ?t" by blast
  moreover have "distinct (map sj_id ?t)" using Cons.prems(1) by (simp add: sql_update_map_key)
  ultimately
  have "eff_for jobs (sched_fire c E now) (?t, w @ [fire_entry job]) = (Inr (),
      (sql_update (\<lambda>r. sj_id r \<in> ids_of sj_id jobs) (fired_row E now) ?t, w @ map fire_entry (job # jobs)))"
    using Cons.IH [of ?t "w @ [fire_entry job]"] Cons.prems(3,4) by simp
  moreover have "sql_update (\<lambda>r. sj_id r \<in> ids_of sj_id jobs) (fired_row E now) ?t =
      sql_update (\<lambda>r. sj_id r \<in> ids_of sj_id (job # jobs)) (fired_row E now) t"
    using Cons.prems(3) by (auto simp: sql_update_def ids_of_def)
  ultimately show ?case by (simp add: f)
qed

text \<open>The batch a poll claims, as rows of the claimed table.\<close>

lemma claimed_batch:
  assumes "distinct (map sj_id t)" and "schedule_select ob c n now locked t = Inr js"
  shows "set (map (schedule_mark_running now) js) \<subseteq> set (schedule_claim now js t)"
    and "distinct (map sj_id (map (schedule_mark_running now) js))"
proof -
  note facts = schedule_select_facts [OF assms(2)]
  show "set (map (schedule_mark_running now) js) \<subseteq> set (schedule_claim now js t)"
  proof
    fix x
    assume "x \<in> set (map (schedule_mark_running now) js)"
    then obtain r where r: "r \<in> set js" "x = schedule_mark_running now r" by auto
    then have "r \<in> set t" "sj_id r \<in> ids_of sj_id js" using facts(3) by (auto simp: ids_of_def)
    with r(2) show "x \<in> set (schedule_claim now js t)"
      by (auto simp: schedule_claim_update set_sql_update)
  qed
  show "distinct (map sj_id (map (schedule_mark_running now) js))"
    using facts(4) [OF assms(1)] by (simp add: o_def)
qed

lemma poll_logging:
  assumes d: "distinct (map sj_id t)" and ok: "\<forall>r \<in> set t. dispatch_logs E r \<and> recurrence_ok E r"
  obtains js where "set js \<subseteq> set t" and "distinct (map sj_id js)" and "\<forall>r \<in> set js. schedule_due now r"
    and "snd (sched_poll_and_fire ob c E now locked (t, w)) =
      (sql_update (\<lambda>r. sj_id r \<in> ids_of sj_id js) (fired_row E now) t, w @ map fire_entry js)"
proof (cases "schedule_select ob c (Some (sc_batch_size c)) now locked t")
  case (Inl e)
  then have "snd (sched_poll_and_fire ob c E now locked (t, w)) = (t, w)"
    by (simp add: sched_poll_and_fire_def eff_defs schedule_fetch_due_batch_def)
  then show ?thesis using that [of "[]"] by (simp add: sql_update_unmatched)
next
  case (Inr js)
  let ?js = "map (schedule_mark_running now) js" and ?t = "schedule_claim now js t"
  note facts = schedule_select_facts [OF Inr]
  have "\<forall>r \<in> set ?js. dispatch_logs E r \<and> recurrence_ok E r" using facts(3) ok by auto
  from fire_all_logging [OF _ claimed_batch [OF d Inr] this, of c now w] d
  have "snd (sched_poll_and_fire ob c E now locked (t, w)) =
      (sql_update (\<lambda>r. sj_id r \<in> ids_of sj_id ?js) (fired_row E now) ?t, w @ map fire_entry ?js)"
    by (simp add: sched_poll_and_fire_def eff_defs schedule_fetch_due_batch_def Inr)
  moreover have "sql_update (\<lambda>r. sj_id r \<in> ids_of sj_id ?js) (fired_row E now) ?t =
      sql_update (\<lambda>r. sj_id r \<in> ids_of sj_id js) (fired_row E now) t"
    by (simp add: schedule_claim_update sql_update_def ids_of_def image_image)
  moreover have "map fire_entry ?js = map fire_entry js"
    by (simp add: fire_entry_def schedule_mark_running_def)
  ultimately show ?thesis using that [of js] facts(3,4) d by auto
qed

section \<open>The cadence of a recurring job\<close>

definition sched_polls ::
  "schedule_config \<Rightarrow> 'w job_env \<Rightarrow> (sched_row sql_order \<times> int \<times> string set) list \<Rightarrow>
   'w sched_world \<Rightarrow> 'w sched_world" where
  "sched_polls c E ps s = fold (\<lambda>(ob, now, locked) s. snd (sched_poll_and_fire ob c E now locked s)) ps s"

lemma sched_polls_Nil [simp]: "sched_polls c E [] s = s"
  by (simp add: sched_polls_def)

lemma sched_polls_snoc [simp]:
  "sched_polls c E (ps @ [(ob, now, locked)]) s =
     snd (sched_poll_and_fire ob c E now locked (sched_polls c E ps s))"
  by (simp add: sched_polls_def)

text \<open>The instants a recurring job is due: the first one and then every interval.\<close>

definition occurrence :: "int \<Rightarrow> int \<Rightarrow> nat \<Rightarrow> int" where
  "occurrence first iv k = first + int k * timedelta_seconds iv"

text \<open>
  What holds of the row and the log of a recurring job that has fired \<open>n\<close> times, the last time
  not before it was due.
\<close>

definition cadence_row ::
  "int \<Rightarrow> int \<Rightarrow> int option \<Rightarrow> nat \<Rightarrow> sched_row \<Rightarrow> bool" where
  "cadence_row first iv max_runs n r \<longleftrightarrow> sj_kind r = INTERVAL \<and> sj_interval_seconds r = Some iv \<and>
     sj_max_runs r = max_runs \<and> sj_run_count r = int n \<and>
     (sj_status r = JS_SCHEDULED \<longrightarrow> sj_next_run_at r = occurrence first iv n) \<and>
     sj_status r = (if n \<noteq> 0 \<and> (\<exists>m. max_runs = Some m \<and> m \<le> int n) then JS_DONE else JS_SCHEDULED) \<and>
     (\<forall>m. max_runs = Some m \<longrightarrow> int n \<le> max 1 m)"

definition fired_occurrences :: "string \<Rightarrow> fire_log \<Rightarrow> int list" where
  "fired_occurrences i w = map snd (filter (\<lambda>x. fst x = i) w)"

lemma fired_row_cadence:
  assumes "cadence_row first iv max_runs n r" and "schedule_due now r" and "0 < iv"
  shows "cadence_row first iv max_runs (Suc n) (fired_row E now' r)"
proof -
  have "next_of E r = Some (occurrence first iv (Suc n))"
    using assms by (simp add: next_of_def sched_next_run_def compute_next_run_def cadence_row_def
        schedule_due_def occurrence_def algebra_simps)
  then show ?thesis
    using assms unfolding cadence_row_def fired_row_def succeeded_row_def schedule_due_def Let_def
    by (auto split: if_splits)
qed

lemma fired_occurrences_append [simp]:
  "fired_occurrences i (w @ w') = fired_occurrences i w @ fired_occurrences i w'"
  by (simp add: fired_occurrences_def)

lemma fired_occurrences_batch:
  assumes "distinct (map sj_id js)"
  shows "r \<in> set js \<Longrightarrow> fired_occurrences (sj_id r) (map fire_entry js) = [sj_next_run_at r]"
    and "i \<notin> ids_of sj_id js \<Longrightarrow> fired_occurrences i (map fire_entry js) = []"
  using assms
  by (induction js) (auto simp: fired_occurrences_def fire_entry_def ids_of_def filter_empty_conv image_iff)

lemma poll_cadence:
  assumes d: "distinct (map sj_id t)" and ok: "\<forall>r \<in> set t. dispatch_logs E r \<and> recurrence_ok E r"
    and r: "r \<in> set t" "sj_id r = i" "cadence_row first iv max_runs n r" and iv: "0 < iv"
    and run: "snd (sched_poll_and_fire ob c E now locked (t, w)) = (t', w')"
  shows "distinct (map sj_id t') \<and> (\<forall>r \<in> set t'. dispatch_logs E r \<and> recurrence_ok E r) \<and>
    (\<exists>r' m. r' \<in> set t' \<and> sj_id r' = i \<and> cadence_row first iv max_runs m r' \<and>
       fired_occurrences i w' = fired_occurrences i w @ map (occurrence first iv) [n..<m] \<and>
       (m = n \<or> m = Suc n \<and> occurrence first iv n \<le> now))"
proof -
  obtain js where js: "set js \<subseteq> set t" "distinct (map sj_id js)" "\<forall>r \<in> set js. schedule_due now r"
    and "snd (sched_poll_and_fire ob c E now locked (t, w)) =
      (sql_update (\<lambda>r. sj_id r \<in> ids_of sj_id js) (fired_row E now) t, w @ map fire_entry js)"
    by (rule poll_logging [OF d ok])
  with run have t': "t' = sql_update (\<lambda>r. sj_id r \<in> ids_of sj_id js) (fired_row E now) t"
    and w': "w' = w @ map fire_entry js" by simp_all
  have "distinct (map sj_id t') \<and> (\<forall>r \<in> set t'. dispatch_logs E r \<and> recurrence_ok E r)"
    using d ok unfolding t' by (auto simp: sql_update_map_key set_sql_update)
  moreover have "\<exists>r' m. r' \<in> set t' \<and> sj_id r' = i \<and> cadence_row first iv max_runs m r' \<and>
       fired_occurrences i w' = fired_occurrences i w @ map (occurrence first iv) [n..<m] \<and>
       (m = n \<or> m = Suc n \<and> occurrence first iv n \<le> now)"
  proof (cases "i \<in> ids_of sj_id js")
    case True
    then obtain r0 where r0: "r0 \<in> set js" "sj_id r0 = i" by (auto simp: ids_of_def)
    have "r0 = r"
      by (rule distinct_map_same [OF d subsetD [OF js(1) r0(1)] r(1)]) (simp add: r0(2) r(2))
    with r0 have rj: "r \<in> set js" by simp
    then have due: "schedule_due now r" using js(3) by blast
    then have nxt: "sj_next_run_at r = occurrence first iv n" "occurrence first iv n \<le> now"
      using r(3) by (simp_all add: schedule_due_def cadence_row_def)
    have "fired_row E now r \<in> set t'" using r True unfolding t' by (auto simp: set_sql_update)
    moreover have "fired_occurrences i w' = fired_occurrences i w @ [occurrence first iv n]"
      using fired_occurrences_batch(1) [OF js(2) rj] r(2) nxt by (simp add: w')
    ultimately show ?thesis
      using fired_row_cadence [OF r(3) due iv] r(2) nxt(2)
      by (intro exI [of _ "fired_row E now r"] exI [of _ "Suc n"]) simp
  next
    case False
    then have "r \<in> set t'" using r unfolding t' by (auto simp: set_sql_update)
    with r fired_occurrences_batch(2) [OF js(2) False] show ?thesis
      by (intro exI [of _ r] exI [of _ n]) (simp add: w')
  qed
  ultimately show ?thesis by blast
qed

lemma polls_cadence:
  assumes d: "distinct (map sj_id t)" and ok: "\<forall>r \<in> set t. dispatch_logs E r \<and> recurrence_ok E r"
    and r: "r \<in> set t" "sj_id r = i" "cadence_row first iv max_runs 0 r" and iv: "0 < iv"
    and run: "sched_polls c E ps (t, []) = (t', w')"
  shows "distinct (map sj_id t') \<and> (\<forall>r \<in> set t'. dispatch_logs E r \<and> recurrence_ok E r) \<and>
    (\<exists>r' n. r' \<in> set t' \<and> sj_id r' = i \<and> cadence_row first iv max_runs n r' \<and>
       fired_occurrences i w' = map (occurrence first iv) [0..<n] \<and>
       (\<forall>k < n. \<exists>(ob, now, locked) \<in> set ps. occurrence first iv k \<le> now))"
  using run
proof (induction ps arbitrary: t' w' rule: rev_induct)
  case Nil
  then show ?case using d ok r
    by (intro conjI exI [of _ r] exI [of _ 0]) (simp_all add: fired_occurrences_def)
next
  case (snoc p ps)
  obtain ob now locked where p: "p = (ob, now, locked)" by (rule prod_cases3)
  obtain t1 w1 where 1: "sched_polls c E ps (t, []) = (t1, w1)" by (rule prod.exhaust)
  from snoc.IH [OF 1] obtain r1 n where r1: "distinct (map sj_id t1)"
    "\<forall>r \<in> set t1. dispatch_logs E r \<and> recurrence_ok E r" "r1 \<in> set t1" "sj_id r1 = i"
    "cadence_row first iv max_runs n r1" "fired_occurrences i w1 = map (occurrence first iv) [0..<n]"
    "\<forall>k < n. \<exists>(ob, now, locked) \<in> set ps. occurrence first iv k \<le> now" by blast
  have "snd (sched_poll_and_fire ob c E now locked (t1, w1)) = (t', w')"
    using snoc.prems by (simp add: p 1)
  from poll_cadence [OF r1(1-5) iv this] obtain r' m where
    "distinct (map sj_id t') \<and> (\<forall>r \<in> set t'. dispatch_logs E r \<and> recurrence_ok E r)"
    "r' \<in> set t'" "sj_id r' = i" "cadence_row first iv max_runs m r'"
    and w': "fired_occurrences i w' = fired_occurrences i w1 @ map (occurrence first iv) [n..<m]"
    and m: "m = n \<or> m = Suc n \<and> occurrence first iv n \<le> now" by blast
  moreover have "fired_occurrences i w' = map (occurrence first iv) [0..<m]"
    using w' m by (auto simp: r1(6))
  moreover have "\<forall>k < m. \<exists>(ob, now, locked) \<in> set (ps @ [p]). occurrence first iv k \<le> now"
    using r1(7) m by (auto simp: p less_Suc_eq)
  ultimately show ?case by blast
qed


definition wit_env :: "fire_log job_env" where
  "wit_env = \<lparr>je_publish = (\<lambda>_ _ _ _. eff_return ()), je_dispatchers = [''tick'' \<mapsto> logging_callback],
     je_error_text = (\<lambda>_. ''boom''), je_croniter = None\<rparr>"

definition wit_args :: job_args where
  "wit_args = \<lparr>ja_channel = None, ja_event_type = None, ja_payload = None, ja_ordering_key = None,
     ja_headers = None, ja_max_retries = None\<rparr>"

definition wit_job :: sched_row where
  "wit_job = \<lparr>sj_id = ''j'', sj_job_name = ''tick'', sj_kind = INTERVAL, sj_cron_expr = None,
     sj_interval_seconds = Some 60, sj_channel = None, sj_event_type = None, sj_ordering_key = None,
     sj_payload = Some Map.empty, sj_headers = Some Map.empty, sj_next_run_at = 5, sj_last_run_at = None,
     sj_claimed_at = None, sj_status = JS_SCHEDULED, sj_run_count = 0, sj_max_runs = Some 2,
     sj_attempts = 0, sj_max_retries = 3, sj_last_error = None\<rparr>"

lemma wit_job_interval:
  "schedule_interval schedule_config_default ''j'' 0 ''tick'' 60 (Some (5, None)) (Some 2) wit_args [] =
     (Inr wit_job, [wit_job])"
  by (simp add: schedule_interval_def schedule_create_def schedule_save_def wit_job_def wit_args_def
      as_naive_utc_def schedule_config_default_def Let_def jdict_or_empty_def)

lemma wit_job_ready [simp]: "dispatch_logs wit_env wit_job" "recurrence_ok wit_env wit_job"
  by (simp_all add: dispatch_logs_def recurrence_ok_def wit_env_def wit_job_def str_truthy_def
      compute_next_run_def)


section \<open>Cancelling, failing and broken jobs\<close>

lemma schedule_cancel_row:
  assumes "r \<in> set t" and "schedule_active r"
  shows "r\<lparr>sj_status := JS_CANCELLED, sj_claimed_at := None\<rparr> \<in> set (schedule_cancel (sj_id r) t)"
  using assms by (force simp: schedule_cancel_def set_sql_update)

lemma schedule_cancel_ids [simp]: "map sj_id (schedule_cancel i t) = map sj_id t"
  by (simp add: schedule_cancel_def sql_update_map_key)

lemma poll_select_None:
  assumes "r \<in> set t" and "sj_status r \<noteq> JS_SCHEDULED" and "distinct (map sj_id t)"
    and "schedule_select ob c n now locked t = Inr js"
  shows "sj_id r \<notin> ids_of sj_id js"
proof
  assume "sj_id r \<in> ids_of sj_id js"
  then obtain r0 where r0: "r0 \<in> set js" "sj_id r0 = sj_id r" by (auto simp: ids_of_def)
  then have "r0 \<in> set t" "schedule_due now r0" using schedule_select_facts(3) [OF assms(4)] by blast+
  moreover have "r0 = r"
    by (rule distinct_map_same [OF assms(3) calculation(1) assms(1) r0(2)])
  ultimately show False using assms(2) by (simp add: schedule_due_def)
qed

text \<open>Cancelling works on a waiting job and is lost on a running one. A SCHEDULED job that is
  cancelled is CANCELLED and in no later batch; a job cancelled while a worker is dispatching it is
  overwritten when the dispatch ends: if it succeeds and has a next occurrence below its cap, or fails
  with retries left, the job is SCHEDULED again.\<close>
theorem sched_cancel_while_running_lost:
  assumes "distinct (map sj_id t)" and "r \<in> set t" and "schedule_active r"
    and "t1 = schedule_cancel (sj_id r) t"
  shows "(\<exists>r1 \<in> set t1. sj_id r1 = sj_id r \<and> sj_status r1 = JS_CANCELLED \<and>
      (\<forall>ob c n now locked t2 js. schedule_fetch_due_batch ob c n now locked t1 = (Inr js, t2) \<longrightarrow>
         sj_id r \<notin> sj_id ` set js \<and> r1 \<in> set t2)) \<and>
    (\<forall>now next_run. (\<forall>m. sj_max_runs r = Some m \<longrightarrow> sj_run_count r + 1 < m) \<longrightarrow>
      map_option sj_status (schedule_get (sj_id r)
        (schedule_mark_succeeded now (sj_id r) (Some next_run) t1)) = Some JS_SCHEDULED) \<and>
    (\<forall>c now err. sj_attempts r + 1 < sj_max_retries r \<longrightarrow>
      map_option sj_status (schedule_get (sj_id r)
        (schedule_mark_failed c now (sj_id r) err None t1)) = Some JS_SCHEDULED)"
proof -
  let ?r = "r\<lparr>sj_status := JS_CANCELLED, sj_claimed_at := None\<rparr>"
  have d: "distinct (map sj_id t1)" using assms(1,4) by simp
  have r1: "?r \<in> set t1" using assms(2-4) schedule_cancel_row by blast
  have upd: "schedule_get (sj_id r) (sql_update (\<lambda>x. sj_id x = sj_id r) f t1) = Some (f ?r)"
    if "\<And>x. sj_id (f x) = sj_id x" for f
    unfolding schedule_get_def
    by (rule find_distinct_key) (use d r1 that in \<open>auto simp: sql_update_map_key set_sql_update\<close>)
  have "sj_id r \<notin> sj_id ` set js \<and> ?r \<in> set t2"
    if run: "schedule_fetch_due_batch ob c n now locked t1 = (Inr js, t2)" for ob c n now locked t2 js
  proof -
    obtain js0 where s: "schedule_select ob c n now locked t1 = Inr js0"
      using run by (cases "schedule_select ob c n now locked t1") (simp_all add: schedule_fetch_due_batch_def)
    then have js: "js = map (schedule_mark_running now) js0" and t2: "t2 = schedule_claim now js0 t1"
      using run by (simp_all add: schedule_fetch_due_batch_def)
    have no: "sj_id r \<notin> ids_of sj_id js0" using poll_select_None [OF r1 _ d s] by simp
    then have "?r \<in> set t2"
      unfolding t2 schedule_claim_update by (intro in_sql_update_other [OF r1]) simp
    moreover have "sj_id r \<notin> sj_id ` set js"
      using no by (simp add: js ids_of_def image_image)
    ultimately show ?thesis by simp
  qed
  moreover have "map_option sj_status (schedule_get (sj_id r)
        (schedule_mark_succeeded now (sj_id r) (Some next_run) t1)) = Some JS_SCHEDULED"
    if "\<forall>m. sj_max_runs r = Some m \<longrightarrow> sj_run_count r + 1 < m" for now next_run
    using that by (auto simp: mark_succeeded_row [OF d] upd succeeded_row_def Let_def)
  moreover have "map_option sj_status (schedule_get (sj_id r)
        (schedule_mark_failed c now (sj_id r) err None t1)) = Some JS_SCHEDULED"
    if "sj_attempts r + 1 < sj_max_retries r" for c now err
    using that by (simp add: mark_failed_row [OF d] upd failed_row_def Let_def)
  ultimately show ?thesis
    using r1 by (intro conjI bexI [of _ ?r]) auto
qed

lemma sched_cancel_while_running_lost_witness:
  "map_option sj_status (schedule_get ''j''
     (schedule_mark_failed schedule_config_default 9 ''j'' ''boom'' None
       (schedule_cancel ''j'' [schedule_mark_running 5 wit_job]))) = Some JS_SCHEDULED"
proof -
  have "distinct (map sj_id [schedule_mark_running 5 wit_job])"
    "schedule_mark_running 5 wit_job \<in> set [schedule_mark_running 5 wit_job]"
    "schedule_active (schedule_mark_running 5 wit_job)"
    by (simp_all add: schedule_active_def)
  from sched_cancel_while_running_lost [OF this refl, THEN conjunct2, THEN conjunct2, rule_format,
      of schedule_config_default 9 "''boom''"]
  show ?thesis by (simp add: schedule_mark_running_def wit_job_def)
qed

text \<open>A retry shifts a recurring job off its cadence: when the dispatch of an INTERVAL job fails with
  retries left and a later attempt succeeds, the next occurrence is an interval after the time the
  retry was planned for, the failure plus the backoff, not after the occurrence that was due.\<close>
theorem sched_retry_shifts_cadence:
  assumes "distinct (map sj_id t)" and "job \<in> set t"
    and "sj_kind job = INTERVAL" and "sj_interval_seconds job = Some iv" and "0 < iv"
    and "sj_max_runs job = None" and "sj_attempts job + 1 < sj_max_retries job"
    and "sched_dispatch E job (t, w) = (Inl e, (t, w1))" and "is_exception e"
    and "sched_fire c E now1 job (t, w) = (x1, (t1, w2))"
    and "schedule_get (sj_id job) t1 = Some retry"
    and "sched_dispatch E' (schedule_mark_running now2 retry) s2 = (Inr (), (t1, w3))"
    and "sched_fire c E' now2 (schedule_mark_running now2 retry) s2 = (x2, (t2, w4))"
  shows "x1 = Inr () \<and> sj_status retry = JS_SCHEDULED \<and>
    sj_next_run_at retry = now1 + timedelta_float (sc_retry_backoff_seconds c) \<and> x2 = Inr () \<and>
    (\<exists>r. schedule_get (sj_id job) t2 = Some r \<and> sj_status r = JS_SCHEDULED \<and> sj_attempts r = 0 \<and>
       sj_run_count r = sj_run_count job + 1 \<and>
       sj_next_run_at r = now1 + timedelta_float (sc_retry_backoff_seconds c) + timedelta_seconds iv)"
proof -
  let ?f = "failed_row c now1 (je_error_text E e)"
  have t1: "x1 = Inr ()" "t1 = sql_update (\<lambda>r. sj_id r = sj_id job) ?f t"
    using assms(8-10) by (simp_all add: sched_fire_def mark_failed_row [OF assms(1)])
  have d1: "distinct (map sj_id t1)" using assms(1) by (simp add: t1(2) sql_update_map_key)
  have "?f job \<in> set t1" using assms(2) by (auto simp: t1(2) set_sql_update)
  then have "schedule_get (sj_id job) t1 = Some (?f job)"
    unfolding schedule_get_def by (intro find_distinct_key [OF d1]) simp_all
  then have retry: "retry = ?f job" using assms(11) by simp
  then have rt: "sj_id retry = sj_id job" "sj_kind retry = INTERVAL" "sj_interval_seconds retry = Some iv"
    "sj_max_runs retry = None" "sj_run_count retry = sj_run_count job" "sj_status retry = JS_SCHEDULED"
    "sj_next_run_at retry = now1 + timedelta_float (sc_retry_backoff_seconds c)"
    using assms(3-7) by (simp_all add: failed_row_def Let_def)
  let ?n = "sj_next_run_at retry + timedelta_seconds iv"
  have "sched_next_run E' (schedule_mark_running now2 retry) = Inr (Some ?n)"
    using rt(2,3) assms(5) by (simp add: sched_next_run_def compute_next_run_def schedule_mark_running_def)
  then have t2: "x2 = Inr ()" "t2 = sql_update (\<lambda>r. sj_id r = sj_id job) (succeeded_row now2 (Some ?n)) t1"
    using assms(12,13) by (simp_all add: sched_fire_def mark_succeeded_row [OF d1] rt(1))
  have "retry \<in> set t1" using assms(11) by (auto simp: schedule_get_def dest: find_SomeD)
  then have "succeeded_row now2 (Some ?n) retry \<in> set t2"
    using rt(1) by (auto simp: t2(2) set_sql_update)
  moreover have "distinct (map sj_id t2)" using d1 by (simp add: t2(2) sql_update_map_key)
  ultimately have "schedule_get (sj_id job) t2 = Some (succeeded_row now2 (Some ?n) retry)"
    unfolding schedule_get_def by (intro find_distinct_key) (simp_all add: rt(1))
  then show ?thesis
    using rt by (simp add: t1(1) t2(1) succeeded_row_def Let_def)
qed

definition failing_env :: "fire_log job_env" where
  "failing_env = wit_env\<lparr>je_dispatchers := [''tick'' \<mapsto> (\<lambda>_. eff_raise (UserError ''down''))]\<rparr>"

lemma sched_retry_shifts_cadence_witness:
  "let job = wit_job\<lparr>sj_max_runs := None\<rparr>;
       t1 = fst (snd (sched_fire schedule_config_default failing_env 7 job ([job], [])));
       t2 = fst (snd (sched_fire schedule_config_default wit_env 40
              (schedule_mark_running 40 (the (schedule_get ''j'' t1))) (t1, [])))
   in map_option sj_next_run_at (schedule_get ''j'' t2) = Some (7 + timedelta_seconds 90)"
proof -
  let ?c = schedule_config_default and ?job = "wit_job\<lparr>sj_max_runs := None\<rparr>"
  let ?x = "sched_fire ?c failing_env 7 ?job ([?job], [])"
  let ?t1 = "fst (snd ?x)"
  let ?retry = "the (schedule_get ''j'' ?t1)"
  let ?y = "sched_fire ?c wit_env 40 (schedule_mark_running 40 ?retry) (?t1, [])"
  have job: "distinct (map sj_id [?job])" "?job \<in> set [?job]" "sj_kind ?job = INTERVAL"
    "sj_interval_seconds ?job = Some 60" "0 < (60::int)" "sj_max_runs ?job = None"
    "sj_attempts ?job + 1 < sj_max_retries ?job"
    by (simp_all add: wit_job_def)
  have down: "sched_dispatch failing_env ?job ([?job], []) = (Inl (UserError ''down''), ([?job], []))"
    by (simp add: sched_dispatch_def failing_env_def wit_job_def str_truthy_def eff_defs)
  have x: "?x = (fst ?x, (?t1, snd (snd ?x)))" and y: "?y = (fst ?y, (fst (snd ?y), snd (snd ?y)))"
    by simp_all
  have t1: "?t1 = [failed_row ?c 7 ''boom'' ?job]"
    using down by (simp add: sched_fire_def mark_failed_row [OF job(1)] sql_update_def failing_env_def wit_env_def)
  then have g: "schedule_get (sj_id ?job) ?t1 = Some ?retry"
    by (simp add: schedule_get_def wit_job_def failed_row_def Let_def)
  have "dispatch_logs wit_env (failed_row ?c 7 ''boom'' ?job)"
    by (simp add: dispatch_logs_def failed_row_def wit_job_def wit_env_def str_truthy_def Let_def)
  then have "dispatch_logs wit_env ?retry"
    using g t1 by (simp add: schedule_get_def split: if_splits)
  then have up: "sched_dispatch wit_env (schedule_mark_running 40 ?retry) (?t1, []) =
      (Inr (), (?t1, [] @ [fire_entry (schedule_mark_running 40 ?retry)]))"
    by (intro dispatch_logging) simp
  have "is_exception (UserError ''down'')" by simp
  from sched_retry_shifts_cadence [OF job down this x g up y]
  obtain r where r: "schedule_get (sj_id ?job) (fst (snd ?y)) = Some r"
    "sj_next_run_at r = 7 + timedelta_float (sc_retry_backoff_seconds ?c) + timedelta_seconds 60" by blast
  have id: "sj_id ?job = ''j''" by (simp add: wit_job_def)
  have "timedelta_float (sc_retry_backoff_seconds ?c) = timedelta_seconds 30"
    unfolding timedelta_float_def timedelta_seconds_def schedule_config_default_def
    using round_half_even_of_int [of "30 * usec"] by simp
  with r(2) have "sj_next_run_at r = 7 + timedelta_seconds 90" by (simp add: timedelta_seconds_def)
  with r(1) show ?thesis unfolding Let_def id by simp
qed

lemma eff_for_append:
  "eff_for (xs @ ys) f s = (case eff_for xs f s of
     (Inl e, s') \<Rightarrow> (Inl e, s') | (Inr _, s') \<Rightarrow> eff_for ys f s')"
  by (induction xs arbitrary: s) (auto split: prod.split sum.split)

text \<open>One job whose next run cannot be computed (a CRON job polled where \<open>croniter\<close> is missing)
  stops the whole batch: the poll raises after the job has been dispatched, the job stays RUNNING as
  if it had never fired, and every job claimed after it stays RUNNING without being dispatched.\<close>
theorem sched_broken_recurrence_aborts_batch:
  assumes "distinct (map sj_id t)"
    and "schedule_select ob c (Some (sc_batch_size c)) now locked t = Inr (js @ bad # js')"
    and "\<forall>r \<in> set (js @ [bad]). dispatch_logs E r"
    and "\<forall>r \<in> set js. recurrence_ok E r" and "sched_next_run E bad = Inl e"
  shows "\<exists>t'. sched_poll_and_fire ob c E now locked (t, w) =
      (Inl e, (t', w @ map fire_entry (js @ [bad]))) \<and>
    schedule_mark_running now ` set (bad # js') \<subseteq> set t'"
proof -
  let ?m = "schedule_mark_running now"
  let ?t = "schedule_claim now (js @ bad # js') t"
  let ?t' = "sql_update (\<lambda>r. sj_id r \<in> ids_of sj_id (map ?m js)) (fired_row E now) ?t"
  have d: "distinct (map sj_id ?t)" using assms(1) by simp
  note cl = claimed_batch [OF assms(1,2)]
  have ent: "fire_entry (?m r) = fire_entry r" "sched_next_run E (?m r) = sched_next_run E r" for r
    by (simp_all add: fire_entry_def sched_next_run_def schedule_mark_running_def)
  have "eff_for (map ?m js) (sched_fire c E now) (?t, w) = (Inr (), (?t', w @ map fire_entry (map ?m js)))"
    by (rule fire_all_logging [OF d]) (use cl assms(3,4) in auto)
  moreover have "sched_fire c E now (?m bad) (t1, w1) = (Inl e, (t1, w1 @ [fire_entry bad]))" for t1 w1
    using dispatch_logging [of E "?m bad" t1 w1] assms(3,5) by (simp add: sched_fire_def ent)
  ultimately have "sched_poll_and_fire ob c E now locked (t, w) =
      (Inl e, (?t', w @ map fire_entry (js @ [bad])))"
    by (simp add: sched_poll_and_fire_def eff_defs schedule_fetch_due_batch_def assms(2) eff_for_append
        ent o_def)
  moreover have "?m r \<in> set ?t'" if "r \<in> set (bad # js')" for r
  proof -
    have "?m r \<in> set ?t" using cl(1) that by auto
    moreover have "sj_id r \<notin> ids_of sj_id (map ?m js)"
      using cl(2) that by (auto simp: ids_of_def image_image)
    ultimately show ?thesis unfolding set_sql_update by (intro bexI [of _ "?m r"]) simp_all
  qed
  ultimately show ?thesis by blast
qed

definition wit_cron_job :: "string \<Rightarrow> int \<Rightarrow> sched_row" where
  "wit_cron_job i at_time = wit_job\<lparr>sj_id := i, sj_kind := CRON, sj_cron_expr := Some ''0 2 * * *'',
     sj_next_run_at := at_time\<rparr>"

lemma sched_broken_recurrence_aborts_batch_witness:
  "\<exists>t'. sched_poll_and_fire stable_order schedule_config_default wit_env 9 {}
      ([wit_cron_job ''c'' 3, wit_job], []) = (Inl CronSupportError, (t', [(''c'', 3)])) \<and>
    schedule_mark_running 9 wit_job \<in> set t'"
proof -
  let ?b = "wit_cron_job ''c'' 3"
  have d: "distinct (map sj_id [?b, wit_job])" by (simp add: wit_cron_job_def wit_job_def)
  have s: "schedule_select stable_order schedule_config_default (Some (sc_batch_size schedule_config_default))
      9 {} [?b, wit_job] = Inr ([] @ ?b # [wit_job])"
    by (simp add: schedule_select_def sql_limit_def sql_where_def schedule_due_def wit_cron_job_def
        wit_job_def schedule_config_default_def)
  have l: "\<forall>r \<in> set ([] @ [?b]). dispatch_logs wit_env r"
    by (simp add: dispatch_logs_def wit_cron_job_def wit_job_def wit_env_def str_truthy_def)
  have n: "sched_next_run wit_env ?b = Inl CronSupportError"
    by (simp add: sched_next_run_def compute_next_run_def cron_next_def wit_cron_job_def wit_env_def
        str_truthy_def)
  show ?thesis
    using sched_broken_recurrence_aborts_batch [OF d s l _ n, of "[]"]
    by (auto simp: fire_entry_def) (auto simp: wit_cron_job_def)
qed

end
