(* ===== verification/Visibility.thy ===== *)
theory Visibility
  imports Outbox_Relay Dlq_Store Saga_Store Schedule_Poller
begin

text \<open>
  What operations see and run across the resilience tables: the health snapshot
  (\<open>resiliant/visibility.py\<close>), the partition maintainer (\<open>outbox/partition_maintenance.py\<close>) and
  the maintenance job that drives it through the scheduler
  (\<open>maintenances/resiliant_maintenance.py\<close>). The PL/pgSQL functions and the values read from the
  environment are parameters.
\<close>

section \<open>Health snapshot\<close>

definition outbox_statuses :: "outbox_status list" where
  "outbox_statuses = [OB_PENDING, OB_PROCESSING, OB_PUBLISHED, OB_FAILED, OB_DEAD_LETTER]"

text \<open>The \<open>GROUP BY\<close> query returns the statuses that occur; every status is listed.\<close>

definition vis_counts :: "('r \<Rightarrow> 's) \<Rightarrow> 's list \<Rightarrow> 'r list \<Rightarrow> ('s \<times> int) list" where
  "vis_counts status_col status_enum t =
     (let found = (\<lambda>st. if list_ex (\<lambda>r. status_col r = st) t
                        then Some (sql_count (\<lambda>r. status_col r = st) t) else None)
      in map (\<lambda>st. (st, if_none (found st) 0)) status_enum)"

definition vis_get :: "('s \<times> int) list \<Rightarrow> 's \<Rightarrow> int" where
  "vis_get counts st = if_none (map_of counts st) 0"

record vis_snapshot =
  vs_healthy :: bool
  vs_outbox :: "(outbox_status \<times> int) list"
  vs_dlq :: "(dlq_status \<times> int) list"
  vs_saga :: "(saga_status \<times> int) list"
  vs_schedule :: "(job_status \<times> int) list"

definition vis_take_snapshot ::
  "outbox_table \<Rightarrow> dlq_table \<Rightarrow> saga_row list \<Rightarrow> sched_table \<Rightarrow> vis_snapshot" where
  "vis_take_snapshot ot dt st jt =
     (let outbox = vis_counts ob_status outbox_statuses ot;
          dlq = vis_counts dl_status dlq_statuses dt;
          saga = vis_counts sr_status saga_statuses st;
          schedule = vis_counts sj_status job_statuses jt;
          healthy = (vis_get outbox OB_DEAD_LETTER = 0 \<and> vis_get dlq DLQ_PENDING = 0 \<and>
            vis_get saga SAGA_FAILED = 0 \<and> vis_get schedule JS_FAILED = 0)
      in \<lparr>vs_healthy = healthy, vs_outbox = outbox, vs_dlq = dlq, vs_saga = saga,
          vs_schedule = schedule\<rparr>)"

section \<open>Partition maintenance\<close>

definition create_partitions_fn :: string where
  "create_partitions_fn = ''create_message_outbox_partitions''"

definition drop_partitions_fn :: string where
  "drop_partitions_fn = ''drop_old_message_outbox_partitions''"

definition qualified_name :: "string option \<Rightarrow> string \<Rightarrow> string" where
  "qualified_name given f =
     (let prefix = or_str given [];
          prefix = (if prefix \<noteq> [] \<and> last prefix \<notin> {CHR ''_'', CHR ''.''} then prefix @ ''_'' else prefix)
      in prefix @ f)"

definition partition_maintain ::
  "string option \<Rightarrow> (string \<Rightarrow> string \<Rightarrow> ('w, bool) eff) \<Rightarrow> (string \<Rightarrow> int \<Rightarrow> ('w, string list) eff) \<Rightarrow>
   int \<Rightarrow> int \<Rightarrow> ('w, string list \<times> string list) eff" where
  "partition_maintain prefix probe call lookahead_weeks retention_weeks =
     eff_bind (probe (qualified_name prefix create_partitions_fn) (qualified_name prefix drop_partitions_fn))
       (\<lambda>available. if \<not> available then eff_return ([], [])
        else eff_bind (call (qualified_name prefix create_partitions_fn) lookahead_weeks) (\<lambda>created.
             eff_bind (call (qualified_name prefix drop_partitions_fn) retention_weeks) (\<lambda>dropped.
             eff_return (created, dropped))))"

text \<open>The environment of \<open>define_maintenance_jobs\<close>, defaults applied.\<close>

record maintenance_env =
  me_enabled :: bool
  me_test_mode :: bool
  me_cron :: string
  me_lookahead_weeks :: int
  me_retention_weeks :: int

definition outbox_maintenance_job :: string where
  "outbox_maintenance_job = ''outbox_maintenance''"

definition maintenance_cron :: "maintenance_env \<Rightarrow> string" where
  "maintenance_cron me = (if me_test_mode me then ''*/5 * * * *'' else me_cron me)"

definition maintenance_payload :: "maintenance_env \<Rightarrow> jdict" where
  "maintenance_payload me = [''lookahead_weeks'' \<mapsto> JInt (me_lookahead_weeks me),
     ''retention_weeks'' \<mapsto> JInt (me_retention_weeks me)]"

definition define_maintenance_jobs ::
  "maintenance_env \<Rightarrow> bool \<Rightarrow> schedule_config \<Rightarrow> croniter \<Rightarrow> string \<Rightarrow> int \<Rightarrow> (sched_table, unit) eff" where
  "define_maintenance_jobs me available c cron new_id now t =
     (if \<not> me_enabled me then (Inr (), t)
      else if \<not> available then (Inr (), t)
      else if schedule_exists_active outbox_maintenance_job t then (Inr (), t)
      else eff_bind (schedule_cron c cron new_id now outbox_maintenance_job (maintenance_cron me) None
             \<lparr>ja_channel = None, ja_event_type = None, ja_payload = Some (maintenance_payload me),
              ja_ordering_key = None, ja_headers = None, ja_max_retries = None\<rparr>)
             (\<lambda>_. eff_return ()) t)"

section \<open>Lemmas\<close>

lemma vis_get_counts [simp]:
  "st \<in> set enum \<Longrightarrow> vis_get (vis_counts col enum t) st = sql_count (\<lambda>r. col r = st) t"
proof -
  assume st: "st \<in> set enum"
  have "list_ex (\<lambda>r. col r = st) t \<or> sql_count (\<lambda>r. col r = st) t = 0"
    by (auto simp: list_ex_iff sql_count_def filter_empty_conv)
  then show ?thesis using st by (auto simp: vis_get_def vis_counts_def Let_def map_of_graph)
qed

lemma sql_count_0: "sql_count P t = 0 \<longleftrightarrow> (\<forall>r \<in> set t. \<not> P r)"
  by (simp add: sql_count_def filter_empty_conv)

lemma vis_healthy_iff:
  "vs_healthy (vis_take_snapshot ot dt st jt) \<longleftrightarrow>
     (\<forall>r \<in> set ot. ob_status r \<noteq> OB_DEAD_LETTER) \<and> (\<forall>r \<in> set dt. dl_status r \<noteq> DLQ_PENDING) \<and>
     (\<forall>r \<in> set st. sr_status r \<noteq> SAGA_FAILED) \<and> (\<forall>r \<in> set jt. sj_status r \<noteq> JS_FAILED)"
  by (simp add: vis_take_snapshot_def Let_def outbox_statuses_def dlq_statuses_def saga_statuses_def
      job_statuses_def sql_count_0)

lemma schedule_exists_active_iff:
  "schedule_exists_active name t \<longleftrightarrow> (\<exists>r \<in> set t. sj_job_name r = name \<and> schedule_active r)"
  by (auto simp: schedule_exists_active_def schedule_get_active_by_name_def find_None_iff)

text \<open>Defining the job twice leaves one; only one process at a time may define it.\<close>

lemma define_maintenance_twice:
  assumes "define_maintenance_jobs me available c cron new_id now t = (Inr (), t1)"
  shows "define_maintenance_jobs me available c cron new_id' now' t1 = (Inr (), t1)"
proof (cases "me_enabled me \<and> available \<and> \<not> schedule_exists_active outbox_maintenance_job t")
  case True
  then obtain job where "t1 = t @ [job]" "sj_job_name job = outbox_maintenance_job"
    "sj_status job = JS_SCHEDULED"
    using assms by (auto simp: define_maintenance_jobs_def eff_defs schedule_cron_def
        schedule_create_def schedule_save_def Let_def split: sum.split_asm)
  then have "schedule_exists_active outbox_maintenance_job t1"
    by (simp add: schedule_exists_active_iff schedule_active_def)
  then show ?thesis by (simp add: define_maintenance_jobs_def)
next
  case False
  then show ?thesis using assms by (auto simp: define_maintenance_jobs_def)
qed

end
