(* ===== verification/Wire_Format.thy ===== *)
theory Wire_Format
  imports Taas_Prelude "HOL-Library.Word"
begin

text \<open>
  The Confluent wire format: \<open>ConfluentWireFormat\<close>
  (\<open>foundation/messaging/kafka/sr/confluent.py\<close>). Bytes are \<open>8 word\<close>, the schema identifier on
  the wire is a \<open>32 word\<close> in big-endian order; \<open>struct.pack\<close> refuses an identifier that does
  not fit.
\<close>

unbundle bit_operations_syntax

type_synonym byte = "8 word"
type_synonym bytes = "byte list"

section \<open>Packing\<close>

definition magic_byte :: int where
  "magic_byte = 0"

definition wire_header_size :: nat where
  "wire_header_size = 5"

text \<open>The four bytes of a big-endian \<open>I\<close>, and the number they stand for.\<close>

definition be32_bytes :: "32 word \<Rightarrow> bytes" where
  "be32_bytes w = [ucast (drop_bit 24 w), ucast (drop_bit 16 w), ucast (drop_bit 8 w), ucast w]"

definition be32_word :: "byte \<Rightarrow> byte \<Rightarrow> byte \<Rightarrow> byte \<Rightarrow> 32 word" where
  "be32_word a b c d = push_bit 24 (ucast a) OR push_bit 16 (ucast b) OR push_bit 8 (ucast c) OR ucast d"

text \<open>\<open>struct.pack('>bI', magic, n)\<close>: a signed byte and an unsigned 32-bit integer.\<close>

definition struct_pack_bI :: "int \<Rightarrow> int \<Rightarrow> py_exn + bytes" where
  "struct_pack_bI m n =
     (if - 128 \<le> m \<and> m < 128 \<and> 0 \<le> n \<and> n < 2 ^ 32
      then Inr ((word_of_int m :: byte) # be32_bytes (word_of_int n))
      else Inl StructError)"

text \<open>\<open>struct.unpack('>bI', bs)\<close> of exactly five bytes.\<close>

fun struct_unpack_bI :: "bytes \<Rightarrow> py_exn + int \<times> int" where
  "struct_unpack_bI [m, a, b, c, d] = Inr (sint m, uint (be32_word a b c d))"
| "struct_unpack_bI _ = Inl StructError"

section \<open>ConfluentWireFormat\<close>

definition wire_encode :: "int \<Rightarrow> bytes \<Rightarrow> py_exn + bytes" where
  "wire_encode schema_id payload = (case struct_pack_bI magic_byte schema_id of
       Inl e \<Rightarrow> Inl e
     | Inr header \<Rightarrow> Inr (header @ payload))"

definition wire_decode :: "bytes \<Rightarrow> py_exn + int \<times> bytes" where
  "wire_decode data =
     (if length data < wire_header_size then Inl (WireFormatError ''too short'')
      else case struct_unpack_bI (take wire_header_size data) of
          Inl e \<Rightarrow> Inl e
        | Inr (magic, schema_id) \<Rightarrow>
            if magic \<noteq> magic_byte then Inl (WireFormatError ''magic byte'')
            else Inr (schema_id, drop wire_header_size data))"

section \<open>Bytes and words\<close>

lemma byte_bit: "bit (b :: byte) n \<longleftrightarrow> n < 8 \<and> bit b n"
  using bit_imp_le_length [of b n] by auto

lemma bit_be32_word:
  "bit (be32_word a b c d) n \<longleftrightarrow>
     (if n < 8 then bit d n else if n < 16 then bit c (n - 8)
      else if n < 24 then bit b (n - 16) else n < 32 \<and> bit a (n - 24))"
proof -
  have *: "8 \<le> k \<Longrightarrow> \<not> bit e k" for e :: byte and k using byte_bit [of e k] by simp
  consider "n < 8" | "8 \<le> n" "n < 16" | "16 \<le> n" "n < 24" | "24 \<le> n" by linarith
  then show ?thesis by cases (auto simp: be32_word_def bit_simps * )
qed

lemma be32_word_bytes: "be32_bytes w = [a, b, c, d] \<Longrightarrow> be32_word a b c d = w"
  by (intro bit_word_eqI) (auto simp: bit_be32_word be32_bytes_def bit_simps)

lemma be32_bytes_word: "be32_bytes (be32_word a b c d) = [a, b, c, d]"
  unfolding be32_bytes_def
  by (auto intro!: bit_word_eqI simp: bit_be32_word bit_simps)

lemma length_be32_bytes [simp]: "length (be32_bytes w) = 4"
  by (simp add: be32_bytes_def)

lemma unpack_pack: "struct_unpack_bI ((0 :: byte) # be32_bytes w) = Inr (0, uint w)"
  using be32_word_bytes [of w] by (auto simp: be32_bytes_def)

lemma five_bytes:
  assumes "5 \<le> length data"
  obtains m a b c d p where "data = m # a # b # c # d # p"
proof -
  obtain m a b c d p where "data = m # a # b # c # d # p"
    using assms by (auto simp: Suc_le_length_iff numeral_eq_Suc)
  then show thesis by (rule that)
qed

lemma wire_encode_Inr:
  "wire_encode n p = Inr bs \<longleftrightarrow> 0 \<le> n \<and> n < 2 ^ 32 \<and> bs = 0 # be32_bytes (word_of_int n) @ p"
  by (auto simp: wire_encode_def struct_pack_bI_def magic_byte_def)

lemma wire_decode_Inr:
  "wire_decode bs = Inr (n, p) \<longleftrightarrow> (\<exists>w. n = uint w \<and> bs = 0 # be32_bytes w @ p)"
proof
  assume *: "wire_decode bs = Inr (n, p)"
  then have "5 \<le> length bs" by (auto simp: wire_decode_def wire_header_size_def split: if_splits)
  then obtain m a b c d q where bs: "bs = m # a # b # c # d # q" by (rule five_bytes)
  with * have "sint m = 0" "n = uint (be32_word a b c d)" "p = q"
    by (auto simp: wire_decode_def wire_header_size_def magic_byte_def split: if_splits)
  moreover from \<open>sint m = 0\<close> have "m = 0" by (metis sint_0 signed_word_eqI)
  ultimately show "\<exists>w. n = uint w \<and> bs = 0 # be32_bytes w @ p"
    using bs be32_bytes_word [of a b c d] by auto
next
  assume "\<exists>w. n = uint w \<and> bs = 0 # be32_bytes w @ p"
  then obtain w where "n = uint w" "bs = 0 # be32_bytes w @ p" by blast
  moreover have "take 5 (0 # be32_bytes w @ p) = 0 # be32_bytes w" by simp
  ultimately show "wire_decode bs = Inr (n, p)"
    using unpack_pack [of w]
    by (simp add: wire_decode_def wire_header_size_def magic_byte_def)
qed

lemma wire_decode_of_encode: "wire_encode n p = Inr bs \<Longrightarrow> wire_decode bs = Inr (n, p)"
proof -
  assume "wire_encode n p = Inr bs"
  then have n: "0 \<le> n" "n < 2 ^ 32" "bs = 0 # be32_bytes (word_of_int n) @ p"
    by (simp_all add: wire_encode_Inr)
  then have "uint (word_of_int n :: 32 word) = n"
    by (simp add: uint_word_of_int_eq take_bit_int_eq_self)
  with n show ?thesis by (auto simp: wire_decode_Inr intro!: exI [of _ "word_of_int n"])
qed

lemma wire_encode_of_decode: "wire_decode bs = Inr (n, p) \<Longrightarrow> wire_encode n p = Inr bs"
proof -
  assume "wire_decode bs = Inr (n, p)"
  then obtain w :: "32 word" where "n = uint w" "bs = 0 # be32_bytes w @ p" by (auto simp: wire_decode_Inr)
  moreover have "uint w < 2 ^ 32" using uint_lt2p [of w] by simp
  ultimately show ?thesis by (simp add: wire_encode_Inr)
qed

section \<open>Properties\<close>

text \<open>Encoding and decoding are inverse to each other: a message is the encoding of a schema
  identifier and a payload exactly when it decodes to them. So decoding loses nothing and
  accepts no second spelling.\<close>
theorem wire_format_inverse:
  "wire_encode n p = Inr bs \<longleftrightarrow> wire_decode bs = Inr (n, p)"
  using wire_decode_of_encode wire_encode_of_decode by blast

text \<open>The error branches: an identifier that does not fit, a short message, another first byte.\<close>

lemma wire_encode_out_of_range: "n < 0 \<or> 2 ^ 32 \<le> n \<Longrightarrow> wire_encode n p = Inl StructError"
  by (auto simp: wire_encode_def struct_pack_bI_def)

lemma wire_decode_short: "length bs < 5 \<Longrightarrow> wire_decode bs = Inl (WireFormatError ''too short'')"
  by (simp add: wire_decode_def wire_header_size_def)

lemma wire_decode_bad_magic:
  assumes "m \<noteq> 0" and "4 \<le> length bs"
  shows "wire_decode (m # bs) = Inl (WireFormatError ''magic byte'')"
proof -
  have "5 \<le> length (m # bs)" using assms(2) by simp
  then obtain m' a b c d q where "m # bs = m' # a # b # c # d # q" by (rule five_bytes)
  moreover have "sint m \<noteq> 0" using assms(1) by (metis sint_0 signed_word_eqI)
  ultimately show ?thesis by (simp add: wire_decode_def wire_header_size_def magic_byte_def)
qed

end
