(* ===== verification/Avro_Schema.thy ===== *)
theory Avro_Schema
  imports Wire_Format
begin

text \<open>
  The Avro schema of an event class: \<open>foundation/messaging/kafka/sr/serializer.py\<close>. An
  annotation of a field is an \<open>ann\<close>, an Avro type an \<open>avro\<close>, a class of the program a value
  of \<open>'c\<close> with its name and fields in a table \<open>env\<close>. The dictionary \<open>defined\<close> of the code
  maps a class to its own name, so it is the list of its keys. The recursion of the code through
  the fields of a nested class has no structural bound: it is written with fuel, and
  \<open>avro_schema_exists\<close> shows that the number of classes is fuel enough.
\<close>

section \<open>Annotations and Avro types\<close>

datatype 'c ann =
    A_bool | A_int | A_float | A_str | A_bytes | A_none
  | A_datetime | A_date | A_time | A_decimal | A_uuid
  | A_union "'c ann list"
  | A_seq "'c ann list"
  | A_dict "'c ann list"
  | A_list_bare | A_dict_bare
  | A_struct 'c
  | A_enum string "string list"
  | A_other

text \<open>
  The default of a field: none (or a \<open>default_factory\<close>), one of the JSON scalars
  \<open>isinstance(default, (str, int, float, bool)) or default is None\<close>, or another object.
\<close>

datatype py_default = No_default | Scalar_default jval | Object_default

type_synonym 'c struct_field = "string \<times> 'c ann \<times> py_default"
type_synonym 'c struct_env = "'c \<Rightarrow> string \<times> 'c struct_field list"

datatype avro =
    Av_prim string
  | Av_logical string string
  | Av_array avro
  | Av_map avro
  | Av_record string "(string \<times> avro \<times> jval option) list"
  | Av_ref string
  | Av_enum string "string list"
  | Av_union "avro list"

type_synonym avro_field = "string \<times> avro \<times> jval option"

text \<open>\<open>cls.__name__\<close> and \<open>msgspec.structs.fields(cls)\<close>\<close>

definition struct_name :: "'c struct_env \<Rightarrow> 'c \<Rightarrow> string" where
  "struct_name env c = fst (env c)"

definition struct_fields :: "'c struct_env \<Rightarrow> 'c \<Rightarrow> 'c struct_field list" where
  "struct_fields env c = snd (env c)"

section \<open>The mapping\<close>

definition av_null :: avro where
  "av_null = Av_prim ''null''"

definition fallback_avro_type :: avro where
  "fallback_avro_type = Av_prim ''string''"

text \<open>\<open>isinstance(avro_type, list) and avro_type and avro_type[0] == 'null'\<close>\<close>

fun null_first :: "avro \<Rightarrow> bool" where
  "null_first (Av_union (b # bs)) \<longleftrightarrow> b = av_null"
| "null_first _ \<longleftrightarrow> False"

definition avro_default_for :: "py_default \<Rightarrow> avro \<Rightarrow> jval option" where
  "avro_default_for d t = (if null_first t then Some JNull else case d of
       No_default \<Rightarrow> None
     | Scalar_default j \<Rightarrow> Some j
     | Object_default \<Rightarrow> None)"

definition union_result :: "avro list \<Rightarrow> avro" where
  "union_result bs = (case bs of [] \<Rightarrow> fallback_avro_type | [b] \<Rightarrow> b | _ \<Rightarrow> Av_union bs)"

fun avro_type_for ::
    "'c struct_env \<Rightarrow> nat \<Rightarrow> 'c ann \<Rightarrow> 'c list \<Rightarrow> (avro \<times> 'c list) option"
  and union_branches ::
    "'c struct_env \<Rightarrow> nat \<Rightarrow> 'c ann list \<Rightarrow> avro list \<Rightarrow> 'c list \<Rightarrow> (avro list \<times> 'c list) option"
  and avro_fields ::
    "'c struct_env \<Rightarrow> nat \<Rightarrow> 'c struct_field list \<Rightarrow> 'c list \<Rightarrow> (avro_field list \<times> 'c list) option"
where
  "avro_type_for env n (A_union ms) d =
     (case union_branches env n ms (if A_none \<in> set ms then [av_null] else []) d of
        None \<Rightarrow> None
      | Some (bs, d') \<Rightarrow> Some (union_result bs, d'))"
| "avro_type_for env n A_datetime d = Some (Av_logical ''long'' ''timestamp-micros'', d)"
| "avro_type_for env n A_date d = Some (Av_logical ''int'' ''date'', d)"
| "avro_type_for env n A_time d = Some (Av_logical ''long'' ''time-micros'', d)"
| "avro_type_for env n A_bool d = Some (Av_prim ''boolean'', d)"
| "avro_type_for env n A_int d = Some (Av_prim ''long'', d)"
| "avro_type_for env n A_float d = Some (Av_prim ''double'', d)"
| "avro_type_for env n A_str d = Some (Av_prim ''string'', d)"
| "avro_type_for env n A_bytes d = Some (Av_prim ''bytes'', d)"
| "avro_type_for env n A_none d = Some (av_null, d)"
| "avro_type_for env n A_decimal d = Some (Av_prim ''string'', d)"
| "avro_type_for env n A_uuid d = Some (Av_prim ''string'', d)"
| "avro_type_for env n (A_seq []) d = Some (Av_array fallback_avro_type, d)"
| "avro_type_for env n (A_seq (a # as)) d =
     (case avro_type_for env n a d of
        None \<Rightarrow> None | Some (t, d') \<Rightarrow> Some (Av_array t, d'))"
| "avro_type_for env n (A_dict [k, a]) d =
     (case avro_type_for env n a d of
        None \<Rightarrow> None | Some (t, d') \<Rightarrow> Some (Av_map t, d'))"
| "avro_type_for env n (A_dict _) d = Some (Av_map fallback_avro_type, d)"
| "avro_type_for env n A_list_bare d = Some (Av_array fallback_avro_type, d)"
| "avro_type_for env n A_dict_bare d = Some (Av_map fallback_avro_type, d)"
| "avro_type_for env n (A_struct c) d =
     (if c \<in> set d then Some (Av_ref (struct_name env c), d)
      else case n of 0 \<Rightarrow> None
      | Suc n' \<Rightarrow> (case avro_fields env n' (struct_fields env c) (d @ [c]) of
            None \<Rightarrow> None
          | Some (fs, d') \<Rightarrow> Some (Av_record (struct_name env c) fs, d')))"
| "avro_type_for env n (A_enum name symbols) d = Some (Av_enum name symbols, d)"
| "avro_type_for env n A_other d = Some (fallback_avro_type, d)"
| "union_branches env n [] bs d = Some (bs, d)"
| "union_branches env n (m # ms) bs d =
     (if m = A_none then union_branches env n ms bs d
      else case avro_type_for env n m d of
        None \<Rightarrow> None
      | Some (t, d') \<Rightarrow> union_branches env n ms (if t \<in> set bs then bs else bs @ [t]) d')"
| "avro_fields env n [] d = Some ([], d)"
| "avro_fields env n ((nm, a, df) # fs) d =
     (case avro_type_for env n a d of
        None \<Rightarrow> None
      | Some (t, d') \<Rightarrow> (case avro_fields env n fs d' of
            None \<Rightarrow> None
          | Some (rest, d'') \<Rightarrow> Some ((nm, t, avro_default_for df t) # rest, d'')))"

text \<open>\<open>_record_schema(struct_cls, defined={})\<close>\<close>

definition convert_struct_to_avro :: "'c struct_env \<Rightarrow> nat \<Rightarrow> 'c \<Rightarrow> avro option" where
  "convert_struct_to_avro env n c =
     (case avro_type_for env n (A_struct c) [] of None \<Rightarrow> None | Some (t, d) \<Rightarrow> Some t)"

section \<open>Termination\<close>

text \<open>The classes an annotation mentions, and the tables whose classes stay within a set.\<close>

fun ann_structs :: "'c ann \<Rightarrow> 'c set" where
  "ann_structs (A_union as) = (\<Union>a \<in> set as. ann_structs a)"
| "ann_structs (A_seq as) = (\<Union>a \<in> set as. ann_structs a)"
| "ann_structs (A_dict as) = (\<Union>a \<in> set as. ann_structs a)"
| "ann_structs (A_struct c) = {c}"
| "ann_structs _ = {}"

definition env_closed :: "'c struct_env \<Rightarrow> 'c set \<Rightarrow> bool" where
  "env_closed env C \<longleftrightarrow> (\<forall>c \<in> C. \<forall>(nm, a, df) \<in> set (struct_fields env c). ann_structs a \<subseteq> C)"

text \<open>The dictionary \<open>defined\<close> only grows, by classes it did not have.\<close>

definition extends :: "'c list \<Rightarrow> 'c list \<Rightarrow> bool" where
  "extends d d' \<longleftrightarrow> (\<exists>new. d' = d @ new \<and> distinct new \<and> set new \<inter> set d = {})"

lemma extends_refl [simp]: "extends d d"
  by (simp add: extends_def)

lemma extends_trans: "extends d d' \<Longrightarrow> extends d' d'' \<Longrightarrow> extends d d''"
  by (force simp: extends_def)

lemma extends_set: "extends d d' \<Longrightarrow> set d \<subseteq> set d'"
  by (auto simp: extends_def)

lemma extends_snoc: "c \<notin> set d \<Longrightarrow> extends (d @ [c]) d' \<Longrightarrow> extends d d'"
  by (rule extends_trans [of _ "d @ [c]"]) (auto simp: extends_def)

lemma generation_extends:
  "avro_type_for env n a d = Some (t, d') \<Longrightarrow> extends d d'"
  "union_branches env n ms bs d = Some (bs', d') \<Longrightarrow> extends d d'"
  "avro_fields env n fs d = Some (fs', d') \<Longrightarrow> extends d d'"
proof (induction env n a d and env n ms bs d and env n fs d
    arbitrary: t d' and bs' d' and fs' d'
    rule: avro_type_for_union_branches_avro_fields.induct)
qed (auto split: option.splits if_splits nat.splits prod.splits intro: extends_trans extends_snoc)

lemma card_diff_extends:
  assumes "finite C" and "extends d d'"
  shows "card (C - set d') \<le> card (C - set d)"
  using assms extends_set by (intro card_mono) auto

lemma generation_card:
  assumes "avro_type_for env n a d = Some (t, d')" and "finite C" and "card (C - set d) \<le> k"
  shows "card (C - set d') \<le> k"
  using card_diff_extends [OF assms(2) generation_extends(1) [OF assms(1)]] assms(3) by linarith

lemma generation_terminates:
  assumes "env_closed env C" and "finite C"
  shows "ann_structs a \<subseteq> C \<Longrightarrow> card (C - set d) \<le> n \<Longrightarrow> avro_type_for env n a d \<noteq> None"
    and "(\<Union>a \<in> set ms. ann_structs a) \<subseteq> C \<Longrightarrow> card (C - set d) \<le> n \<Longrightarrow> union_branches env n ms bs d \<noteq> None"
    and "(\<Union>(nm, a, df) \<in> set fs. ann_structs a) \<subseteq> C \<Longrightarrow> card (C - set d) \<le> n \<Longrightarrow> avro_fields env n fs d \<noteq> None"
  using assms
proof (induction env n a d and env n ms bs d and env n fs d
    rule: avro_type_for_union_branches_avro_fields.induct)
  case (1 env n ms d)
  then have "union_branches env n ms (if A_none \<in> set ms then [av_null] else []) d \<noteq> None" by simp
  then show ?case by (cases "A_none \<in> set ms") auto
next
  case (19 env n c d)
  from "19.prems" have c: "c \<in> C" and le: "card (C - set d) \<le> n"
    and cl: "env_closed env C" and fin: "finite C" by simp_all
  show ?case
  proof (cases "c \<in> set d")
    case False
    with c have "C - set d = insert c (C - set (d @ [c]))" by auto
    moreover have "card (insert c (C - set (d @ [c]))) = Suc (card (C - set (d @ [c])))"
      using fin by (intro card_insert_disjoint) auto
    ultimately have "card (C - set d) = Suc (card (C - set (d @ [c])))" by (simp only:)
    with le have "Suc (card (C - set (d @ [c]))) \<le> n" by (simp only:)
    then obtain n' where n': "n = Suc n'" "card (C - set (d @ [c])) \<le> n'"
      by (metis Suc_le_D Suc_le_mono)
    moreover have "(\<Union>(nm, a, df) \<in> set (struct_fields env c). ann_structs a) \<subseteq> C"
      using cl c unfolding env_closed_def by fastforce
    ultimately have "avro_fields env n' (struct_fields env c) (d @ [c]) \<noteq> None"
      using "19.IH" [OF False n'(1)] cl fin by blast
    with False n'(1) show ?thesis by (auto split: option.splits)
  qed simp
next
  case (23 env n m ms bs d)
  show ?case
  proof (cases "m = A_none")
    case True
    with 23 show ?thesis by simp
  next
    case False
    have "avro_type_for env n m d \<noteq> None" using "23.IH"(2) [OF False] "23.prems" by simp
    then obtain t d' where t: "avro_type_for env n m d = Some (t, d')" by auto
    have "card (C - set d') \<le> n"
      using "23.prems" by (intro generation_card [OF t]) simp_all
    then have "union_branches env n ms (if t \<in> set bs then bs else bs @ [t]) d' \<noteq> None"
      using "23.IH"(3) [OF False t refl] "23.prems" by simp
    with t False show ?thesis by simp
  qed
next
  case (25 env n nm a df fs d)
  have "avro_type_for env n a d \<noteq> None" using "25.IH"(1) "25.prems" by simp
  then obtain t d' where t: "avro_type_for env n a d = Some (t, d')" by auto
  have "card (C - set d') \<le> n"
    using "25.prems" by (intro generation_card [OF t]) simp_all
  then have "avro_fields env n fs d' \<noteq> None"
    using "25.IH"(2) [OF t refl] "25.prems" by simp
  with t show ?case by (auto split: option.splits)
qed (auto split: option.splits)

lemma convert_struct_SomeE:
  assumes "convert_struct_to_avro env n c = Some t"
  obtains fs d m where "n = Suc m" "t = Av_record (struct_name env c) fs"
    "avro_fields env m (struct_fields env c) [c] = Some (fs, d)"
  using assms by (auto simp: convert_struct_to_avro_def split: option.splits nat.splits prod.splits)

section \<open>The named types of a schema\<close>

fun record_defs :: "avro \<Rightarrow> (string \<times> avro_field list) list"
  and record_defs_list :: "avro list \<Rightarrow> (string \<times> avro_field list) list"
  and record_defs_fields :: "avro_field list \<Rightarrow> (string \<times> avro_field list) list"
where
  "record_defs (Av_array t) = record_defs t"
| "record_defs (Av_map t) = record_defs t"
| "record_defs (Av_record n fs) = (n, fs) # record_defs_fields fs"
| "record_defs (Av_union ts) = record_defs_list ts"
| "record_defs _ = []"
| "record_defs_list [] = []"
| "record_defs_list (t # ts) = record_defs t @ record_defs_list ts"
| "record_defs_fields [] = []"
| "record_defs_fields ((nm, t, df) # fs) = record_defs t @ record_defs_fields fs"

lemma record_defs_list_append [simp]: "record_defs_list (xs @ ys) = record_defs_list xs @ record_defs_list ys"
  by (induction xs) auto

lemma record_defs_list_member: "t \<in> set ts \<Longrightarrow> set (record_defs t) \<subseteq> set (record_defs_list ts)"
  by (induction ts) auto

lemma record_defs_union_result [simp]: "record_defs (union_result bs) = record_defs_list bs"
  by (auto simp: union_result_def fallback_avro_type_def split: list.splits)

lemma record_defs_av_null [simp]: "record_defs av_null = []" "record_defs fallback_avro_type = []"
  by (simp_all add: av_null_def fallback_avro_type_def)

text \<open>
  The records defined by a generated type are the classes added to \<open>defined\<close>, in the order
  they were added. Class names must be unique, as Avro's names are.
\<close>

definition new_records :: "'c struct_env \<Rightarrow> 'c list \<Rightarrow> 'c list \<Rightarrow> string list \<Rightarrow> bool" where
  "new_records env d d' names \<longleftrightarrow>
     (\<exists>new. d' = d @ new \<and> distinct new \<and> set new \<inter> set d = {} \<and> names = map (struct_name env) new)"

lemma new_records_refl [simp]: "new_records env d d []"
  by (simp add: new_records_def)

lemma new_records_trans:
  assumes "new_records env d d' xs" and "new_records env d' d'' ys"
  shows "new_records env d d'' (xs @ ys)"
proof -
  obtain new where 1: "d' = d @ new" "distinct new" "set new \<inter> set d = {}" "xs = map (struct_name env) new"
    using assms(1) unfolding new_records_def by blast
  obtain new' where 2: "d'' = d' @ new'" "distinct new'" "set new' \<inter> set d' = {}" "ys = map (struct_name env) new'"
    using assms(2) unfolding new_records_def by blast
  show ?thesis unfolding new_records_def using 1 2 by (intro exI [of _ "new @ new'"]) auto
qed

lemma new_records_snoc:
  "c \<notin> set d \<Longrightarrow> new_records env (d @ [c]) d' xs \<Longrightarrow> new_records env d d' (struct_name env c # xs)"
  using new_records_trans [of env d "d @ [c]" "[struct_name env c]" d' xs] by (auto simp: new_records_def)

lemma new_records_old:
  assumes "new_records env d d' xs" and "set xs \<subseteq> struct_name env ` set d" and "inj (struct_name env)"
  shows "d' = d"
proof -
  obtain new where new: "d' = d @ new" "set new \<inter> set d = {}" "xs = map (struct_name env) new"
    using assms(1) unfolding new_records_def by blast
  have "set new \<subseteq> set d"
  proof
    fix c assume "c \<in> set new"
    then have "struct_name env c \<in> set xs" by (simp add: new(3))
    with assms(2) have "struct_name env c \<in> struct_name env ` set d" by (rule subsetD)
    with assms(3) show "c \<in> set d" by (simp add: inj_image_mem_iff)
  qed
  then have "set new = set new \<inter> set d" by (rule inf.absorb1 [symmetric])
  also have "\<dots> = {}" by (rule new(2))
  finally have "set new = {}" .
  then have "new = []" by simp
  then show ?thesis by (simp add: new(1))
qed

lemma new_records_names:
  "new_records env d d' xs \<Longrightarrow> set xs \<subseteq> struct_name env ` set d'"
  by (auto simp: new_records_def)

lemma new_records_mono: "new_records env d d' xs \<Longrightarrow> set d \<subseteq> set d'"
  by (auto simp: new_records_def)

lemma generation_records:
  assumes "inj (struct_name env)"
  shows "avro_type_for env n a d = Some (t, d') \<Longrightarrow> new_records env d d' (map fst (record_defs t))"
    and "union_branches env n ms bs d = Some (bs', d') \<Longrightarrow>
      set (map fst (record_defs_list bs)) \<subseteq> struct_name env ` set d \<Longrightarrow>
      \<exists>xs. map fst (record_defs_list bs') = map fst (record_defs_list bs) @ xs \<and> new_records env d d' xs"
    and "avro_fields env n fs d = Some (fs', d') \<Longrightarrow> new_records env d d' (map fst (record_defs_fields fs'))"
  using assms
proof (induction env n a d and env n ms bs d and env n fs d
    arbitrary: t d' and bs' d' and fs' d'
    rule: avro_type_for_union_branches_avro_fields.induct)
  case (1 env n ms d)
  then show ?case by (cases "A_none \<in> set ms") (auto split: option.splits)
next
  case (19 env n c d)
  show ?case
  proof (cases "c \<in> set d")
    case True
    with 19 show ?thesis by auto
  next
    case False
    with "19.prems"(1) obtain n' fs where n': "n = Suc n'" "t = Av_record (struct_name env c) fs"
      "avro_fields env n' (struct_fields env c) (d @ [c]) = Some (fs, d')"
      by (auto split: option.splits nat.splits)
    have "new_records env (d @ [c]) d' (map fst (record_defs_fields fs))"
      using "19.IH" [OF False n'(1) n'(3)] "19.prems"(2) by simp
    from new_records_snoc [OF False this] show ?thesis by (simp add: n'(2))
  qed
next
  case (23 env n m ms bs d)
  show ?case
  proof (cases "m = A_none")
    case True
    with 23 show ?thesis by simp
  next
    case False
    with "23.prems"(1) obtain t d1 where t: "avro_type_for env n m d = Some (t, d1)"
      and u: "union_branches env n ms (if t \<in> set bs then bs else bs @ [t]) d1 = Some (bs', d')"
      by (auto split: option.splits)
    have r: "new_records env d d1 (map fst (record_defs t))"
      using "23.IH"(2) [OF False t] "23.prems" by simp
    show ?thesis
    proof (cases "t \<in> set bs")
      case True
      have "set (map fst (record_defs t)) \<subseteq> set (map fst (record_defs_list bs))"
        using record_defs_list_member [OF True] by auto
      then have "d1 = d" using new_records_old [OF r] "23.prems" by blast
      then show ?thesis using "23.IH"(3) [OF False t refl] u True "23.prems" by simp
    next
      case nin: False
      have "set (map fst (record_defs_list (bs @ [t]))) \<subseteq> struct_name env ` set d1"
        using "23.prems"(2) new_records_names [OF r] image_mono [OF new_records_mono [OF r], of "struct_name env"]
        by auto
      then obtain xs where "map fst (record_defs_list bs') = map fst (record_defs_list (bs @ [t])) @ xs"
        and "new_records env d1 d' xs"
        using "23.IH"(3) [OF False t refl] u nin "23.prems"(3) by auto
      with new_records_trans [OF r] show ?thesis by auto
    qed
  qed
next
  case (25 env n nm a df fs d)
  then obtain t d1 rest where t: "avro_type_for env n a d = Some (t, d1)"
    and r: "avro_fields env n fs d1 = Some (rest, d')" "fs' = (nm, t, avro_default_for df t) # rest"
    by (auto split: option.splits)
  have "new_records env d d1 (map fst (record_defs t))"
    using "25.IH"(1) [OF t] "25.prems"(2) by simp
  moreover have "new_records env d1 d' (map fst (record_defs_fields rest))"
    using "25.IH"(2) [OF t refl r(1)] "25.prems"(2) by simp
  ultimately show ?case using new_records_trans by (fastforce simp: r(2))
qed (auto split: option.splits prod.splits)

text \<open>Every record of a generated type was made from the fields of its class.\<close>

definition generated :: "'c struct_env \<Rightarrow> 'c set \<Rightarrow> string \<times> avro_field list \<Rightarrow> bool" where
  "generated env D x \<longleftrightarrow> (\<exists>c m e e'. fst x = struct_name env c \<and>
     avro_fields env m (struct_fields env c) e = Some (snd x, e') \<and> set e' \<subseteq> D)"

lemmas generation_set = generation_extends [THEN extends_set]

lemma generation_defs:
  "avro_type_for env n a d = Some (t, d') \<Longrightarrow> set d' \<subseteq> D \<Longrightarrow> \<forall>x \<in> set (record_defs t). generated env D x"
  "union_branches env n ms bs d = Some (bs', d') \<Longrightarrow> set d' \<subseteq> D \<Longrightarrow>
     \<forall>x \<in> set (record_defs_list bs). generated env D x \<Longrightarrow> \<forall>x \<in> set (record_defs_list bs'). generated env D x"
  "avro_fields env n fs d = Some (fs', d') \<Longrightarrow> set d' \<subseteq> D \<Longrightarrow> \<forall>x \<in> set (record_defs_fields fs'). generated env D x"
proof (induction env n a d and env n ms bs d and env n fs d
    arbitrary: t d' and bs' d' and fs' d'
    rule: avro_type_for_union_branches_avro_fields.induct)
  case (1 env n ms d)
  then show ?case by (cases "A_none \<in> set ms") (auto split: option.splits)
next
  case (19 env n c d)
  show ?case
  proof (cases "c \<in> set d")
    case True
    with 19 show ?thesis by auto
  next
    case False
    with "19.prems"(1) obtain n' fs where n': "n = Suc n'" "t = Av_record (struct_name env c) fs"
      "avro_fields env n' (struct_fields env c) (d @ [c]) = Some (fs, d')"
      by (auto split: option.splits nat.splits)
    then have "generated env D (struct_name env c, fs)"
      using "19.prems"(2) unfolding generated_def by (metis fst_conv snd_conv)
    with "19.IH" [OF False n'(1) n'(3) "19.prems"(2)] show ?thesis by (simp add: n'(2))
  qed
next
  case (23 env n m ms bs d)
  show ?case
  proof (cases "m = A_none")
    case True
    with 23 show ?thesis by simp
  next
    case False
    with "23.prems"(1) obtain t d1 where t: "avro_type_for env n m d = Some (t, d1)"
      and u: "union_branches env n ms (if t \<in> set bs then bs else bs @ [t]) d1 = Some (bs', d')"
      by (auto split: option.splits)
    have "\<forall>x \<in> set (record_defs t). generated env D x"
      using "23.IH"(2) [OF False t] generation_set(2) [OF u] "23.prems"(2) by blast
    then show ?thesis
      using "23.IH"(3) [OF False t refl u "23.prems"(2)] "23.prems"(3)
      by (cases "t \<in> set bs") auto
  qed
next
  case (25 env n nm a df fs d)
  then obtain t d1 rest where t: "avro_type_for env n a d = Some (t, d1)"
    and r: "avro_fields env n fs d1 = Some (rest, d')" "fs' = (nm, t, avro_default_for df t) # rest"
    by (auto split: option.splits)
  have "\<forall>x \<in> set (record_defs t). generated env D x"
    using "25.IH"(1) [OF t] generation_set(3) [OF r(1)] "25.prems"(2) by blast
  with "25.IH"(2) [OF t refl r(1) "25.prems"(2)] show ?case by (auto simp: r(2))
qed (auto split: option.splits)

section \<open>Data\<close>

text \<open>Python data in the form of \<open>as_dict()\<close>: a nested object is a dict.\<close>

datatype py_data =
    P_none | P_bool bool | P_int int | P_float rat | P_str string | P_bytes bytes
  | P_datetime int | P_date int | P_time int
  | P_list "py_data list"
  | P_dict "(string \<times> py_data) list"

text \<open>
  The data of an annotation: the values a field may hold, restricted to those Avro has an exact
  type for (integers within 64 bits, no \<open>Decimal\<close>, \<open>UUID\<close>, enumeration or unmapped type).
\<close>

inductive data_of :: "'c struct_env \<Rightarrow> 'c ann \<Rightarrow> py_data \<Rightarrow> bool" for env where
  "data_of env A_none P_none"
| "data_of env A_bool (P_bool b)"
| "- (2 ^ 63) \<le> i \<Longrightarrow> i < 2 ^ 63 \<Longrightarrow> data_of env A_int (P_int i)"
| "data_of env A_float (P_float q)"
| "data_of env A_str (P_str s)"
| "data_of env A_bytes (P_bytes bs)"
| "data_of env A_datetime (P_datetime t)"
| "data_of env A_date (P_date t)"
| "data_of env A_time (P_time t)"
| "a \<in> set as \<Longrightarrow> data_of env a v \<Longrightarrow> data_of env (A_union as) v"
| "(\<forall>v \<in> set vs. data_of env a v) \<Longrightarrow> data_of env (A_seq [a]) (P_list vs)"
| "(\<forall>(k, v) \<in> set kvs. data_of env a v) \<Longrightarrow> data_of env (A_dict [A_str, a]) (P_dict kvs)"
| "(\<forall>(nm, a, df) \<in> set (struct_fields env c). \<exists>v. map_of kvs nm = Some v \<and> data_of env a v) \<Longrightarrow>
     data_of env (A_struct c) (P_dict kvs)"

text \<open>
  The data an Avro type describes (Avro specification, with its logical types); \<open>names\<close> holds
  the records the schema defines. A missing field must have a default.
\<close>

inductive avro_admits :: "(string \<rightharpoonup> avro_field list) \<Rightarrow> avro \<Rightarrow> py_data \<Rightarrow> bool" for names where
  "avro_admits names (Av_prim ''null'') P_none"
| "avro_admits names (Av_prim ''boolean'') (P_bool b)"
| "- (2 ^ 63) \<le> i \<Longrightarrow> i < 2 ^ 63 \<Longrightarrow> avro_admits names (Av_prim ''long'') (P_int i)"
| "avro_admits names (Av_prim ''double'') (P_float q)"
| "avro_admits names (Av_prim ''string'') (P_str s)"
| "avro_admits names (Av_prim ''bytes'') (P_bytes bs)"
| "avro_admits names (Av_logical ''long'' ''timestamp-micros'') (P_datetime t)"
| "avro_admits names (Av_logical ''int'' ''date'') (P_date t)"
| "avro_admits names (Av_logical ''long'' ''time-micros'') (P_time t)"
| "(\<forall>v \<in> set vs. avro_admits names t v) \<Longrightarrow> avro_admits names (Av_array t) (P_list vs)"
| "(\<forall>(k, v) \<in> set kvs. avro_admits names t v) \<Longrightarrow> avro_admits names (Av_map t) (P_dict kvs)"
| "t \<in> set ts \<Longrightarrow> avro_admits names t v \<Longrightarrow> avro_admits names (Av_union ts) v"
| admits_record: "(\<forall>(nm, t, df) \<in> set fs.
       (\<exists>v. map_of kvs nm = Some v \<and> avro_admits names t v) \<or> (map_of kvs nm = None \<and> df \<noteq> None)) \<Longrightarrow>
     avro_admits names (Av_record n fs) (P_dict kvs)"
| admits_ref: "names n = Some fs \<Longrightarrow> avro_admits names (Av_record n fs) v \<Longrightarrow> avro_admits names (Av_ref n) v"

inductive_cases data_of_noneE: "data_of env A_none v"

lemma union_member:
  "union_branches env n ms bs d = Some (bs', d') \<Longrightarrow> set bs \<subseteq> set bs'"
  "union_branches env n ms bs d = Some (bs', d') \<Longrightarrow> a \<in> set ms \<Longrightarrow> a \<noteq> A_none \<Longrightarrow>
     \<exists>e t e'. avro_type_for env n a e = Some (t, e') \<and> t \<in> set bs' \<and> set e' \<subseteq> set d'"
proof (induction ms arbitrary: bs d)
  case (Cons m ms)
  { case 1
    with Cons.IH(1) show ?case by (fastforce split: if_splits option.splits)
  next
    case 2
    show ?case
    proof (cases "m = A_none")
      case True
      with 2 Cons.IH(2) show ?thesis by auto
    next
      case False
      with 2(1) obtain t d1 where t: "avro_type_for env n m d = Some (t, d1)"
        and u: "union_branches env n ms (if t \<in> set bs then bs else bs @ [t]) d1 = Some (bs', d')"
        by (auto split: option.splits)
      show ?thesis
      proof (cases "a = m")
        case True
        have "t \<in> set bs'" using Cons.IH(1) [OF u] by (auto split: if_splits)
        with t generation_set(2) [OF u] True show ?thesis by blast
      next
        case False
        with 2 have "a \<in> set ms" by simp
        then show ?thesis using Cons.IH(2) [OF u] 2(3) by blast
      qed
    qed }
qed simp_all

lemma admits_union_result:
  assumes "t \<in> set bs" and "avro_admits names t v"
  shows "avro_admits names (union_result bs) v"
proof (cases bs rule: remdups_adj.cases)
  case (2 x)
  with assms show ?thesis by (simp add: union_result_def)
next
  case (3 x y xs)
  with assms show ?thesis
    by (auto simp: union_result_def intro: avro_admits.intros(12) [of t])
qed (use assms in simp)

lemma fields_member:
  assumes "avro_fields env n fs d = Some (fs', d')" and "(nm, t, df) \<in> set fs'"
  shows "\<exists>a pd e e'. (nm, a, pd) \<in> set fs \<and> avro_type_for env n a e = Some (t, e') \<and> set e' \<subseteq> set d'"
  using assms
proof (induction fs arbitrary: fs' d)
  case (Cons f fs)
  obtain k a pd where f: "f = (k, a, pd)" by (cases f)
  with Cons.prems(1) obtain t1 d1 rest where t: "avro_type_for env n a d = Some (t1, d1)"
    and r: "avro_fields env n fs d1 = Some (rest, d')" "fs' = (k, t1, avro_default_for pd t1) # rest"
    by (auto split: option.splits)
  show ?case
  proof (cases "(nm, t, df) \<in> set rest")
    case True
    from Cons.IH [OF r(1) this] show ?thesis by auto
  next
    case False
    with Cons.prems(2) r(2) f t generation_set(3) [OF r(1)] show ?thesis by fastforce
  qed
qed simp

definition names_closed :: "'c struct_env \<Rightarrow> (string \<rightharpoonup> avro_field list) \<Rightarrow> 'c set \<Rightarrow> bool" where
  "names_closed env names D \<longleftrightarrow> (\<forall>c \<in> D. \<exists>fs m e e'. names (struct_name env c) = Some fs \<and>
     avro_fields env m (struct_fields env c) e = Some (fs, e') \<and> set e' \<subseteq> D)"

lemma admits_generated:
  assumes closed: "names_closed env names D"
  shows "data_of env a v \<Longrightarrow> avro_type_for env n a d = Some (t, d') \<Longrightarrow> set d' \<subseteq> D \<Longrightarrow> avro_admits names t v"
proof (induction arbitrary: n d t d' rule: data_of.induct)
  case (10 a as v)
  from "10.prems"(1) obtain bs where u: "union_branches env n as (if A_none \<in> set as then [av_null] else []) d = Some (bs, d')"
    and t: "t = union_result bs" by (auto split: option.splits)
  show ?case
  proof (cases "a = A_none")
    case True
    with "10.hyps" u have "av_null \<in> set bs" using union_member(1) [OF u] by auto
    moreover have "avro_admits names av_null v"
      using True "10.hyps"(2) by (auto simp: av_null_def elim: data_of_noneE intro: avro_admits.intros)
    ultimately show ?thesis unfolding t by (rule admits_union_result)
  next
    case False
    from union_member(2) [OF u "10.hyps"(1) False] obtain e t1 e' where
      "avro_type_for env n a e = Some (t1, e')" "t1 \<in> set bs" "set e' \<subseteq> set d'" by blast
    moreover from this have "avro_admits names t1 v" using "10.IH" "10.prems"(2) by blast
    ultimately show ?thesis unfolding t by (blast intro: admits_union_result)
  qed
next
  case (11 vs a)
  then show ?case by (auto split: option.splits intro: avro_admits.intros)
next
  case (12 kvs a)
  then show ?case by (fastforce split: option.splits intro: avro_admits.intros)
next
  case (13 c kvs)
  have rec: "avro_admits names (Av_record nm fs) (P_dict kvs)"
    if fs: "avro_fields env m (struct_fields env c) e = Some (fs, e')" "set e' \<subseteq> D" for m e fs e' nm
  proof (rule admits_record, clarify)
    fix k t df
    assume "(k, t, df) \<in> set fs" and no: "\<not> (map_of kvs k = None \<and> df \<noteq> None)"
    from fields_member [OF fs(1) this(1)] obtain a pd e1 e2 where
      "(k, a, pd) \<in> set (struct_fields env c)" "avro_type_for env m a e1 = Some (t, e2)" "set e2 \<subseteq> set e'"
      by blast
    with "13.IH" fs(2) show "\<exists>v. map_of kvs k = Some v \<and> avro_admits names t v"
      by (smt (verit, ccfv_threshold) case_prodD subset_trans)
  qed
  show ?case
  proof (cases "c \<in> set d")
    case True
    with 13(2) have t: "t = Av_ref (struct_name env c)" "d' = d" by auto
    with True 13(3) closed obtain fs m e e' where "names (struct_name env c) = Some fs"
      "avro_fields env m (struct_fields env c) e = Some (fs, e')" "set e' \<subseteq> D"
      unfolding names_closed_def by blast
    then show ?thesis unfolding t by (intro admits_ref rec)
  next
    case False
    with 13(2) obtain n' fs where "t = Av_record (struct_name env c) fs"
      "avro_fields env n' (struct_fields env c) (d @ [c]) = Some (fs, d')"
      by (auto split: option.splits nat.splits)
    then show ?thesis using rec 13(3) by simp
  qed
qed (auto intro: avro_admits.intros simp: av_null_def)

lemma new_records_closed:
  assumes "inj (struct_name env)" and t: "avro_type_for env n a [] = Some (t, d')"
  shows "names_closed env (map_of (record_defs t)) (set d')"
  unfolding names_closed_def
proof
  fix c assume c: "c \<in> set d'"
  have "map fst (record_defs t) = map (struct_name env) d'"
    using generation_records(1) [OF assms(1) t] by (auto simp: new_records_def)
  with c have "struct_name env c \<in> fst ` set (record_defs t)" by (metis image_eqI list.set_map)
  then obtain fs where fs: "map_of (record_defs t) (struct_name env c) = Some fs"
    by (metis map_of_eq_None_iff not_None_eq)
  then have "generated env (set d') (struct_name env c, fs)"
    using generation_defs(1) [OF t, of "set d'"] map_of_SomeD by fastforce
  then obtain c' m e e' where "struct_name env c = struct_name env c'"
    "avro_fields env m (struct_fields env c') e = Some (fs, e')" "set e' \<subseteq> set d'"
    unfolding generated_def by auto
  moreover from this(1) have "c = c'" by (rule injD [OF assms(1)])
  ultimately show "\<exists>fs m e e'. map_of (record_defs t) (struct_name env c) = Some fs \<and>
      avro_fields env m (struct_fields env c) e = Some (fs, e') \<and> set e' \<subseteq> set d'"
    using fs by blast
qed

lemma generation_mono:
  "avro_type_for env n a d = Some r \<Longrightarrow> n \<le> m \<Longrightarrow> avro_type_for env m a d = Some r"
  "union_branches env n ms bs d = Some r' \<Longrightarrow> n \<le> m \<Longrightarrow> union_branches env m ms bs d = Some r'"
  "avro_fields env n fs d = Some r'' \<Longrightarrow> n \<le> m \<Longrightarrow> avro_fields env m fs d = Some r''"
proof (induction env n a d and env n ms bs d and env n fs d
    arbitrary: r m and r' m and r'' m
    rule: avro_type_for_union_branches_avro_fields.induct)
  case (19 env n c d)
  show ?case
  proof (cases "c \<in> set d")
    case True
    with 19 show ?thesis by auto
  next
    case False
    with "19.prems"(1) obtain n' fs d' where n': "n = Suc n'" "r = (Av_record (struct_name env c) fs, d')"
      "avro_fields env n' (struct_fields env c) (d @ [c]) = Some (fs, d')"
      by (auto split: option.splits nat.splits)
    moreover from n'(1) "19.prems"(2) obtain m' where "m = Suc m'" "n' \<le> m'" by (cases m) auto
    ultimately show ?thesis using "19.IH" [OF False n'(1) n'(3)] False by auto
  qed
next
  case (1 env n ms d r m)
  define B where "B = (if A_none \<in> set ms then [av_null] else [])"
  from "1.prems"(1) have "(case union_branches env n ms B d of None \<Rightarrow> None
      | Some (bs, d') \<Rightarrow> Some (union_result bs, d')) = Some r"
    by (simp only: avro_type_for.simps B_def)
  then obtain x where x: "union_branches env n ms B d = Some x"
    by (cases "union_branches env n ms B d") auto
  with "1.prems"(1) "1.IH" [OF x [unfolded B_def] "1.prems"(2)] show ?case
    by (simp only: avro_type_for.simps B_def)
next
  case (23 env n m ms bs d r k)
  show ?case
  proof (cases "m = A_none")
    case True
    from "23.prems"(1) have "union_branches env n ms bs d = Some r" by (simp only: union_branches.simps True if_True refl)
    from "23.IH"(1) [OF True this "23.prems"(2)] show ?thesis
      by (simp only: union_branches.simps True if_True refl)
  next
    case False
    from "23.prems"(1) False obtain x where x: "avro_type_for env n m d = Some x"
      by (cases "avro_type_for env n m d") simp_all
    obtain t d1 where [simp]: "x = (t, d1)" by (cases x)
    from "23.prems"(1) False x
    have u: "union_branches env n ms (if t \<in> set bs then bs else bs @ [t]) d1 = Some r"
      by (simp only: union_branches.simps if_False option.case prod.case \<open>x = (t, d1)\<close>)
    from x have t: "avro_type_for env n m d = Some (t, d1)" by simp
    show ?thesis
      using "23.IH"(2) [OF False t "23.prems"(2)] "23.IH"(3) [OF False t refl u "23.prems"(2)] False
      by (simp only: union_branches.simps if_False option.case prod.case)
  qed
next
  case (25 env n nm a df fs d r k)
  from "25.prems"(1) obtain t d1 rest d2 where t: "avro_type_for env n a d = Some (t, d1)"
    and u: "avro_fields env n fs d1 = Some (rest, d2)" "r = ((nm, t, avro_default_for df t) # rest, d2)"
    by (auto split: option.splits)
  show ?case
    using "25.IH"(1) [OF t "25.prems"(2)] "25.IH"(2) [OF t refl u(1) "25.prems"(2)]
    by (simp add: u(2))
next
  case (14 env n a as d r k)
  from "14.prems"(1) obtain t d1 where "avro_type_for env n a d = Some (t, d1)" "r = (Av_array t, d1)"
    by (auto split: option.splits)
  then show ?case using "14.IH" [of "(t, d1)"] "14.prems"(2) by simp
next
  case (15 env n ka a d r k)
  from "15.prems"(1) obtain t d1 where "avro_type_for env n a d = Some (t, d1)" "r = (Av_map t, d1)"
    by (auto split: option.splits)
  then show ?case using "15.IH" [of "(t, d1)"] "15.prems"(2) by simp
qed simp_all

text \<open>
  A field whose type admits \<open>None\<close> and another member is a union that starts with \<open>null\<close>, and
  its default is \<open>null\<close> whatever the class declares.
\<close>

lemma union_branches_head:
  "union_branches env n ms bs d = Some (bs', d') \<Longrightarrow> bs \<noteq> [] \<Longrightarrow> hd bs' = hd bs \<and> bs' \<noteq> []"
  by (induction ms arbitrary: bs d) (fastforce split: if_splits option.splits)+

lemma optional_field_schema:
  assumes "avro_type_for env n (A_union ms) d = Some (t, d')" and "A_none \<in> set ms"
  shows "null_first t \<or> t = av_null"
proof -
  from assms obtain bs where "union_branches env n ms [av_null] d = Some (bs, d')" and t: "t = union_result bs"
    by (auto split: option.splits)
  then obtain rest where "bs = av_null # rest" using union_branches_head by (cases bs) fastforce+
  then show ?thesis by (cases rest) (simp_all add: t union_result_def)
qed

lemma null_first_default: "null_first t \<Longrightarrow> avro_default_for df t = Some JNull"
  by (simp add: avro_default_for_def)

text \<open>
  Enumerations are not entered in \<open>defined\<close>: two fields of the same enumeration define it twice.
\<close>

lemma enum_defined_twice:
  "avro_fields env n [(f, A_enum e ss, p), (g, A_enum e ss, q)] d =
     Some ([(f, Av_enum e ss, avro_default_for p (Av_enum e ss)), (g, Av_enum e ss, avro_default_for q (Av_enum e ss))], d)"
  by simp

section \<open>Properties\<close>

text \<open>Building the schema of a class always ends, recursive classes included: with finitely
  many classes, as much fuel as there are classes gives a schema, more fuel changes nothing, and
  no record is defined twice (later uses are references).\<close>
theorem avro_schema_exists:
  assumes "finite C" and "env_closed env C" and "c \<in> C"
  shows "\<exists>t. (\<forall>n \<ge> card C. convert_struct_to_avro env n c = Some t) \<and>
    (inj (struct_name env) \<longrightarrow> distinct (map fst (record_defs t)))"
proof -
  have "avro_type_for env (card C) (A_struct c) [] \<noteq> None"
    by (rule generation_terminates(1) [OF assms(2,1)]) (use assms(3) in simp_all)
  then obtain t d where t: "avro_type_for env (card C) (A_struct c) [] = Some (t, d)" by auto
  have "convert_struct_to_avro env n c = Some t" if "card C \<le> n" for n
    using generation_mono(1) [OF t that] by (simp only: convert_struct_to_avro_def option.case prod.case)
  moreover have "distinct (map fst (record_defs t))" if "inj (struct_name env)"
    using generation_records(1) [OF that t] that by (auto simp: new_records_def distinct_map inj_on_def inj_def)
  ultimately show ?thesis by blast
qed


text \<open>A recursive class with an owner of another class.\<close>

definition demo_env :: "bool struct_env" where
  "demo_env b = (if b then (''Owner'', [(''name'', A_str, No_default)])
     else (''Node'', [(''value'', A_int, Scalar_default (JInt 0)),
       (''after'', A_union [A_struct False, A_none], Scalar_default JNull),
       (''owner'', A_struct True, No_default)]))"

definition demo_node :: "py_data \<Rightarrow> py_data" where
  "demo_node after = P_dict [(''value'', P_int 5), (''after'', after),
     (''owner'', P_dict [(''name'', P_str ''o'')])]"

lemma demo_env_facts: "inj (struct_name demo_env)" "env_closed demo_env UNIV"
  by (auto simp: inj_def struct_name_def demo_env_def env_closed_def)

lemma demo_node_data:
  assumes "data_of demo_env (A_union [A_struct False, A_none]) v"
  shows "data_of demo_env (A_struct False) (demo_node v)"
proof -
  have "data_of demo_env (A_struct True) (P_dict [(''name'', P_str ''o'')])"
    by (rule data_of.intros) (auto simp: struct_fields_def demo_env_def intro: data_of.intros)
  with assms show ?thesis
    unfolding demo_node_def
    by (intro data_of.intros) (auto simp: struct_fields_def demo_env_def intro: data_of.intros(3))
qed

theorem avro_schema_exists_witness:
  "\<exists>t. convert_struct_to_avro demo_env 2 False = Some t \<and> convert_struct_to_avro demo_env 9 False = Some t \<and>
     distinct (map fst (record_defs t))"
proof -
  obtain t where t: "\<forall>n \<ge> card (UNIV :: bool set). convert_struct_to_avro demo_env n False = Some t"
    "inj (struct_name demo_env) \<longrightarrow> distinct (map fst (record_defs t))"
    using avro_schema_exists [OF finite [of "UNIV :: bool set"] demo_env_facts(2) UNIV_I [of False]] by blast
  then show ?thesis using demo_env_facts(1) by (auto simp: card_UNIV_bool)
qed

definition demo_schema :: avro where
  "demo_schema = the (convert_struct_to_avro demo_env 2 False)"


end
