(* ===== verification/Schema_Registry.thy ===== *)
theory Schema_Registry
  imports Avro_Schema
begin

text \<open>
  The client of the Confluent Schema Registry and the Avro encoder on top of it:
  \<open>SchemaRegistryClient\<close>, \<open>FastavroSerializer\<close> and \<open>SchemaRegistryEncoder\<close>
  (\<open>foundation/messaging/kafka/sr/schema_registry_fast.py\<close>). The registry is an external
  service: \<open>srv\<close> answers a request and moves the remote state, which the model threads through.
  \<open>fastavro\<close> is a pair of parameters, \<open>fa_write\<close> and \<open>fa_read\<close>; \<open>json.dumps(schema,
  sort_keys=True)\<close> is the parameter \<open>dump\<close>; \<open>datetime.fromisoformat\<close> is \<open>fromiso\<close>. Log lines
  and the HTTP client's options are left out.
\<close>

section \<open>SchemaRegistryClient\<close>

datatype sr_request =
    Post_version string avro
  | Get_schema int
  | Get_latest string
  | Get_subjects
  | Delete_subject string bool

datatype sr_response =
    R_id int
  | R_schema avro
  | R_latest int avro
  | R_subjects "string list"
  | R_versions "int list"

text \<open>\<open>httpx.RequestError\<close>, a status that is not 2xx, or a JSON body.\<close>

datatype http_outcome = Http_request_error | Http_status int | Http_ok sr_response

type_synonym 'r registry_service = "sr_request \<Rightarrow> 'r \<Rightarrow> http_outcome \<times> 'r"

record 'r sr_state =
  sr_schema_by_id :: "int \<rightharpoonup> avro"
  sr_id_by_subject :: "string \<rightharpoonup> int"
  sr_schema_id_cache :: "string \<rightharpoonup> int"
  sr_avro_schemas :: "string \<rightharpoonup> avro"
  sr_schemas_by_event :: "string \<times> string \<rightharpoonup> avro"
  sr_remote :: 'r

text \<open>\<open>_request\<close>\<close>

definition sr_do :: "'r registry_service \<Rightarrow> sr_request \<Rightarrow> ('r sr_state, sr_response) eff" where
  "sr_do srv rq s = (case srv rq (sr_remote s) of
       (Http_request_error, r) \<Rightarrow> (Inl (SchemaRegistryError 0), s\<lparr>sr_remote := r\<rparr>)
     | (Http_status n, r) \<Rightarrow> (Inl (SchemaRegistryError n), s\<lparr>sr_remote := r\<rparr>)
     | (Http_ok x, r) \<Rightarrow> (Inr x, s\<lparr>sr_remote := r\<rparr>))"

text \<open>\<open>f'{subject}:{json.dumps(schema, sort_keys=True)}'\<close>\<close>

definition sr_cache_key :: "(avro \<Rightarrow> string) \<Rightarrow> string \<Rightarrow> avro \<Rightarrow> string" where
  "sr_cache_key dump subject schema = subject @ '':'' @ dump schema"

definition sr_register_schema ::
  "(avro \<Rightarrow> string) \<Rightarrow> 'r registry_service \<Rightarrow> string \<Rightarrow> avro \<Rightarrow> ('r sr_state, int) eff" where
  "sr_register_schema dump srv subject schema s =
     (let key = sr_cache_key dump subject schema in
      case sr_id_by_subject s key of
        Some i \<Rightarrow> (Inr i, s)
      | None \<Rightarrow> (case sr_do srv (Post_version subject schema) s of
            (Inl e, s') \<Rightarrow> (Inl e, s')
          | (Inr (R_id i), s') \<Rightarrow> (Inr i, s'\<lparr>sr_schema_by_id := (sr_schema_by_id s')(i \<mapsto> schema),
                sr_id_by_subject := (sr_id_by_subject s')(key \<mapsto> i)\<rparr>)
          | (Inr _, s') \<Rightarrow> (Inl (KeyError ''id''), s')))"

text \<open>\<open>except SchemaRegistryError as exc: if exc.status_code == 404: raise SchemaNotFoundError\<close>\<close>

definition sr_not_found :: "string \<Rightarrow> py_exn \<Rightarrow> py_exn" where
  "sr_not_found what e = (if e = SchemaRegistryError 404 then SchemaNotFoundError what else e)"

definition sr_get_schema_by_id :: "'r registry_service \<Rightarrow> int \<Rightarrow> ('r sr_state, avro) eff" where
  "sr_get_schema_by_id srv i s = (case sr_schema_by_id s i of
       Some t \<Rightarrow> (Inr t, s)
     | None \<Rightarrow> (case sr_do srv (Get_schema i) s of
           (Inl e, s') \<Rightarrow> (Inl (sr_not_found ''id'' e), s')
         | (Inr (R_schema t), s') \<Rightarrow> (Inr t, s'\<lparr>sr_schema_by_id := (sr_schema_by_id s')(i \<mapsto> t)\<rparr>)
         | (Inr _, s') \<Rightarrow> (Inl (KeyError ''schema''), s')))"

definition sr_get_latest_schema :: "'r registry_service \<Rightarrow> string \<Rightarrow> ('r sr_state, int \<times> avro) eff" where
  "sr_get_latest_schema srv subject s = (case sr_do srv (Get_latest subject) s of
       (Inl e, s') \<Rightarrow> (Inl (sr_not_found subject e), s')
     | (Inr (R_latest i t), s') \<Rightarrow> (Inr (i, t), s'\<lparr>sr_schema_by_id := (sr_schema_by_id s')(i \<mapsto> t)\<rparr>)
     | (Inr _, s') \<Rightarrow> (Inl (KeyError ''id''), s'))"

definition sr_subject_exists :: "'r registry_service \<Rightarrow> string \<Rightarrow> ('r sr_state, bool) eff" where
  "sr_subject_exists srv subject s = (case sr_do srv (Get_latest subject) s of
       (Inl e, s') \<Rightarrow> if e = SchemaRegistryError 404 then (Inr False, s') else (Inl e, s')
     | (Inr _, s') \<Rightarrow> (Inr True, s'))"

definition sr_list_subjects :: "'r registry_service \<Rightarrow> ('r sr_state, sr_response) eff" where
  "sr_list_subjects srv = sr_do srv Get_subjects"

text \<open>\<open>self._id_by_subject.pop(subject, None)\<close>: the key is the subject alone.\<close>

definition sr_delete_subject :: "'r registry_service \<Rightarrow> string \<Rightarrow> bool \<Rightarrow> ('r sr_state, sr_response) eff" where
  "sr_delete_subject srv subject permanent s = (case sr_do srv (Delete_subject subject permanent) s of
       (Inl e, s') \<Rightarrow> (Inl e, s')
     | (Inr x, s') \<Rightarrow> (Inr x, s'\<lparr>sr_id_by_subject := (sr_id_by_subject s')(subject := None)\<rparr>))"

section \<open>FastavroSerializer\<close>

definition sr_get_or_register ::
  "(avro \<Rightarrow> string) \<Rightarrow> 'r registry_service \<Rightarrow> string \<Rightarrow> avro \<Rightarrow> ('r sr_state, int) eff" where
  "sr_get_or_register dump srv subject schema s =
     (let fingerprint = sr_cache_key dump subject schema in
      case sr_schema_id_cache s fingerprint of
        Some i \<Rightarrow> (Inr i, s)
      | None \<Rightarrow> (case sr_register_schema dump srv subject schema s of
            (Inl e, s') \<Rightarrow> (Inl e, s')
          | (Inr i, s') \<Rightarrow> (Inr i, s'\<lparr>sr_schema_id_cache := (sr_schema_id_cache s')(fingerprint \<mapsto> i)\<rparr>)))"

text \<open>\<open>f'{topic}-{record_name or self.subject_suffix}'\<close> with the suffix \<open>value\<close>\<close>

definition sr_subject :: "string \<Rightarrow> string option \<Rightarrow> string" where
  "sr_subject topic record_name = topic @ ''-'' @ or_str record_name ''value''"

type_synonym fa_writer = "avro \<Rightarrow> py_data \<Rightarrow> py_exn + bytes"
type_synonym fa_reader = "avro \<Rightarrow> bytes \<Rightarrow> py_exn + py_data"

definition sr_serialize ::
  "(avro \<Rightarrow> string) \<Rightarrow> fa_writer \<Rightarrow> 'r registry_service \<Rightarrow> string \<Rightarrow> py_data \<Rightarrow> avro \<Rightarrow> string option \<Rightarrow>
   ('r sr_state, bytes) eff" where
  "sr_serialize dump fa_write srv topic data schema record_name =
     eff_bind (sr_get_or_register dump srv (sr_subject topic record_name) schema) (\<lambda>schema_id s.
       case fa_write schema data of
         Inl e \<Rightarrow> (Inl e, s)
       | Inr payload \<Rightarrow> (wire_encode schema_id payload, s))"

definition sr_deserialize :: "fa_reader \<Rightarrow> 'r registry_service \<Rightarrow> bytes \<Rightarrow> ('r sr_state, py_data) eff" where
  "sr_deserialize fa_read srv bs s = (case wire_decode bs of
       Inl e \<Rightarrow> (Inl e, s)
     | Inr (schema_id, payload) \<Rightarrow> (case sr_get_schema_by_id srv schema_id s of
           (Inl e, s') \<Rightarrow> (Inl e, s')
         | (Inr schema, s') \<Rightarrow> (fa_read schema payload, s')))"

section \<open>SchemaRegistryEncoder\<close>

fun avro_record_fields :: "avro \<Rightarrow> avro_field list" where
  "avro_record_fields (Av_record n fs) = fs"
| "avro_record_fields _ = []"

fun avro_record_name :: "avro \<Rightarrow> string option" where
  "avro_record_name (Av_record n fs) = Some n"
| "avro_record_name _ = None"

text \<open>\<open>_assert_no_field_loss\<close>: the dropped fields are sorted in the message only.\<close>

fun assert_no_field_loss :: "py_data \<Rightarrow> avro \<Rightarrow> py_exn + unit" where
  "assert_no_field_loss (P_dict kvs) schema =
     (let dropped = filter (\<lambda>k. k \<notin> fst ` set (avro_record_fields schema)) (map fst kvs) in
      if dropped = [] then Inr () else Inl (AvroFieldLossError dropped))"
| "assert_no_field_loss _ schema = Inr ()"

text \<open>\<open>value.replace('Z', '+00:00')\<close>\<close>

definition replace_Z :: "string \<Rightarrow> string" where
  "replace_Z s = concat (map (\<lambda>c. if c = CHR ''Z'' then ''+00:00'' else [c]) s)"

text \<open>\<open>ftype.get('logicalType', '') if isinstance(ftype, dict)\<close>: a union is a list, not a dict.\<close>

fun is_timestamp_type :: "avro \<Rightarrow> bool" where
  "is_timestamp_type (Av_logical t l) \<longleftrightarrow> l = ''timestamp-millis'' \<or> l = ''timestamp-micros''"
| "is_timestamp_type _ \<longleftrightarrow> False"

fun prepare_value :: "(string \<Rightarrow> int option) \<Rightarrow> avro option \<Rightarrow> py_data \<Rightarrow> py_data" where
  "prepare_value fromiso (Some t) (P_str s) =
     (if is_timestamp_type t then
        (case fromiso (replace_Z s) of Some d \<Rightarrow> P_datetime d | None \<Rightarrow> P_str s)
      else P_str s)"
| "prepare_value fromiso _ v = v"

text \<open>The last definition of a field name wins in \<open>field_defs\<close>.\<close>

definition avro_field_type :: "avro \<Rightarrow> string \<Rightarrow> avro option" where
  "avro_field_type schema k = map_option fst (map_of (rev (avro_record_fields schema)) k)"

fun prepare_for_avro :: "(string \<Rightarrow> int option) \<Rightarrow> py_data \<Rightarrow> avro \<Rightarrow> py_exn + py_data" where
  "prepare_for_avro fromiso (P_dict kvs) schema =
     Inr (P_dict (map (\<lambda>(k, v). (k, prepare_value fromiso (avro_field_type schema k) v)) kvs))"
| "prepare_for_avro fromiso _ schema = Inl (AttributeError ''items'')"

definition sr_register_topic_schema :: "string \<Rightarrow> avro \<Rightarrow> string option \<Rightarrow> 'r sr_state \<Rightarrow> 'r sr_state" where
  "sr_register_topic_schema topic schema event_type s =
     (let s' = (if str_truthy event_type
          then s\<lparr>sr_schemas_by_event := (sr_schemas_by_event s)((topic, the event_type) \<mapsto> schema)\<rparr> else s)
      in if sr_avro_schemas s' topic = None
         then s'\<lparr>sr_avro_schemas := (sr_avro_schemas s')(topic \<mapsto> schema)\<rparr> else s')"

definition sr_topic_schema :: "string \<Rightarrow> 'r sr_state \<Rightarrow> py_exn + avro" where
  "sr_topic_schema topic s = (case sr_avro_schemas s topic of
       None \<Rightarrow> Inl (ValueError topic) | Some t \<Rightarrow> Inr t)"

text \<open>
  \<open>_get_schema\<close>. An event type that is no string never matches a key; a list or a dict cannot be
  hashed.
\<close>

fun sr_get_schema :: "string \<Rightarrow> py_data option \<Rightarrow> 'r sr_state \<Rightarrow> py_exn + avro" where
  "sr_get_schema topic (Some (P_str ev)) s = (case sr_schemas_by_event s (topic, ev) of
       Some t \<Rightarrow> Inr t | None \<Rightarrow> sr_topic_schema topic s)"
| "sr_get_schema topic (Some (P_list vs)) s = Inl (TypeError ''unhashable'')"
| "sr_get_schema topic (Some (P_dict kvs)) s = Inl (TypeError ''unhashable'')"
| "sr_get_schema topic ev s = sr_topic_schema topic s"

fun data_event_type :: "py_data \<Rightarrow> py_data option" where
  "data_event_type (P_dict kvs) = map_of kvs ''event_type''"
| "data_event_type _ = None"

definition sr_encode_event ::
  "(avro \<Rightarrow> string) \<Rightarrow> fa_writer \<Rightarrow> (string \<Rightarrow> int option) \<Rightarrow> 'r registry_service \<Rightarrow>
   string \<Rightarrow> py_data \<Rightarrow> ('r sr_state, bytes) eff" where
  "sr_encode_event dump fa_write fromiso srv topic data s =
     (case sr_get_schema topic (data_event_type data) s of
        Inl e \<Rightarrow> (Inl e, s)
      | Inr schema \<Rightarrow> (case assert_no_field_loss data schema of
            Inl e \<Rightarrow> (Inl e, s)
          | Inr _ \<Rightarrow> (case prepare_for_avro fromiso data schema of
                Inl e \<Rightarrow> (Inl e, s)
              | Inr prepared \<Rightarrow>
                  sr_serialize dump fa_write srv topic prepared schema (avro_record_name schema) s)))"

definition sr_decode :: "fa_reader \<Rightarrow> 'r registry_service \<Rightarrow> string \<Rightarrow> bytes \<Rightarrow> ('r sr_state, py_data) eff" where
  "sr_decode fa_read srv topic bs = sr_deserialize fa_read srv bs"

section \<open>The registry and the caches\<close>

text \<open>
  What the client relies on in the registry, \<open>ids r\<close> being the schemas it holds: a lookup by
  identifier answers with that schema or 404, the answer to a registration is an identifier of
  the schema, and only a permanent delete makes an identifier disappear.
\<close>

definition registry_laws :: "'r registry_service \<Rightarrow> ('r \<Rightarrow> int \<rightharpoonup> avro) \<Rightarrow> bool" where
  "registry_laws srv ids \<longleftrightarrow>
     (\<forall>i r. fst (srv (Get_schema i) r) = (case ids r i of Some t \<Rightarrow> Http_ok (R_schema t) | None \<Rightarrow> Http_status 404)) \<and>
     (\<forall>subject t r i. fst (srv (Post_version subject t) r) = Http_ok (R_id i) \<longrightarrow>
        ids (snd (srv (Post_version subject t) r)) i = Some t) \<and>
     (\<forall>subject r i t. fst (srv (Get_latest subject) r) = Http_ok (R_latest i t) \<longrightarrow>
        ids (snd (srv (Get_latest subject) r)) i = Some t) \<and>
     (\<forall>rq r. (\<nexists>subject. rq = Delete_subject subject True) \<longrightarrow> ids r \<subseteq>\<^sub>m ids (snd (srv rq r)))"

text \<open>
  \<open>json.dumps\<close> tells the schemas in use apart and writes an object; a subject is made of the
  characters of a topic and a class name.
\<close>

definition dump_ok :: "(avro \<Rightarrow> string) \<Rightarrow> avro set \<Rightarrow> bool" where
  "dump_ok dump S \<longleftrightarrow> inj_on dump S \<and> (\<forall>t \<in> S. \<exists>u. dump t = CHR ''{'' # u)"

definition plain_subject :: "string \<Rightarrow> bool" where
  "plain_subject s \<longleftrightarrow> CHR ''{'' \<notin> set s"

lemma sr_cache_key_inj:
  assumes "dump_ok dump S" "t \<in> S" "t' \<in> S" "plain_subject s" "plain_subject s'"
    and "sr_cache_key dump s t = sr_cache_key dump s' t'"
  shows "t = t'"
proof -
  have tw: "dropWhile (\<lambda>c. c \<noteq> CHR ''{'') (sr_cache_key dump x u) = dump u"
    if "u \<in> S" "plain_subject x" for x u
  proof -
    from assms(1) have "\<forall>t \<in> S. \<exists>u. dump t = CHR ''{'' # u" unfolding dump_ok_def by (rule conjunct2)
    from bspec [OF this that(1)] obtain v where "dump u = CHR ''{'' # v" by (rule exE)
    moreover have "dropWhile (\<lambda>c. c \<noteq> CHR ''{'') ((x @ '':'') @ dump u) = dropWhile (\<lambda>c. c \<noteq> CHR ''{'') (dump u)"
      by (rule dropWhile_append2) (use that(2) in \<open>auto simp: plain_subject_def\<close>)
    ultimately show ?thesis by (simp add: sr_cache_key_def)
  qed
  have "dump t = dump t'" using tw [OF assms(2,4)] tw [OF assms(3,5)] assms(6) by simp
  then show ?thesis using assms(1-3) by (auto simp: dump_ok_def inj_on_def)
qed

text \<open>Every cached identifier is one the registry holds, of the cached schema.\<close>

definition sr_inv :: "(avro \<Rightarrow> string) \<Rightarrow> ('r \<Rightarrow> int \<rightharpoonup> avro) \<Rightarrow> avro set \<Rightarrow> 'r sr_state \<Rightarrow> bool" where
  "sr_inv dump ids S s \<longleftrightarrow> sr_schema_by_id s \<subseteq>\<^sub>m ids (sr_remote s) \<and>
     (\<forall>subject t i. plain_subject subject \<longrightarrow> t \<in> S \<longrightarrow>
        sr_id_by_subject s (sr_cache_key dump subject t) = Some i \<or>
        sr_schema_id_cache s (sr_cache_key dump subject t) = Some i \<longrightarrow> ids (sr_remote s) i = Some t)"

lemma sr_invD:
  assumes "sr_inv dump ids S s"
  shows "sr_schema_by_id s i = Some t \<Longrightarrow> ids (sr_remote s) i = Some t"
    and "plain_subject x \<Longrightarrow> t \<in> S \<Longrightarrow> sr_id_by_subject s (sr_cache_key dump x t) = Some i \<Longrightarrow>
      ids (sr_remote s) i = Some t"
    and "plain_subject x \<Longrightarrow> t \<in> S \<Longrightarrow> sr_schema_id_cache s (sr_cache_key dump x t) = Some i \<Longrightarrow>
      ids (sr_remote s) i = Some t"
  using assms by (auto simp: sr_inv_def map_le_def dom_def)

lemma sr_inv_remote:
  assumes "sr_inv dump ids S s" and "ids (sr_remote s) \<subseteq>\<^sub>m ids r"
  shows "sr_inv dump ids S (s\<lparr>sr_remote := r\<rparr>)"
  using assms map_le_trans unfolding sr_inv_def by (force simp: map_le_def dom_def)

lemma sr_do_state: "snd (sr_do srv rq s) = s\<lparr>sr_remote := snd (srv rq (sr_remote s))\<rparr>"
  by (auto simp: sr_do_def split: prod.splits http_outcome.splits)

lemma sr_do_Inr: "sr_do srv rq s = (Inr x, s') \<Longrightarrow> fst (srv rq (sr_remote s)) = Http_ok x"
  by (auto simp: sr_do_def split: prod.splits http_outcome.splits)

lemma sr_do_inv:
  assumes "registry_laws srv ids" "sr_inv dump ids S s" "\<nexists>subject. rq = Delete_subject subject True"
    and "sr_do srv rq s = (r, s')"
  shows "sr_inv dump ids S s' \<and> ids (sr_remote s) \<subseteq>\<^sub>m ids (sr_remote s') \<and>
    sr_remote s' = snd (srv rq (sr_remote s))"
proof -
  have "s' = s\<lparr>sr_remote := snd (srv rq (sr_remote s))\<rparr>" using sr_do_state [of srv rq s] assms(4) by simp
  moreover have "ids (sr_remote s) \<subseteq>\<^sub>m ids (snd (srv rq (sr_remote s)))"
    using assms(1,3) unfolding registry_laws_def by blast
  ultimately show ?thesis using sr_inv_remote [OF assms(2)] by simp
qed

lemma sr_register_schema_ok:
  assumes laws: "registry_laws srv ids" and inv: "sr_inv dump ids S s" and dump: "dump_ok dump S"
    and sub: "plain_subject subject" "t \<in> S"
    and run: "sr_register_schema dump srv subject t s = (r, s')"
  shows "sr_inv dump ids S s' \<and> ids (sr_remote s) \<subseteq>\<^sub>m ids (sr_remote s') \<and>
    (\<forall>i. r = Inr i \<longrightarrow> ids (sr_remote s') i = Some t)"
proof (cases "sr_id_by_subject s (sr_cache_key dump subject t)")
  case (Some i)
  with run inv sr_invD(2) [OF inv sub] show ?thesis by (auto simp: sr_register_schema_def Let_def)
next
  case None
  obtain q s1 where q: "sr_do srv (Post_version subject t) s = (q, s1)" by fastforce
  have 1: "sr_inv dump ids S s1" "ids (sr_remote s) \<subseteq>\<^sub>m ids (sr_remote s1)"
    "sr_remote s1 = snd (srv (Post_version subject t) (sr_remote s))"
    using sr_do_inv [OF laws inv _ q] by (simp, blast, blast)
  show ?thesis
  proof (cases "\<exists>i. q = Inr (R_id i)")
    case True
    then obtain i where i: "q = Inr (R_id i)" by blast
    then have it: "ids (sr_remote s1) i = Some t"
      using sr_do_Inr [of srv _ s] q 1(3) laws unfolding registry_laws_def by metis
    have s': "s' = s1\<lparr>sr_schema_by_id := (sr_schema_by_id s1)(i \<mapsto> t),
        sr_id_by_subject := (sr_id_by_subject s1)(sr_cache_key dump subject t \<mapsto> i)\<rparr>" and r: "r = Inr i"
      using run None q i by (auto simp: sr_register_schema_def Let_def)
    have "sr_inv dump ids S s'"
      unfolding sr_inv_def
    proof (intro conjI allI impI)
      show "sr_schema_by_id s' \<subseteq>\<^sub>m ids (sr_remote s')"
        using 1(1) it by (auto simp: s' sr_inv_def map_le_def)
    next
      fix x u j
      assume x: "plain_subject x" "u \<in> S"
        and j: "sr_id_by_subject s' (sr_cache_key dump x u) = Some j \<or> sr_schema_id_cache s' (sr_cache_key dump x u) = Some j"
      show "ids (sr_remote s') j = Some u"
      proof (cases "sr_cache_key dump x u = sr_cache_key dump subject t")
        case True
        then have "u = t" using sr_cache_key_inj [OF dump x(2) sub(2) x(1) sub(1)] by simp
        with True j it sr_invD(3) [OF 1(1) x] show ?thesis by (auto simp: s')
      next
        case False
        with j sr_invD(2,3) [OF 1(1) x] show ?thesis by (auto simp: s')
      qed
    qed
    with 1(2) it r show ?thesis by (simp add: s')
  next
    case False
    then have "s' = s1" "\<forall>i. r \<noteq> Inr i"
      using run None q by (auto simp: sr_register_schema_def Let_def split: sum.splits sr_response.splits)
    with 1 show ?thesis by simp
  qed
qed

lemma sr_get_or_register_ok:
  assumes laws: "registry_laws srv ids" and inv: "sr_inv dump ids S s" and dump: "dump_ok dump S"
    and sub: "plain_subject subject" "t \<in> S"
    and run: "sr_get_or_register dump srv subject t s = (r, s')"
  shows "sr_inv dump ids S s' \<and> ids (sr_remote s) \<subseteq>\<^sub>m ids (sr_remote s') \<and>
    (\<forall>i. r = Inr i \<longrightarrow> ids (sr_remote s') i = Some t)"
proof (cases "sr_schema_id_cache s (sr_cache_key dump subject t)")
  case (Some i)
  with run inv sr_invD(3) [OF inv sub] show ?thesis by (auto simp: sr_get_or_register_def Let_def)
next
  case None
  obtain q s1 where q: "sr_register_schema dump srv subject t s = (q, s1)" by fastforce
  note 1 = sr_register_schema_ok [OF laws inv dump sub q]
  show ?thesis
  proof (cases q)
    case (Inl e)
    with run None q 1 show ?thesis by (auto simp: sr_get_or_register_def Let_def)
  next
    case (Inr i)
    with run None q have s': "s' = s1\<lparr>sr_schema_id_cache := (sr_schema_id_cache s1)(sr_cache_key dump subject t \<mapsto> i)\<rparr>"
      and r: "r = Inr i" by (auto simp: sr_get_or_register_def Let_def)
    have it: "ids (sr_remote s1) i = Some t" using 1 Inr by simp
    have "sr_inv dump ids S s'"
      unfolding sr_inv_def
    proof (intro conjI allI impI)
      show "sr_schema_by_id s' \<subseteq>\<^sub>m ids (sr_remote s')" using 1 by (simp add: s' sr_inv_def)
    next
      fix x u j
      assume x: "plain_subject x" "u \<in> S"
        and j: "sr_id_by_subject s' (sr_cache_key dump x u) = Some j \<or> sr_schema_id_cache s' (sr_cache_key dump x u) = Some j"
      show "ids (sr_remote s') j = Some u"
      proof (cases "sr_cache_key dump x u = sr_cache_key dump subject t")
        case True
        then have "u = t" using sr_cache_key_inj [OF dump x(2) sub(2) x(1) sub(1)] by simp
        with True j it sr_invD(2) [OF conjunct1 [OF 1] x] show ?thesis by (auto simp: s')
      next
        case False
        with j sr_invD(2,3) [OF conjunct1 [OF 1] x] show ?thesis by (auto simp: s')
      qed
    qed
    with 1 it r show ?thesis by (simp add: s')
  qed
qed

lemma sr_get_schema_by_id_ok:
  assumes laws: "registry_laws srv ids" and inv: "sr_inv dump ids S s" and i: "ids (sr_remote s) i = Some t"
  shows "fst (sr_get_schema_by_id srv i s) = Inr t"
proof (cases "sr_schema_by_id s i")
  case None
  have "fst (srv (Get_schema i) (sr_remote s)) = Http_ok (R_schema t)"
    using laws i unfolding registry_laws_def by simp
  then obtain r where "srv (Get_schema i) (sr_remote s) = (Http_ok (R_schema t), r)"
    by (metis prod.collapse)
  with None show ?thesis by (simp add: sr_get_schema_by_id_def sr_do_def)
next
  case (Some u)
  with sr_invD(1) [OF inv Some] i show ?thesis by (simp add: sr_get_schema_by_id_def)
qed

lemma registered_lookup_other:
  "(topic, ev) \<noteq> (topic', ev') \<Longrightarrow> sr_schemas_by_event s (topic, ev) = Some t \<Longrightarrow>
   sr_schemas_by_event (sr_register_topic_schema topic' t' (Some ev') s) (topic, ev) = Some t"
  by (auto simp: sr_register_topic_schema_def Let_def)

lemma registered_lookup_same:
  "ev \<noteq> [] \<Longrightarrow> sr_schemas_by_event (sr_register_topic_schema topic t (Some ev) s) (topic, ev) = Some t"
  by (auto simp: sr_register_topic_schema_def Let_def str_truthy_def)

type_synonym registration = "string \<times> avro \<times> string"

definition sr_register_all :: "registration list \<Rightarrow> 'r sr_state \<Rightarrow> 'r sr_state" where
  "sr_register_all regs s = fold (\<lambda>(topic, t, ev). sr_register_topic_schema topic t (Some ev)) regs s"

lemma sr_register_all_keeps:
  "sr_schemas_by_event s (topic, ev) = Some t \<Longrightarrow> (topic, ev) \<notin> set (map (\<lambda>(tp, t, e). (tp, e)) regs) \<Longrightarrow>
   sr_schemas_by_event (sr_register_all regs s) (topic, ev) = Some t"
proof (induction regs arbitrary: s)
  case (Cons r regs)
  obtain tp u e where r: "r = (tp, u, e)" by (cases r)
  have "sr_schemas_by_event (sr_register_topic_schema tp u (Some e) s) (topic, ev) = Some t"
    using Cons.prems r by (intro registered_lookup_other) auto
  then have "sr_schemas_by_event (sr_register_all regs (sr_register_topic_schema tp u (Some e) s)) (topic, ev) = Some t"
    using Cons.prems by (intro Cons.IH) auto
  then show ?case by (simp add: sr_register_all_def r)
qed (simp add: sr_register_all_def)

lemma sr_register_all_exact:
  assumes "distinct (map (\<lambda>(tp, t, e). (tp, e)) regs)" and "(topic, t, ev) \<in> set regs" and "ev \<noteq> []"
  shows "sr_schemas_by_event (sr_register_all regs s) (topic, ev) = Some t"
  using assms(1,2)
proof (induction regs arbitrary: s)
  case (Cons r regs)
  obtain tp u e where r: "r = (tp, u, e)" by (cases r)
  have step: "sr_register_all (r # regs) s = sr_register_all regs (sr_register_topic_schema tp u (Some e) s)"
    by (simp add: sr_register_all_def r)
  show ?case
  proof (cases "(topic, t, ev) \<in> set regs")
    case True
    with Cons show ?thesis unfolding step by simp
  next
    case False
    with Cons.prems r have "tp = topic" "u = t" "e = ev" by auto
    moreover from this Cons.prems r have "(topic, ev) \<notin> set (map (\<lambda>(tp, t, e). (tp, e)) regs)" by auto
    ultimately show ?thesis
      unfolding step by (intro sr_register_all_keeps) (simp_all add: registered_lookup_same [OF assms(3)])
  qed
qed simp

lemma no_field_loss:
  "assert_no_field_loss (P_dict kvs) schema = Inr () \<longleftrightarrow> fst ` set kvs \<subseteq> fst ` set (avro_record_fields schema)"
  by (auto simp: Let_def filter_empty_conv)

section \<open>Properties\<close>

text \<open>Every event type keeps its own schema on a shared topic: after any registrations with
  distinct (topic, event type) pairs, an event of one of the types is encoded with the schema
  registered for it, and is refused with \<open>AvroFieldLossError\<close>, before anything is sent,
  when it carries a field the schema lacks.\<close>
theorem sr_schema_per_event:
  assumes "distinct (map (\<lambda>(tp, t, e). (tp, e)) regs)" and "(topic, t, ev) \<in> set regs" and "ev \<noteq> []"
    and "map_of kvs ''event_type'' = Some (P_str ev)"
  shows "sr_get_schema topic (data_event_type (P_dict kvs)) (sr_register_all regs s) = Inr t \<and>
    (\<not> fst ` set kvs \<subseteq> fst ` set (avro_record_fields t) \<longrightarrow>
      (\<exists>ks. sr_encode_event dump fa_write fromiso srv topic (P_dict kvs) (sr_register_all regs s) =
        (Inl (AvroFieldLossError ks), sr_register_all regs s)))"
proof -
  have 1: "sr_get_schema topic (data_event_type (P_dict kvs)) (sr_register_all regs s) = Inr t"
    using sr_register_all_exact [OF assms(1-3), of s] assms(4) by simp
  moreover have "\<exists>ks. sr_encode_event dump fa_write fromiso srv topic (P_dict kvs) (sr_register_all regs s) =
      (Inl (AvroFieldLossError ks), sr_register_all regs s)"
    if "\<not> fst ` set kvs \<subseteq> fst ` set (avro_record_fields t)"
  proof -
    from that obtain ks where "assert_no_field_loss (P_dict kvs) t = Inl (AvroFieldLossError ks)"
      using no_field_loss [of kvs t] by (auto simp: Let_def split: if_splits)
    with 1 show ?thesis by (auto simp: sr_encode_event_def)
  qed
  ultimately show ?thesis by blast
qed


text \<open>Deleting a subject does not forget it: the cache is keyed by subject and schema but
  \<open>delete_subject\<close> drops the entry of the subject alone, so registering the schema again after a
  delete returns the deleted identifier and sends nothing to the registry.\<close>
theorem sr_delete_leaves_stale_id:
  assumes "dump t \<noteq> []" and "sr_register_schema dump srv subject t s = (Inr i, s1)"
    and "sr_delete_subject srv subject permanent s1 = (Inr x, s2)"
  shows "sr_register_schema dump srv subject t s2 = (Inr i, s2)"
proof -
  let ?k = "sr_cache_key dump subject t"
  have "sr_id_by_subject s1 ?k = Some i"
    using assms(2) by (auto simp: sr_register_schema_def Let_def split: option.splits sum.splits prod.splits sr_response.splits)
  moreover have "?k \<noteq> subject" by (simp add: sr_cache_key_def)
  moreover have "sr_id_by_subject s2 = (sr_id_by_subject s1)(subject := None)"
    using assms(3) sr_do_state [of srv "Delete_subject subject permanent" s1]
    by (auto simp: sr_delete_subject_def split: prod.splits sum.splits)
  ultimately show ?thesis by (simp add: sr_register_schema_def Let_def)
qed

section \<open>Witnesses\<close>

text \<open>A registry that stores the schemas posted to it, and a writer that knows one event.\<close>

definition demo_event_schema :: avro where
  "demo_event_schema = Av_record ''Paid'' [(''event_type'', Av_prim ''string'', None),
     (''at'', Av_logical ''long'' ''timestamp-micros'', None)]"

definition demo_registry :: "avro list registry_service" where
  "demo_registry rq r = (case rq of
       Post_version subject t \<Rightarrow> (Http_ok (R_id (int (length r))), r @ [t])
     | Get_schema i \<Rightarrow> ((if 0 \<le> i \<and> nat i < length r then Http_ok (R_schema (r ! nat i)) else Http_status 404), r)
     | Get_latest subject \<Rightarrow> (Http_status 404, r)
     | Get_subjects \<Rightarrow> (Http_ok (R_subjects []), r)
     | Delete_subject subject permanent \<Rightarrow> (Http_ok (R_versions [1]), r))"

definition demo_ids :: "avro list \<Rightarrow> int \<rightharpoonup> avro" where
  "demo_ids r i = (if 0 \<le> i \<and> nat i < length r then Some (r ! nat i) else None)"

lemma demo_registry_laws: "registry_laws demo_registry demo_ids"
  by (auto simp: registry_laws_def demo_registry_def demo_ids_def map_le_def dom_def nth_append
      split: sr_request.splits)

definition demo_data :: py_data where
  "demo_data = P_dict [(''event_type'', P_str ''paid''), (''at'', P_str ''T'')]"

definition demo_fromiso :: "string \<Rightarrow> int option" where
  "demo_fromiso s = (if s = ''T'' then Some 7 else None)"

definition demo_write :: fa_writer where
  "demo_write t d = (if t = demo_event_schema \<and> d = P_dict [(''event_type'', P_str ''paid''), (''at'', P_datetime 7)]
     then Inr [1, 2] else Inl (UserError ''write''))"

definition demo_read :: fa_reader where
  "demo_read t p = (if t = demo_event_schema \<and> p = [1, 2]
     then Inr (P_dict [(''event_type'', P_str ''paid''), (''at'', P_datetime 7)]) else Inl (UserError ''read''))"

definition demo_sr :: "avro list sr_state" where
  "demo_sr = \<lparr>sr_schema_by_id = Map.empty, sr_id_by_subject = Map.empty, sr_schema_id_cache = Map.empty,
     sr_avro_schemas = Map.empty, sr_schemas_by_event = Map.empty, sr_remote = []\<rparr>"

definition demo_regs :: "registration list" where
  "demo_regs = [(''bank'', Av_record ''Opened'' [(''event_type'', Av_prim ''string'', None)], ''opened''),
     (''bank'', demo_event_schema, ''paid'')]"

definition demo_dump :: "avro \<Rightarrow> string" where
  "demo_dump t = ''{'' @ the (avro_record_name t) @ ''}''"

theorem sr_schema_per_event_witness:
  "sr_get_schema ''bank'' (data_event_type demo_data) (sr_register_all demo_regs demo_sr) = Inr demo_event_schema"
  using sr_schema_per_event [of demo_regs "''bank''" demo_event_schema "''paid''"
      "[(''event_type'', P_str ''paid''), (''at'', P_str ''T'')]" demo_sr]
  by (simp add: demo_regs_def demo_data_def)

abbreviation demo_encoded where
  "demo_encoded \<equiv> sr_encode_event demo_dump demo_write demo_fromiso demo_registry ''bank'' demo_data
     (sr_register_all demo_regs demo_sr)"

lemma demo_encoded_run:
  "demo_encoded = (Inr [0, 0, 0, 0, 0, 1, 2], snd demo_encoded)" "sr_remote (snd demo_encoded) = [demo_event_schema]"
  by (simp_all add: sr_encode_event_def sr_register_all_def demo_regs_def demo_sr_def demo_data_def
      sr_register_topic_schema_def str_truthy_def demo_event_schema_def sr_serialize_def eff_bind_def
      sr_get_or_register_def sr_register_schema_def sr_do_def demo_registry_def demo_write_def demo_fromiso_def
      replace_Z_def avro_field_type_def wire_encode_def struct_pack_bI_def magic_byte_def be32_bytes_def Let_def)


theorem sr_delete_leaves_stale_id_witness:
  "(let s1 = snd (sr_register_schema demo_dump demo_registry ''bank-Paid'' demo_event_schema demo_sr);
        s2 = snd (sr_delete_subject demo_registry ''bank-Paid'' False s1)
    in sr_register_schema demo_dump demo_registry ''bank-Paid'' demo_event_schema s2 = (Inr 0, s2))"
proof -
  define s1 where "s1 = snd (sr_register_schema demo_dump demo_registry ''bank-Paid'' demo_event_schema demo_sr)"
  have "sr_register_schema demo_dump demo_registry ''bank-Paid'' demo_event_schema demo_sr = (Inr 0, s1)"
    by (simp add: s1_def sr_register_schema_def sr_do_def demo_registry_def demo_sr_def Let_def)
  moreover have "sr_delete_subject demo_registry ''bank-Paid'' False s1 =
      (Inr (R_versions [1]), snd (sr_delete_subject demo_registry ''bank-Paid'' False s1))"
    by (simp add: sr_delete_subject_def sr_do_def demo_registry_def)
  ultimately show ?thesis
    unfolding Let_def s1_def [symmetric] by (rule sr_delete_leaves_stale_id [rotated]) (simp add: demo_dump_def)
qed

end
