(* ===== verification/Msg_Encoder.thy ===== *)
theory Msg_Encoder
  imports Avro_Schema
begin

text \<open>
  Encoding and decoding of messages: \<open>MsgEncoder\<close>
  (\<open>foundation/messaging/utils/msg_encoder.py\<close>) and the event classes it reads
  (\<open>foundation/messaging/types.py\<close>). The registry of serializer names is a class attribute of
  \<open>MsgEncoder\<close>, shared by every instance: it is an argument of its own. \<open>msgspec\<close>, \<open>json\<close>
  and \<open>datetime.fromisoformat\<close> are the fields of a record of parameters; the schema registry
  encoder is a pair of computations on a state of its own. Type hints that cannot be resolved,
  the cache of type hints and log lines are left out; class names are ASCII.
\<close>

section \<open>Event classes\<close>

text \<open>\<open>default_factory\<close> fields (\<open>generate_id\<close>, \<open>now_in_utc\<close>) take their value from \<open>fresh\<close>.\<close>

datatype field_init = Required | Default py_data | Factory

record 'c event_class =
  ec_name :: string
  ec_fields :: "(string \<times> 'c ann \<times> field_init) list"

type_synonym 'c class_table = "'c \<Rightarrow> 'c event_class"

text \<open>A class and the values of its fields in declaration order.\<close>

datatype 'c event = Event 'c "(string \<times> py_data) list"

text \<open>\<open>f'{cls.__name__.lower()}_serializer'\<close>\<close>

definition get_serializer_name :: "'c class_table \<Rightarrow> 'c \<Rightarrow> string" where
  "get_serializer_name tbl c = map ascii_lower (ec_name (tbl c)) @ ''_serializer''"

text \<open>
  \<open>event_cls(**kwargs)\<close>: a keyword-only struct refuses a missing required field, fills in the
  defaults, and \<open>__post_init__\<close> overwrites \<open>m_serializer\<close>.
\<close>

definition init_value :: "(string \<Rightarrow> py_data) \<Rightarrow> (string \<rightharpoonup> py_data) \<Rightarrow> string \<Rightarrow> field_init \<Rightarrow> py_data option" where
  "init_value fresh kw nm i = (case kw nm of
       Some v \<Rightarrow> Some v
     | None \<Rightarrow> (case i of Required \<Rightarrow> None | Default v \<Rightarrow> Some v | Factory \<Rightarrow> Some (fresh nm)))"

definition new_event ::
  "'c class_table \<Rightarrow> (string \<Rightarrow> py_data) \<Rightarrow> 'c \<Rightarrow> (string \<rightharpoonup> py_data) \<Rightarrow> py_exn + 'c event" where
  "new_event tbl fresh c kw =
     (if \<exists>(nm, a, i) \<in> set (ec_fields (tbl c)). init_value fresh kw nm i = None
      then Inl (TypeError ''missing argument'')
      else Inr (Event c (map (\<lambda>(nm, a, i). (nm,
        if nm = ''m_serializer'' then P_str (get_serializer_name tbl c)
        else the (init_value fresh kw nm i))) (ec_fields (tbl c)))))"

text \<open>\<open>msgspec.structs.asdict\<close>\<close>

fun event_as_dict :: "'c event \<Rightarrow> py_data" where
  "event_as_dict (Event c fs) = P_dict fs"

record dlq_event =
  dq_original_event :: py_data
  dq_error :: string
  dq_failed_at :: int
  dq_retry_count :: int
  dq_handler_name :: "string option"

definition dlq_event_post_init :: "dlq_event \<Rightarrow> py_exn + dlq_event" where
  "dlq_event_post_init e = (if dq_retry_count e < 0 then Inl (ValueError ''retry_count'') else Inr e)"

definition dlq_event_as_dict :: "(int \<Rightarrow> string) \<Rightarrow> dlq_event \<Rightarrow> py_data" where
  "dlq_event_as_dict isoformat e = P_dict
     [(''original_event'', dq_original_event e), (''error'', P_str (dq_error e)),
      (''failed_at'', P_str (isoformat (dq_failed_at e))), (''retry_count'', P_int (dq_retry_count e)),
      (''handler_name'', case dq_handler_name e of None \<Rightarrow> P_none | Some h \<Rightarrow> P_str h)]"

section \<open>The encoder\<close>

text \<open>The external codecs.\<close>

record codecs =
  cd_json_encode :: "py_data \<Rightarrow> py_exn + bytes"
  cd_json_decode :: "string \<Rightarrow> py_exn + py_data"
  cd_json_loads :: "string \<Rightarrow> py_exn + py_data"
  cd_msgpack_encode :: "py_data \<Rightarrow> py_exn + bytes"
  cd_msgpack_decode :: "bytes \<Rightarrow> py_exn + py_data"
  cd_utf8_decode :: "bytes \<Rightarrow> string option"
  cd_utf8_encode :: "string \<Rightarrow> bytes"
  cd_isoformat :: "int \<Rightarrow> string"
  cd_fromisoformat :: "string \<Rightarrow> int option"

record msg_encoder =
  me_fmt :: string
  me_field_fmt :: string

definition fmt_json :: string where "fmt_json = ''json''"
definition fmt_msgpack :: string where "fmt_msgpack = ''msgpack''"
definition fmt_protobuf :: string where "fmt_protobuf = ''protobuf''"
definition fmt_avro :: string where "fmt_avro = ''schema-registry-avro''"
definition field_fmt_na :: string where "field_fmt_na = ''n/a''"

lemmas fmt_defs = fmt_json_def fmt_msgpack_def fmt_protobuf_def fmt_avro_def field_fmt_na_def

definition msg_encoder_init ::
  "string option \<Rightarrow> string option \<Rightarrow> string option \<Rightarrow> string option \<Rightarrow> py_exn + msg_encoder" where
  "msg_encoder_init fmt field_fmt cfg_msg cfg_field =
     (let f = or_str fmt (or_str cfg_msg fmt_json) in
      if f = fmt_avro then
        (let ff = or_str field_fmt (or_str cfg_field fmt_json) in
         if ff = fmt_msgpack \<or> ff = fmt_json then Inr \<lparr>me_fmt = f, me_field_fmt = ff\<rparr>
         else Inl (ValueError ''field encoding''))
      else Inr \<lparr>me_fmt = f, me_field_fmt = field_fmt_na\<rparr>)"

type_synonym 'c serializers = "string \<rightharpoonup> 'c"

definition register_event_serializer ::
  "'c class_table \<Rightarrow> 'c \<Rightarrow> string option \<Rightarrow> 'c serializers \<Rightarrow> 'c serializers" where
  "register_event_serializer tbl c serializer reg =
     reg(or_str serializer (get_serializer_name tbl c) \<mapsto> c)"

text \<open>\<open>tp is datetime\<close>, or \<open>datetime\<close> among \<open>get_args(tp)\<close>, whatever \<open>tp\<close> is.\<close>

fun is_datetime_type :: "'c ann \<Rightarrow> bool" where
  "is_datetime_type A_datetime \<longleftrightarrow> True"
| "is_datetime_type (A_union as) \<longleftrightarrow> A_datetime \<in> set as"
| "is_datetime_type (A_seq as) \<longleftrightarrow> A_datetime \<in> set as"
| "is_datetime_type (A_dict as) \<longleftrightarrow> A_datetime \<in> set as"
| "is_datetime_type _ \<longleftrightarrow> False"

text \<open>What \<open>reconstruct_event\<close> and \<open>decode_msg\<close> give: an event, or data left as it is.\<close>

datatype 'c message = M_event "'c event" | M_data py_data

fun reconstruct_value :: "(string \<Rightarrow> int option) \<Rightarrow> 'c ann \<Rightarrow> py_data \<Rightarrow> py_data" where
  "reconstruct_value fromiso a (P_str s) =
     (if is_datetime_type a then (case fromiso s of Some t \<Rightarrow> P_datetime t | None \<Rightarrow> P_str s) else P_str s)"
| "reconstruct_value fromiso a v = v"

definition event_field_type :: "'c event_class \<Rightarrow> string \<Rightarrow> 'c ann option" where
  "event_field_type cls nm = map_option fst (map_of (ec_fields cls) nm)"

definition reconstruct_fields ::
  "(string \<Rightarrow> int option) \<Rightarrow> 'c event_class \<Rightarrow> (string \<times> py_data) list \<Rightarrow> (string \<times> py_data) list" where
  "reconstruct_fields fromiso cls kvs = concat (map (\<lambda>(nm, v). case event_field_type cls nm of
       None \<Rightarrow> [] | Some a \<Rightarrow> [(nm, reconstruct_value fromiso a v)]) kvs)"

text \<open>
  \<open>self._event_type_registry.get(_serializer, BaseEvent) if _serializer else BaseEvent\<close>: an
  unhashable serializer cannot be looked up.
\<close>

fun serializer_class :: "'c \<Rightarrow> 'c serializers \<Rightarrow> py_data \<Rightarrow> py_exn + 'c" where
  "serializer_class base reg (P_str s) =
     (if s = [] then Inr base else case reg s of Some c \<Rightarrow> Inr c | None \<Rightarrow> Inr base)"
| "serializer_class base reg (P_list (v # vs)) = Inl (TypeError ''unhashable'')"
| "serializer_class base reg (P_dict (v # vs)) = Inl (TypeError ''unhashable'')"
| "serializer_class base reg _ = Inr base"

fun reconstruct_event ::
  "'c class_table \<Rightarrow> (string \<Rightarrow> py_data) \<Rightarrow> (string \<Rightarrow> int option) \<Rightarrow> 'c \<Rightarrow> 'c serializers \<Rightarrow> py_data \<Rightarrow>
   py_exn + 'c message" where
  "reconstruct_event tbl fresh fromiso base reg (P_dict kvs) =
     (case map_of kvs ''m_serializer'' of
        None \<Rightarrow> Inr (M_data (P_dict kvs))
      | Some P_none \<Rightarrow> Inr (M_data (P_dict kvs))
      | Some ser \<Rightarrow> (case serializer_class base reg ser of
            Inl e \<Rightarrow> Inl e
          | Inr c \<Rightarrow> (case new_event tbl fresh c (map_of (reconstruct_fields fromiso (tbl c) kvs)) of
                Inl e \<Rightarrow> Inl e
              | Inr ev \<Rightarrow> Inr (M_event ev))))"
| "reconstruct_event tbl fresh fromiso base reg d = Inr (M_data d)"

section \<open>Encoding\<close>

datatype 'c sendable =
    S_event "'c event"
  | S_dlq dlq_event
  | S_data py_data
  | S_batch "'c sendable list"

datatype encoded = E_bytes bytes | E_list "encoded list"

type_synonym 's sr_codec = "(string \<Rightarrow> py_data \<Rightarrow> ('s, bytes) eff) \<times> (string \<Rightarrow> bytes \<Rightarrow> ('s, py_data) eff)"

text \<open>\<open>encode_field\<close> on a dict, for the Avro format.\<close>

definition encode_field :: "codecs \<Rightarrow> msg_encoder \<Rightarrow> py_data \<Rightarrow> py_exn + bytes" where
  "encode_field cd me payload =
     (if me_fmt me \<noteq> fmt_avro then Inl (ValueError ''field encoding'')
      else if me_field_fmt me = fmt_json then cd_json_encode cd payload
      else if me_field_fmt me = fmt_msgpack then cd_msgpack_encode cd payload
      else Inl (ValueError ''field encoding''))"

definition decode_field :: "codecs \<Rightarrow> msg_encoder \<Rightarrow> string + bytes \<Rightarrow> py_exn + py_data" where
  "decode_field cd me v =
     (if me_fmt me \<noteq> fmt_avro then Inl (ValueError ''field decoding'')
      else if me_field_fmt me = fmt_json then
        (case v of
           Inl s \<Rightarrow> cd_json_decode cd s
         | Inr bs \<Rightarrow> (case cd_utf8_decode cd bs of
               None \<Rightarrow> Inl MsgspecDecodeError | Some s \<Rightarrow> cd_json_decode cd s))
      else if me_field_fmt me = fmt_msgpack then
        (case v of Inl s \<Rightarrow> Inl (TypeError ''bytes'') | Inr bs \<Rightarrow> cd_msgpack_decode cd bs)
      else Inl (ValueError ''field decoding''))"

text \<open>The payload of a dict message is encoded in place when it is a dict itself.\<close>

fun avro_payload :: "codecs \<Rightarrow> msg_encoder \<Rightarrow> py_data \<Rightarrow> py_exn + py_data" where
  "avro_payload cd me (P_dict kvs) = (case map_of kvs ''payload'' of
       Some (P_dict p) \<Rightarrow> (case encode_field cd me (P_dict p) of
           Inl e \<Rightarrow> Inl e
         | Inr bs \<Rightarrow> Inr (P_dict (map (\<lambda>(k, v). if k = ''payload'' then (k, P_bytes bs) else (k, v)) kvs)))
     | _ \<Rightarrow> Inr (P_dict kvs))"
| "avro_payload cd me d = Inr d"

definition encode_data ::
  "codecs \<Rightarrow> msg_encoder \<Rightarrow> 's sr_codec option \<Rightarrow> string option \<Rightarrow> py_data \<Rightarrow> ('s, bytes) eff" where
  "encode_data cd me sr channel d s =
     (if me_fmt me = fmt_msgpack then (cd_msgpack_encode cd d, s)
      else if me_fmt me = fmt_protobuf then (Inl (NotImplementedError ''protobuf''), s)
      else if me_fmt me = fmt_avro then
        (case sr of
           None \<Rightarrow> (Inl (ValueError ''sr_encoder''), s)
         | Some (enc, dec) \<Rightarrow>
             if \<not> str_truthy channel then (Inl (ValueError ''channel''), s)
             else (case avro_payload cd me d of
                 Inl e \<Rightarrow> (Inl e, s)
               | Inr d' \<Rightarrow> enc (the channel) d' s))
      else if me_fmt me = fmt_json then (cd_json_encode cd d, s)
      else (Inl (ValueError ''message encoding''), s))"

text \<open>A list, of messages or of plain data, is encoded item by item.\<close>

fun encode_py :: "codecs \<Rightarrow> msg_encoder \<Rightarrow> 's sr_codec option \<Rightarrow> string option \<Rightarrow> py_data \<Rightarrow> ('s, encoded) eff"
  and encode_pys :: "codecs \<Rightarrow> msg_encoder \<Rightarrow> 's sr_codec option \<Rightarrow> string option \<Rightarrow> py_data list \<Rightarrow> ('s, encoded list) eff"
where
  "encode_py cd me sr channel (P_list ds) s = (case encode_pys cd me sr channel ds s of
       (Inl e, s') \<Rightarrow> (Inl e, s') | (Inr xs, s') \<Rightarrow> (Inr (E_list xs), s'))"
| "encode_py cd me sr channel d s = (case encode_data cd me sr channel d s of
       (Inl e, s') \<Rightarrow> (Inl e, s') | (Inr bs, s') \<Rightarrow> (Inr (E_bytes bs), s'))"
| "encode_pys cd me sr channel [] s = (Inr [], s)"
| "encode_pys cd me sr channel (d # ds) s = (case encode_py cd me sr channel d s of
       (Inl e, s') \<Rightarrow> (Inl e, s')
     | (Inr x, s') \<Rightarrow> (case encode_pys cd me sr channel ds s' of
           (Inl e, s'') \<Rightarrow> (Inl e, s'') | (Inr xs, s'') \<Rightarrow> (Inr (x # xs), s'')))"

fun encode_msg :: "codecs \<Rightarrow> msg_encoder \<Rightarrow> 's sr_codec option \<Rightarrow> string option \<Rightarrow> 'c sendable \<Rightarrow> ('s, encoded) eff"
  and encode_msgs :: "codecs \<Rightarrow> msg_encoder \<Rightarrow> 's sr_codec option \<Rightarrow> string option \<Rightarrow> 'c sendable list \<Rightarrow> ('s, encoded list) eff"
where
  "encode_msg cd me sr channel (S_batch ms) s = (case encode_msgs cd me sr channel ms s of
       (Inl e, s') \<Rightarrow> (Inl e, s') | (Inr xs, s') \<Rightarrow> (Inr (E_list xs), s'))"
| "encode_msg cd me sr channel (S_event ev) s = encode_py cd me sr channel (event_as_dict ev) s"
| "encode_msg cd me sr channel (S_dlq e) s = encode_py cd me sr channel (dlq_event_as_dict (cd_isoformat cd) e) s"
| "encode_msg cd me sr channel (S_data d) s = encode_py cd me sr channel d s"
| "encode_msgs cd me sr channel [] s = (Inr [], s)"
| "encode_msgs cd me sr channel (m # ms) s = (case encode_msg cd me sr channel m s of
       (Inl e, s') \<Rightarrow> (Inl e, s')
     | (Inr x, s') \<Rightarrow> (case encode_msgs cd me sr channel ms s' of
           (Inl e, s'') \<Rightarrow> (Inl e, s'') | (Inr xs, s'') \<Rightarrow> (Inr (x # xs), s'')))"

section \<open>Decoding\<close>

datatype raw = R_bytes bytes | R_str string | R_other

text \<open>The payload of a decoded Avro record, by the field encoding.\<close>

definition set_payload :: "py_data \<Rightarrow> (string \<times> py_data) list \<Rightarrow> py_data" where
  "set_payload v kvs = P_dict (map (\<lambda>(k, w). if k = ''payload'' then (k, v) else (k, w)) kvs)"

fun decode_payload :: "codecs \<Rightarrow> msg_encoder \<Rightarrow> py_data \<Rightarrow> py_exn + py_data" where
  "decode_payload cd me (P_dict kvs) = (case map_of kvs ''payload'' of
       None \<Rightarrow> Inr (P_dict kvs)
     | Some P_none \<Rightarrow> Inr (P_dict kvs)
     | Some p \<Rightarrow>
         if me_field_fmt me = fmt_msgpack then
           (case p of
              P_bytes bs \<Rightarrow> (case cd_msgpack_decode cd bs of Inl e \<Rightarrow> Inl e | Inr v \<Rightarrow> Inr (set_payload v kvs))
            | P_str t \<Rightarrow> (case cd_msgpack_decode cd (cd_utf8_encode cd t) of
                  Inl e \<Rightarrow> if is_exception e then Inr (P_dict kvs) else Inl e
                | Inr v \<Rightarrow> Inr (set_payload v kvs))
            | _ \<Rightarrow> Inr (P_dict kvs))
         else if me_field_fmt me = fmt_json then
           (case p of
              P_str t \<Rightarrow> (case cd_json_loads cd t of Inl e \<Rightarrow> Inl e | Inr v \<Rightarrow> Inr (set_payload v kvs))
            | P_bytes bs \<Rightarrow> (case cd_utf8_decode cd bs of
                  None \<Rightarrow> Inl UnicodeDecodeError
                | Some t \<Rightarrow> (case cd_json_loads cd t of Inl e \<Rightarrow> Inl e | Inr v \<Rightarrow> Inr (set_payload v kvs)))
            | _ \<Rightarrow> Inr (P_dict kvs))
         else Inl (ValueError ''field encoding''))"
| "decode_payload cd me d = Inl (AttributeError ''get'')"

text \<open>\<open>except Exception as e: raise MsgDecoderError(...)\<close>\<close>

definition wrap_decoder_error :: "string \<Rightarrow> py_exn + 'a \<Rightarrow> py_exn + 'a" where
  "wrap_decoder_error code r = (case r of
       Inl e \<Rightarrow> if is_exception e then Inl (MsgDecoderError code) else Inl e | Inr x \<Rightarrow> Inr x)"

definition decode_msg ::
  "'c class_table \<Rightarrow> (string \<Rightarrow> py_data) \<Rightarrow> 'c \<Rightarrow> 'c serializers \<Rightarrow> codecs \<Rightarrow> msg_encoder \<Rightarrow>
   's sr_codec option \<Rightarrow> string option \<Rightarrow> raw \<Rightarrow> ('s, 'c message) eff" where
  "decode_msg tbl fresh base reg cd me sr channel v s =
     (let rec = reconstruct_event tbl fresh (cd_fromisoformat cd) base reg in
      if me_fmt me = fmt_msgpack then
        (wrap_decoder_error ''MSGPACK_DECODE_ERROR'' (case v of
            R_bytes bs \<Rightarrow> (case cd_msgpack_decode cd bs of Inl e \<Rightarrow> Inl e | Inr d \<Rightarrow> rec d)
          | _ \<Rightarrow> Inl (TypeError ''bytes'')), s)
      else if me_fmt me = fmt_protobuf then (Inl (NotImplementedError ''protobuf''), s)
      else if me_fmt me = fmt_avro then
        (case sr of
           None \<Rightarrow> (Inl (ValueError ''sr_encoder''), s)
         | Some (enc, dec) \<Rightarrow>
             if \<not> str_truthy channel then (Inl (ValueError ''channel''), s)
             else (case (case v of R_bytes bs \<Rightarrow> dec (the channel) bs s | _ \<Rightarrow> (Inl (TypeError ''bytes''), s)) of
                 (Inl e, s') \<Rightarrow> (wrap_decoder_error ''AVRO_DECODE_ERROR'' (Inl e), s')
               | (Inr d, s') \<Rightarrow> (wrap_decoder_error ''AVRO_DECODE_ERROR''
                     (case decode_payload cd me d of Inl e \<Rightarrow> Inl e | Inr d' \<Rightarrow> rec d'), s')))
      else if me_fmt me = fmt_json then
        (let parse = (\<lambda>t. case cd_json_decode cd t of
             Inl e \<Rightarrow> if e = JSONDecodeError then Inl (MsgDecoderError ''JSON_DECODE_ERROR'') else Inl e
           | Inr d \<Rightarrow> rec d)
         in (case v of
               R_bytes bs \<Rightarrow> (case cd_utf8_decode cd bs of None \<Rightarrow> Inl UnicodeDecodeError | Some t \<Rightarrow> parse t)
             | R_str t \<Rightarrow> parse t
             | R_other \<Rightarrow> Inl (MsgDecoderError ''INVALID_JSON_INPUT_TYPE''), s))
      else (Inl (ValueError ''message encoding''), s))"

section \<open>Reconstruction\<close>

lemma map_of_reconstruct_fields:
  "map_of (reconstruct_fields fromiso cls kvs) nm =
     (case event_field_type cls nm of None \<Rightarrow> None
      | Some a \<Rightarrow> map_option (reconstruct_value fromiso a) (map_of kvs nm))"
  by (induction kvs) (auto simp: reconstruct_fields_def split: option.splits)

lemma new_event_Inr:
  assumes "new_event tbl fresh c kw = Inr ev"
  obtains fs where "ev = Event c fs" "map fst fs = map fst (ec_fields (tbl c))"
    "\<forall>v. (''m_serializer'', v) \<in> set fs \<longrightarrow> v = P_str (get_serializer_name tbl c)"
  using assms
  by (auto simp: new_event_def split: if_splits intro!: that)

lemma new_event_serializer:
  assumes "new_event tbl fresh c kw = Inr (Event c fs)" and "(''m_serializer'', v) \<in> set fs"
  shows "v = P_str (get_serializer_name tbl c)"
proof (rule new_event_Inr [OF assms(1)])
  fix gs assume "Event c fs = Event c gs"
    and "\<forall>v. (''m_serializer'', v) \<in> set gs \<longrightarrow> v = P_str (get_serializer_name tbl c)"
  with assms(2) show ?thesis by simp
qed

lemma new_event_total:
  assumes "\<forall>(nm, a, i) \<in> set (ec_fields (tbl c)). kw nm \<noteq> None"
  shows "\<exists>ev. new_event tbl fresh c kw = Inr ev"
proof -
  have "init_value fresh kw nm i \<noteq> None" if "(nm, a, i) \<in> set (ec_fields (tbl c))" for nm a i
    using assms that unfolding init_value_def by auto
  then have "\<not> (\<exists>(nm, a, i) \<in> set (ec_fields (tbl c)). init_value fresh kw nm i = None)" by fastforce
  then show ?thesis unfolding new_event_def by (simp only: if_False) simp
qed

lemma new_event_all:
  assumes "\<forall>(nm, a, i) \<in> set (ec_fields (tbl c)). kw nm = Some (vals nm)"
    and "vals ''m_serializer'' = P_str (get_serializer_name tbl c)"
  shows "new_event tbl fresh c kw = Inr (Event c (map (\<lambda>(nm, a, i). (nm, vals nm)) (ec_fields (tbl c))))"
proof -
  have *: "init_value fresh kw nm i = Some (vals nm)" if "(nm, a, i) \<in> set (ec_fields (tbl c))" for nm a i
    using assms(1) that by (auto simp: init_value_def)
  then have "\<not> (\<exists>(nm, a, i) \<in> set (ec_fields (tbl c)). init_value fresh kw nm i = None)" by fastforce
  moreover have "map (\<lambda>(nm, a, i). (nm, if nm = ''m_serializer'' then P_str (get_serializer_name tbl c)
        else the (init_value fresh kw nm i))) (ec_fields (tbl c)) =
      map (\<lambda>(nm, a, i). (nm, vals nm)) (ec_fields (tbl c))"
    using * assms(2) by (auto)
  ultimately show ?thesis unfolding new_event_def by (simp only: if_False)
qed

text \<open>
  What a codec does to the value of a field: nothing, except that a date and time may come back
  as its ISO text.
\<close>

definition field_carried :: "(int \<Rightarrow> string) \<Rightarrow> 'c ann \<Rightarrow> py_data \<Rightarrow> py_data \<Rightarrow> bool" where
  "field_carried isof a v v' \<longleftrightarrow>
     (if is_datetime_type a then (\<exists>t. v = P_datetime t \<and> (v' = v \<or> v' = P_str (isof t))) \<or> (v = P_none \<and> v' = P_none)
      else v' = v)"

definition fields_carried ::
  "(int \<Rightarrow> string) \<Rightarrow> 'c event_class \<Rightarrow> (string \<times> py_data) list \<Rightarrow> (string \<times> py_data) list \<Rightarrow> bool" where
  "fields_carried isof cls fs kvs \<longleftrightarrow> map fst kvs = map fst fs \<and>
     (\<forall>(nm, a, i) \<in> set (ec_fields cls). \<forall>v v'. map_of fs nm = Some v \<longrightarrow> map_of kvs nm = Some v' \<longrightarrow>
        field_carried isof a v v')"

lemma field_carried_back:
  assumes "field_carried isof a v v'" and "\<forall>t. fromiso (isof t) = Some t"
  shows "reconstruct_value fromiso a v' = v"
proof (cases "is_datetime_type a")
  case True
  with assms(1) consider t where "v = P_datetime t" "v' = v" | t where "v = P_datetime t" "v' = P_str (isof t)"
    | "v = P_none" "v' = P_none" unfolding field_carried_def by auto
  then show ?thesis using assms(2) True by cases simp_all
next
  case False
  with assms(1) have "v' = v" by (simp add: field_carried_def)
  with False show ?thesis by (cases v) simp_all
qed

lemma map_of_snd_eq:
  "distinct (map fst fs) \<Longrightarrow> map fst fs = map fst cs \<Longrightarrow> map (\<lambda>(nm, x). (nm, the (map_of fs nm))) cs = fs"
proof (induction fs arbitrary: cs)
  case (Cons f fs)
  then obtain k v d ds where f: "f = (k, v)" and cs: "cs = (k, d) # ds" "map fst fs = map fst ds"
    by (cases f; cases cs) auto
  have "map (\<lambda>(nm, x). (nm, the (map_of ((k, v) # fs) nm))) ds = map (\<lambda>(nm, x). (nm, the (map_of fs nm))) ds"
  proof (rule map_cong [OF refl])
    fix p assume "p \<in> set ds"
    then have "fst p \<in> set (map fst fs)" by (simp add: cs(2))
    with Cons.prems(1) f have "fst p \<noteq> k" by auto
    then show "(case p of (nm, x) \<Rightarrow> (nm, the (map_of ((k, v) # fs) nm))) = (case p of (nm, x) \<Rightarrow> (nm, the (map_of fs nm)))"
      by (cases p) simp
  qed
  with Cons.IH [of ds] Cons.prems cs f show ?case by simp
qed simp

lemma reconstruct_round_trip:
  assumes new: "new_event tbl fresh c kw = Inr (Event c fs)"
    and dist: "distinct (map fst (ec_fields (tbl c)))" and ser: "''m_serializer'' \<in> fst ` set (ec_fields (tbl c))"
    and reg: "reg (get_serializer_name tbl c) = Some c" and isof: "\<forall>t. fromiso (isof t) = Some t"
    and carried: "fields_carried isof (tbl c) fs kvs"
    and nodt: "\<forall>(nm, a, i) \<in> set (ec_fields (tbl c)). nm = ''m_serializer'' \<longrightarrow> \<not> is_datetime_type a"
  shows "reconstruct_event tbl fresh' fromiso base reg (P_dict kvs) = Inr (M_event (Event c fs))"
proof -
  have names: "map fst fs = map fst (ec_fields (tbl c))"
    and sv: "\<forall>v. (''m_serializer'', v) \<in> set fs \<longrightarrow> v = P_str (get_serializer_name tbl c)"
    using new_event_Inr [OF new] by (auto elim: new_event_Inr [OF new])
  have keys: "map fst kvs = map fst fs" using carried by (simp add: fields_carried_def)
  have look: "\<exists>v v'. map_of fs nm = Some v \<and> map_of kvs nm = Some v' \<and> reconstruct_value fromiso a v' = v"
    if "(nm, a, i) \<in> set (ec_fields (tbl c))" for nm a i
  proof -
    have "nm \<in> set (map fst fs)" using that names by force
    moreover from this have "nm \<in> set (map fst kvs)" by (simp only: keys)
    ultimately have "map_of fs nm \<noteq> None" "map_of kvs nm \<noteq> None"
      by (simp_all add: map_of_eq_None_iff)
    then obtain v v' where vv: "map_of fs nm = Some v" "map_of kvs nm = Some v'" by auto
    from carried that have "\<forall>v v'. map_of fs nm = Some v \<longrightarrow> map_of kvs nm = Some v' \<longrightarrow> field_carried isof a v v'"
      unfolding fields_carried_def by blast
    with vv have "field_carried isof a v v'" by simp
    from field_carried_back [OF this isof] vv show ?thesis by simp
  qed
  obtain a i where ms: "(''m_serializer'', a, i) \<in> set (ec_fields (tbl c))" using ser by auto
  from look [OF ms] obtain v v' where v: "map_of fs ''m_serializer'' = Some v" "map_of kvs ''m_serializer'' = Some v'"
    "reconstruct_value fromiso a v' = v" by blast
  have v_is: "v = P_str (get_serializer_name tbl c)" using sv map_of_SomeD [OF v(1)] by blast
  have "\<not> is_datetime_type a" using nodt ms by auto
  with v(3) v_is have v'_is: "v' = P_str (get_serializer_name tbl c)" by (cases v') simp_all
  define kw' where "kw' = map_of (reconstruct_fields fromiso (tbl c) kvs)"
  have "new_event tbl fresh' c kw' =
      Inr (Event c (map (\<lambda>(nm, a, i). (nm, the (map_of fs nm))) (ec_fields (tbl c))))"
  proof (rule new_event_all)
    show "\<forall>(nm, a, i)\<in>set (ec_fields (tbl c)). kw' nm = Some (the (map_of fs nm))"
    proof clarify
      fix nm a i assume m: "(nm, a, i) \<in> set (ec_fields (tbl c))"
      have "event_field_type (tbl c) nm = Some a"
        using dist m by (simp add: event_field_type_def)
      with look [OF m] show "kw' nm = Some (the (map_of fs nm))"
        by (auto simp: kw'_def map_of_reconstruct_fields)
    qed
    show "the (map_of fs ''m_serializer'') = P_str (get_serializer_name tbl c)" using v(1) v_is by simp
  qed
  also have "map (\<lambda>(nm, a, i). (nm, the (map_of fs nm))) (ec_fields (tbl c)) = fs"
    using map_of_snd_eq [of fs "ec_fields (tbl c)"] dist names by (simp add: case_prod_beta')
  finally have ev: "new_event tbl fresh' c kw' = Inr (Event c fs)" .
  have "get_serializer_name tbl c \<noteq> []" by (simp add: get_serializer_name_def)
  then show ?thesis using v(2) v'_is reg ev by (simp add: kw'_def)
qed

definition codec_write :: "codecs \<Rightarrow> msg_encoder \<Rightarrow> py_data \<Rightarrow> py_exn + bytes" where
  "codec_write cd me d = (if me_fmt me = fmt_json then cd_json_encode cd d else cd_msgpack_encode cd d)"

definition codec_read :: "codecs \<Rightarrow> msg_encoder \<Rightarrow> bytes \<Rightarrow> py_exn + py_data" where
  "codec_read cd me bs = (if me_fmt me = fmt_json
     then (case cd_utf8_decode cd bs of None \<Rightarrow> Inl UnicodeDecodeError | Some t \<Rightarrow> cd_json_decode cd t)
     else cd_msgpack_decode cd bs)"

lemma encode_event_text:
  assumes "me_fmt me = fmt_json \<or> me_fmt me = fmt_msgpack"
  shows "encode_msg cd me sr channel (S_event (Event c fs)) s =
    (case codec_write cd me (P_dict fs) of Inl e \<Rightarrow> (Inl e, s) | Inr bs \<Rightarrow> (Inr (E_bytes bs), s))"
  using assms by (auto simp: encode_data_def codec_write_def fmt_defs split: sum.splits)

lemma decode_text:
  assumes "me_fmt me = fmt_json \<or> me_fmt me = fmt_msgpack" and "codec_read cd me bs = Inr d"
    and "reconstruct_event tbl fresh (cd_fromisoformat cd) base reg d = Inr m"
  shows "decode_msg tbl fresh base reg cd me sr channel (R_bytes bs) s = (Inr m, s)"
  using assms
  by (auto simp: decode_msg_def codec_read_def fmt_defs Let_def wrap_decoder_error_def split: option.splits)

section \<open>Properties\<close>


text \<open>A serializer registered under a name of its own is never found: the encoder always writes
  the name made of the class name, so unless that name is registered as well the message comes
  back as a plain \<open>BaseEvent\<close>, without the fields the class adds.\<close>
theorem custom_serializer_name_ignored:
  assumes "new_event tbl fresh c kw = Inr (Event c fs)" and "''m_serializer'' \<in> fst ` set fs"
    and "name \<noteq> []" and "name \<noteq> get_serializer_name tbl c" and "reg (get_serializer_name tbl c) = None"
    and "fst ` set (ec_fields (tbl base)) \<subseteq> fst ` set fs"
  shows "\<exists>fs'. reconstruct_event tbl fresh' fromiso base (register_event_serializer tbl c (Some name) reg) (P_dict fs) =
      Inr (M_event (Event base fs')) \<and> map fst fs' = map fst (ec_fields (tbl base))"
proof -
  let ?reg = "register_event_serializer tbl c (Some name) reg"
  from assms(2) obtain v where v: "map_of fs ''m_serializer'' = Some v"
    by (metis map_of_eq_None_iff not_None_eq)
  have "v = P_str (get_serializer_name tbl c)"
    by (rule new_event_serializer [OF assms(1) map_of_SomeD [OF v]])
  moreover have "serializer_class base ?reg (P_str (get_serializer_name tbl c)) = Inr base"
    using assms(3-5) by (simp add: register_event_serializer_def or_str_def)
  moreover
  define kw' where "kw' = map_of (reconstruct_fields fromiso (tbl base) fs)"
  have given: "kw' nm \<noteq> None" if m: "(nm, a, i) \<in> set (ec_fields (tbl base))" for nm a i
  proof -
    from m have mem: "nm \<in> fst ` set (ec_fields (tbl base))" by (metis fst_conv image_eqI)
    then have "nm \<in> fst ` set fs" by (rule subsetD [OF assms(6)])
    then have "map_of fs nm \<noteq> None" by (simp add: map_of_eq_None_iff)
    moreover from mem have "map_of (ec_fields (tbl base)) nm \<noteq> None" by (simp add: map_of_eq_None_iff)
    ultimately obtain v b where "map_of fs nm = Some v" "map_of (ec_fields (tbl base)) nm = Some b" by blast
    then show ?thesis
      by (cases b) (simp add: kw'_def map_of_reconstruct_fields event_field_type_def)
  qed
  have "\<forall>(nm, a, i) \<in> set (ec_fields (tbl base)). kw' nm \<noteq> None"
    by (clarsimp, drule given, simp)
  then have "\<exists>ev. new_event tbl fresh' base kw' = Inr ev"
    by (rule new_event_total)
  then obtain ev where ev: "new_event tbl fresh' base kw' = Inr ev" by blast
  obtain fs' where "ev = Event base fs'" "map fst fs' = map fst (ec_fields (tbl base))"
    by (rule new_event_Inr [OF ev])
  ultimately show ?thesis
    using v ev by (intro exI [of _ fs']) (simp add: kw'_def)
qed

text \<open>What a consumer sees of a message it cannot decode depends on the format: in MessagePack
  every failure is a \<open>MsgDecoderError\<close>; in JSON the \<open>msgspec.DecodeError\<close> of a malformed text and
  the \<open>UnicodeDecodeError\<close> of malformed bytes come out as they are, because the handler names
  \<open>json.JSONDecodeError\<close>, which \<open>msgspec\<close> does not raise.\<close>
theorem decode_error_contract:
  assumes "\<forall>bs e. cd_msgpack_decode cd bs = Inl e \<longrightarrow> is_exception e"
  shows "(me_fmt me = fmt_msgpack \<longrightarrow>
      fst (decode_msg tbl fresh base reg cd me sr channel v s) = Inl e \<longrightarrow> e = MsgDecoderError ''MSGPACK_DECODE_ERROR'') \<and>
    (me_fmt me = fmt_json \<longrightarrow> cd_utf8_decode cd bs = None \<longrightarrow>
      decode_msg tbl fresh base reg cd me sr channel (R_bytes bs) s = (Inl UnicodeDecodeError, s)) \<and>
    (me_fmt me = fmt_json \<longrightarrow> cd_utf8_decode cd bs = Some t \<longrightarrow> cd_json_decode cd t = Inl MsgspecDecodeError \<longrightarrow>
      decode_msg tbl fresh base reg cd me sr channel (R_bytes bs) s = (Inl MsgspecDecodeError, s))"
proof (intro conjI impI)
  assume fmt: "me_fmt me = fmt_msgpack" and e: "fst (decode_msg tbl fresh base reg cd me sr channel v s) = Inl e"
  have ser: "is_exception x" if "reconstruct_event tbl fresh (cd_fromisoformat cd) base reg d = Inl x" for d x
    using that
  proof (cases d)
    case (P_dict kvs)
    have "is_exception y" if "serializer_class base reg u = Inl y" for u y
      using that by (cases "(base, reg, u)" rule: serializer_class.cases) (auto split: if_splits option.splits)
    moreover have "is_exception y" if "new_event tbl fresh c kw = Inl y" for c kw y
      using that by (auto simp: new_event_def split: if_splits)
    ultimately show ?thesis using that P_dict
      by (auto simp del: serializer_class.simps split: option.splits py_data.splits sum.splits)
  qed simp_all
  show "e = MsgDecoderError ''MSGPACK_DECODE_ERROR''"
    using e assms ser
    by (auto simp: decode_msg_def fmt Let_def wrap_decoder_error_def split: raw.splits sum.splits if_splits)
qed (simp_all add: decode_msg_def fmt_defs Let_def)

section \<open>Witnesses\<close>

text \<open>\<open>BaseEvent\<close> is \<open>True\<close>, a class with one more field is \<open>False\<close>.\<close>

definition demo_base_fields :: "(string \<times> bool ann \<times> field_init) list" where
  "demo_base_fields = [(''event_type'', A_str, Required), (''timestamp'', A_datetime, Factory),
     (''retry_count'', A_int, Default (P_int 0)), (''m_serializer'', A_str, Default (P_str []))]"

definition demo_classes :: "bool class_table" where
  "demo_classes b = (if b then \<lparr>ec_name = ''BaseEvent'', ec_fields = demo_base_fields\<rparr>
     else \<lparr>ec_name = ''Paid'', ec_fields = demo_base_fields @ [(''amount'', A_int, Required)]\<rparr>)"

definition demo_paid :: "(string \<times> py_data) list" where
  "demo_paid = [(''event_type'', P_str ''paid''), (''timestamp'', P_datetime 7), (''retry_count'', P_int 0),
     (''m_serializer'', P_str ''paid_serializer''), (''amount'', P_int 5)]"

definition demo_codecs :: codecs where
  "demo_codecs = \<lparr>cd_json_encode = \<lambda>d. Inr [1],
     cd_json_decode = \<lambda>t. if t = ''ok'' then Inr (P_dict [(''event_type'', P_str ''paid''), (''timestamp'', P_str ''aaaaaaa''),
       (''retry_count'', P_int 0), (''m_serializer'', P_str ''paid_serializer''), (''amount'', P_int 5)])
       else Inl MsgspecDecodeError,
     cd_json_loads = \<lambda>t. Inl JSONDecodeError,
     cd_msgpack_encode = \<lambda>d. Inl (UserError ''msgpack''), cd_msgpack_decode = \<lambda>bs. Inl MsgspecDecodeError,
     cd_utf8_decode = \<lambda>bs. if bs = [1] then Some ''ok'' else if bs = [2] then Some ''bad'' else None,
     cd_utf8_encode = \<lambda>t. [],
     cd_isoformat = \<lambda>t. if 0 \<le> t then replicate (nat t) CHR ''a'' else CHR ''b'' # replicate (nat (- t)) CHR ''a'',
     cd_fromisoformat = \<lambda>s. (case s of [] \<Rightarrow> Some 0 | c # r \<Rightarrow>
       if c = CHR ''b'' then Some (- int (length r)) else Some (int (length s)))\<rparr>"

definition demo_json :: msg_encoder where
  "demo_json = \<lparr>me_fmt = ''json'', me_field_fmt = ''n/a''\<rparr>"

lemma demo_iso: "cd_fromisoformat demo_codecs (cd_isoformat demo_codecs t) = Some t"
  by (cases "nat t") (auto simp: demo_codecs_def)

lemma demo_serializer_name: "get_serializer_name demo_classes False = ''paid_serializer''"
  by code_simp

lemma demo_new_event:
  "new_event demo_classes (\<lambda>nm. P_datetime 7) False [''event_type'' \<mapsto> P_str ''paid'', ''amount'' \<mapsto> P_int 5] =
     Inr (Event False demo_paid)"
  unfolding new_event_def demo_serializer_name
  by (simp add: demo_classes_def demo_base_fields_def init_value_def demo_paid_def)


theorem custom_serializer_name_ignored_witness:
  "\<exists>fs'. reconstruct_event demo_classes (\<lambda>nm. P_none) (\<lambda>t. None) True
      (register_event_serializer demo_classes False (Some ''pay'') Map.empty) (P_dict demo_paid) =
      Inr (M_event (Event True fs')) \<and> map fst fs' = [''event_type'', ''timestamp'', ''retry_count'', ''m_serializer'']"
  using custom_serializer_name_ignored [OF demo_new_event, of "''pay''" Map.empty True "\<lambda>nm. P_none" "\<lambda>t. None"]
  by (simp add: demo_serializer_name demo_paid_def demo_classes_def [of True] demo_base_fields_def)

theorem decode_error_contract_witness:
  "decode_msg demo_classes (\<lambda>nm. P_none) True Map.empty demo_codecs demo_json None None (R_bytes [2]) () =
     (Inl MsgspecDecodeError, ())"
  using decode_error_contract [of demo_codecs demo_json demo_classes "\<lambda>nm. P_none" True Map.empty None None
      R_other "()" AssertionError "[2]" "''bad''"]
  by (simp add: demo_json_def fmt_defs demo_codecs_def)

end
