(* ===== verification/Event_Flow.thy ===== *)
theory Event_Flow
  imports Schema_Registry Msg_Encoder "HOL-Library.AList"
begin

text \<open>
  Event flows: the handler registry and the steps of a flow
  (\<open>foundation/messaging/events/event_handler.py\<close>), the registrations derived from the flows
  (\<open>events/flow_registration.py\<close>), and what they register into: the schemas, the subscribed
  channels and the serializers of a Kafka messaging service
  (\<open>kafka/base_kafka_messaging.py\<close>, \<open>base_messaging.py\<close>). The dictionaries whose order the code
  exposes are association lists. An event class is a value of \<open>'c\<close>, a handler class a value of
  \<open>'h\<close>; the instance made of a handler class is identified with the class. Event types are
  strings.
\<close>

section \<open>HandlerRegistry\<close>

type_synonym 'h handler_registry = "(string \<times> 'h) list"

definition reg_register :: "string \<Rightarrow> 'h \<Rightarrow> 'h handler_registry \<Rightarrow> 'h handler_registry" where
  "reg_register event_type h r = AList.update event_type h r"

definition reg_unregister :: "string \<Rightarrow> 'h handler_registry \<Rightarrow> 'h handler_registry" where
  "reg_unregister event_type r =
     (if event_type \<in> set (map fst r) then AList.delete event_type r else r)"

definition reg_get_handler :: "'h handler_registry \<Rightarrow> string \<Rightarrow> 'h option" where
  "reg_get_handler r event_type = map_of r event_type"

definition reg_list_handlers :: "'h handler_registry \<Rightarrow> string list" where
  "reg_list_handlers r = map fst r"

definition reg_handler_count :: "'h handler_registry \<Rightarrow> nat" where
  "reg_handler_count r = length r"

lemma reg_get_register [simp]:
  "reg_get_handler (reg_register e h r) e' = (if e' = e then Some h else reg_get_handler r e')"
  by (simp add: reg_get_handler_def reg_register_def update_conv)

lemma reg_unregister_eq: "reg_unregister e r = filter (\<lambda>(k, h). e \<noteq> k) r"
proof (cases "e \<in> set (map fst r)")
  case False
  then have "\<forall>p \<in> set r. e \<noteq> fst p" by auto
  then have "filter (\<lambda>p. e \<noteq> fst p) r = r" by simp
  with False show ?thesis by (simp add: reg_unregister_def case_prod_beta')
qed (simp add: reg_unregister_def AList.delete_eq)

lemma reg_get_unregister [simp]:
  "reg_get_handler (reg_unregister e r) e' = (if e' = e then None else reg_get_handler r e')"
  by (induction r) (auto simp: reg_get_handler_def reg_unregister_eq)

lemma reg_register_keys:
  "reg_list_handlers (reg_register e h r) =
     (if e \<in> set (reg_list_handlers r) then reg_list_handlers r else reg_list_handlers r @ [e])"
  by (simp add: reg_list_handlers_def reg_register_def update_keys)

lemma reg_unregister_keys:
  "reg_list_handlers (reg_unregister e r) = filter (\<lambda>k. k \<noteq> e) (reg_list_handlers r)"
  by (induction r) (auto simp: reg_list_handlers_def reg_unregister_eq)

lemma reg_keys_distinct:
  "distinct (reg_list_handlers r) \<Longrightarrow> distinct (reg_list_handlers (reg_register e h r))"
  "distinct (reg_list_handlers r) \<Longrightarrow> distinct (reg_list_handlers (reg_unregister e r))"
  by (simp_all add: reg_register_keys reg_unregister_keys)

section \<open>Defaults declared on a class\<close>

text \<open>
  What \<open>_field_default\<close> finds on a class. For \<open>msgspec\<close> and dataclass fields: the default and the
  value of the default factory; for Pydantic v2 the value of the factory, whether the field is
  required, and the attribute \<open>default\<close>; for v1 the factory and the default; then the plain class
  attributes.
\<close>

type_synonym 'v plain_fields = "(string \<times> 'v option \<times> 'v option) list"
type_synonym 'v v2_fields = "(string \<times> 'v option \<times> bool \<times> 'v option) list"

datatype 'v model_class =
    Msgspec_struct "'v plain_fields"
  | Other_class "'v plain_fields option" "'v v2_fields option" "'v plain_fields option" "string \<rightharpoonup> 'v"

fun struct_default :: "'v plain_fields \<Rightarrow> string \<Rightarrow> 'v option" where
  "struct_default [] nm = None"
| "struct_default ((n, d, f) # fs) nm =
     (if n = nm then (case d of Some v \<Rightarrow> Some v | None \<Rightarrow> (case f of Some v \<Rightarrow> Some v | None \<Rightarrow> struct_default fs nm))
      else struct_default fs nm)"

definition lookup_fields :: "(string \<times> 'a) list option \<Rightarrow> string \<Rightarrow> 'a option" where
  "lookup_fields fs nm = (case fs of None \<Rightarrow> None | Some kvs \<Rightarrow> map_of kvs nm)"

fun field_default :: "'v model_class \<Rightarrow> string \<Rightarrow> 'v option" where
  "field_default (Msgspec_struct fs) nm = struct_default fs nm"
| "field_default (Other_class dc v2 v1 attrs) nm =
     (case lookup_fields dc nm of
        Some (d, f) \<Rightarrow> (case d of Some v \<Rightarrow> Some v | None \<Rightarrow> f)
      | None \<Rightarrow> (case lookup_fields v2 nm of
          Some (f, required, d) \<Rightarrow> (case f of Some v \<Rightarrow> Some v | None \<Rightarrow> if required then None else d)
        | None \<Rightarrow> (case lookup_fields v1 nm of
            Some (f, d) \<Rightarrow> (case f of Some v \<Rightarrow> Some v | None \<Rightarrow> d)
          | None \<Rightarrow> attrs nm)))"

definition event_type_value :: "('c \<Rightarrow> string model_class) \<Rightarrow> 'c \<Rightarrow> py_exn + string" where
  "event_type_value model c = (case field_default (model c) ''event_type'' of
       None \<Rightarrow> Inl (TypeError ''event_type'') | Some e \<Rightarrow> Inr e)"

section \<open>Flows\<close>

record ('c, 'h) event_step =
  es_event :: 'c
  es_handlers :: "'h list"
  es_emits :: "'c list"

type_synonym ('c, 'h) flow_map = "(string \<times> ('c, 'h) event_step list) list"

definition iter_flow_steps :: "('c, 'h) flow_map \<Rightarrow> ('c, 'h) event_step list" where
  "iter_flow_steps flows = concat (map snd flows)"

text \<open>The generator, with its set \<open>seen\<close>.\<close>

fun unseen :: "'c set \<Rightarrow> 'c list \<Rightarrow> 'c list" where
  "unseen seen [] = []"
| "unseen seen (c # cs) = (if c \<in> seen then unseen seen cs else c # unseen (insert c seen) cs)"

definition step_classes :: "('c, 'h) event_step \<Rightarrow> 'c list" where
  "step_classes st = es_event st # es_emits st"

definition iter_flow_event_classes :: "('c, 'h) flow_map \<Rightarrow> 'c list" where
  "iter_flow_event_classes flows = unseen {} (concat (map step_classes (iter_flow_steps flows)))"

fun schema_pairs :: "('c \<Rightarrow> string option) \<Rightarrow> 'c list \<Rightarrow> py_exn + (string \<times> 'c) list" where
  "schema_pairs topic_for [] = Inr []"
| "schema_pairs topic_for (c # cs) = (case topic_for c of
       None \<Rightarrow> Inl (ValueError ''not routable'')
     | Some t \<Rightarrow> (case schema_pairs topic_for cs of Inl e \<Rightarrow> Inl e | Inr ps \<Rightarrow> Inr ((t, c) # ps)))"

definition topic_event_schema_pairs ::
  "('c, 'h) flow_map \<Rightarrow> ('c \<Rightarrow> string option) \<Rightarrow> py_exn + (string \<times> 'c) list" where
  "topic_event_schema_pairs flows topic_for = schema_pairs topic_for (iter_flow_event_classes flows)"

text \<open>\<open>sub c d\<close> is \<open>issubclass(c, d)\<close>.\<close>

definition widen_topic :: "('c \<Rightarrow> 'c \<Rightarrow> bool) \<Rightarrow> string \<times> 'c \<Rightarrow> (string \<rightharpoonup> 'c) \<Rightarrow> (string \<rightharpoonup> 'c)" where
  "widen_topic sub p by_topic = (case p of (topic, c) \<Rightarrow> (case by_topic topic of
       None \<Rightarrow> by_topic(topic \<mapsto> c)
     | Some current \<Rightarrow> if sub current c then by_topic(topic \<mapsto> c) else by_topic))"

definition topic_to_schema_event ::
  "('c \<Rightarrow> 'c \<Rightarrow> bool) \<Rightarrow> ('c, 'h) flow_map \<Rightarrow> ('c \<Rightarrow> string option) \<Rightarrow> py_exn + (string \<rightharpoonup> 'c)" where
  "topic_to_schema_event sub flows topic_for = (case topic_event_schema_pairs flows topic_for of
       Inl e \<Rightarrow> Inl e | Inr ps \<Rightarrow> Inr (fold (widen_topic sub) ps Map.empty))"

section \<open>The messaging service\<close>

text \<open>
  What the program knows of an event class, and the parts of a messaging service that registration
  touches. The library that makes the Avro schema of a dataclass is the field \<open>ci_avro_model\<close>
  (\<open>None\<close> when the class is no \<open>AvroModel\<close>); \<open>ci_fuel\<close> is the fuel of the schema of a struct.
\<close>

record 'c class_info =
  ci_structs :: "'c struct_env"
  ci_table :: "'c class_table"
  ci_model :: "'c \<Rightarrow> string model_class"
  ci_base_event :: "'c \<Rightarrow> bool"
  ci_dataclass :: "'c \<Rightarrow> bool"
  ci_avro_model :: "'c \<Rightarrow> avro option"
  ci_struct :: "'c \<Rightarrow> bool"
  ci_fuel :: nat

record ('c, 'h, 'r) kafka_service =
  ks_format :: string
  ks_consumer_enabled :: bool
  ks_subscribed :: "string set"
  ks_registry :: "'r sr_state"
  ks_serializers :: "'c serializers"
  ks_handlers :: "'h handler_registry"

definition schema_cls_to_avro_schema :: "'c class_info \<Rightarrow> 'c \<Rightarrow> py_exn + avro" where
  "schema_cls_to_avro_schema ci c =
     (if \<not> ci_base_event ci c then Inl (ValueError ''not a BaseEvent'')
      else if ci_dataclass ci c then
        (case ci_avro_model ci c of None \<Rightarrow> Inl (ValueError ''not an AvroModel'') | Some t \<Rightarrow> Inr t)
      else if ci_struct ci c then
        (case convert_struct_to_avro (ci_structs ci) (ci_fuel ci) c of
           Some t \<Rightarrow> Inr t | None \<Rightarrow> Inl (RuntimeError ''recursion''))
      else Inl (ValueError ''neither a dataclass nor a Struct''))"

text \<open>
  \<open>BaseKafkaMessagingService.register_schema\<close>. In the Avro branch the registry encoder exists: the
  property \<open>schema_registry_encoder\<close> raises only for another format.
\<close>

definition ks_subscribe :: "string \<Rightarrow> ('c, 'h, 'r) kafka_service \<Rightarrow> ('c, 'h, 'r) kafka_service" where
  "ks_subscribe channel s =
     (if ks_consumer_enabled s \<and> channel \<notin> ks_subscribed s
      then s\<lparr>ks_subscribed := insert channel (ks_subscribed s)\<rparr> else s)"

definition ks_register_schema ::
  "'c class_info \<Rightarrow> string \<Rightarrow> 'c \<Rightarrow> (('c, 'h, 'r) kafka_service, unit) eff" where
  "ks_register_schema ci channel c s =
     (if ks_format s \<noteq> fmt_avro then (Inr (), ks_subscribe channel s)
      else (case schema_cls_to_avro_schema ci c of
          Inl e \<Rightarrow> (Inl e, s)
        | Inr t \<Rightarrow> (case event_type_value (ci_model ci) c of
              Inl e \<Rightarrow> (Inl e, s)
            | Inr ev \<Rightarrow> (Inr (), ks_subscribe channel
                  (s\<lparr>ks_registry := sr_register_topic_schema channel t (Some ev) (ks_registry s)\<rparr>)))))"

definition ks_register_event_serializer ::
  "'c class_info \<Rightarrow> 'c \<Rightarrow> ('c, 'h, 'r) kafka_service \<Rightarrow> ('c, 'h, 'r) kafka_service" where
  "ks_register_event_serializer ci c s =
     s\<lparr>ks_serializers := register_event_serializer (ci_table ci) c None (ks_serializers s)\<rparr>"

section \<open>Registration\<close>

definition register_schema_registry_schemas ::
  "'c class_info \<Rightarrow> ('c, 'h) flow_map \<Rightarrow> ('c \<Rightarrow> string option) \<Rightarrow> (('c, 'h, 'r) kafka_service, unit) eff" where
  "register_schema_registry_schemas ci flows topic_for s =
     (case topic_event_schema_pairs flows topic_for of
        Inl e \<Rightarrow> (Inl e, s)
      | Inr ps \<Rightarrow> eff_for ps (\<lambda>(topic, c). ks_register_schema ci topic c) s)"

definition register_classes ::
  "'c class_info \<Rightarrow> 'c list \<Rightarrow> 'c set \<times> ('c, 'h, 'r) kafka_service \<Rightarrow> 'c set \<times> ('c, 'h, 'r) kafka_service" where
  "register_classes ci cs st = fold (\<lambda>c (seen, s).
       if c \<in> seen then (seen, s) else (insert c seen, ks_register_event_serializer ci c s)) cs st"

definition register_handlers ::
  "string \<Rightarrow> 'h list \<Rightarrow> (string \<times> 'h) set \<times> 'h handler_registry \<Rightarrow> (string \<times> 'h) set \<times> 'h handler_registry" where
  "register_handlers ev hs st = fold (\<lambda>h (seen, r).
       if (ev, h) \<in> seen then (seen, r) else (insert (ev, h) seen, reg_register ev h r)) hs st"

text \<open>The loop over the steps, with \<open>_registered_handlers\<close> and \<open>_registered_events\<close>.\<close>

fun register_steps ::
  "'c class_info \<Rightarrow> ('c, 'h) event_step list \<Rightarrow> (string \<times> 'h) set \<Rightarrow> 'c set \<Rightarrow> (('c, 'h, 'r) kafka_service, unit) eff" where
  "register_steps ci [] hseen cseen s = (Inr (), s)"
| "register_steps ci (st # sts) hseen cseen s =
     (case event_type_value (ci_model ci) (es_event st) of
        Inl e \<Rightarrow> (Inl e, s)
      | Inr ev \<Rightarrow>
          (let (cseen', s') = register_classes ci (step_classes st) (cseen, s);
               (hseen', r') = register_handlers ev (es_handlers st) (hseen, ks_handlers s')
           in register_steps ci sts hseen' cseen' (s'\<lparr>ks_handlers := r'\<rparr>)))"

definition register_handlers_from_flows ::
  "'c class_info \<Rightarrow> ('c, 'h) flow_map \<Rightarrow> ('c \<Rightarrow> string option) \<Rightarrow> (('c, 'h, 'r) kafka_service, unit) eff" where
  "register_handlers_from_flows ci flows topic_for s =
     (if \<not> ks_consumer_enabled s then (Inr (), s)
      else eff_bind (register_schema_registry_schemas ci flows topic_for)
        (\<lambda>_. register_steps ci (iter_flow_steps flows) {} {}) s)"

text \<open>\<open>register_event_handlers_for_app_module\<close> registers the schemas once more.\<close>

definition register_event_handlers_for_app_module ::
  "'c class_info \<Rightarrow> ('c, 'h) flow_map \<Rightarrow> ('c \<Rightarrow> string option) \<Rightarrow> (('c, 'h, 'r) kafka_service, unit) eff" where
  "register_event_handlers_for_app_module ci flows topic_for =
     eff_bind (register_handlers_from_flows ci flows topic_for)
       (\<lambda>_. register_schema_registry_schemas ci flows topic_for)"

section \<open>Visiting each class once\<close>

definition first_occurrences :: "'a list \<Rightarrow> 'a list" where
  "first_occurrences xs = rev (remdups (rev xs))"

lemma remdups_snoc: "remdups (xs @ [x]) = filter (\<lambda>y. y \<noteq> x) (remdups xs) @ [x]"
  by (induction xs) auto

lemma first_occurrences_Cons:
  "first_occurrences (x # xs) = x # filter (\<lambda>y. y \<noteq> x) (first_occurrences xs)"
  by (simp add: first_occurrences_def remdups_snoc rev_filter)

lemma unseen_filter: "unseen seen xs = filter (\<lambda>x. x \<notin> seen) (first_occurrences xs)"
proof (induction xs arbitrary: seen)
  case (Cons x xs)
  then show ?case
    by (auto simp: first_occurrences_Cons conj_commute intro!: filter_cong)
qed (simp add: first_occurrences_def)

lemma unseen_empty: "unseen {} xs = first_occurrences xs"
  by (simp add: unseen_filter)

lemma set_first_occurrences [simp]: "set (first_occurrences xs) = set xs"
  by (simp add: first_occurrences_def)

lemma distinct_first_occurrences [simp]: "distinct (first_occurrences xs)"
  by (simp add: first_occurrences_def)

lemma first_occurrences_Nil [simp]: "first_occurrences [] = []"
  by (simp add: first_occurrences_def)

lemma unseen_append: "unseen seen (xs @ ys) = unseen seen xs @ unseen (seen \<union> set xs) ys"
  by (induction xs arbitrary: seen) (auto simp: insert_absorb)

lemma first_occurrences_map_inj:
  "inj f \<Longrightarrow> first_occurrences (map f xs) = map f (first_occurrences xs)"
  by (induction xs) (simp_all add: first_occurrences_Cons filter_map o_def inj_eq)

lemma filter_first_occurrences: "filter P (first_occurrences xs) = first_occurrences (filter P xs)"
proof (induction xs)
  case (Cons x xs)
  show ?case
  proof (cases "P x")
    case True
    then show ?thesis
      by (simp add: first_occurrences_Cons Cons.IH [symmetric] conj_commute)
  next
    case False
    then have "(\<lambda>y. y \<noteq> x \<and> P y) = P" by auto
    with False show ?thesis by (simp add: first_occurrences_Cons Cons.IH)
  qed
qed simp

lemma filter_guarded_fold:
  "fold (\<lambda>x (seen, s). if x \<in> seen then (seen, s) else (insert x seen, f x s)) xs (seen, s) =
     (seen \<union> set xs, fold f (unseen seen xs) s)"
  by (induction xs arbitrary: seen s) (auto simp: insert_absorb)

section \<open>What registration does\<close>

definition step_pairs :: "('c \<Rightarrow> string) \<Rightarrow> ('c, 'h) event_step list \<Rightarrow> (string \<times> 'h) list" where
  "step_pairs et sts = concat (map (\<lambda>st. map (Pair (et (es_event st))) (es_handlers st)) sts)"

lemma step_pairs_Cons:
  "step_pairs et (st # sts) = map (Pair (et (es_event st))) (es_handlers st) @ step_pairs et sts"
  by (simp add: step_pairs_def)

definition put_handlers :: "(string \<times> 'h) list \<Rightarrow> 'h handler_registry \<Rightarrow> 'h handler_registry" where
  "put_handlers ps r = fold (\<lambda>p. reg_register (fst p) (snd p)) ps r"

definition put_serializers :: "'c class_info \<Rightarrow> 'c list \<Rightarrow> 'c serializers \<Rightarrow> 'c serializers" where
  "put_serializers ci cs reg = fold (\<lambda>c. register_event_serializer (ci_table ci) c None) cs reg"

lemma fold_serializers:
  "fold (ks_register_event_serializer ci) cs s =
     s\<lparr>ks_serializers := put_serializers ci cs (ks_serializers s)\<rparr>"
  by (induction cs arbitrary: s) (simp_all add: ks_register_event_serializer_def put_serializers_def)

lemma register_classes_eq:
  "register_classes ci cs (seen, s) =
     (seen \<union> set cs, s\<lparr>ks_serializers := put_serializers ci (unseen seen cs) (ks_serializers s)\<rparr>)"
  unfolding register_classes_def filter_guarded_fold fold_serializers ..

lemma register_handlers_eq:
  "register_handlers ev hs (seen, r) =
     (seen \<union> set (map (Pair ev) hs), put_handlers (unseen seen (map (Pair ev) hs)) r)"
  using filter_guarded_fold [of "\<lambda>p. reg_register (fst p) (snd p)" "map (Pair ev) hs" seen r]
  by (simp add: register_handlers_def put_handlers_def fold_map o_def cong: if_cong)

lemma put_append:
  "put_handlers (ps @ qs) r = put_handlers qs (put_handlers ps r)"
  "put_serializers ci (cs @ ds) reg = put_serializers ci ds (put_serializers ci cs reg)"
  by (simp_all add: put_handlers_def put_serializers_def)

lemma register_steps_ok:
  assumes "\<forall>st \<in> set sts. event_type_value (ci_model ci) (es_event st) = Inr (et (es_event st))"
  shows "register_steps ci sts hseen cseen s = (Inr (),
    s\<lparr>ks_serializers := put_serializers ci (unseen cseen (concat (map step_classes sts))) (ks_serializers s),
      ks_handlers := put_handlers (unseen hseen (step_pairs et sts)) (ks_handlers s)\<rparr>)"
  using assms
proof (induction sts arbitrary: hseen cseen s)
  case Nil
  then show ?case by (simp add: step_pairs_def put_serializers_def put_handlers_def)
next
  case (Cons st sts)
  then have "event_type_value (ci_model ci) (es_event st) = Inr (et (es_event st))" by simp
  moreover have "\<forall>st \<in> set sts. event_type_value (ci_model ci) (es_event st) = Inr (et (es_event st))"
    using Cons.prems by simp
  ultimately show ?case
    by (simp add: register_classes_eq register_handlers_eq Cons.IH step_pairs_Cons unseen_append put_append
        del: set_map)
qed

text \<open>The handler an event type ends up with.\<close>

lemma get_put_handlers:
  "reg_get_handler (put_handlers ps r) e = (case map snd (filter (\<lambda>p. fst p = e) ps) of
     [] \<Rightarrow> reg_get_handler r e | hs \<Rightarrow> Some (last hs))"
proof (induction ps rule: rev_induct)
  case (snoc p ps)
  then show ?case by (auto simp: put_handlers_def split: list.splits)
qed (simp add: put_handlers_def)

definition handlers_for :: "('c \<Rightarrow> string) \<Rightarrow> ('c, 'h) flow_map \<Rightarrow> string \<Rightarrow> 'h list" where
  "handlers_for et flows e = first_occurrences
     (concat (map es_handlers (filter (\<lambda>st. et (es_event st) = e) (iter_flow_steps flows))))"

lemma inj_Pair: "inj (Pair e)"
  by (simp add: inj_def)

lemma step_pairs_handlers:
  "map snd (filter (\<lambda>p. fst p = e) (first_occurrences (step_pairs et sts))) =
     first_occurrences (concat (map es_handlers (filter (\<lambda>st. et (es_event st) = e) sts)))"
proof -
  have *: "filter (\<lambda>p. fst p = e) (step_pairs et sts) =
      map (Pair e) (concat (map es_handlers (filter (\<lambda>st. et (es_event st) = e) sts)))"
    by (induction sts) (auto simp: step_pairs_def filter_map o_def)
  show ?thesis
    by (simp only: filter_first_occurrences * first_occurrences_map_inj [OF inj_Pair]) (simp add: o_def)
qed

lemma get_put_serializers:
  assumes "inj_on (get_serializer_name (ci_table ci)) (set cs)" and "c \<in> set cs"
  shows "put_serializers ci cs reg (get_serializer_name (ci_table ci) c) = Some c"
  using assms
proof (induction cs rule: rev_induct)
  case (snoc d cs)
  show ?case
  proof (cases "c = d")
    case True
    then show ?thesis by (simp add: put_serializers_def register_event_serializer_def or_str_def)
  next
    case False
    with snoc.prems have "get_serializer_name (ci_table ci) c \<noteq> get_serializer_name (ci_table ci) d"
      by (auto simp: inj_on_def)
    moreover have "put_serializers ci cs reg (get_serializer_name (ci_table ci) c) = Some c"
      using snoc False by (auto simp: inj_on_def)
    ultimately show ?thesis by (simp add: put_serializers_def register_event_serializer_def or_str_def)
  qed
qed simp

text \<open>The schemas and the channels.\<close>

lemma schema_pairs_ok:
  "\<forall>c \<in> set cs. topic_for c = Some (topic c) \<Longrightarrow> schema_pairs topic_for cs = Inr (map (\<lambda>c. (topic c, c)) cs)"
  by (induction cs) simp_all

lemma schema_pairs_unroutable:
  "c \<in> set cs \<Longrightarrow> topic_for c = None \<Longrightarrow> schema_pairs topic_for cs = Inl (ValueError ''not routable'')"
  by (induction cs) (auto split: option.splits)

lemma register_schemas_ok:
  assumes "ks_format s = fmt_avro \<longrightarrow> (\<forall>c \<in> set cs. schema_cls_to_avro_schema ci c = Inr (sch c) \<and>
      event_type_value (ci_model ci) c = Inr (et c))" and "ks_consumer_enabled s"
  shows "eff_for (map (\<lambda>c. (topic c, c)) cs) (\<lambda>(topic, c). ks_register_schema ci topic c) s = (Inr (),
    s\<lparr>ks_subscribed := ks_subscribed s \<union> topic ` set cs,
      ks_registry := if ks_format s = fmt_avro
        then sr_register_all (map (\<lambda>c. (topic c, sch c, et c)) cs) (ks_registry s) else ks_registry s\<rparr>)"
  using assms
proof (induction cs arbitrary: s)
  case Nil
  then show ?case by (cases s) (simp add: sr_register_all_def)
next
  case (Cons c cs)
  let ?s = "ks_subscribe (topic c) (if ks_format s = fmt_avro
    then s\<lparr>ks_registry := sr_register_topic_schema (topic c) (sch c) (Some (et c)) (ks_registry s)\<rparr> else s)"
  have "ks_register_schema ci (topic c) c s = (Inr (), ?s)"
    using Cons.prems(1) by (simp add: ks_register_schema_def)
  moreover have "ks_format ?s = ks_format s" "ks_consumer_enabled ?s = ks_consumer_enabled s"
    by (simp_all add: ks_subscribe_def)
  moreover have "ks_subscribed ?s = insert (topic c) (ks_subscribed s)"
    using Cons.prems(2) by (auto simp: ks_subscribe_def)
  ultimately show ?case
    using Cons.prems Cons.IH [of ?s]
    by (auto simp: ks_subscribe_def sr_register_all_def)
qed

lemma registration_ok:
  assumes "ks_consumer_enabled s" and "\<forall>c \<in> set (iter_flow_event_classes flows).
      topic_for c = Some (topic c) \<and> event_type_value (ci_model ci) c = Inr (et c) \<and>
      (ks_format s = fmt_avro \<longrightarrow> schema_cls_to_avro_schema ci c = Inr (sch c))"
  defines "cs \<equiv> iter_flow_event_classes flows"
  shows "register_handlers_from_flows ci flows topic_for s = (Inr (),
    s\<lparr>ks_subscribed := ks_subscribed s \<union> topic ` set cs,
      ks_registry := (if ks_format s = fmt_avro
        then sr_register_all (map (\<lambda>c. (topic c, sch c, et c)) cs) (ks_registry s) else ks_registry s),
      ks_serializers := put_serializers ci cs (ks_serializers s),
      ks_handlers := put_handlers (first_occurrences (step_pairs et (iter_flow_steps flows))) (ks_handlers s)\<rparr>)"
proof -
  have pairs: "topic_event_schema_pairs flows topic_for = Inr (map (\<lambda>c. (topic c, c)) cs)"
    using assms(2) unfolding topic_event_schema_pairs_def cs_def by (intro schema_pairs_ok) blast
  have steps: "\<forall>st \<in> set (iter_flow_steps flows). event_type_value (ci_model ci) (es_event st) = Inr (et (es_event st))"
    using assms(2) by (auto simp: iter_flow_event_classes_def unseen_empty step_classes_def)
  have "ks_format s = fmt_avro \<longrightarrow> (\<forall>c \<in> set cs. schema_cls_to_avro_schema ci c = Inr (sch c) \<and>
      event_type_value (ci_model ci) c = Inr (et c))"
    using assms(2) unfolding cs_def by blast
  from register_schemas_ok [OF this assms(1), of topic]
  have "register_schema_registry_schemas ci flows topic_for s = (Inr (),
      s\<lparr>ks_subscribed := ks_subscribed s \<union> topic ` set cs,
        ks_registry := if ks_format s = fmt_avro
          then sr_register_all (map (\<lambda>c. (topic c, sch c, et c)) cs) (ks_registry s) else ks_registry s\<rparr>)"
    by (simp only: register_schema_registry_schemas_def pairs sum.case)
  then show ?thesis
    using assms(1) unfolding register_handlers_from_flows_def eff_bind_def
    by (simp add: register_steps_ok [OF steps] unseen_empty cs_def iter_flow_event_classes_def)
qed

text \<open>An event class without a topic stops the registration before anything is registered.\<close>

lemma unroutable_registers_nothing:
  assumes "ks_consumer_enabled s" and "c \<in> set (iter_flow_event_classes flows)" and "topic_for c = None"
  shows "register_handlers_from_flows ci flows topic_for s = (Inl (ValueError ''not routable''), s)"
  using schema_pairs_unroutable [of c "iter_flow_event_classes flows" topic_for] assms
  by (simp add: register_handlers_from_flows_def register_schema_registry_schemas_def
      topic_event_schema_pairs_def eff_bind_def)

section \<open>Properties\<close>


text \<open>A step may list several handlers, but the registry keeps one per event type: after
  registration the handler of an event type is the last new one the flows list for it, and no other
  handler of that event type is ever called.\<close>
theorem flow_last_handler_wins:
  assumes "ks_consumer_enabled s" and "\<forall>c \<in> set (iter_flow_event_classes flows).
      topic_for c = Some (topic c) \<and> event_type_value (ci_model ci) c = Inr (et c) \<and>
      (ks_format s = fmt_avro \<longrightarrow> schema_cls_to_avro_schema ci c = Inr (sch c))"
  shows "reg_get_handler (ks_handlers (snd (register_handlers_from_flows ci flows topic_for s))) e =
    (case handlers_for et flows e of [] \<Rightarrow> reg_get_handler (ks_handlers s) e | hs \<Rightarrow> Some (last hs))"
  by (simp add: registration_ok [OF assms] get_put_handlers step_pairs_handlers handlers_for_def)

section \<open>Witnesses\<close>

text \<open>One flow of two steps on one topic, \<open>True\<close> with two handlers.\<close>

definition demo_ci :: "bool class_info" where
  "demo_ci = \<lparr>ci_structs = \<lambda>b. (if b then ''Registered'' else ''Welcomed'', [(''event_type'', A_str, No_default)]),
     ci_table = \<lambda>b. \<lparr>ec_name = if b then ''Registered'' else ''Welcomed'', ec_fields = []\<rparr>,
     ci_model = \<lambda>b. Msgspec_struct [(''event_type'', Some (if b then ''r'' else ''w''), None)],
     ci_base_event = \<lambda>_. True, ci_dataclass = \<lambda>_. False, ci_avro_model = \<lambda>_. None, ci_struct = \<lambda>_. True,
     ci_fuel = 2\<rparr>"

definition demo_flows :: "(bool, nat) flow_map" where
  "demo_flows = [(''users'', [\<lparr>es_event = True, es_handlers = [1, 2], es_emits = [False]\<rparr>,
     \<lparr>es_event = False, es_handlers = [3], es_emits = []\<rparr>])]"

definition demo_service :: "(bool, nat, avro list) kafka_service" where
  "demo_service = \<lparr>ks_format = ''schema-registry-avro'', ks_consumer_enabled = True, ks_subscribed = {},
     ks_registry = demo_sr, ks_serializers = Map.empty, ks_handlers = []\<rparr>"

lemma demo_flow_classes: "iter_flow_event_classes demo_flows = [True, False]"
  by code_simp

lemma demo_serializer_names:
  "get_serializer_name (ci_table demo_ci) True = ''registered_serializer''"
  "get_serializer_name (ci_table demo_ci) False = ''welcomed_serializer''"
  by code_simp+

lemma demo_registrable:
  "\<forall>c \<in> set (iter_flow_event_classes demo_flows).
     (\<lambda>_. Some ''iam'') c = Some ((\<lambda>_. ''iam'') c) \<and>
     event_type_value (ci_model demo_ci) c = Inr ((\<lambda>b. if b then ''r'' else ''w'') c) \<and>
     (ks_format demo_service = fmt_avro \<longrightarrow> schema_cls_to_avro_schema demo_ci c =
       Inr ((\<lambda>b. Av_record (if b then ''Registered'' else ''Welcomed'') [(''event_type'', Av_prim ''string'', None)]) c))"
  unfolding demo_flow_classes
  by (simp add: demo_ci_def event_type_value_def schema_cls_to_avro_schema_def convert_struct_to_avro_def
      struct_name_def struct_fields_def numeral_2_eq_2 avro_default_for_def)


theorem flow_last_handler_wins_witness:
  "reg_get_handler (ks_handlers (snd (register_handlers_from_flows demo_ci demo_flows (\<lambda>_. Some ''iam'') demo_service)))
     ''r'' = Some 2"
proof -
  have "ks_consumer_enabled demo_service" by (simp add: demo_service_def)
  moreover have "handlers_for (\<lambda>b. if b then ''r'' else ''w'') demo_flows ''r'' = [1, 2]" by code_simp
  ultimately show ?thesis
    using flow_last_handler_wins [where e = "''r''", OF _ demo_registrable] by simp
qed

end
