(* ===== verification/Event_Processor.thy ===== *)
theory Event_Processor
  imports Retry_Policy Event_Flow
begin

text \<open>
  Processing of one event: \<open>EventProcessorConfig\<close> (\<open>messaging/events/event_processor_config.py\<close>),
  \<open>EventProcessor\<close> (\<open>events/event_processor.py\<close>) and the result type of \<open>messaging/types.py\<close>. A
  handler is a computation on a world of its own that may return something that is no result
  (\<open>None\<close>). The retry counter of the event and the statistics are state. Spans, reports, log lines
  and the measured times are left out.
\<close>

section \<open>Configuration\<close>

record ep_config =
  epc_retry_enabled :: bool
  epc_max_retries :: int
  epc_retry_backoff_ms :: int
  epc_retry_exponential_base :: rat
  epc_retry_max_delay_ms :: int
  epc_retry_wait_strategy :: string
  epc_enable_dlq :: bool
  epc_enable_idempotency :: bool
  epc_enable_tracing :: bool
  epc_enable_metrics :: bool
  epc_retry_policy_name :: string
  epc_enable_parallel_execution :: bool
  epc_max_concurrent_tasks :: int

definition ep_config_default :: ep_config where
  "ep_config_default = \<lparr>epc_retry_enabled = False, epc_max_retries = 3, epc_retry_backoff_ms = 1000,
     epc_retry_exponential_base = 2, epc_retry_max_delay_ms = 60000, epc_retry_wait_strategy = ''exponential'',
     epc_enable_dlq = True, epc_enable_idempotency = False, epc_enable_tracing = True, epc_enable_metrics = True,
     epc_retry_policy_name = ''event_processor'', epc_enable_parallel_execution = False,
     epc_max_concurrent_tasks = 10\<rparr>"

definition epc_initial_delay_seconds :: "ep_config \<Rightarrow> rat" where
  "epc_initial_delay_seconds c = of_int (epc_retry_backoff_ms c) / 1000"

definition epc_max_delay_seconds :: "ep_config \<Rightarrow> rat" where
  "epc_max_delay_seconds c = of_int (epc_retry_max_delay_ms c) / 1000"

definition epc_validate :: "ep_config \<Rightarrow> py_exn + unit" where
  "epc_validate c =
     (if epc_max_retries c < 0 then Inl (ValueError ''max_retries'')
      else if epc_retry_backoff_ms c \<le> 0 then Inl (ValueError ''retry_backoff_ms'')
      else if epc_retry_exponential_base c \<le> 1 then Inl (ValueError ''retry_exponential_base'')
      else if epc_retry_max_delay_ms c \<le> 0 then Inl (ValueError ''retry_max_delay_ms'')
      else if epc_retry_wait_strategy c \<notin> {''exponential'', ''fixed''} then Inl (ValueError ''retry_wait_strategy'')
      else if epc_max_concurrent_tasks c \<le> 0 then Inl (ValueError ''max_concurrent_tasks'')
      else Inr ())"

text \<open>The constructor runs \<open>validate\<close>.\<close>

definition epc_init :: "ep_config \<Rightarrow> py_exn + ep_config" where
  "epc_init c = (case epc_validate c of Inl e \<Rightarrow> Inl e | Inr _ \<Rightarrow> Inr c)"

lemma epc_default_valid: "epc_init ep_config_default = Inr ep_config_default"
  by (simp add: epc_init_def epc_validate_def ep_config_default_def)

section \<open>EventProcessor\<close>

record processing_result =
  pr_event_id :: string
  pr_success :: "bool option"
  pr_message :: string
  pr_retry_count :: int
  pr_error :: "string option"
  pr_handler_name :: "string option"

text \<open>\<open>bool(result.success)\<close>\<close>

definition pr_truthy :: "processing_result \<Rightarrow> bool" where
  "pr_truthy r \<longleftrightarrow> pr_success r = Some True"

record 'w ep_state =
  ep_world :: 'w
  ep_retry_count :: int
  ep_retried :: int

text \<open>
  \<open>Retry(name=...)\<close>: \<open>TenacityRetry\<close> with its own defaults. Nothing of the configuration but the
  name reaches it.
\<close>

definition ep_retry_policy :: ten_retry where
  "ep_retry_policy = \<lparr>tr_max_attempts = 3, tr_initial_delay = 1, tr_max_delay = 60,
     tr_exponential_base = 2, tr_wait_strategy = ''exponential'', tr_exponential_multiplier = 1\<rparr>"

definition ep_count_failure :: "ep_config \<Rightarrow> 'w ep_state \<Rightarrow> 'w ep_state" where
  "ep_count_failure c s = s\<lparr>ep_retry_count := ep_retry_count s + 1,
     ep_retried := (if epc_enable_metrics c then ep_retried s + 1 else ep_retried s)\<rparr>"

text \<open>\<open>process_event_with_handler\<close>: one call of the handler.\<close>

definition ep_attempt ::
  "ep_config \<Rightarrow> string \<Rightarrow> ('w, processing_result option) eff \<Rightarrow> ('w ep_state, processing_result) eff" where
  "ep_attempt c hname handle s = (case handle (ep_world s) of (r, w) \<Rightarrow>
     (let s' = s\<lparr>ep_world := w\<rparr> in
      case r of
        Inr (Some res) \<Rightarrow> (Inr (res\<lparr>pr_handler_name := Some hname\<rparr>),
          if pr_truthy res then s' else ep_count_failure c s')
      | Inr None \<Rightarrow> (Inl (AttributeError ''processing_time_ms''), ep_count_failure c s')
      | Inl e \<Rightarrow> (Inl e, if is_exception e then ep_count_failure c s' else s')))"

definition ep_not_found :: "string \<Rightarrow> string \<Rightarrow> processing_result" where
  "ep_not_found event_id event_type = \<lparr>pr_event_id = event_id, pr_success = Some False,
     pr_message = ''Handler not found'', pr_retry_count = 0,
     pr_error = Some (''No handler for event type: '' @ event_type), pr_handler_name = None\<rparr>"

definition ep_failed :: "(py_exn \<Rightarrow> string) \<Rightarrow> string \<Rightarrow> string \<Rightarrow> int \<Rightarrow> py_exn \<Rightarrow> processing_result" where
  "ep_failed exn_str event_id hname n e = \<lparr>pr_event_id = event_id, pr_success = Some False,
     pr_message = ''Failed'', pr_retry_count = n, pr_error = Some (exn_str e), pr_handler_name = Some hname\<rparr>"

text \<open>
  The handler runs under the retry policy when \<open>retry_enabled\<close>. \<open>canc\<close> and \<open>intr\<close> are the
  cancellations of the retry loop.
\<close>

definition ep_run ::
  "ep_config \<Rightarrow> (nat \<Rightarrow> bool) \<Rightarrow> (nat \<Rightarrow> py_exn option) \<Rightarrow> ('w ep_state, processing_result) eff \<Rightarrow>
   ('w ep_state retry_run, processing_result) eff" where
  "ep_run c canc intr attempt =
     (if epc_retry_enabled c then ten_execute_async ep_retry_policy canc intr None attempt
      else call_func attempt)"

text \<open>
  \<open>process_event\<close>: \<open>registry\<close> is the global handler registry, \<open>handle h\<close> the method
  \<open>handle_event\<close> of the handler \<open>h\<close> on the event, \<open>hname h\<close> its \<open>handler_name\<close>.
\<close>

definition process_event ::
  "ep_config \<Rightarrow> (nat \<Rightarrow> bool) \<Rightarrow> (nat \<Rightarrow> py_exn option) \<Rightarrow> (py_exn \<Rightarrow> string) \<Rightarrow>
   ('h \<Rightarrow> string) \<Rightarrow> ('h \<Rightarrow> ('w, processing_result option) eff) \<Rightarrow> 'h handler_registry \<Rightarrow>
   string \<Rightarrow> string \<Rightarrow> 'h option \<Rightarrow> ('w ep_state retry_run, processing_result) eff" where
  "process_event c canc intr exn_str hname handle registry event_id event_type given s =
     (case (case given of Some h \<Rightarrow> Some h | None \<Rightarrow> reg_get_handler registry event_type) of
        None \<Rightarrow> (Inr (ep_not_found event_id event_type), s)
      | Some h \<Rightarrow> (case ep_run c canc intr (ep_attempt c (hname h) (handle h)) s of
            (Inr r, s') \<Rightarrow> (Inr r, s')
          | (Inl e, s') \<Rightarrow>
              if is_exception e
              then (Inr (ep_failed exn_str event_id (hname h) (ep_retry_count (world s')) e), s')
              else (Inl e, s')))"

section \<open>One attempt\<close>

text \<open>An attempt that does not succeed is counted, unless it was cancelled.\<close>

definition attempt_failed :: "py_exn + processing_result \<Rightarrow> bool" where
  "attempt_failed r = (case r of Inl e \<Rightarrow> is_exception e | Inr res \<Rightarrow> \<not> pr_truthy res)"

lemma ep_attempt_count:
  "ep_retry_count (snd (ep_attempt c hname handle s)) =
     ep_retry_count s + (if attempt_failed (fst (ep_attempt c hname handle s)) then 1 else 0)"
  by (auto simp: ep_attempt_def ep_count_failure_def attempt_failed_def pr_truthy_def Let_def
      split: prod.splits sum.splits option.splits)

lemma ep_attempt_retried:
  "ep_retried (snd (ep_attempt c hname handle s)) = ep_retried s +
     (if epc_enable_metrics c \<and> attempt_failed (fst (ep_attempt c hname handle s)) then 1 else 0)"
  by (auto simp: ep_attempt_def ep_count_failure_def attempt_failed_def pr_truthy_def Let_def
      split: prod.splits sum.splits option.splits)

text \<open>
  Under the retry loop the counter of the event grows by one for each call that failed: every call
  but the last, and the last one if it failed as well.
\<close>

lemma retry_loop_counts:
  assumes "ep_run_loop = retry_loop nd canc intr maxa None (ep_attempt c hname handle)"
    and "ep_run_loop n k prev s = (r, s')"
  shows "ep_retry_count (world s') - ep_retry_count (world s) \<le> int (calls s') - int (calls s) \<and> calls s \<le> calls s' \<and>
    calls s' \<le> calls s + k \<and> ep_retry_count (world s) \<le> ep_retry_count (world s')"
  using assms(2) unfolding assms(1)
proof (induction k arbitrary: n prev s)
  case 0
  then show ?case by (auto split: option.splits)
next
  case (Suc k)
  show ?case
  proof (cases "canc n")
    case True
    with Suc.prems show ?thesis by auto
  next
    case False
    obtain x s1 where call: "call_func (ep_attempt c hname handle) s = (x, s1)" by fastforce
    then have calls1: "calls s1 = Suc (calls s)" using call_func_simps(1) [of "ep_attempt c hname handle" s] by simp
    have count1: "ep_retry_count (world s) \<le> ep_retry_count (world s1)"
      "ep_retry_count (world s1) \<le> ep_retry_count (world s) + 1"
      using call ep_attempt_count [of c hname handle "world s"]
      by (auto simp: call_func_def split: prod.splits if_splits)
    show ?thesis
    proof (cases "s' = s1")
      case True
      with calls1 count1 show ?thesis by simp
    next
      case False
      with Suc.prems call \<open>\<not> canc n\<close> obtain e d where
        "retry_loop nd canc intr maxa None (ep_attempt c hname handle) (Suc n) k (Some e)
           (s1\<lparr>slept := slept s1 @ [d]\<rparr>) = (r, s')"
        by (auto simp: do_sleep_def split: sum.splits if_splits option.splits prod.splits)
      from Suc.IH [OF this] calls1 count1 show ?thesis by simp
    qed
  qed
qed

lemma ep_run_counts:
  assumes "ep_run c canc intr (ep_attempt c hname handle) s = (r, s')"
  shows "ep_retry_count (world s) \<le> ep_retry_count (world s')"
    and "ep_retry_count (world s') \<le> ep_retry_count (world s) + (if epc_retry_enabled c then 3 else 1)"
proof -
  have "ep_retry_count (world s) \<le> ep_retry_count (world s') \<and>
    ep_retry_count (world s') \<le> ep_retry_count (world s) + (if epc_retry_enabled c then 3 else 1)"
  proof (cases "epc_retry_enabled c")
    case True
    with assms have "retry_loop (ten_get_next_delay ep_retry_policy 0) canc intr 3 None (ep_attempt c hname handle) 0 3 None s = (r, s')"
      by (simp add: ep_run_def ten_execute_async_def ep_retry_policy_def)
    from retry_loop_counts [OF refl this] True show ?thesis by simp
  next
    case False
    with assms show ?thesis
      using ep_attempt_count [of c hname handle "world s"]
      by (auto simp: ep_run_def call_func_def split: prod.splits if_splits)
  qed
  then show "ep_retry_count (world s) \<le> ep_retry_count (world s')"
    and "ep_retry_count (world s') \<le> ep_retry_count (world s) + (if epc_retry_enabled c then 3 else 1)"
    by blast+
qed

text \<open>A handler that returns, whatever it returns, is called once.\<close>

lemma ep_run_returned:
  assumes "\<not> canc 0" and "ep_attempt c hname handle (world s) = (Inr res, w)"
  shows "ep_run c canc intr (ep_attempt c hname handle) s = (Inr res, s\<lparr>world := w, calls := Suc (calls s)\<rparr>)"
  using assms
  by (simp add: ep_run_def ten_execute_async_def ep_retry_policy_def call_func_def numeral_3_eq_3)

lemma ep_run_failed_once:
  assumes "\<not> epc_retry_enabled c" and "ep_attempt c hname handle (world s) = (Inl e, w)"
  shows "ep_run c canc intr (ep_attempt c hname handle) s = (Inl e, s\<lparr>world := w, calls := Suc (calls s)\<rparr>)"
  using assms by (simp add: ep_run_def call_func_def)

lemma process_event_counts:
  assumes "process_event c canc intr exn_str hname handle registry event_id event_type given s = (r, s')"
  shows "ep_retry_count (world s) \<le> ep_retry_count (world s') \<and>
    ep_retry_count (world s') \<le> ep_retry_count (world s) + (if epc_retry_enabled c then 3 else 1)"
proof (cases "case given of Some h \<Rightarrow> Some h | None \<Rightarrow> reg_get_handler registry event_type")
  case None
  with assms show ?thesis by (auto simp: process_event_def)
next
  case (Some h)
  obtain x s1 where run: "ep_run c canc intr (ep_attempt c (hname h) (handle h)) s = (x, s1)" by fastforce
  with assms Some have "s' = s1"
    by (cases x) (auto simp: process_event_def split: if_splits)
  with ep_run_counts [OF run] show ?thesis by simp
qed

lemma process_event_no_exception:
  assumes "process_event c canc intr exn_str hname handle registry event_id event_type given s = (Inl e, s')"
  shows "\<not> is_exception e"
  using assms by (auto simp: process_event_def split: option.splits sum.splits prod.splits if_splits)

section \<open>Properties\<close>

text \<open>Processing an event never raises an \<open>Exception\<close>, and the counter that decides about
  the dead letter queue grows by at most one per delivery when retries are off (the default), by
  at most three when they are on, whatever \<open>max_retries\<close> is configured.\<close>
theorem process_event_contained:
  "case process_event c canc intr exn_str hname handle registry event_id event_type given s of (r, s') \<Rightarrow>
     (case r of Inl e \<Rightarrow> \<not> is_exception e | Inr res \<Rightarrow> True) \<and>
     ep_retry_count (world s) \<le> ep_retry_count (world s') \<and>
     ep_retry_count (world s') \<le> ep_retry_count (world s) + (if epc_retry_enabled c then 3 else 1)"
  using process_event_counts [of c canc intr exn_str hname handle registry event_id event_type given s]
    process_event_no_exception [of c canc intr exn_str hname handle registry event_id event_type given s]
  by (auto split: prod.splits sum.splits)

text \<open>A handler that returns a failed result is not retried, with or without a retry policy: the
  failure is counted on the event, but the exception the code builds from it is not raised, so
  the policy sees a success and returns the failed result of the only call.\<close>
theorem returned_failure_not_retried:
  assumes "reg_get_handler registry event_type = Some h" and "\<not> canc 0"
    and "handle h (ep_world (world s)) = (Inr (Some res), w)" and "\<not> pr_truthy res"
  shows "\<exists>s'. process_event c canc intr exn_str hname handle registry event_id event_type None s =
      (Inr (res\<lparr>pr_handler_name := Some (hname h)\<rparr>), s') \<and> calls s' = Suc (calls s) \<and>
    ep_retry_count (world s') = ep_retry_count (world s) + 1"
proof -
  have "ep_attempt c (hname h) (handle h) (world s) =
      (Inr (res\<lparr>pr_handler_name := Some (hname h)\<rparr>), ep_count_failure c ((world s)\<lparr>ep_world := w\<rparr>))"
    using assms(3,4) by (simp add: ep_attempt_def Let_def)
  from ep_run_returned [where canc = canc and c = c and hname = "hname h" and handle = "handle h" and s = s,
      OF assms(2) this] assms(1) show ?thesis
    by (simp add: process_event_def ep_count_failure_def)
qed

theorem returned_failure_not_retried_witness:
  "\<exists>s'. process_event (ep_config_default\<lparr>epc_retry_enabled := True\<rparr>) (\<lambda>_. False) (\<lambda>_. None) (\<lambda>_. [])
      (\<lambda>h. ''H'') (\<lambda>h w. (Inr (Some (ep_not_found ''e1'' ''t'')), Suc w)) [(''t'', ())] ''e1'' ''t'' None
      \<lparr>world = \<lparr>ep_world = 0, ep_retry_count = 0, ep_retried = 0\<rparr>, calls = 0, slept = []\<rparr> =
      (Inr ((ep_not_found ''e1'' ''t'')\<lparr>pr_handler_name := Some ''H''\<rparr>), s') \<and> calls s' = 1 \<and>
    ep_retry_count (world s') = 1"
  using returned_failure_not_retried [of "[(''t'', ())]" "''t''" "()" "\<lambda>_. False"
      "\<lambda>h w. (Inr (Some (ep_not_found ''e1'' ''t'')), Suc w)"
      "\<lparr>world = \<lparr>ep_world = 0, ep_retry_count = 0, ep_retried = 0\<rparr>, calls = 0, slept = []\<rparr>"
      "ep_not_found ''e1'' ''t''" 1 "ep_config_default\<lparr>epc_retry_enabled := True\<rparr>" "\<lambda>_. None" "\<lambda>_. []" "\<lambda>h. ''H''" "''e1''"]
  by (simp add: reg_get_handler_def ep_not_found_def pr_truthy_def)

end
