(* ===== verification/Kafka_Consumer.thy ===== *)
theory Kafka_Consumer
  imports Event_Processor
begin

text \<open>
  The consumption of a Kafka partition: \<open>AiokafkaMessagingService\<close>
  (\<open>messaging_kafka/aiokafka_messaging.py\<close>), the same step of \<open>FastStreamKafkaMessagingService\<close>
  (\<open>messaging_faststream/faststream_aiokafka_impl.py\<close>), and \<open>send_to_dlq\<close> of
  \<open>messaging/base_messaging.py\<close>. The state has the position of the consumer (the offset of the next
  message it fetches) and the committed offset, where a restarted consumer goes on; \<open>commit()\<close>
  without arguments commits the position. Decoding, dispatch and encoding are the definitions of
  the theories below; the broker, the handlers and the codec are parameters. The event type and
  identifier of an event are strings and its retry count an integer. Trace headers, reports and
  log lines are left out.
\<close>

section \<open>Configuration and state\<close>

record kc_config =
  kcc_dlq_enabled :: bool
  kcc_dlq_topic :: string
  kcc_max_retries :: int
  kcc_auto_commit :: bool
  kcc_ep :: ep_config

text \<open>
  The surroundings of a consumer: event classes, registered serializers, codecs, handlers, the
  clock, the producer of the dead letter topic (\<open>None\<close> when it was not started) and the commits
  the broker refuses.
\<close>

record ('c, 'h, 'w, 's, 'b) kc_env =
  ke_config :: kc_config
  ke_tbl :: "'c class_table"
  ke_fresh :: "string \<Rightarrow> py_data"
  ke_base :: 'c
  ke_serializers :: "'c serializers"
  ke_codecs :: codecs
  ke_encoder :: msg_encoder
  ke_sr :: "'s sr_codec option"
  ke_handlers :: "'h handler_registry"
  ke_hname :: "'h \<Rightarrow> string"
  ke_handle :: "'h \<Rightarrow> 'c event \<Rightarrow> ('w, processing_result option) eff"
  ke_canc :: "nat \<Rightarrow> bool"
  ke_intr :: "nat \<Rightarrow> py_exn option"
  ke_exn_str :: "py_exn \<Rightarrow> string"
  ke_now :: int
  ke_dlq_send :: "(string \<Rightarrow> encoded \<Rightarrow> ('b, unit) eff) option"
  ke_commit_fails :: "nat \<Rightarrow> bool"

record kafka_record =
  kr_topic :: string
  kr_value :: "bytes option"

text \<open>\<open>messages_retried\<close> is shared with the event processor, which has the same \<open>stats\<close> object.\<close>

record ('w, 's, 'b) kc_state =
  kc_position :: nat
  kc_committed :: nat
  kc_processed :: int
  kc_failed :: int
  kc_retried :: int
  kc_dlq_sent :: int
  kc_world :: 'w
  kc_codec :: 's
  kc_broker :: 'b

fun event_str :: "'c event \<Rightarrow> string \<Rightarrow> string" where
  "event_str (Event c fs) nm = (case map_of fs nm of Some (P_str s) \<Rightarrow> s | _ \<Rightarrow> [])"

fun event_retry_count :: "'c event \<Rightarrow> int" where
  "event_retry_count (Event c fs) = (case map_of fs ''retry_count'' of Some (P_int n) \<Rightarrow> n | _ \<Rightarrow> 0)"

text \<open>\<open>event.retry_count = n\<close>\<close>

fun set_retry_count :: "int \<Rightarrow> 'c event \<Rightarrow> 'c event" where
  "set_retry_count n (Event c fs) = Event c (map (\<lambda>(k, v). if k = ''retry_count'' then (k, P_int n) else (k, v)) fs)"

section \<open>Dispatch and the dead letter topic\<close>

definition kc_decode ::
  "('c, 'h, 'w, 's, 'b) kc_env \<Rightarrow> string \<Rightarrow> bytes \<Rightarrow> 's \<Rightarrow> (py_exn + 'c message) \<times> 's" where
  "kc_decode env topic bs s = decode_msg (ke_tbl env) (ke_fresh env) (ke_base env) (ke_serializers env)
     (ke_codecs env) (ke_encoder env) (ke_sr env) (Some topic) (R_bytes bs) s"

text \<open>
  \<open>event_processor.process_event(event, traceparent)\<close>: the result, and the event with the retry count
  the processor left on it.
\<close>

definition kc_dispatch ::
  "('c, 'h, 'w, 's, 'b) kc_env \<Rightarrow> 'c event \<Rightarrow> ('w, 's, 'b) kc_state \<Rightarrow>
   (py_exn + processing_result) \<times> 'c event \<times> ('w, 's, 'b) kc_state" where
  "kc_dispatch env ev s =
     (case process_event (kcc_ep (ke_config env)) (ke_canc env) (ke_intr env) (ke_exn_str env) (ke_hname env)
        (\<lambda>h. ke_handle env h ev) (ke_handlers env) (event_str ev ''event_id'') (event_str ev ''event_type'') None
        \<lparr>world = \<lparr>ep_world = kc_world s, ep_retry_count = event_retry_count ev, ep_retried = kc_retried s\<rparr>,
         calls = 0, slept = []\<rparr> of
      (r, run) \<Rightarrow> (r, set_retry_count (ep_retry_count (world run)) ev,
        s\<lparr>kc_world := ep_world (world run), kc_retried := ep_retried (world run)\<rparr>))"

definition maybe_commit :: "('c, 'h, 'w, 's, 'b) kc_env \<Rightarrow> ('w, 's, 'b) kc_state \<Rightarrow> ('w, 's, 'b) kc_state" where
  "maybe_commit env s =
     (if kcc_auto_commit (ke_config env) \<or> ke_commit_fails env (kc_position s) then s
      else s\<lparr>kc_committed := kc_position s\<rparr>)"

definition publish_dlq_event ::
  "('c, 'h, 'w, 's, 'b) kc_env \<Rightarrow> dlq_event \<Rightarrow> (('w, 's, 'b) kc_state, unit) eff" where
  "publish_dlq_event env d s =
     (if \<not> kcc_dlq_enabled (ke_config env) then (Inr (), s)
      else case ke_dlq_send env of
        None \<Rightarrow> (Inl (RuntimeError ''DLQ producer''), s)
      | Some send \<Rightarrow> (case encode_msg (ke_codecs env) (ke_encoder env) (ke_sr env)
            (Some (kcc_dlq_topic (ke_config env))) (S_dlq d :: 'c sendable) (kc_codec s) of
          (Inl e, t) \<Rightarrow> (Inl e, s\<lparr>kc_codec := t\<rparr>)
        | (Inr x, t) \<Rightarrow> (case send (kcc_dlq_topic (ke_config env)) x (kc_broker s) of
              (r, b) \<Rightarrow> (r, s\<lparr>kc_codec := t, kc_broker := b\<rparr>))))"

text \<open>
  \<open>send_to_dlq\<close> with the \<open>_publish_dlq_event\<close> of the service: an exception is reported and raised
  again.
\<close>

definition send_to_dlq ::
  "('c, 'h, 'w, 's, 'b) kc_env \<Rightarrow> (dlq_event \<Rightarrow> (('w, 's, 'b) kc_state, unit) eff) \<Rightarrow>
   'c event \<Rightarrow> string option \<Rightarrow> (('w, 's, 'b) kc_state, unit) eff" where
  "send_to_dlq env publish ev error s =
     (case dlq_event_post_init \<lparr>dq_original_event = event_as_dict ev, dq_error = or_str error ''Unknown error'',
        dq_failed_at = ke_now env, dq_retry_count = event_retry_count ev, dq_handler_name = None\<rparr> of
      Inl e \<Rightarrow> (Inl e, s) | Inr d \<Rightarrow> publish d s)"

fun is_decoder_error :: "py_exn \<Rightarrow> bool" where
  "is_decoder_error (MsgDecoderError c) \<longleftrightarrow> True"
| "is_decoder_error _ \<longleftrightarrow> False"

section \<open>AiokafkaMessagingService\<close>

definition kc_count_failed :: "('w, 's, 'b) kc_state \<Rightarrow> ('w, 's, 'b) kc_state" where
  "kc_count_failed s = s\<lparr>kc_failed := kc_failed s + 1\<rparr>"

text \<open>\<open>_process_message\<close> after decoding\<close>

definition ak_handle_event ::
  "('c, 'h, 'w, 's, 'b) kc_env \<Rightarrow> 'c event \<Rightarrow> (('w, 's, 'b) kc_state, unit) eff" where
  "ak_handle_event env ev s = (case kc_dispatch env ev s of
     (Inl e, ev', s') \<Rightarrow>
       if is_exception e then (Inr (), maybe_commit env (kc_count_failed s')) else (Inl e, s')
   | (Inr res, ev', s') \<Rightarrow>
       if pr_truthy res then (Inr (), maybe_commit env (s'\<lparr>kc_processed := kc_processed s' + 1\<rparr>))
       else (let s1 = kc_count_failed s' in
         if kcc_dlq_enabled (ke_config env) \<and> event_retry_count ev' \<ge> kcc_max_retries (ke_config env) then
           (case send_to_dlq env (publish_dlq_event env) ev' (pr_error res) s1 of
              (Inl e, s2) \<Rightarrow> (Inl e, s2)
            | (Inr _, s2) \<Rightarrow> (Inr (), maybe_commit env (s2\<lparr>kc_dlq_sent := kc_dlq_sent s2 + 1\<rparr>)))
         else if kcc_dlq_enabled (ke_config env) then (Inr (), s1\<lparr>kc_retried := kc_retried s1 + 1\<rparr>)
         else (Inr (), s1)))"

text \<open>
  A message that decodes to plain data has no \<open>event_id\<close>: the first log line reads the attribute
  outside any \<open>try\<close>.
\<close>

definition ak_process_message ::
  "('c, 'h, 'w, 's, 'b) kc_env \<Rightarrow> kafka_record \<Rightarrow> (('w, 's, 'b) kc_state, unit) eff" where
  "ak_process_message env m s = (case kr_value m of
     None \<Rightarrow> (Inr (), s)
   | Some bs \<Rightarrow> (case kc_decode env (kr_topic m) bs (kc_codec s) of
       (Inl e, t) \<Rightarrow>
         if is_decoder_error e then (Inr (), maybe_commit env (kc_count_failed (s\<lparr>kc_codec := t\<rparr>)))
         else (Inl e, s\<lparr>kc_codec := t\<rparr>)
     | (Inr (M_data d), t) \<Rightarrow> (Inl (AttributeError ''event_id''), s\<lparr>kc_codec := t\<rparr>)
     | (Inr (M_event ev), t) \<Rightarrow> ak_handle_event env ev (s\<lparr>kc_codec := t\<rparr>)))"

text \<open>
  \<open>_run_consuming(max_workers=1)\<close>: fetching a message moves the position; \<open>CancelledError\<close> ends
  the loop, another exception is raised out of it.
\<close>

fun ak_consume ::
  "('c, 'h, 'w, 's, 'b) kc_env \<Rightarrow> kafka_record list \<Rightarrow> (('w, 's, 'b) kc_state, unit) eff" where
  "ak_consume env [] s = (Inr (), s)"
| "ak_consume env (m # ms) s = (case ak_process_message env m (s\<lparr>kc_position := kc_position s + 1\<rparr>) of
     (Inl e, s') \<Rightarrow> if e = CancelledError then (Inr (), s') else (Inl e, s')
   | (Inr _, s') \<Rightarrow> ak_consume env ms s')"

section \<open>FastStreamKafkaMessagingService\<close>

text \<open>Offsets are committed by FastStream; the handler only counts and sends to the dead letter topic.\<close>

definition fs_publish_dlq_event ::
  "('c, 'h, 'w, 's, 'b) kc_env \<Rightarrow> dlq_event \<Rightarrow> (('w, 's, 'b) kc_state, unit) eff" where
  "fs_publish_dlq_event env d s =
     (case encode_msg (ke_codecs env) (ke_encoder env) (ke_sr env)
        (Some (kcc_dlq_topic (ke_config env))) (S_dlq d :: 'c sendable) (kc_codec s) of
      (Inl e, t) \<Rightarrow> (Inl e, s\<lparr>kc_codec := t\<rparr>)
    | (Inr x, t) \<Rightarrow> (case ke_dlq_send env of
          None \<Rightarrow> (Inl (RuntimeError ''Producer''), s\<lparr>kc_codec := t\<rparr>)
        | Some send \<Rightarrow> (case send (kcc_dlq_topic (ke_config env)) x (kc_broker s) of
              (r, b) \<Rightarrow> (r, s\<lparr>kc_codec := t, kc_broker := b\<rparr>))))"

definition fs_handle_event ::
  "('c, 'h, 'w, 's, 'b) kc_env \<Rightarrow> 'c event \<Rightarrow> (('w, 's, 'b) kc_state, unit) eff" where
  "fs_handle_event env ev s = (case kc_dispatch env ev s of
     (Inl e, ev', s') \<Rightarrow> (Inl e, s')
   | (Inr res, ev', s') \<Rightarrow>
       if pr_truthy res then (Inr (), s'\<lparr>kc_processed := kc_processed s' + 1\<rparr>)
       else (let s1 = kc_count_failed s' in
         if \<not> kcc_dlq_enabled (ke_config env) then (Inr (), s1)
         else if event_retry_count ev' \<ge> kcc_max_retries (ke_config env) then
           (case send_to_dlq env (fs_publish_dlq_event env) ev' (pr_error res) s1 of
              (Inl e, s2) \<Rightarrow> (Inl e, s2) | (Inr _, s2) \<Rightarrow> (Inr (), s2\<lparr>kc_dlq_sent := kc_dlq_sent s2 + 1\<rparr>))
         else (Inr (), s1\<lparr>kc_retried := kc_retried s1 + 1\<rparr>)))"

datatype fs_raw = FS_none | FS_bytes bytes | FS_dict py_data | FS_other

definition fs_decode ::
  "('c, 'h, 'w, 's, 'b) kc_env \<Rightarrow> string \<Rightarrow> fs_raw \<Rightarrow> 's \<Rightarrow> (py_exn + 'c message) \<times> 's" where
  "fs_decode env topic raw t = (case raw of
     FS_bytes bs \<Rightarrow> kc_decode env topic bs t
   | FS_dict d \<Rightarrow> (reconstruct_event (ke_tbl env) (ke_fresh env) (cd_fromisoformat (ke_codecs env))
         (ke_base env) (ke_serializers env) d, t)
   | _ \<Rightarrow> (Inl (MsgDecoderError ''''), t))"

definition fs_process_message ::
  "('c, 'h, 'w, 's, 'b) kc_env \<Rightarrow> string \<Rightarrow> fs_raw \<Rightarrow> (('w, 's, 'b) kc_state, unit) eff" where
  "fs_process_message env topic raw s =
     (if raw = FS_none then (Inr (), s)
      else case fs_decode env topic raw (kc_codec s) of
        (Inl e, t) \<Rightarrow> if is_decoder_error e then (Inr (), kc_count_failed (s\<lparr>kc_codec := t\<rparr>))
                      else (Inl e, s\<lparr>kc_codec := t\<rparr>)
      | (Inr (M_data d), t) \<Rightarrow> (Inl (AttributeError ''event_type''), s\<lparr>kc_codec := t\<rparr>)
      | (Inr (M_event ev), t) \<Rightarrow> fs_handle_event env ev (s\<lparr>kc_codec := t\<rparr>))"

text \<open>\<open>_main_handler\<close> reports every \<open>Exception\<close> and returns, so FastStream takes the message as done.\<close>

definition fs_main_handler ::
  "('c, 'h, 'w, 's, 'b) kc_env \<Rightarrow> string \<Rightarrow> fs_raw \<Rightarrow> (('w, 's, 'b) kc_state, unit) eff" where
  "fs_main_handler env topic raw =
     eff_catch (fs_process_message env topic raw) is_exception (\<lambda>e. eff_return ())"

section \<open>What a step changes\<close>

lemma kc_dispatch_frame:
  assumes "kc_dispatch env ev s = (r, ev', s')"
  shows "kc_position s' = kc_position s" "kc_committed s' = kc_committed s" "kc_processed s' = kc_processed s"
    "kc_failed s' = kc_failed s" "kc_dlq_sent s' = kc_dlq_sent s" "kc_codec s' = kc_codec s" "kc_broker s' = kc_broker s"
  using assms by (auto simp: kc_dispatch_def split: prod.splits)

lemma set_retry_count_bound:
  "n \<le> event_retry_count ev + d \<Longrightarrow> 0 \<le> d \<Longrightarrow> event_retry_count (set_retry_count n ev) \<le> event_retry_count ev + d"
proof (cases ev)
  case (Event c fs)
  have "map_of (map (\<lambda>(k, v). if k = ''retry_count'' then (k, P_int n) else (k, v)) fs) ''retry_count'' =
      map_option (\<lambda>_. P_int n) (map_of fs ''retry_count'')"
    by (induction fs) auto
  moreover assume "n \<le> event_retry_count ev + d" "0 \<le> d"
  ultimately show ?thesis by (cases "map_of fs ''retry_count''") (simp_all add: Event)
qed

lemma kc_dispatch_retry_count:
  assumes "kc_dispatch env ev s = (r, ev', s')"
  shows "event_retry_count ev' \<le> event_retry_count ev + (if epc_retry_enabled (kcc_ep (ke_config env)) then 3 else 1)"
proof -
  from assms obtain run where
    p: "process_event (kcc_ep (ke_config env)) (ke_canc env) (ke_intr env) (ke_exn_str env) (ke_hname env)
        (\<lambda>h. ke_handle env h ev) (ke_handlers env) (event_str ev ''event_id'') (event_str ev ''event_type'') None
        \<lparr>world = \<lparr>ep_world = kc_world s, ep_retry_count = event_retry_count ev, ep_retried = kc_retried s\<rparr>,
         calls = 0, slept = []\<rparr> = (r, run)"
    and ev': "ev' = set_retry_count (ep_retry_count (world run)) ev"
    by (auto simp: kc_dispatch_def split: prod.splits)
  from process_event_counts [OF p] show ?thesis
    unfolding ev' by (intro set_retry_count_bound) simp_all
qed

lemma publish_dlq_frame:
  assumes "publish_dlq_event env d s = (r, s')"
  shows "kc_position s' = kc_position s" "kc_committed s' = kc_committed s" "kc_processed s' = kc_processed s"
    "kc_failed s' = kc_failed s" "kc_dlq_sent s' = kc_dlq_sent s"
  using assms by (auto simp: publish_dlq_event_def split: if_splits option.splits prod.splits sum.splits)

lemma send_to_dlq_frame:
  assumes "send_to_dlq env (publish_dlq_event env) ev error s = (r, s')"
  shows "kc_position s' = kc_position s" "kc_committed s' = kc_committed s" "kc_processed s' = kc_processed s"
    "kc_failed s' = kc_failed s" "kc_dlq_sent s' = kc_dlq_sent s"
  using assms by (auto simp: send_to_dlq_def publish_dlq_frame split: sum.splits)

lemma maybe_commit_simps [simp]:
  "kc_position (maybe_commit env s) = kc_position s" "kc_processed (maybe_commit env s) = kc_processed s"
  "kc_failed (maybe_commit env s) = kc_failed s" "kc_dlq_sent (maybe_commit env s) = kc_dlq_sent s"
  "kc_broker (maybe_commit env s) = kc_broker s" "kc_codec (maybe_commit env s) = kc_codec s"
  "kc_retried (maybe_commit env s) = kc_retried s"
  by (simp_all add: maybe_commit_def)

lemma maybe_commit_committed:
  "kc_committed (maybe_commit env s) = kc_committed s \<or> kc_committed (maybe_commit env s) = kc_position s"
  by (simp add: maybe_commit_def)

lemma kc_count_failed_simps [simp]:
  "kc_position (kc_count_failed s) = kc_position s" "kc_processed (kc_count_failed s) = kc_processed s"
  "kc_failed (kc_count_failed s) = kc_failed s + 1" "kc_dlq_sent (kc_count_failed s) = kc_dlq_sent s"
  "kc_broker (kc_count_failed s) = kc_broker s" "kc_committed (kc_count_failed s) = kc_committed s"
  "kc_retried (kc_count_failed s) = kc_retried s" "kc_codec (kc_count_failed s) = kc_codec s"
  by (simp_all add: kc_count_failed_def)

text \<open>What one message does to the counters and the offsets, whatever its outcome.\<close>

definition kc_step_ok :: "('w, 's, 'b) kc_state \<Rightarrow> ('w, 's, 'b) kc_state \<Rightarrow> bool" where
  "kc_step_ok s s' \<longleftrightarrow> kc_position s' = kc_position s \<and>
     (kc_committed s' = kc_committed s \<or> kc_committed s' = kc_position s) \<and>
     kc_processed s \<le> kc_processed s' \<and> kc_failed s \<le> kc_failed s' \<and> kc_dlq_sent s \<le> kc_dlq_sent s' \<and>
     kc_processed s' + kc_failed s' \<le> kc_processed s + kc_failed s + 1 \<and>
     kc_dlq_sent s' - kc_dlq_sent s \<le> kc_failed s' - kc_failed s"

lemma kc_step_ok_commit:
  "kc_step_ok s s' \<Longrightarrow> kc_step_ok s (maybe_commit env s')"
  using maybe_commit_committed [of env s'] by (auto simp: kc_step_ok_def)

lemma ak_handle_event_step: "kc_step_ok s (snd (ak_handle_event env ev s))"
proof -
  obtain r ev' s1 where d: "kc_dispatch env ev s = (r, ev', s1)" by (metis prod.collapse)
  note f = kc_dispatch_frame [OF d]
  show ?thesis
  proof (cases r)
    case (Inl e)
    have "kc_step_ok s s1" "kc_step_ok s (kc_count_failed s1)" by (simp_all add: kc_step_ok_def f)
    with d Inl show ?thesis by (simp add: ak_handle_event_def kc_step_ok_commit)
  next
    case (Inr res)
    obtain q s2 where q: "send_to_dlq env (publish_dlq_event env) ev' (pr_error res) (kc_count_failed s1) = (q, s2)"
      by fastforce
    from d Inr q show ?thesis
      by (auto simp: ak_handle_event_def Let_def f send_to_dlq_frame [OF q] intro!: kc_step_ok_commit
          split: sum.splits) (simp_all add: kc_step_ok_def f send_to_dlq_frame [OF q])
  qed
qed

lemma ak_process_message_step: "kc_step_ok s (snd (ak_process_message env m s))"
proof (cases "kr_value m")
  case None
  then show ?thesis by (simp add: ak_process_message_def kc_step_ok_def)
next
  case (Some bs)
  obtain r t where d: "kc_decode env (kr_topic m) bs (kc_codec s) = (r, t)" by fastforce
  have *: "kc_step_ok s s'" if "kc_step_ok (s\<lparr>kc_codec := t\<rparr>) s'" for s'
    using that by (simp add: kc_step_ok_def)
  have "kc_step_ok s (s\<lparr>kc_codec := t\<rparr>)" "kc_step_ok s (kc_count_failed (s\<lparr>kc_codec := t\<rparr>))"
    by (simp_all add: kc_step_ok_def)
  then show ?thesis
    using Some d by (auto simp: ak_process_message_def intro: kc_step_ok_commit * ak_handle_event_step
        split: sum.splits message.splits)
qed

text \<open>A message whose event stays below the threshold never reaches the dead letter topic.\<close>

definition below_dlq :: "('c, 'h, 'w, 's, 'b) kc_env \<Rightarrow> kafka_record \<Rightarrow> bool" where
  "below_dlq env m \<longleftrightarrow> (\<forall>bs t ev t'. kr_value m = Some bs \<longrightarrow> kc_decode env (kr_topic m) bs t = (Inr (M_event ev), t') \<longrightarrow>
     event_retry_count ev + 1 < kcc_max_retries (ke_config env))"

lemma ak_handle_event_no_dlq:
  assumes "\<not> epc_retry_enabled (kcc_ep (ke_config env))"
    and "event_retry_count ev + 1 < kcc_max_retries (ke_config env)"
  shows "kc_broker (snd (ak_handle_event env ev s)) = kc_broker s \<and>
    kc_dlq_sent (snd (ak_handle_event env ev s)) = kc_dlq_sent s"
proof -
  obtain r ev' s1 where d: "kc_dispatch env ev s = (r, ev', s1)" by (metis prod.collapse)
  have "event_retry_count ev' < kcc_max_retries (ke_config env)"
    using kc_dispatch_retry_count [OF d] assms by simp
  with d show ?thesis
    by (simp add: ak_handle_event_def Let_def kc_dispatch_frame [OF d] split: sum.splits)
qed

lemma ak_process_message_no_dlq:
  assumes "\<not> epc_retry_enabled (kcc_ep (ke_config env))" and "below_dlq env m"
  shows "kc_broker (snd (ak_process_message env m s)) = kc_broker s \<and>
    kc_dlq_sent (snd (ak_process_message env m s)) = kc_dlq_sent s"
proof (cases "kr_value m")
  case None
  then show ?thesis by (simp add: ak_process_message_def)
next
  case (Some bs)
  obtain r t where d: "kc_decode env (kr_topic m) bs (kc_codec s) = (r, t)" by fastforce
  show ?thesis
  proof (cases "\<exists>ev. r = Inr (M_event ev)")
    case True
    then obtain ev where r: "r = Inr (M_event ev)" ..
    with assms(2) Some d have "event_retry_count ev + 1 < kcc_max_retries (ke_config env)"
      by (auto simp: below_dlq_def)
    from ak_handle_event_no_dlq [OF assms(1) this, of "s\<lparr>kc_codec := t\<rparr>"] Some d r show ?thesis
      by (simp add: ak_process_message_def)
  next
    case False
    with Some d show ?thesis
      by (auto simp: ak_process_message_def split: sum.splits message.splits)
  qed
qed

lemma ak_consume_no_dlq:
  assumes "\<not> epc_retry_enabled (kcc_ep (ke_config env))" and "\<forall>m \<in> set ms. below_dlq env m"
  shows "kc_broker (snd (ak_consume env ms s)) = kc_broker s \<and> kc_dlq_sent (snd (ak_consume env ms s)) = kc_dlq_sent s"
  using assms(2)
proof (induction ms arbitrary: s)
  case (Cons m ms)
  obtain r s1 where p: "ak_process_message env m (s\<lparr>kc_position := kc_position s + 1\<rparr>) = (r, s1)" by fastforce
  have "below_dlq env m" using Cons.prems by simp
  from ak_process_message_no_dlq [OF assms(1) this, of "s\<lparr>kc_position := kc_position s + 1\<rparr>"] p
  have "kc_broker s1 = kc_broker s" "kc_dlq_sent s1 = kc_dlq_sent s" by simp_all
  with Cons p show ?case by (simp split: sum.splits)
qed simp

text \<open>A message that is counted as processed is followed by a commit.\<close>

lemma ak_handle_event_processed:
  assumes "ak_handle_event env ev s = (x, s')" and "kc_processed s' \<noteq> kc_processed s"
    and "\<not> kcc_auto_commit (ke_config env)" and "\<not> ke_commit_fails env (kc_position s)"
  shows "kc_committed s' = kc_position s"
proof -
  obtain r ev' s1 where d: "kc_dispatch env ev s = (r, ev', s1)" by (metis prod.collapse)
  note f = kc_dispatch_frame [OF d]
  show ?thesis
  proof (cases "\<exists>res. r = Inr res \<and> pr_truthy res")
    case True
    with assms d f show ?thesis by (auto simp: ak_handle_event_def maybe_commit_def)
  next
    case False
    have "kc_processed s' = kc_processed s"
    proof (cases r)
      case (Inl e)
      with assms(1) d f show ?thesis by (auto simp: ak_handle_event_def split: if_splits)
    next
      case (Inr res)
      obtain q s2 where q: "send_to_dlq env (publish_dlq_event env) ev' (pr_error res) (kc_count_failed s1) = (q, s2)"
        by fastforce
      from assms(1) d f Inr q False send_to_dlq_frame(3) [OF q] show ?thesis
        by (auto simp: ak_handle_event_def Let_def split: if_splits sum.splits)
    qed
    with assms(2) show ?thesis by simp
  qed
qed

lemma ak_process_message_processed:
  assumes "ak_process_message env m s = (x, s')" and "kc_processed s' \<noteq> kc_processed s"
    and "\<not> kcc_auto_commit (ke_config env)" and "\<not> ke_commit_fails env (kc_position s)"
  shows "kc_committed s' = kc_position s"
proof (cases "kr_value m")
  case None
  with assms show ?thesis by (simp add: ak_process_message_def)
next
  case (Some bs)
  obtain r t where d: "kc_decode env (kr_topic m) bs (kc_codec s) = (r, t)" by fastforce
  show ?thesis
  proof (cases "\<exists>ev. r = Inr (M_event ev)")
    case True
    then obtain ev where r: "r = Inr (M_event ev)" ..
    with assms(1) Some d have "ak_handle_event env ev (s\<lparr>kc_codec := t\<rparr>) = (x, s')"
      by (simp add: ak_process_message_def)
    from ak_handle_event_processed [OF this] assms show ?thesis by simp
  next
    case False
    with assms(1,2) Some d show ?thesis
      by (auto simp: ak_process_message_def split: sum.splits message.splits if_splits)
  qed
qed

section \<open>Properties\<close>

text \<open>C7: A failed event is lost. With the retry policy off (the default) and commits by the service,
  an event that is below \<open>RETRY_MAX_RETRIES\<close> is counted as retried when its handler fails, but
  nothing fetches it again: the next message that succeeds commits the position behind it, and
  nothing was sent to the dead letter topic.\<close>
theorem kafka_failed_events_lost:
  assumes "\<not> epc_retry_enabled (kcc_ep (ke_config env))" and "\<not> kcc_auto_commit (ke_config env)"
    and "\<forall>m \<in> set ms. below_dlq env m" and "ak_consume env ms s = (Inr (), s1)"
    and "\<not> ke_commit_fails env (kc_position s1 + 1)"
    and "ak_process_message env m (s1\<lparr>kc_position := kc_position s1 + 1\<rparr>) = (x, s2)"
    and "kc_processed s2 \<noteq> kc_processed s1"
  shows "kc_committed s2 = kc_position s1 + 1 \<and> kc_broker s1 = kc_broker s \<and> kc_dlq_sent s1 = kc_dlq_sent s"
proof -
  have "kc_committed s2 = kc_position (s1\<lparr>kc_position := kc_position s1 + 1\<rparr>)"
    by (rule ak_process_message_processed [OF assms(6)]) (use assms in simp_all)
  with ak_consume_no_dlq [OF assms(1,3), of s] assms(4) show ?thesis by simp
qed

text \<open>The books balance: in any run of the loop, however it ends, the committed offset never passes
  the position, no more messages are counted as processed or failed than were fetched, and every
  message counted as sent to the dead letter topic was counted as failed.\<close>
theorem kafka_accounting:
  assumes "kc_committed s \<le> kc_position s"
  shows "case ak_consume env ms s of (r, s') \<Rightarrow>
    kc_committed s' \<le> kc_position s' \<and> kc_position s \<le> kc_position s' \<and> kc_position s' \<le> kc_position s + length ms \<and>
    kc_processed s \<le> kc_processed s' \<and> kc_failed s \<le> kc_failed s' \<and>
    kc_processed s' + kc_failed s' \<le> kc_processed s + kc_failed s + int (kc_position s' - kc_position s) \<and>
    kc_dlq_sent s' - kc_dlq_sent s \<le> kc_failed s' - kc_failed s"
  using assms
proof (induction ms arbitrary: s)
  case (Cons m ms)
  obtain r s1 where p: "ak_process_message env m (s\<lparr>kc_position := kc_position s + 1\<rparr>) = (r, s1)" by fastforce
  have ok: "kc_position s1 = kc_position s + 1" "kc_committed s1 \<le> kc_position s1" "kc_processed s \<le> kc_processed s1"
      "kc_failed s \<le> kc_failed s1" "kc_processed s1 + kc_failed s1 \<le> kc_processed s + kc_failed s + 1"
      "kc_dlq_sent s1 - kc_dlq_sent s \<le> kc_failed s1 - kc_failed s"
    using ak_process_message_step [of "s\<lparr>kc_position := kc_position s + 1\<rparr>" env m] p Cons.prems
    by (auto simp: kc_step_ok_def)
  show ?case
  proof (cases r)
    case (Inl e)
    with p ok show ?thesis by auto
  next
    case (Inr u)
    obtain r' s' where run: "ak_consume env ms s1 = (r', s')" by fastforce
    from Cons.IH [OF ok(2)] ok run Inr p show ?thesis by auto
  qed
qed simp

text \<open>One message that decodes to plain data (no \<open>m_serializer\<close>) stops the partition: the loop
  raises \<open>AttributeError\<close> without committing, so a restarted consumer fetches the message again and
  stops again, and the messages behind it are never handled.\<close>
theorem kafka_poison_message:
  assumes "kr_value m = Some bs" and "\<forall>t. \<exists>d t'. kc_decode env (kr_topic m) bs t = (Inr (M_data d), t')"
  shows "\<exists>s'. ak_consume env (m # ms) s = (Inl (AttributeError ''event_id''), s') \<and>
    kc_committed s' = kc_committed s \<and> kc_processed s' = kc_processed s \<and> kc_world s' = kc_world s"
proof -
  obtain d t' where "kc_decode env (kr_topic m) bs (kc_codec s) = (Inr (M_data d), t')" using assms(2) by blast
  with assms(1) show ?thesis by (simp add: ak_process_message_def)
qed

section \<open>Witnesses\<close>

text \<open>A handler that fails once; message \<open>[1]\<close> is an event, any other one an empty dict.\<close>

definition demo_kenv :: "(bool, unit, nat, unit, nat) kc_env" where
  "demo_kenv = \<lparr>ke_config = \<lparr>kcc_dlq_enabled = True, kcc_dlq_topic = ''dlq'', kcc_max_retries = 3,
       kcc_auto_commit = False, kcc_ep = ep_config_default\<rparr>,
     ke_tbl = demo_classes, ke_fresh = (\<lambda>nm. P_none), ke_base = True,
     ke_serializers = (\<lambda>n. if n = ''paid_serializer'' then Some False else None),
     ke_codecs = demo_codecs\<lparr>cd_utf8_decode := \<lambda>bs. Some (if bs = [1] then ''ok'' else ''plain''),
       cd_json_decode := \<lambda>t. if t = ''ok'' then cd_json_decode demo_codecs t else Inr (P_dict [])\<rparr>,
     ke_encoder = demo_json, ke_sr = None, ke_handlers = [(''paid'', ())], ke_hname = (\<lambda>h. ''PaidHandler''),
     ke_handle = (\<lambda>h ev w. if w = 0 then (Inl (UserError ''handler''), 1)
       else (Inr (Some \<lparr>pr_event_id = [], pr_success = Some True, pr_message = [], pr_retry_count = 0,
         pr_error = None, pr_handler_name = None\<rparr>), w)),
     ke_canc = (\<lambda>_. False), ke_intr = (\<lambda>_. None), ke_exn_str = (\<lambda>_. []), ke_now = 0,
     ke_dlq_send = None, ke_commit_fails = (\<lambda>_. False)\<rparr>"

definition demo_kstate :: "(nat, unit, nat) kc_state" where
  "demo_kstate = \<lparr>kc_position = 0, kc_committed = 0, kc_processed = 0, kc_failed = 0, kc_retried = 0,
     kc_dlq_sent = 0, kc_world = 0, kc_codec = (), kc_broker = 0\<rparr>"

lemma demo_kdecode:
  "kc_decode demo_kenv t [1] s = (Inr (M_event (Event False demo_paid)), s)"
  "kc_decode demo_kenv t [2] s = (Inr (M_data (P_dict [])), s)"
  by (simp_all add: kc_decode_def decode_msg_def demo_kenv_def demo_json_def fmt_defs demo_codecs_def
      demo_classes_def demo_base_fields_def demo_paid_def new_event_def init_value_def reconstruct_fields_def
      event_field_type_def demo_serializer_name Let_def)

lemma demo_kenv_simps:
  "kcc_dlq_enabled (ke_config demo_kenv)" "kcc_max_retries (ke_config demo_kenv) = 3"
  "\<not> kcc_auto_commit (ke_config demo_kenv)" "kcc_ep (ke_config demo_kenv) = ep_config_default"
  "ke_handlers demo_kenv = [(''paid'', ())]" "ke_hname demo_kenv h = ''PaidHandler''"
  "ke_commit_fails demo_kenv n \<longleftrightarrow> False" "ke_exn_str demo_kenv e = []"
  "ke_handle demo_kenv h ev 0 = (Inl (UserError ''handler''), 1)"
  "ke_handle demo_kenv h ev (Suc 0) = (Inr (Some \<lparr>pr_event_id = [], pr_success = Some True, pr_message = [],
     pr_retry_count = 0, pr_error = None, pr_handler_name = None\<rparr>), 1)"
  by (simp_all add: demo_kenv_def)

abbreviation demo_krecord where
  "demo_krecord bs \<equiv> \<lparr>kr_topic = ''t'', kr_value = Some bs\<rparr>"

abbreviation demo_kfailed where
  "demo_kfailed \<equiv> demo_kstate\<lparr>kc_position := 1, kc_failed := 1, kc_retried := 2, kc_world := 1\<rparr>"

lemma demo_paid_attributes:
  "event_str (Event False demo_paid) ''event_type'' = ''paid''" "event_retry_count (Event False demo_paid) = 0"
  by (simp_all add: demo_paid_def)

lemma demo_set_retry_count:
  "event_retry_count (set_retry_count n (Event False demo_paid)) = n"
  by (simp add: demo_paid_def)

lemmas demo_krun_simps = ak_process_message_def demo_kdecode ak_handle_event_def kc_dispatch_def process_event_def
  ep_run_def ep_attempt_def call_func_def pr_truthy_def ep_count_failure_def ep_failed_def reg_get_handler_def
  demo_kenv_simps demo_kstate_def demo_paid_attributes demo_set_retry_count ep_config_default_def
  kc_count_failed_def maybe_commit_def Let_def

lemma demo_krun:
  "ak_consume demo_kenv [demo_krecord [1]] demo_kstate = (Inr (), demo_kfailed)"
  "ak_process_message demo_kenv (demo_krecord [1]) (demo_kfailed\<lparr>kc_position := 2\<rparr>) =
     (Inr (), demo_kfailed\<lparr>kc_position := 2, kc_committed := 2, kc_processed := 1\<rparr>)"
  by (simp_all add: demo_krun_simps del: event_str.simps event_retry_count.simps set_retry_count.simps)

theorem kafka_failed_events_lost_witness:
  "fst (ak_consume demo_kenv [demo_krecord [1]] demo_kstate) = Inr () \<and>
   kc_committed (snd (ak_process_message demo_kenv (demo_krecord [1]) (demo_kfailed\<lparr>kc_position := 2\<rparr>))) = 2 \<and>
   kc_dlq_sent demo_kfailed = 0"
proof -
  have below: "\<forall>m \<in> set [demo_krecord [1]]. below_dlq demo_kenv m"
    by (auto simp: below_dlq_def demo_kdecode demo_kenv_simps demo_paid_attributes
        simp del: event_retry_count.simps)
  have "demo_kfailed\<lparr>kc_position := kc_position demo_kfailed + 1\<rparr> = demo_kfailed\<lparr>kc_position := 2\<rparr>" by simp
  then have run: "ak_process_message demo_kenv (demo_krecord [1]) (demo_kfailed\<lparr>kc_position := kc_position demo_kfailed + 1\<rparr>) =
      (Inr (), demo_kfailed\<lparr>kc_position := 2, kc_committed := 2, kc_processed := 1\<rparr>)"
    using demo_krun(2) by (simp only:)
  have "kc_committed (demo_kfailed\<lparr>kc_position := 2, kc_committed := 2, kc_processed := 1\<rparr>) =
      kc_position demo_kfailed + 1 \<and> kc_broker demo_kfailed = kc_broker demo_kstate \<and>
      kc_dlq_sent demo_kfailed = kc_dlq_sent demo_kstate"
    by (rule kafka_failed_events_lost [OF _ _ below demo_krun(1) _ run])
      (simp_all add: demo_kenv_simps ep_config_default_def demo_kstate_def)
  with demo_krun show ?thesis by (simp add: demo_kstate_def)
qed

theorem kafka_accounting_witness:
  "kc_committed (snd (ak_consume demo_kenv [demo_krecord [1]] demo_kstate)) \<le> 1 \<and>
   kc_processed (snd (ak_consume demo_kenv [demo_krecord [1]] demo_kstate)) +
   kc_failed (snd (ak_consume demo_kenv [demo_krecord [1]] demo_kstate)) \<le> 1"
  using kafka_accounting [where s = demo_kstate and env = demo_kenv and ms = "[demo_krecord [1]]"] demo_krun(1)
  by (simp add: demo_kstate_def)

theorem kafka_poison_message_witness:
  "fst (ak_consume demo_kenv [demo_krecord [2], demo_krecord [1]] demo_kstate) = Inl (AttributeError ''event_id'') \<and>
   kc_committed (snd (ak_consume demo_kenv [demo_krecord [2], demo_krecord [1]] demo_kstate)) = 0"
proof -
  have "\<exists>s'. ak_consume demo_kenv (demo_krecord [2] # [demo_krecord [1]]) demo_kstate = (Inl (AttributeError ''event_id''), s') \<and>
      kc_committed s' = kc_committed demo_kstate \<and> kc_processed s' = kc_processed demo_kstate \<and>
      kc_world s' = kc_world demo_kstate"
    by (rule kafka_poison_message [where bs = "[2]"]) (simp_all add: demo_kdecode)
  then show ?thesis by (auto simp: demo_kstate_def simp del: ak_consume.simps)
qed

end
