(* ===== verification/Spec2Isabelle.thy ===== *)
theory Spec2Isabelle
  imports Db_Session Kafka_Security Email_Delivery Keycloak_Directory Keycloak_Sessions Auth_Backend Iam_Signup Env_Config Service_Registry Message_Routing
    Base_Worker Rest_Client Validation Redis_Store Http_Cache Rate_Limiter Query_Builder Kaspa_Fee
    Handler_Context Log_Throttle Retry_Policy Circuit_Breaker Bulkhead Resilient_Call Saga Saga_Store
    Outbox_Store Outbox_Relay Dlq_Store Idempotency Schedule_Store Schedule_Poller Visibility
    Wire_Format Avro_Schema Schema_Registry Msg_Encoder Event_Flow Event_Processor Kafka_Consumer
begin

text \<open>
  A verification library for taas-server, a set of Python services on a shared foundation:
  the resilience layer every remote call, event, business flow and timer goes through
  (\<open>libs/foundation/src/foundation/resiliant\<close>, \<open>libs/resiliant\<close>, the tables of
  \<open>libs/db/src/db/models/resiliant\<close>), the messaging of its events (\<open>foundation/messaging\<close>,
  \<open>libs/messaging_kafka\<close>, \<open>libs/messaging_faststream\<close>), the protection and caching of its HTTP
  endpoints (\<open>libs/slowapi_advanced\<close>, \<open>foundation/http\<close>, \<open>libs/store_redis\<close>), the identity and access
  management on a Keycloak server (\<open>libs/iam\<close>, \<open>libs/iam_keycloak\<close>), and what the services rest on
  (settings, a service registry, field validation, queries, log throttling, the fees of a payment).

  \<^bold>\<open>The program's parts.\<close> Around a remote call stand the \<^emph>\<open>guards\<close>: retry policies, a circuit
  breaker (whose snapshots a fleet of processes may share through Redis), a bulkhead (a
  semaphore with a bounded queue), a timeout and a fallback, stacked by \<open>ResilientExecutor\<close>.
  Around state changes stand the \<^emph>\<open>stores\<close>: a saga runs steps and compensates them, checkpointing its
  instance in a table; an event is written to the outbox in the business transaction and a relay
  publishes it later; a message that cannot be handled goes to the dead letter queue; a consumer
  guards its handler with an idempotency key; a scheduler fires durable timers. The outbox, the
  dead letter queue and the scheduler claim rows of their tables with \<open>FOR UPDATE SKIP LOCKED\<close>.
  A health snapshot counts the rows of all tables.
  \<^emph>\<open>Messaging\<close> brings an event to its handlers: flows declare steps, and from them come the topic
  subscriptions, the registered classes and the schemas; the encoder turns an event into bytes,
  JSON or Avro in the Confluent wire format with identifiers of a schema registry; the consumer of
  a partition decodes, lets the processor route and retry, and commits. The handlers of one event
  share a context that caches what they fetch.
  An event is routed to the outbox or straight to the broker, and the processes that consume run
  in a worker with an orderly shutdown.
  \<^emph>\<open>HTTP endpoints\<close> are limited by request rate, with an in-memory limiter when the storage is
  down, and cached in a Redis store under keys built from the request. A request is authenticated by
  its header or cookies with a Keycloak server; the same server, reached through its administration
  interface, holds the users, roles, sessions and service accounts, and an account is made in it by a
  registration that ends with an event. The \<^emph>\<open>REST client\<close> calls other services.
  \<^emph>\<open>Settings\<close> come from environment variables, and services are found in a registry of singletons.

  \<^bold>\<open>Theories and sources.\<close>

  \<^item> \<open>Taas_Prelude\<close>: Python exceptions as a datatype, asynchronous code as state-and-exception
    computations \<open>('s, 'a) eff\<close>, truthiness defaults, \<open>timedelta\<close> arithmetic, shared lemmas.
  \<^item> \<open>Sql_Table\<close>: the statements of the repositories on a table as a list of rows, the order of
    ties in \<open>ORDER BY\<close> (the type \<open>sql_order\<close>), and the locale \<open>claim_queue\<close>: the interface of a
    queue claimed with SKIP LOCKED, with its transition system \<open>claim_step\<close> and the exclusiveness of
    claims proved once.
  \<^item> \<open>Retry_Policy\<close>: \<open>ExponentialBackoffRetry\<close>, \<open>LinearRetry\<close> and \<open>TenacityRetry\<close>
    (\<open>retry/*.py\<close>), with a locale of what bounds any of their runs.
  \<^item> \<open>Circuit_Breaker\<close>: \<open>circuit_breaker.py\<close> and \<open>store_redis/circuit_breaker_repository.py\<close>; its
    operations split at the awaits, a transition system of interleaved calls, and its refinement
    of an abstract three-state machine.
  \<^item> \<open>Bulkhead\<close>: \<open>bulkhead.py\<close> on a model of \<open>asyncio.Semaphore\<close>, tasks as interleaved steps.
  \<^item> \<open>Resilient_Call\<close>: \<open>timeout.py\<close>, \<open>fallback.py\<close>, \<open>resilient_call.py\<close>; the locale \<open>call_guard\<close>
    (a guard runs what it guards at most once) interpreted for timeout, bulkhead and breaker.
  \<^item> \<open>Saga\<close>, \<open>Saga_Store\<close>: \<open>saga.py\<close> against the locale \<open>saga_store\<close>, and \<open>saga_repository.py\<close>,
    which provides it.
  \<^item> \<open>Outbox_Store\<close>, \<open>Outbox_Relay\<close>: \<open>outbox.py\<close>, the repository, the service, the poller and its
    metrics under \<open>resiliant/outbox\<close>.
  \<^item> \<open>Dlq_Store\<close>: \<open>dlq.py\<close> and \<open>resiliant/dlq\<close>.
  \<^item> \<open>Idempotency\<close>: \<open>idempotency.py\<close> and \<open>resiliant/idempotency\<close>.
  \<^item> \<open>Schedule_Store\<close>, \<open>Schedule_Poller\<close>: \<open>schedule.py\<close> and \<open>resiliant/schedule\<close>.
  \<^item> \<open>Visibility\<close>: \<open>visibility.py\<close>, \<open>outbox/partition_maintenance.py\<close> and
    \<open>maintenances/resiliant_maintenance.py\<close>.
  \<^item> \<open>Wire_Format\<close>, \<open>Avro_Schema\<close>, \<open>Schema_Registry\<close>: \<open>messaging/kafka/sr\<close>: the framing of a payload,
    the schema of an event class, the registry client with its caches and the Avro encoder.
  \<^item> \<open>Msg_Encoder\<close>: the events of \<open>messaging/types.py\<close> and their JSON encoding.
  \<^item> \<open>Event_Flow\<close>: \<open>event_handler.py\<close> and \<open>flow_registration.py\<close>: the handler registry, the steps of
    a flow and what is registered from them.
  \<^item> \<open>Event_Processor\<close>: \<open>event_processor.py\<close> with its configuration: lookup, retries and results.
  \<^item> \<open>Kafka_Consumer\<close>: the loops of \<open>aiokafka_messaging.py\<close> and \<open>faststream_aiokafka_impl.py\<close> over one
    partition, as a transition system on offsets.
  \<^item> \<open>Handler_Context\<close>: \<open>handler_context.py\<close>: single-flight caching, tasks as interleaved steps.
  \<^item> \<open>Rate_Limiter\<close>: \<open>slowapi_advanced/extension.py\<close> and \<open>wrappers.py\<close>.
  \<^item> \<open>Redis_Store\<close>, \<open>Http_Cache\<close>: \<open>redis_store.py\<close> on the locale \<open>redis_server\<close>, and \<open>cache.py\<close> with
    \<open>cache_key_builer.py\<close> on the locale \<open>cache_backend\<close>, which the store provides.
  \<^item> \<open>Message_Routing\<close>: \<open>message_routing_service.py\<close>, the session of the caller apart from what is
    committed; \<open>Base_Worker\<close>: the life cycle of a worker as a step relation.
  \<^item> \<open>Keycloak_Base\<close>, \<open>Keycloak_Service\<close>, \<open>Keycloak_Sessions\<close>, \<open>Keycloak_Directory\<close>:
    \<open>kc_iam_service.py\<close> with its settings, clients, reports of errors and readers of users, on a record of
    the requests to the server; \<open>Iam_Signup\<close>: both steps of a registration, on a locale of the
    directory's laws; \<open>Auth_Backend\<close>: the authentication of a request.
  \<^item> \<open>Rest_Client\<close>: \<open>http/rest_client.py\<close>; \<open>Validation\<close>: \<open>validation\<close> of fields, passwords, e-mail
    addresses and slugs; \<open>Env_Config\<close>: \<open>utils/env_utils.py\<close>; \<open>Service_Registry\<close>:
    \<open>state/service_registry.py\<close> and the decorator of \<open>utils/singleton.py\<close> with threads as steps.
  \<^item> \<open>Db_Session\<close>: \<open>db/advanced_db_manager.py\<close>, \<open>db/analytics.py\<close> and \<open>iam_keycloak/db/kc_db.py\<close>: the session
    shared by decorated functions against the reference of one transaction, and concurrent sessions.
  \<^item> \<open>Kafka_Security\<close>: \<open>kafka_security.py\<close>, the security settings of \<open>kafka_settings.py\<close>,
    \<open>utils/ca_data_utils.py\<close>, \<open>aiokafka_security.py\<close> and \<open>fs_security.py\<close>.
  \<^item> \<open>Email_Delivery\<close>: \<open>email\<close>: the service, the backends over SMTP and HTTP on the locale \<open>mail_transport\<close>,
    and their choice.
  \<^item> \<open>Query_Builder\<close>: \<open>db/utils/query_builder.py\<close>; \<open>Log_Throttle\<close>: \<open>observability/log_throttle.py\<close>;
    \<open>Kaspa_Fee\<close>: \<open>block_kaspa/transaction/simple_fee_estimator.py\<close>.
  \<^item> this theory: a guarded consumer behind the outbox relay, and the properties that span
    components.

  A Python class that is only configuration or a row is a record with the same fields; a
  repository method is a function on the table, a service method a computation on a record of
  its state; a raised exception is \<open>Inl\<close> of a \<open>py_exn\<close>. Every definition that computes is
  executable.

  \<^bold>\<open>What the lemmas show.\<close> For the guards: which attempts and delays a policy makes, the breaker's
  machine and its bounds under any interleaving, no lost wakeup and no leaked slot in the
  bulkhead, and that a composed call runs its handler at most once. For the stores: each
  repository operation on every branch, claims that exclude each other in every interleaving,
  round trips, the stored saga being the final one, at-least-once delivery by
  the relay, at-most-once processing by the guard, the cadence of recurring jobs. For messaging:
  the encoders and the wire format are inverse to their decoders, a generated schema admits the
  values of its class, one event type keeps one schema, flows register every class they name, and
  what the offsets of a partition promise. For the endpoints: the limiter never fails because its
  storage does, and a cache is transparent when its keys determine the values. For identity: when a
  request is authenticated, that a password changes only after the current one was accepted, what
  a registration does to the directory, and what the operations answer when the server fails. A setting
  has the type it was declared with, and a singleton is made once. Decorated functions that call each
  other are one transaction, and a bundle of certificates survives the shapes it is carried in. Several theorems
  state a defect of the code exactly: the insert of the idempotency guard names a column its
  table lacks, so the guard never records anything; the relay never counts a failure, so nothing
  is ever dead-lettered and the health flag cannot see it; a job cancelled while it runs is
  scheduled again; a failed event below the retry threshold is committed over; the default cache
  key confuses callers; an endpoint exempt from limiting raises after it ran; a registration deletes
  the accounts of its address; a user with a field the service does not know is not found; tokens
  are granted and lost; an unreachable server makes operations raise that should answer; a cancelled call
  commits what its tasks wrote; a connection configured with the protocol SSL is plain text; a
  templated e-mail is never sent by SMTP.

  \<^bold>\<open>Parameters, bounds and idealisations.\<close> Clocks, random draws, generated ids, the broker, handlers and
  callbacks, \<open>croniter\<close>, the limiting strategy, the texts of exceptions, the database's choice among
  ties and the resolution of Python annotations are parameters. Loops recurse on the attempts left,
  on their list or on a measure, and worker loops are modelled by one turn, composed in transition
  systems; only the schema of a class needs fuel, and \<open>avro_schema_exists\<close> bounds it by the number of
  classes. A \<open>float\<close> is a rational without rounding (overflow of \<open>**\<close> is modelled where the code can
  reach it); a \<open>datetime\<close> is a count of microseconds without the limits of its type; the words of
  the wire format are 32 bits wide. A statement of a repository is atomic, and a claim is two
  statements between which others run.

  \<^bold>\<open>Not modelled.\<close> The brokers, the databases, Redis and Keycloak themselves, whose documented behaviour is
  a parameter or the assumptions of a locale; task creation, signals and wake events of the pollers; factories
  that only build clients, logging and tracing; the framework glue of the HTTP adapters; the fast event
  processor, whose module imports a name that does not exist and cannot be loaded; the query of
  \<open>count_users_by_email\<close> and the database of Keycloak it reads; the templates of e-mails, their output on
  a console (its class cannot be instantiated) and the HTTP transports below them; the validation of
  URLs; and the CRUD modules of the business, whose controllers and repositories only call the ORM and
  have no rules of their own.
\<close>

section \<open>An idempotent consumer\<close>

text \<open>
  A consumer that receives every message the broker delivers, duplicates included, and guards
  its handler with \<open>IdempotencyService.guard\<close> as the documentation of the guard shows. A
  delivery is the event id with the id and the time of the row the guard would insert; the world
  of the handler is the list of the events it has processed.
\<close>

definition consumer_call :: "string \<Rightarrow> string \<Rightarrow> guard_call" where
  "consumer_call h ev = \<lparr>gc_event_id = ev, gc_handler_name = h, gc_event_type = [],
     gc_correlation_id = None, gc_tenant_id = None, gc_saga_id = None, gc_raise_on_duplicate = False\<rparr>"

definition consumer_body :: "string \<Rightarrow> bool \<Rightarrow> (string list idem_sys, unit) eff" where
  "consumer_body ev fresh = (if fresh then eff_modify (\<lambda>s. s\<lparr>sys_world := sys_world s @ [ev]\<rparr>)
     else eff_return ())"

fun consume ::
  "idem_config \<Rightarrow> string list \<Rightarrow> string \<Rightarrow> (string \<times> string \<times> int) list \<Rightarrow>
   string list idem_sys \<Rightarrow> string list idem_sys" where
  "consume c schema h [] s = s"
| "consume c schema h ((ev, new_id, now) # ds) s =
     consume c schema h ds
       (snd (idem_guard c schema new_id now (consumer_call h ev) (consumer_body ev) s))"

definition keys_match :: "idem_config \<Rightarrow> string \<Rightarrow> string list idem_sys \<Rightarrow> bool" where
  "keys_match c h s \<longleftrightarrow> distinct (sys_world s) \<and>
     (\<forall>ev. idem_is_processed (build_key c ev h) (sys_table s) \<longleftrightarrow> ev \<in> set (sys_world s))"

text \<open>The ids and the handler name fit the columns.\<close>

definition delivery_fits :: "idem_config \<Rightarrow> string \<Rightarrow> string \<Rightarrow> bool" where
  "delivery_fits c h ev \<longleftrightarrow> length ev \<le> 255 \<and> length h \<le> 255 \<and> length (build_key c ev h) \<le> 512"

lemma build_key_same_handler [simp]: "build_key c ev h = build_key c ev' h \<longleftrightarrow> ev = ev'"
  by (simp add: build_key_def)

lemma consumer_call_simps [simp]:
  "gc_event_id (consumer_call h ev) = ev" "gc_handler_name (consumer_call h ev) = h"
  "gc_raise_on_duplicate (consumer_call h ev) = False"
  by (simp_all add: consumer_call_def)

lemma consume_one:
  assumes "keys_match c h s" and "schema_ok schema" and "delivery_fits c h ev"
  obtains s' where "snd (idem_guard c schema i now (consumer_call h ev) (consumer_body ev) s) = s'"
    and "keys_match c h s'" and "set (sys_world s') = insert ev (set (sys_world s))"
proof (cases "ev \<in> set (sys_world s)")
  case True
  then have dup: "idem_is_processed (guard_key_of c (consumer_call h ev)) (sys_table s)"
    using assms(1) by (simp add: keys_match_def)
  let ?s = "snd (idem_guard c schema i now (consumer_call h ev) (consumer_body ev) s)"
  have "sys_table ?s = sys_table s" "sys_world ?s = sys_world s"
    by (simp_all add: guard_duplicate [OF dup] Let_def consumer_body_def eff_defs)
  with True assms(1) show ?thesis by (intro that [OF refl]) (auto simp: keys_match_def)
next
  case False
  then have fresh: "\<not> idem_is_processed (guard_key_of c (consumer_call h ev)) (sys_table s)"
    using assms(1) by (simp add: keys_match_def)
  let ?s1 = "snd (consumer_body ev True (tallied c im_record_check s))"
  let ?row = "mark_row i now (guard_request c (consumer_call h ev))"
  have b: "consumer_body ev True (tallied c im_record_check s) = (Inr (), ?s1)"
    and w: "sys_world ?s1 = sys_world s @ [ev]" and t: "sys_table ?s1 = sys_table s"
    by (simp_all add: consumer_body_def eff_defs)
  have "mark_fits (guard_request c (consumer_call h ev))"
    using assms(3) by (simp add: mark_fits_def guard_request_def delivery_fits_def consumer_call_def)
  then have mk: "idem_mark_processed schema i now (guard_request c (consumer_call h ev)) (sys_table ?s1) =
      (Inr True, sys_table s @ [?row])"
    using assms(2) fresh by (simp add: idem_mark_processed_def t)
  let ?s = "snd (idem_guard c schema i now (consumer_call h ev) (consumer_body ev) s)"
  have "sys_world ?s = sys_world s @ [ev]" "sys_table ?s = sys_table s @ [?row]"
    using guard_body_ok [where body = "consumer_body ev", OF fresh b mk] by (simp_all add: Let_def w)
  then show ?thesis
    using False assms(1) by (intro that [OF refl]) (auto simp: keys_match_def)
qed

lemma consume_all:
  assumes "keys_match c h s" and "schema_ok schema" and "\<forall>(ev, i, now) \<in> set ds. delivery_fits c h ev"
  shows "keys_match c h (consume c schema h ds s) \<and>
    set (sys_world (consume c schema h ds s)) = set (sys_world s) \<union> fst ` set ds"
  using assms(1,3)
proof (induction ds arbitrary: s)
  case Nil
  then show ?case by simp
next
  case (Cons d ds)
  obtain ev i now where d: "d = (ev, i, now)" by (rule prod_cases3)
  have "delivery_fits c h ev" using Cons.prems(2) by (simp add: d)
  then obtain s' where "snd (idem_guard c schema i now (consumer_call h ev) (consumer_body ev) s) = s'"
    "keys_match c h s'" "set (sys_world s') = insert ev (set (sys_world s))"
    by (rule consume_one [OF Cons.prems(1) assms(2)])
  with Cons.IH [of s'] Cons.prems(2) show ?case by (simp add: d)
qed

lemma consume_source_schema:
  assumes "sys_table s = []"
  shows "sys_table (consume c processed_event_columns h ds s) = [] \<and>
    sys_world (consume c processed_event_columns h ds s) = sys_world s @ map fst ds"
  using assms
proof (induction ds arbitrary: s)
  case Nil
  then show ?case by simp
next
  case (Cons d ds)
  obtain ev i now where d: "d = (ev, i, now)" by (rule prod_cases3)
  let ?s1 = "snd (consumer_body ev True (tallied c im_record_check s))"
  have b: "consumer_body ev True (tallied c im_record_check s) = (Inr (), ?s1)"
    and w: "sys_world ?s1 = sys_world s @ [ev]" "sys_table ?s1 = []"
    using Cons.prems by (simp_all add: consumer_body_def eff_defs)
  have "\<not> idem_is_processed (build_key c (gc_event_id (consumer_call h ev)) (gc_handler_name (consumer_call h ev)))
      (sys_table s)"
    using Cons.prems by (simp add: idem_is_processed_def)
  from guard_never_records [where body = "consumer_body ev", OF this b] Cons.IH [OF w(2)] w
  show ?case by (simp add: d)
qed

section \<open>Properties across components\<close>

definition fresh_consumer :: "string list idem_sys" where
  "fresh_consumer = \<lparr>sys_table = [], sys_metrics = idem_metrics_new 0, sys_world = []\<rparr>"

text \<open>A relay that has saved one event, and the same after a poll that publishes it.\<close>

definition demo_event :: base_event where
  "demo_event = \<lparr>ev_event_id = ''e'', ev_event_type = None, ev_class = ''Paid'', ev_payload = Map.empty,
     ev_source = None, ev_correlation_id = None, ev_user_id = None\<rparr>"

definition demo_row :: outbox_row where
  "demo_row = fst (outbox_save_event outbox_config_default ''a'' 1 demo_event ''orders'' None None None [])"

definition demo_relay :: "outbox_row list relay" where
  "demo_relay = (relay_init outbox_config_default [] [])\<lparr>rl_rows := [demo_row]\<rparr>"

lemma demo_row_simps [simp]:
  "ob_id demo_row = ''a''" "ob_event_id demo_row = ''e''" "ob_status demo_row = OB_PENDING"
  "outbox_eligible 2 demo_row"
  by (simp_all add: demo_row_def outbox_save_event_def demo_event_def Let_def outbox_eligible_def
      outbox_config_default_def timedelta_days_def usec_def)

lemma demo_relay_1:
  "relay_reach outbox_config_default demo_relay" "map ob_status (rl_rows demo_relay) = [OB_PENDING]"
proof -
  have "outbox_save_event outbox_config_default ''a'' 1 demo_event ''orders'' None None None [] =
      (demo_row, [demo_row])"
    by (simp add: demo_row_def outbox_save_event_def outbox_save_def Let_def)
  then show "relay_reach outbox_config_default demo_relay"
    unfolding demo_relay_def
    by (intro relay_next [OF relay_start] relay_produce [where r = demo_row and new_id = "''a''"])
      (simp_all add: relay_init_def)
  show "map ob_status (rl_rows demo_relay) = [OB_PENDING]" by (simp add: demo_relay_def)
qed

lemma demo_relay_2:
  obtains s where "relay_reach outbox_config_default s" and "map ob_status (rl_rows s) = [OB_PUBLISHED]"
    and "ob_event_id ` set (rl_rows s) = {''e''}" and "ob_event_id ` set (rl_broker s) = {''e''}"
proof -
  let ?c = outbox_config_default and ?acc = "\<lambda>_. None" and ?dbf = "\<lambda>_. None"
  have ord: "ordinary ?acc ?dbf" by (simp add: ordinary_def)
  have f: "outbox_fetch_pending_batch stable_order ?c (Some (oc_batch_size ?c)) 2 {} (rl_rows demo_relay) =
      (Inr [outbox_mark_processing 2 demo_row], [outbox_mark_processing 2 demo_row])"
    by (simp add: outbox_fetch_pending_batch_def outbox_select_def sql_limit_def sql_where_def demo_relay_def
        outbox_claim_def sql_update_def ids_of_def outbox_config_default_def)
  obtain x s where w: "relay_worker_turn stable_order ?c (logged_broker ?acc) ?dbf 0 2 {} 0 demo_relay = (x, s)"
    by (rule prod.exhaust)
  obtain s1 where p: "relay_poll_and_publish stable_order ?c (logged_broker ?acc) ?dbf 0 2 {} demo_relay = (Inr 1, s1)"
    and b: "rl_broker s1 = [outbox_mark_processing 2 demo_row]"
    and r: "rl_rows s1 = [published_row 2 (outbox_mark_processing 2 demo_row)]"
    using relay_poll_effect_aux [OF ord f, of 0]
    by (auto simp: relay_published_def sql_update_def demo_relay_def relay_init_def)
  have "rl_rows s = rl_rows s1 \<and> rl_broker s = rl_broker s1"
    using w p by (auto simp: relay_worker_turn_def Let_def split: if_splits prod.splits)
  moreover have "relay_reach ?c s"
    by (rule relay_next [OF demo_relay_1(1)], rule relay_work [OF ord w])
  ultimately show ?thesis
    using b r by (intro that [of s]) (simp_all add: published_row_def outbox_mark_processing_def)
qed



text \<open>With the \<open>processed_events\<close> table as it is declared, the guard deduplicates nothing: from an
  empty table a consumer processes every delivery, every redelivery included, and the table stays
  empty.\<close>
theorem guarded_consumer_reprocesses_duplicates:
  "sys_world (consume c processed_event_columns h ds fresh_consumer) = map fst ds \<and>
   sys_table (consume c processed_event_columns h ds fresh_consumer) = []"
  using consume_source_schema [of fresh_consumer] by (simp add: fresh_consumer_def)

text \<open>The health flag does not see the outbox: in every state the relay reaches, however many publishes
  have failed and however long events have been waiting, the snapshot is healthy exactly when
  the other three tables are, that is when no dead letter is pending and no saga and no job has
  failed; the outbox count it looks at is always 0.\<close>
theorem vis_healthy_ignores_relay_failures:
  assumes "relay_reach c s"
  shows "(vs_healthy (vis_take_snapshot (rl_rows s) dt st jt) \<longleftrightarrow>
      (\<forall>r \<in> set dt. dl_status r \<noteq> DLQ_PENDING) \<and> (\<forall>r \<in> set st. sr_status r \<noteq> SAGA_FAILED) \<and>
      (\<forall>r \<in> set jt. sj_status r \<noteq> JS_FAILED)) \<and>
    vis_get (vs_outbox (vis_take_snapshot (rl_rows s) dt st jt)) OB_DEAD_LETTER = 0"
proof -
  have "\<forall>r \<in> set (rl_rows s). ob_status r \<noteq> OB_DEAD_LETTER"
    using relay_inv_reach [OF assms] by (auto simp: relay_inv_def relay_row_ok_def)
  moreover from this have "vis_get (vs_outbox (vis_take_snapshot (rl_rows s) dt st jt)) OB_DEAD_LETTER = 0"
    by (simp add: vis_take_snapshot_def Let_def outbox_statuses_def sql_count_0)
  ultimately show ?thesis by (simp add: vis_healthy_iff)
qed

lemma vis_healthy_ignores_relay_failures_witness:
  "\<exists>s. relay_reach outbox_config_default s \<and> map ob_status (rl_rows s) = [OB_PENDING] \<and>
     vs_healthy (vis_take_snapshot (rl_rows s) [] [] [])"
  using demo_relay_1 vis_healthy_ignores_relay_failures [OF demo_relay_1(1), of "[]" "[]" "[]"]
  by (intro exI [of _ demo_relay]) simp

end
